(* ===== verification/Prelude.thy ===== *)
theory Prelude
  imports Main "HOL-Library.Word"
begin

text \<open>
  The prelude of the development: the integer types of the C code, the conversions between
  them, the few functions of the C library the code relies on (\<open>isspace\<close>, \<open>tolower\<close>,
  \<open>strcasecmp\<close>, \<open>strtol\<close>, \<open>atoi\<close>, the byte order functions), and the generic lemmas and
  \<open>named_theorems\<close> collections the component theories share.

  A C \<open>int\<close>, \<open>long\<close> or \<open>int64_t\<close> is a HOL \<open>int\<close> where the code only moves, compares or
  prints it; every place where the code narrows one is an explicit \<open>to_int32\<close> or \<open>to_int64\<close>.
  Unsigned types with arithmetic on them (\<open>uint32_t\<close>, \<open>uint64_t\<close>, \<open>iperf_size_t\<close>) are words.
  A C string is a HOL \<open>string\<close> without its terminating NUL.
\<close>

unbundle bit_operations_syntax

section \<open>Collections\<close>

named_theorems frame_simps \<open>fields an operation leaves alone\<close>
named_theorems wf_intros \<open>operations keep the well-formedness predicates\<close>
named_theorems c_simps \<open>evaluation of the C library functions on constants\<close>

section \<open>Integer types\<close>

type_synonym u8 = "8 word"
type_synonym u16 = "16 word"
type_synonym u32 = "32 word"
type_synonym u64 = "64 word"

text \<open>The value of an integer after a conversion to a signed 32-bit or 64-bit type.\<close>

definition to_int32 :: "int \<Rightarrow> int" where
  "to_int32 v = signed_take_bit 31 v"

definition to_int64 :: "int \<Rightarrow> int" where
  "to_int64 v = signed_take_bit 63 v"

lemma to_int32_id: "- (2 ^ 31) \<le> v \<Longrightarrow> v < 2 ^ 31 \<Longrightarrow> to_int32 v = v"
  by (simp add: to_int32_def signed_take_bit_int_eq_self)

lemma to_int64_id: "- (2 ^ 63) \<le> v \<Longrightarrow> v < 2 ^ 63 \<Longrightarrow> to_int64 v = v"
  by (simp add: to_int64_def signed_take_bit_int_eq_self)

lemma to_int32_range: "- (2 ^ 31) \<le> to_int32 v \<and> to_int32 v < 2 ^ 31"
  using signed_take_bit_int_greater_eq_minus_exp[of 31 v] signed_take_bit_int_less_exp[of 31 v]
  by (simp add: to_int32_def)

text \<open>C's truth value of an integer.\<close>

definition c_true :: "int \<Rightarrow> bool" where
  "c_true v \<longleftrightarrow> v \<noteq> 0"

lemma c_true_simps [simp]: "c_true 0 = False" "c_true 1 = True"
  by (simp_all add: c_true_def)

text \<open>Taking a sequence of partial steps apart.\<close>

lemma bindE: "Option.bind m f = Some y \<Longrightarrow> (\<And>x. m = Some x \<Longrightarrow> f x = Some y \<Longrightarrow> P) \<Longrightarrow> P"
  by (cases m) simp_all

section \<open>Characters and strings\<close>

definition ascii :: "char \<Rightarrow> nat" where
  "ascii c = of_char c"

definition c_isspace :: "char \<Rightarrow> bool" where
  "c_isspace c \<longleftrightarrow> ascii c = 32 \<or> (9 \<le> ascii c \<and> ascii c \<le> 13)"

definition c_isdigit :: "char \<Rightarrow> bool" where
  "c_isdigit c \<longleftrightarrow> 48 \<le> ascii c \<and> ascii c \<le> 57"

definition c_isupper :: "char \<Rightarrow> bool" where
  "c_isupper c \<longleftrightarrow> 65 \<le> ascii c \<and> ascii c \<le> 90"

definition c_islower :: "char \<Rightarrow> bool" where
  "c_islower c \<longleftrightarrow> 97 \<le> ascii c \<and> ascii c \<le> 122"

definition c_tolower :: "char \<Rightarrow> char" where
  "c_tolower c = (if c_isupper c then char_of (ascii c + 32) else c)"

definition c_toupper :: "char \<Rightarrow> char" where
  "c_toupper c = (if c_islower c then char_of (ascii c - 32) else c)"

definition strcaseeq :: "string \<Rightarrow> string \<Rightarrow> bool" where
  "strcaseeq s t \<longleftrightarrow> map c_tolower s = map c_tolower t"

lemma strcaseeq_refl [simp]: "strcaseeq s s"
  by (simp add: strcaseeq_def)

lemma strcaseeq_sym: "strcaseeq s t \<Longrightarrow> strcaseeq t s"
  by (simp add: strcaseeq_def)

lemma strcaseeq_trans: "strcaseeq s t \<Longrightarrow> strcaseeq t u \<Longrightarrow> strcaseeq s u"
  by (simp add: strcaseeq_def)

section \<open>strtol and atoi\<close>

definition digit_val :: "char \<Rightarrow> nat option" where
  "digit_val c =
     (if c_isdigit c then Some (ascii c - 48)
      else if c_isupper c then Some (ascii c - 55)
      else if c_islower c then Some (ascii c - 87)
      else None)"

definition is_digit_of :: "nat \<Rightarrow> char \<Rightarrow> bool" where
  "is_digit_of base c = (case digit_val c of None \<Rightarrow> False | Some d \<Rightarrow> d < base)"

fun digits_value :: "nat \<Rightarrow> nat \<Rightarrow> string \<Rightarrow> nat" where
  "digits_value base acc [] = acc"
| "digits_value base acc (c # cs) =
     digits_value base (acc * base + (case digit_val c of None \<Rightarrow> 0 | Some d \<Rightarrow> d)) cs"

text \<open>The optional sign of a number, and the string after it.\<close>

fun take_sign :: "string \<Rightarrow> bool \<times> string" where
  "take_sign [] = (False, [])"
| "take_sign (c # cs) =
     (if c = CHR ''-'' then (True, cs) else if c = CHR ''+'' then (False, cs)
      else (False, c # cs))"

text \<open>
  The base and the digits left once base 0 and the prefix \<open>0x\<close> are resolved. As in the C
  library, the prefix counts only when a hexadecimal digit follows it.
\<close>

fun strtol_base :: "nat \<Rightarrow> string \<Rightarrow> nat \<times> string" where
  "strtol_base base cs =
     (case cs of
        c0 # x # h # rest \<Rightarrow>
          if (base = 0 \<or> base = 16) \<and> c0 = CHR ''0'' \<and> (x = CHR ''x'' \<or> x = CHR ''X'')
             \<and> is_digit_of 16 h
          then (16, h # rest)
          else (if base = 0 then (if c0 = CHR ''0'' then 8 else 10) else base, cs)
      | c0 # _ \<Rightarrow> (if base = 0 then (if c0 = CHR ''0'' then 8 else 10) else base, cs)
      | [] \<Rightarrow> (if base = 0 then 10 else base, cs))"

definition clamp64 :: "int \<Rightarrow> int" where
  "clamp64 v = (if v > 2 ^ 63 - 1 then 2 ^ 63 - 1 else if v < - (2 ^ 63) then - (2 ^ 63) else v)"

text \<open>
  \<open>strtol s base\<close>: the value, saturated to the range of a 64-bit \<open>long\<close>, and the rest of the
  string (\<open>*endptr\<close>), which is the whole string when nothing was converted.
\<close>

definition strtol :: "string \<Rightarrow> nat \<Rightarrow> int \<times> string" where
  "strtol s base =
     (let (neg, s1) = take_sign (dropWhile c_isspace s);
          (b, s2) = strtol_base base s1;
          ds = takeWhile (is_digit_of b) s2
      in if ds = [] then (0, s)
         else (clamp64 ((if neg then - 1 else 1) * int (digits_value b 0 ds)),
               dropWhile (is_digit_of b) s2))"

text \<open>\<open>atoi\<close> of the platform's C library: \<open>strtol\<close> in base 10, narrowed to \<open>int\<close>.\<close>

definition atoi :: "string \<Rightarrow> int" where
  "atoi s = to_int32 (fst (strtol s 10))"

lemma atoi_range: "- (2 ^ 31) \<le> atoi s \<and> atoi s < 2 ^ 31"
  unfolding atoi_def by (rule to_int32_range)

lemma clamp64_range: "- (2 ^ 63) \<le> clamp64 v \<and> clamp64 v < 2 ^ 63"
  by (simp add: clamp64_def)

text \<open>\<open>strchr s c\<close>: the string before the first \<open>c\<close> and the string after it.\<close>

definition split_at :: "char \<Rightarrow> string \<Rightarrow> (string \<times> string) option" where
  "split_at c s =
     (if c \<in> set s then Some (takeWhile (\<lambda>x. x \<noteq> c) s, tl (dropWhile (\<lambda>x. x \<noteq> c) s))
      else None)"

lemma split_at_join:
  assumes "split_at c s = Some (a, b)"
  shows "s = a @ c # b \<and> c \<notin> set a"
proof -
  from assms have "c \<in> set s" by (simp add: split_at_def split: if_splits)
  then obtain xs ys where s: "s = xs @ c # ys" and xs: "c \<notin> set xs"
    by (meson split_list_first)
  have "takeWhile (\<lambda>x. x \<noteq> c) s = xs" and "dropWhile (\<lambda>x. x \<noteq> c) s = c # ys"
    using xs unfolding s by (induction xs) auto
  with assms s xs show ?thesis by (simp add: split_at_def split: if_splits)
qed

section \<open>Byte order\<close>

text \<open>
  \<open>htonl\<close> followed by a \<open>memcpy\<close> to a buffer puts the most significant byte first;
  \<open>htobe64\<close> does the same with eight bytes.
\<close>

definition be32 :: "u32 \<Rightarrow> u8 list" where
  "be32 w = [ucast (drop_bit 24 w), ucast (drop_bit 16 w), ucast (drop_bit 8 w), ucast w]"

definition be64 :: "u64 \<Rightarrow> u8 list" where
  "be64 w = be32 (ucast (drop_bit 32 w)) @ be32 (ucast w)"

fun of_be :: "u8 list \<Rightarrow> nat \<Rightarrow> nat" where
  "of_be [] acc = acc"
| "of_be (b # bs) acc = of_be bs (acc * 256 + unat b)"

definition of_be32 :: "u8 list \<Rightarrow> u32" where
  "of_be32 bs = of_nat (of_be (take 4 bs) 0)"

definition of_be64 :: "u8 list \<Rightarrow> u64" where
  "of_be64 bs = of_nat (of_be (take 8 bs) 0)"

lemma length_be32 [simp]: "length (be32 w) = 4"
  by (simp add: be32_def)

lemma length_be64 [simp]: "length (be64 w) = 8"
  by (simp add: be64_def)

lemma unat_drop_bit_div: "unat (drop_bit k w) = unat w div 2 ^ k" for w :: "'a::len word"
  by (simp add: unat_drop_bit_eq drop_bit_eq_div [where 'a = nat])

lemma unat_byte: "unat (ucast (drop_bit k (w :: 'a::len word)) :: u8) = unat w div 2 ^ k mod 256"
  by (simp add: unsigned_ucast_eq unat_drop_bit_div take_bit_eq_mod)

lemma unat_byte0: "unat (ucast (w :: 'a::len word) :: u8) = unat w mod 256"
  using unat_byte[of 0 w] by simp

lemma nat_bytes4: "((n div 16777216 mod 256 * 256 + n div 65536 mod 256) * 256
    + n div 256 mod 256) * 256 + n mod 256 = n mod 4294967296" for n :: nat
proof -
  have "n mod 4294967296 = 16777216 * (n div 16777216 mod 256) + n mod 16777216"
    using mod_mult2_eq[of n 16777216 256] by simp
  moreover have "n mod 16777216 = 65536 * (n div 65536 mod 256) + n mod 65536"
    using mod_mult2_eq[of n 65536 256] by simp
  moreover have "n mod 65536 = 256 * (n div 256 mod 256) + n mod 256"
    using mod_mult2_eq[of n 256 256] by simp
  ultimately show ?thesis by (simp add: algebra_simps)
qed

lemma of_be_be32: "of_be (be32 w @ bs) acc = of_be bs (acc * 4294967296 + unat w)"
proof -
  have "unat w < 4294967296" using unsigned_less[of w] by simp
  then have eq: "acc * 4294967296 + unat w = ((((acc * 256 + unat w div 16777216 mod 256) * 256
      + unat w div 65536 mod 256) * 256 + unat w div 256 mod 256) * 256 + unat w mod 256)"
    using nat_bytes4[of "unat w"] by (simp add: algebra_simps)
  have b: "unat (ucast w :: u8) = unat w mod 256"
    "unat (ucast (drop_bit 8 w) :: u8) = unat w div 256 mod 256"
    "unat (ucast (drop_bit 16 w) :: u8) = unat w div 65536 mod 256"
    "unat (ucast (drop_bit 24 w) :: u8) = unat w div 16777216 mod 256"
    using unat_byte[of 8 w] unat_byte[of 16 w] unat_byte[of 24 w] unat_byte0[of w] by simp_all
  show ?thesis
    by (simp only: be32_def append.simps of_be.simps eq b)
qed

lemma of_be32_be32 [simp]: "of_be32 (be32 w @ bs) = w"
  using of_be_be32[of w "[]" 0] by (simp add: of_be32_def)

lemma of_be32_be32' [simp]: "of_be32 (be32 w) = w"
  using of_be32_be32[of w "[]"] by simp

lemma split64: "4294967296 * unat (ucast (drop_bit 32 w) :: u32) + unat (ucast w :: u32) = unat w"
  for w :: u64
proof -
  have "unat w < 18446744073709551616" using unsigned_less[of w] by simp
  then have "unat w div 4294967296 mod 4294967296 = unat w div 4294967296" by simp
  then show ?thesis
    by (simp add: unsigned_ucast_eq unat_drop_bit_div take_bit_eq_mod)
qed

lemma of_be64_be64 [simp]: "of_be64 (be64 w @ bs) = w"
proof -
  have "of_be (be64 w) 0 = unat w"
    using split64[of w] of_be_be32[of _ "[]"]
    by (simp add: be64_def of_be_be32 algebra_simps)
  then show ?thesis by (simp add: of_be64_def)
qed

lemma of_be64_be64' [simp]: "of_be64 (be64 w) = w"
  using of_be64_be64[of w "[]"] by simp

section \<open>Printing integers\<close>

definition digit_char :: "nat \<Rightarrow> char" where
  "digit_char d = (if d < 10 then char_of (48 + d) else char_of (87 + d))"

text \<open>\<open>"%u"\<close> and \<open>"%d"\<close>, and \<open>"%x"\<close> with base 16.\<close>

fun print_base :: "nat \<Rightarrow> nat \<Rightarrow> string" where
  "print_base b n =
     (if b < 2 \<or> n < b then [digit_char n] else print_base b (n div b) @ [digit_char (n mod b)])"

declare print_base.simps [simp del]

definition dec_of_nat :: "nat \<Rightarrow> string" where
  "dec_of_nat n = print_base 10 n"

definition dec_of_int :: "int \<Rightarrow> string" where
  "dec_of_int i = (if i < 0 then CHR ''-'' # dec_of_nat (nat (- i)) else dec_of_nat (nat i))"

definition pad_left :: "char \<Rightarrow> nat \<Rightarrow> string \<Rightarrow> string" where
  "pad_left c w s = replicate (w - length s) c @ s"

lemma digit_char_simps [simp]:
  "digit_char 0 = CHR ''0''" "digit_char 1 = CHR ''1''" "digit_char (Suc 0) = CHR ''1''"
  "digit_char 2 = CHR ''2''" "digit_char 3 = CHR ''3''" "digit_char 4 = CHR ''4''"
  "digit_char 5 = CHR ''5''" "digit_char 6 = CHR ''6''" "digit_char 7 = CHR ''7''"
  "digit_char 8 = CHR ''8''" "digit_char 9 = CHR ''9''"
  by code_simp+

lemma of_char_digit: "d < 10 \<Longrightarrow> ascii (digit_char d) = 48 + d"
  by (simp add: digit_char_def ascii_def)

lemma digit_char_digit: "d < 10 \<Longrightarrow> c_isdigit (digit_char d) \<and> digit_val (digit_char d) = Some d"
  by (simp add: c_isdigit_def digit_val_def of_char_digit)

lemma digits_value_append:
  "digits_value b acc (xs @ ys) = digits_value b (digits_value b acc xs) ys"
  by (induction b acc xs rule: digits_value.induct) auto

lemma digits_value_acc: "digits_value b acc xs = acc * b ^ length xs + digits_value b 0 xs"
proof (induction xs arbitrary: acc)
  case (Cons x xs)
  let ?d = "case digit_val x of None \<Rightarrow> 0 | Some d \<Rightarrow> d"
  show ?case using Cons[of "acc * b + ?d"] Cons[of ?d] by (simp add: algebra_simps)
qed simp

lemma dec_of_nat_digits: "\<forall>c\<in>set (dec_of_nat n). c_isdigit c"
  unfolding dec_of_nat_def
proof (induction n rule: less_induct)
  case (less n)
  from less[of "n div 10"] have "\<not> n < 10 \<Longrightarrow> \<forall>c\<in>set (print_base 10 (n div 10)). c_isdigit c"
    by simp
  then show ?case
    by (subst print_base.simps) (auto simp: digit_char_digit)
qed

lemma dec_of_nat_value: "digits_value 10 0 (dec_of_nat n) = n"
  unfolding dec_of_nat_def
proof (induction n rule: less_induct)
  case (less n)
  show ?case
  proof (cases "n < 10")
    case True
    then show ?thesis by (subst print_base.simps) (simp add: digit_char_digit)
  next
    case False
    with less[of "n div 10"] show ?thesis
      by (subst print_base.simps) (simp add: digits_value_append digit_char_digit)
  qed
qed

lemma dec_of_nat_nonempty [simp]: "dec_of_nat n \<noteq> []"
  unfolding dec_of_nat_def by (subst print_base.simps) simp

lemma isdigit_not_space: "c_isdigit c \<Longrightarrow> \<not> c_isspace c"
  by (auto simp: c_isdigit_def c_isspace_def)

lemma isdigit_not_sign: "c_isdigit c \<Longrightarrow> c \<noteq> CHR ''-'' \<and> c \<noteq> CHR ''+'' \<and> c \<noteq> CHR ''.''"
  by (auto simp: c_isdigit_def ascii_def)

lemma is_digit_of_10: "is_digit_of 10 c \<longleftrightarrow> c_isdigit c"
  by (auto simp: is_digit_of_def digit_val_def c_isdigit_def c_isupper_def c_islower_def)

lemma dropWhile_space_digits:
  "\<forall>c\<in>set ds. c_isdigit c \<Longrightarrow> ds \<noteq> [] \<Longrightarrow> dropWhile c_isspace (ds @ r) = ds @ r"
  by (cases ds) (auto simp: isdigit_not_space)

lemma take_sign_digits:
  "\<forall>c\<in>set ds. c_isdigit c \<Longrightarrow> ds \<noteq> [] \<Longrightarrow> take_sign (ds @ r) = (False, ds @ r)"
  by (cases ds) (auto dest: isdigit_not_sign)

lemma strtol_base_10: "strtol_base 10 s = (10, s)"
  by (cases s rule: remdups_adj.cases) (auto split: list.splits)

lemma strtol_dec:
  assumes "r = [] \<or> \<not> c_isdigit (hd r)"
  shows "strtol (dec_of_nat n @ r) 10 = (clamp64 (int n), r)"
proof -
  let ?ds = "dec_of_nat n"
  have d: "\<forall>c\<in>set ?ds. c_isdigit c" by (rule dec_of_nat_digits)
  have "takeWhile (is_digit_of 10) (?ds @ r) = ?ds" and "dropWhile (is_digit_of 10) (?ds @ r) = r"
    using d assms by (cases r; simp add: is_digit_of_10 takeWhile_append)+
  with d show ?thesis
    by (simp add: strtol_def dropWhile_space_digits take_sign_digits strtol_base_10 dec_of_nat_value
        del: strtol_base.simps)
qed

lemma atoi_dec: "int n < 2 ^ 31 \<Longrightarrow> atoi (dec_of_nat n) = int n"
  using strtol_dec[of "[]" n] by (simp add: atoi_def clamp64_def to_int32_id)

end
