(* ===== verification/Floats.thy ===== *)
theory Floats
  imports Complex_Main Prelude
begin

text \<open>
  The C type \<open>double\<close>. A finite double is the rational number it denotes, and every operation
  of the code is the exact operation followed by \<open>fl\<close>, which rounds to the nearest number
  with a 53-bit significand, ties to even (IEEE 754 binary64). The exponent is not bounded:
  overflow to infinity (above \<open>2^1024\<close>), subnormal numbers (below \<open>2^-1022\<close>), infinities and
  NaN are outside the model, and no quantity the code computes from times, counts and rates in
  the ranges of its integer types comes near those limits. A division by zero is the caller's
  business: the operations that can divide by zero return an option.

  The lemmas show what the components use of it: \<open>fl\<close> is the identity on numbers with a
  53-bit significand, in particular on integers up to \<open>2^53\<close>, and keeps the sign.
\<close>

type_synonym dbl = rat

section \<open>Powers of two and binary logarithms\<close>

definition pow2 :: "int \<Rightarrow> rat" where
  "pow2 k = (if 0 \<le> k then 2 ^ nat k else 1 / 2 ^ nat (- k))"

lemma pow2_pos [simp]: "0 < pow2 k"
  by (simp add: pow2_def)

lemma pow2_nonzero [simp]: "pow2 k \<noteq> 0"
  using pow2_pos[of k] by linarith

lemma pow2_0 [simp]: "pow2 0 = 1"
  by (simp add: pow2_def)

lemma pow2_Suc: "pow2 (k + 1) = 2 * pow2 k"
proof (cases "0 \<le> k")
  case True
  then have "nat (k + 1) = Suc (nat k)" by simp
  with True show ?thesis by (simp add: pow2_def)
next
  case False
  then have "nat (- k) = Suc (nat (- (k + 1)))" by simp
  with False show ?thesis by (cases "k = - 1") (auto simp: pow2_def)
qed

lemma pow2_minus1: "pow2 (k - 1) = pow2 k / 2"
  using pow2_Suc[of "k - 1"] by simp

lemma pow2_add_nat: "pow2 (k + int n) = pow2 k * 2 ^ n"
proof (induction n)
  case (Suc n)
  have "pow2 (k + int (Suc n)) = pow2 ((k + int n) + 1)" by (simp add: algebra_simps)
  then show ?case using Suc by (simp add: pow2_Suc)
qed simp

lemma pow2_mono: "a \<le> b \<Longrightarrow> pow2 a \<le> pow2 b"
proof -
  assume "a \<le> b"
  then have "b = a + int (nat (b - a))" by simp
  then have "pow2 b = pow2 a * 2 ^ nat (b - a)" by (metis pow2_add_nat)
  then show ?thesis using pow2_pos[of a] by simp
qed

text \<open>\<open>ilog2 x\<close> is the exponent of a positive \<open>x\<close>: \<open>2^n \<le> x < 2^(n+1)\<close>.\<close>

function ilog2 :: "rat \<Rightarrow> int" where
  "ilog2 x =
     (if 2 \<le> x then ilog2 (x / 2) + 1
      else if 0 < x \<and> x < 1 then ilog2 (2 * x) - 1
      else 0)"
  by pat_completeness auto
termination
proof (relation "measure (\<lambda>x. if 1 \<le> x then nat \<lfloor>x\<rfloor> else nat \<lceil>1 / x\<rceil>)", goal_cases)
  case 1
  then show ?case by simp
next
  case (2 x)
  then have "1 \<le> x / 2" and le: "\<lfloor>x / 2\<rfloor> < \<lfloor>x\<rfloor>" by linarith+
  moreover have "0 < \<lfloor>x\<rfloor>" using 2 by linarith
  ultimately show ?case using 2 by simp
next
  case (3 x)
  then have x: "0 < x" "x < 1" by simp_all
  show ?case
  proof (cases "1 \<le> 2 * x")
    case True
    have "\<lfloor>2 * x\<rfloor> = 1" using True x by linarith
    moreover have "1 < 1 / x" using x by (simp add: field_simps)
    then have "2 \<le> \<lceil>1 / x\<rceil>" by linarith
    ultimately show ?thesis using True x by (simp add: field_simps)
  next
    case False
    have "2 < 1 / x" using False x by (simp add: field_simps)
    moreover have "1 / (2 * x) = (1 / x) / 2" by simp
    ultimately have "\<lceil>1 / (2 * x)\<rceil> < \<lceil>1 / x\<rceil>" and "0 < \<lceil>1 / x\<rceil>" by linarith+
    then show ?thesis using False x by simp
  qed
qed

declare ilog2.simps [simp del]

lemma ilog2_bounds: "0 < x \<Longrightarrow> pow2 (ilog2 x) \<le> x \<and> x < 2 * pow2 (ilog2 x)"
proof (induction x rule: ilog2.induct)
  case (1 x)
  show ?case
  proof (cases "2 \<le> x")
    case True
    with 1 have "pow2 (ilog2 (x / 2)) \<le> x / 2 \<and> x / 2 < 2 * pow2 (ilog2 (x / 2))" by simp
    with True show ?thesis by (simp add: ilog2.simps[of x] pow2_Suc)
  next
    case False
    show ?thesis
    proof (cases "x < 1")
      case True
      with False 1 have "pow2 (ilog2 (2 * x)) \<le> 2 * x \<and> 2 * x < 2 * pow2 (ilog2 (2 * x))"
        by simp
      with True False 1 show ?thesis by (simp add: ilog2.simps[of x] pow2_minus1)
    next
      case ge1: False
      then have "ilog2 x = 0" using False by (subst ilog2.simps) simp
      with ge1 False show ?thesis by simp
    qed
  qed
qed

section \<open>Rounding\<close>

text \<open>Rounding to the nearest integer, ties to even, and truncation towards zero.\<close>

definition rne :: "rat \<Rightarrow> int" where
  "rne x =
     (let f = \<lfloor>x\<rfloor>; d = x - of_int f
      in if d < 1 / 2 then f else if 1 / 2 < d then f + 1 else if even f then f else f + 1)"

definition trunc :: "rat \<Rightarrow> int" where
  "trunc x = (if 0 \<le> x then \<lfloor>x\<rfloor> else \<lceil>x\<rceil>)"

definition fl :: "rat \<Rightarrow> dbl" where
  "fl x = (if x = 0 then 0
           else (let s = pow2 (ilog2 \<bar>x\<bar> - 52) in of_int (rne (x / s)) * s))"

lemma rne_of_int [simp]: "rne (of_int i) = i"
  by (simp add: rne_def)

lemma trunc_of_int [simp]: "trunc (of_int i) = i"
  by (simp add: trunc_def)

lemma rne_nonneg: "0 \<le> x \<Longrightarrow> 0 \<le> rne x"
  by (auto simp: rne_def Let_def)

lemma fl_0 [simp]: "fl 0 = 0"
  by (simp add: fl_def)

lemma fl_nonneg: "0 \<le> x \<Longrightarrow> 0 \<le> fl x"
  by (auto simp: fl_def Let_def intro!: mult_nonneg_nonneg rne_nonneg less_imp_le[OF pow2_pos]
      divide_nonneg_nonneg)

text \<open>The numbers with a significand of at most 53 bits.\<close>

definition is_dbl :: "rat \<Rightarrow> bool" where
  "is_dbl x \<longleftrightarrow> (\<exists>m e. x = of_int m * pow2 e \<and> \<bar>m\<bar> \<le> 2 ^ 53)"

lemma fl_integral:
  assumes "x \<noteq> 0" and "x = of_int m * pow2 (ilog2 \<bar>x\<bar> - 52)"
  shows "fl x = x"
proof -
  let ?s = "pow2 (ilog2 \<bar>x\<bar> - 52)"
  have "x / ?s = of_int m" by (subst assms(2)) simp
  then show ?thesis using assms by (simp add: fl_def Let_def)
qed

lemma fl_exact: "is_dbl x \<Longrightarrow> fl x = x"
proof (cases "x = 0")
  case False
  assume "is_dbl x"
  then obtain m e where x: "x = of_int m * pow2 e" and m: "\<bar>m\<bar> \<le> 2 ^ 53"
    by (auto simp: is_dbl_def)
  define n where "n = ilog2 \<bar>x\<bar>"
  have n: "pow2 n \<le> \<bar>x\<bar>" using ilog2_bounds[of "\<bar>x\<bar>"] False by (simp add: n_def)
  show ?thesis
  proof (cases "n - 52 \<le> e")
    case True
    then have "e = (n - 52) + int (nat (e - (n - 52)))" by simp
    then have "pow2 e = pow2 (n - 52) * 2 ^ nat (e - (n - 52))" by (metis pow2_add_nat)
    then have "x = of_int (m * 2 ^ nat (e - (n - 52))) * pow2 (n - 52)"
      using x by simp
    with False show ?thesis unfolding n_def by (rule fl_integral)
  next
    case e: False
    have "(of_int \<bar>m\<bar> :: rat) \<le> 2 ^ 53" using m by (metis of_int_le_iff of_int_numeral of_int_power)
    moreover have "\<bar>x\<bar> = of_int \<bar>m\<bar> * pow2 e" by (simp add: x abs_mult abs_of_pos[OF pow2_pos])
    ultimately have "\<bar>x\<bar> \<le> 2 ^ 53 * pow2 e" using pow2_pos[of e] by (simp add: mult_right_mono)
    also have "2 ^ 53 * pow2 e = pow2 (e + int 53)"
      by (simp only: pow2_add_nat mult.commute)
    also have "\<dots> \<le> pow2 n" using e by (intro pow2_mono) simp
    finally have "\<bar>x\<bar> = pow2 n" using n by simp
    also have "pow2 n = pow2 ((n - 52) + int 52)" by simp
    also have "\<dots> = of_int (2 ^ 52) * pow2 (n - 52)" by (simp only: pow2_add_nat) simp
    finally have "x = of_int (2 ^ 52) * pow2 (n - 52) \<or> x = of_int (- (2 ^ 52)) * pow2 (n - 52)"
      by (auto simp: abs_if split: if_splits)
    then show ?thesis using False unfolding n_def by (metis fl_integral)
  qed
qed simp

lemma is_dbl_int: "\<bar>i\<bar> \<le> 2 ^ 53 \<Longrightarrow> is_dbl (of_int i)"
  unfolding is_dbl_def by (intro exI[of _ i] exI[of _ 0]) simp

lemma is_dbl_scaled: "\<bar>i\<bar> \<le> 2 ^ 53 \<Longrightarrow> is_dbl (of_int i * pow2 e)"
  unfolding is_dbl_def by (intro exI[of _ i] exI[of _ e]) simp

lemma fl_int: "\<bar>i\<bar> \<le> 2 ^ 53 \<Longrightarrow> fl (of_int i) = of_int i"
  by (intro fl_exact is_dbl_int)

section \<open>Laws of rounding\<close>

lemma rne_near: "\<bar>y - of_int m\<bar> < 1 / 2 \<Longrightarrow> rne y = m"
proof -
  assume a: "\<bar>y - of_int m\<bar> < 1 / 2"
  show ?thesis
  proof (cases "of_int m \<le> y")
    case True
    with a have "\<lfloor>y\<rfloor> = m" by (intro floor_unique) linarith+
    with a True show ?thesis by (simp add: rne_def Let_def)
  next
    case False
    with a have "of_int (m - 1) \<le> y" "y < of_int (m - 1) + 1" by (simp_all add: abs_if split: if_splits)
    then have "\<lfloor>y\<rfloor> = m - 1" by (rule floor_unique)
    with a False show ?thesis by (simp add: rne_def Let_def)
  qed
qed

lemma rne_error: "\<bar>of_int (rne y) - y\<bar> \<le> 1 / 2"
proof -
  have "of_int \<lfloor>y\<rfloor> \<le> y" "y < of_int \<lfloor>y\<rfloor> + 1" by linarith+
  then show ?thesis unfolding rne_def Let_def by (simp add: abs_if; linarith?)
qed

lemma rne_neg: "rne (- y) = - rne y"
proof (cases "y = of_int \<lfloor>y\<rfloor>")
  case True
  then have "rne y = \<lfloor>y\<rfloor>" "rne (- y) = - \<lfloor>y\<rfloor>" by (metis rne_of_int, metis of_int_minus rne_of_int)
  then show ?thesis by simp
next
  case False
  then have "\<lfloor>- y\<rfloor> = - \<lfloor>y\<rfloor> - 1" by (simp add: floor_minus ceiling_altdef)
  then show ?thesis by (auto simp: rne_def Let_def)
qed

lemma fl_neg: "fl (- x) = - fl x"
proof -
  have "- x / s = - (x / s)" for s :: rat by simp
  then show ?thesis by (simp add: fl_def Let_def rne_neg)
qed

text \<open>A positive double is an integer significand times the unit of its binade.\<close>

lemma is_dbl_normal:
  assumes "is_dbl d" "0 < d"
  obtains m where "d = of_int m * pow2 (ilog2 d - 52)" "2 ^ 52 \<le> m" "m \<le> 2 ^ 53 - 1"
proof -
  let ?s = "pow2 (ilog2 d - 52)"
  define m where "m = rne (d / ?s)"
  have d: "d = of_int m * ?s"
    using fl_exact[OF assms(1)] assms(2) by (simp add: fl_def Let_def m_def)
  have b: "pow2 (ilog2 d) \<le> d" "d < 2 * pow2 (ilog2 d)" using ilog2_bounds[OF assms(2)] by simp_all
  have p: "pow2 (ilog2 d) = 2 ^ 52 * ?s" using pow2_add_nat[of "ilog2 d - 52" 52] by (simp add: mult.commute)
  have "2 * pow2 (ilog2 d) = 2 ^ 53 * ?s" using p by simp
  then have "(2 ^ 52 :: rat) * ?s \<le> of_int m * ?s" "of_int m * ?s < 2 ^ 53 * ?s" using b p d by metis+
  then have "of_int (2 ^ 52) \<le> (of_int m :: rat)" "(of_int m :: rat) < of_int (2 ^ 53)" by simp_all
  then have "2 ^ 52 \<le> m" "m < 2 ^ 53" by (simp_all only: of_int_le_iff of_int_less_iff)
  with d show thesis by (intro that[of m]) simp_all
qed

lemma ilog2_unique: "pow2 n \<le> x \<Longrightarrow> x < 2 * pow2 n \<Longrightarrow> ilog2 x = n"
proof -
  assume a: "pow2 n \<le> x" "x < 2 * pow2 n"
  have x: "0 < x" using a(1) pow2_pos[of n] by linarith
  note b = ilog2_bounds[OF x]
  have "\<not> n + 1 \<le> ilog2 x" using pow2_mono[of "n + 1" "ilog2 x"] a b by (auto simp: pow2_Suc)
  moreover have "\<not> ilog2 x + 1 \<le> n" using pow2_mono[of "ilog2 x + 1" n] a b by (auto simp: pow2_Suc)
  ultimately show ?thesis by linarith
qed

text \<open>What is closer to a double than half the distance to its neighbours is rounded to it.\<close>

lemma fl_near:
  assumes "is_dbl d" "0 < d" "\<bar>x - d\<bar> < d / 2 ^ 54"
  shows "fl x = d"
proof -
  obtain m where d: "d = of_int m * pow2 (ilog2 d - 52)" and m: "2 ^ 52 \<le> m" "m \<le> 2 ^ 53 - 1"
    using is_dbl_normal[OF assms(1,2)] .
  define n where "n = ilog2 d"
  define s where "s = pow2 (n - 52)"
  have s: "0 < s" by (simp add: s_def)
  have ds: "d = of_int m * s" using d by (simp add: s_def n_def)
  have "of_int (2 ^ 52) \<le> (of_int m :: rat)" "(of_int m :: rat) \<le> of_int (2 ^ 53 - 1)"
    using m by (simp_all only: of_int_le_iff)
  then have mr: "2 ^ 52 \<le> (of_int m :: rat)" "(of_int m :: rat) \<le> 2 ^ 53 - 1" by simp_all
  define y where "y = x / s"
  have xy: "x = y * s" using s by (simp add: y_def)
  have "x - d = (y - of_int m) * s" by (simp only: xy ds left_diff_distrib)
  then have "\<bar>x - d\<bar> = \<bar>y - of_int m\<bar> * s" using s by (simp only: abs_mult abs_of_pos)
  moreover have "d / 2 ^ 54 = of_int m / 2 ^ 54 * s" by (simp add: ds)
  ultimately have "\<bar>y - of_int m\<bar> * s < of_int m / 2 ^ 54 * s" using assms(3) by metis
  then have ym: "\<bar>y - of_int m\<bar> < of_int m / 2 ^ 54" using s by simp
  then have half: "\<bar>y - of_int m\<bar> < 1 / 2" using mr by simp
  have y0: "0 < y" using half mr by (simp add: abs_if split: if_splits)
  have p52: "pow2 n = 2 ^ 52 * s" using pow2_add_nat[of "n - 52" 52] by (simp add: s_def mult.commute)
  have x0: "0 < x" using y0 s xy by simp
  show ?thesis
  proof (cases "2 ^ 52 \<le> y")
    case True
    have "y < 2 ^ 53" using half mr by (simp add: abs_if split: if_splits)
    then have "ilog2 x = n" using True s by (intro ilog2_unique) (simp_all add: p52 xy)
    then show ?thesis using x0 rne_near[OF half] by (simp add: fl_def Let_def y_def s_def ds)
  next
    case False
    have "m = 2 ^ 52"
    proof (rule ccontr)
      assume "m \<noteq> 2 ^ 52"
      then have "2 ^ 52 + 1 \<le> m" using m by simp
      then have "of_int (2 ^ 52 + 1) \<le> (of_int m :: rat)" by (simp only: of_int_le_iff)
      with half False show False by (simp add: abs_if split: if_splits)
    qed
    then have m52: "of_int m = (2 ^ 52 :: rat)" by simp
    have ym4: "\<bar>y - 2 ^ 52\<bar> < 1 / 4" using ym by (simp add: m52)
    have s2: "pow2 (n - 53) = s / 2" using pow2_minus1[of "n - 52"] by (simp add: s_def algebra_simps)
    have "ilog2 x = n - 1"
    proof (rule ilog2_unique)
      have p: "pow2 (n - 1) = 2 ^ 51 * s" using pow2_minus1[of n] by (simp add: p52)
      have "2 ^ 51 \<le> y" using ym4 by (simp add: abs_if split: if_splits)
      then show "pow2 (n - 1) \<le> x" using s by (simp add: p xy)
      show "x < 2 * pow2 (n - 1)" using False s by (simp add: p xy)
    qed
    then have e: "pow2 (ilog2 \<bar>x\<bar> - 52) = s / 2" using s2 x0 by (simp only: abs_of_pos) simp
    have r: "rne (x / (s / 2)) = 2 ^ 53"
    proof (rule rne_near)
      have "x / (s / 2) = 2 * y" using s by (simp add: xy)
      with ym4 show "\<bar>x / (s / 2) - of_int (2 ^ 53)\<bar> < 1 / 2" by (simp add: abs_if split: if_splits)
    qed
    have "fl x = of_int (2 ^ 53) * (s / 2)" using x0 unfolding fl_def Let_def e r by simp
    then show ?thesis by (simp add: ds m52)
  qed
qed

text \<open>Rounding is monotone.\<close>

lemma rne_mono: "x \<le> y \<Longrightarrow> rne x \<le> rne y"
proof (cases "\<lfloor>x\<rfloor> = \<lfloor>y\<rfloor>")
  case True
  assume "x \<le> y"
  with True show ?thesis unfolding rne_def Let_def by (auto split: if_split)
next
  case False
  assume "x \<le> y"
  then have "\<lfloor>x\<rfloor> \<le> \<lfloor>y\<rfloor>" by (rule floor_mono)
  with False have "\<lfloor>x\<rfloor> + 1 \<le> \<lfloor>y\<rfloor>" by simp
  moreover have "rne x \<le> \<lfloor>x\<rfloor> + 1" "\<lfloor>y\<rfloor> \<le> rne y" unfolding rne_def Let_def by (auto split: if_split)
  ultimately show ?thesis by linarith
qed

lemma fl_binade:
  assumes "0 < x"
  shows "pow2 (ilog2 x) \<le> fl x" "fl x \<le> 2 * pow2 (ilog2 x)"
proof -
  let ?s = "pow2 (ilog2 x - 52)"
  have p: "pow2 (ilog2 x) = 2 ^ 52 * ?s" using pow2_add_nat[of "ilog2 x - 52" 52] by (simp add: mult.commute)
  have f: "fl x = of_int (rne (x / ?s)) * ?s" using assms by (simp add: fl_def Let_def)
  have b: "of_int (2 ^ 52) \<le> x / ?s" "x / ?s \<le> of_int (2 ^ 53)"
    using ilog2_bounds[OF assms] by (simp_all add: p pos_le_divide_eq pos_divide_le_eq)
  have "2 ^ 52 \<le> rne (x / ?s)" "rne (x / ?s) \<le> 2 ^ 53"
    using rne_mono[OF b(1)] rne_mono[OF b(2)] by (simp_all only: rne_of_int)
  then have "of_int (2 ^ 52) \<le> (of_int (rne (x / ?s)) :: rat)" "(of_int (rne (x / ?s)) :: rat) \<le> of_int (2 ^ 53)"
    by (simp_all only: of_int_le_iff)
  then have "2 ^ 52 * ?s \<le> of_int (rne (x / ?s)) * ?s" "of_int (rne (x / ?s)) * ?s \<le> 2 ^ 53 * ?s"
    by (simp_all add: mult_right_mono)
  then show "pow2 (ilog2 x) \<le> fl x" "fl x \<le> 2 * pow2 (ilog2 x)" unfolding f p by simp_all
qed

lemma fl_mono: "0 < x \<Longrightarrow> x \<le> y \<Longrightarrow> fl x \<le> fl y"
proof -
  assume x: "0 < x" and xy: "x \<le> y"
  then have y: "0 < y" by simp
  show ?thesis
  proof (cases "ilog2 x = ilog2 y")
    case True
    let ?s = "pow2 (ilog2 y - 52)"
    have "rne (x / ?s) \<le> rne (y / ?s)" using xy by (intro rne_mono divide_right_mono) (simp_all add: less_imp_le)
    then have "(of_int (rne (x / ?s)) :: rat) \<le> of_int (rne (y / ?s))" by (simp only: of_int_le_iff)
    then show ?thesis using x y True by (simp add: fl_def Let_def mult_right_mono)
  next
    case False
    have "ilog2 x + 1 \<le> ilog2 y"
    proof (rule ccontr)
      assume "\<not> ilog2 x + 1 \<le> ilog2 y"
      with False have "ilog2 y + 1 \<le> ilog2 x" by simp
      then have "2 * pow2 (ilog2 y) \<le> pow2 (ilog2 x)" using pow2_mono[of "ilog2 y + 1"] by (simp add: pow2_Suc)
      with ilog2_bounds[OF x] ilog2_bounds[OF y] xy show False by linarith
    qed
    then have "2 * pow2 (ilog2 x) \<le> pow2 (ilog2 y)" using pow2_mono[of "ilog2 x + 1"] by (simp add: pow2_Suc)
    with fl_binade(2)[OF x] fl_binade(1)[OF y] show ?thesis by linarith
  qed
qed

section \<open>The operations of the code\<close>

definition dadd :: "dbl \<Rightarrow> dbl \<Rightarrow> dbl" where "dadd a b = fl (a + b)"
definition dsub :: "dbl \<Rightarrow> dbl \<Rightarrow> dbl" where "dsub a b = fl (a - b)"
definition dmul :: "dbl \<Rightarrow> dbl \<Rightarrow> dbl" where "dmul a b = fl (a * b)"
definition ddiv :: "dbl \<Rightarrow> dbl \<Rightarrow> dbl" where "ddiv a b = fl (a / b)"

text \<open>Conversion of an integer to \<open>double\<close>, and of a \<open>double\<close> to an integer type: the value is
truncated, and when it does not fit the C standard leaves the result undefined (\<open>None\<close>).\<close>

definition dbl_of_int :: "int \<Rightarrow> dbl" where
  "dbl_of_int i = fl (of_int i)"

definition dbl_of_u64 :: "u64 \<Rightarrow> dbl" where
  "dbl_of_u64 w = dbl_of_int (uint w)"

definition dbl_to_u64 :: "dbl \<Rightarrow> u64 option" where
  "dbl_to_u64 x = (if 0 \<le> trunc x \<and> trunc x < 2 ^ 64 then Some (word_of_int (trunc x)) else None)"

definition dbl_to_i64 :: "dbl \<Rightarrow> int option" where
  "dbl_to_i64 x =
     (if - (2 ^ 63) \<le> trunc x \<and> trunc x < 2 ^ 63 then Some (trunc x) else None)"

definition dbl_to_i32 :: "dbl \<Rightarrow> int option" where
  "dbl_to_i32 x =
     (if - (2 ^ 31) \<le> trunc x \<and> trunc x < 2 ^ 31 then Some (trunc x) else None)"

lemma dbl_of_int_exact: "\<bar>i\<bar> \<le> 2 ^ 53 \<Longrightarrow> dbl_of_int i = of_int i"
  by (simp add: dbl_of_int_def fl_int)

lemma dbl_of_u64_exact: "uint w \<le> 2 ^ 53 \<Longrightarrow> dbl_of_u64 w = of_int (uint w)"
  by (simp add: dbl_of_u64_def dbl_of_int_exact)

lemma dbl_to_u64_of_int: "0 \<le> i \<Longrightarrow> i < 2 ^ 64 \<Longrightarrow> dbl_to_u64 (of_int i) = Some (word_of_int i)"
  by (simp add: dbl_to_u64_def)

lemma dbl_to_u64_range: "dbl_to_u64 x = Some w \<Longrightarrow> uint w = trunc x"
  by (auto simp: dbl_to_u64_def unsigned_of_int take_bit_int_eq_self split: if_splits)

lemma dmul_pow2_exact:
  assumes "\<bar>i\<bar> \<le> 2 ^ 53"
  shows "dmul (of_int i) (2 ^ k) = of_int (i * 2 ^ k)"
proof -
  have "of_int (i * 2 ^ k) = of_int i * pow2 (int k)" by (simp add: pow2_def)
  then have "is_dbl (of_int (i * 2 ^ k))" using is_dbl_scaled[OF assms] by metis
  then show ?thesis using fl_exact unfolding dmul_def by fastforce
qed

text \<open>The type \<open>float\<close>: a double rounded to 24 bits.\<close>

definition fl32 :: "rat \<Rightarrow> rat" where
  "fl32 x = (if x = 0 then 0
             else (let s = pow2 (ilog2 \<bar>x\<bar> - 23) in of_int (rne (x / s)) * s))"

end
