(* ===== verification/Iperf_Time.thy ===== *)
theory Iperf_Time
  imports Floats
begin

text \<open>
  \<open>iperf_time.c\<close>: a time is a pair of \<open>uint32_t\<close> seconds and microseconds. The lemmas relate each
  operation to the number of microseconds \<open>usecs_of\<close> the pair stands for, for normalised
  times (fewer than a million microseconds), and make \<open>iperf_time_compare\<close> an instance of the
  library's linear orders, so that the timer queue can speak of sortedness.
\<close>

section \<open>The structure and its operations\<close>

datatype iperf_time = Iperf_Time (secs: u32) (usecs: u32)

text \<open>
  \<open>clock_gettime(CLOCK_MONOTONIC)\<close> returns seconds and nanoseconds, or fails; the seconds are
  narrowed to 32 bits and the nanoseconds divided by 1000 after the narrowing. On failure the
  caller's structure keeps its old contents.
\<close>

definition iperf_time_now :: "(int \<times> int) option \<Rightarrow> iperf_time \<Rightarrow> int \<times> iperf_time" where
  "iperf_time_now clock old =
     (case clock of
        None \<Rightarrow> (- 1, old)
      | Some (tv_sec, tv_nsec) \<Rightarrow>
          (0, Iperf_Time (word_of_int tv_sec) (word_of_int tv_nsec div 1000)))"

definition iperf_time_add_usecs :: "iperf_time \<Rightarrow> u64 \<Rightarrow> iperf_time" where
  "iperf_time_add_usecs t us =
     (let total_usecs = ucast (usecs t) + us
      in Iperf_Time (ucast ((ucast (secs t) :: u64) + total_usecs div 1000000))
           (ucast (total_usecs mod 1000000)))"

definition iperf_time_in_usecs :: "iperf_time \<Rightarrow> u64" where
  "iperf_time_in_usecs t = ucast (secs t) * 1000000 + ucast (usecs t)"

definition iperf_time_in_secs :: "iperf_time \<Rightarrow> dbl" where
  "iperf_time_in_secs t =
     dadd (dbl_of_int (uint (secs t))) (ddiv (dbl_of_int (uint (usecs t))) 1000000)"

definition iperf_time_compare :: "iperf_time \<Rightarrow> iperf_time \<Rightarrow> int" where
  "iperf_time_compare t1 t2 =
     (if secs t1 < secs t2 then - 1
      else if secs t1 > secs t2 then 1
      else if usecs t1 < usecs t2 then - 1
      else if usecs t1 > usecs t2 then 1
      else 0)"

text \<open>The borrow of \<open>iperf_time_diff\<close>: \<open>diff = big - small\<close> field by field.\<close>

definition time_sub :: "iperf_time \<Rightarrow> iperf_time \<Rightarrow> iperf_time" where
  "time_sub big small =
     (let dsecs = secs big - secs small; dusecs = usecs big
      in if dusecs < usecs small
         then Iperf_Time (dsecs - 1) (dusecs + 1000000 - usecs small)
         else Iperf_Time dsecs (dusecs - usecs small))"

text \<open>\<open>iperf_time_diff\<close> returns \<open>past\<close> and fills \<open>*diff\<close>.\<close>

definition iperf_time_diff :: "iperf_time \<Rightarrow> iperf_time \<Rightarrow> int \<times> iperf_time" where
  "iperf_time_diff t1 t2 =
     (let cmp = iperf_time_compare t1 t2
      in if cmp = 0 then (1, Iperf_Time 0 0)
         else if cmp = 1 then (0, time_sub t1 t2)
         else (1, time_sub t2 t1))"

section \<open>Comparison as a linear order\<close>

instantiation iperf_time :: linorder
begin

definition less_eq_iperf_time :: "iperf_time \<Rightarrow> iperf_time \<Rightarrow> bool" where
  "less_eq_iperf_time t1 t2 \<longleftrightarrow> iperf_time_compare t1 t2 \<le> 0"

definition less_iperf_time :: "iperf_time \<Rightarrow> iperf_time \<Rightarrow> bool" where
  "less_iperf_time t1 t2 \<longleftrightarrow> iperf_time_compare t1 t2 < 0"

instance
proof
  fix x y z :: iperf_time
  show "(x < y) = (x \<le> y \<and> \<not> y \<le> x)"
    by (auto simp: less_iperf_time_def less_eq_iperf_time_def iperf_time_compare_def)
  show "x \<le> x"
    by (simp add: less_eq_iperf_time_def iperf_time_compare_def)
  show "x \<le> y \<Longrightarrow> y \<le> z \<Longrightarrow> x \<le> z"
    by (auto simp: less_eq_iperf_time_def iperf_time_compare_def split: if_splits)
  show "x \<le> y \<Longrightarrow> y \<le> x \<Longrightarrow> x = y"
    by (cases x; cases y)
      (auto simp: less_eq_iperf_time_def iperf_time_compare_def split: if_splits)
  show "x \<le> y \<or> y \<le> x"
    by (auto simp: less_eq_iperf_time_def iperf_time_compare_def)
qed

end

lemma compare_lt_0 [simp]: "iperf_time_compare t1 t2 < 0 \<longleftrightarrow> t1 < t2"
  by (simp add: less_iperf_time_def)

lemma compare_eq_0 [simp]: "iperf_time_compare t1 t2 = 0 \<longleftrightarrow> t1 = t2"
  by (cases t1; cases t2) (auto simp: iperf_time_compare_def)

lemma compare_gt_0 [simp]: "0 < iperf_time_compare t1 t2 \<longleftrightarrow> t2 < t1"
  by (auto simp: less_iperf_time_def iperf_time_compare_def)

lemma compare_eq_1 [simp]: "iperf_time_compare t1 t2 = 1 \<longleftrightarrow> t2 < t1"
  by (auto simp: less_iperf_time_def iperf_time_compare_def)

section \<open>Normalised times and their microseconds\<close>

definition time_ok :: "iperf_time \<Rightarrow> bool" where
  "time_ok t \<longleftrightarrow> usecs t < 1000000"

definition usecs_of :: "iperf_time \<Rightarrow> nat" where
  "usecs_of t = unat (secs t) * 1000000 + unat (usecs t)"

lemma time_ok_unat: "time_ok t \<longleftrightarrow> unat (usecs t) < 1000000"
  by (simp add: time_ok_def word_less_nat_alt)

lemma unat_lt32: "unat (w :: u32) < 4294967296"
  using unsigned_less[of w] by simp

lemma time_eqI: "secs s = secs t \<Longrightarrow> usecs s = usecs t \<Longrightarrow> s = t"
  by (cases s; cases t) simp

lemma usecs_of_less: "time_ok s \<Longrightarrow> time_ok t \<Longrightarrow> s < t \<longleftrightarrow> usecs_of s < usecs_of t"
  by (auto simp: less_iperf_time_def iperf_time_compare_def time_ok_unat usecs_of_def
      word_less_nat_alt split: if_splits)

lemma usecs_of_inj: "time_ok s \<Longrightarrow> time_ok t \<Longrightarrow> usecs_of s = usecs_of t \<Longrightarrow> s = t"
  using usecs_of_less[of s t] usecs_of_less[of t s] by (metis linorder_neq_iff)

lemma usecs_of_le: "time_ok s \<Longrightarrow> time_ok t \<Longrightarrow> s \<le> t \<longleftrightarrow> usecs_of s \<le> usecs_of t"
  using usecs_of_less[of t s] by (simp add: linorder_not_less [symmetric])

lemma usecs_of_bound: "usecs_of t < 4294967295 * 1000000 + 1000000 + 4294967296"
  using unat_lt32[of "secs t"] unat_lt32[of "usecs t"] by (simp add: usecs_of_def)

lemma time_now_ok [wf_intros]:
  "0 \<le> ns \<Longrightarrow> ns < 1000000000 \<Longrightarrow> time_ok (snd (iperf_time_now (Some (s, ns)) old))"
proof -
  assume ns: "0 \<le> ns" "ns < 1000000000"
  then have "unat (word_of_int ns :: u32) = nat ns"
    by (simp add: unsigned_of_int take_bit_int_eq_self)
  then have "unat (word_of_int ns div 1000 :: u32) = nat ns div 1000"
    by (simp add: unat_div)
  moreover have "nat ns div 1000 < 1000000" using ns by linarith
  ultimately show ?thesis by (simp add: iperf_time_now_def time_ok_unat)
qed

lemma in_usecs_nat: "unat (iperf_time_in_usecs t) = usecs_of t"
proof -
  have "unat (secs t) * 1000000 + unat (usecs t) < 2 ^ 64"
    using unat_lt32[of "secs t"] unat_lt32[of "usecs t"] by simp
  then show ?thesis
    by (simp add: iperf_time_in_usecs_def usecs_of_def unat_word_ariths unsigned_ucast_eq
        take_bit_nat_eq_self unat_lt32[THEN less_trans])
qed

lemma add_usecs_ok [wf_intros]: "time_ok (iperf_time_add_usecs t us)"
proof -
  let ?u = "unat ((ucast (usecs t) :: u64) + us)"
  have "unat ((ucast (usecs t) + us) mod 1000000 :: u64) = ?u mod 1000000"
    by (simp add: unat_mod)
  then show ?thesis
    by (simp add: iperf_time_add_usecs_def Let_def time_ok_unat unsigned_ucast_eq take_bit_eq_mod)
qed

lemma add_usecs_of:
  assumes ok: "time_ok t"
    and us: "unat us < 2 ^ 63"
    and fit: "(usecs_of t + unat us) div 1000000 < 2 ^ 32"
  shows "usecs_of (iperf_time_add_usecs t us) = usecs_of t + unat us"
proof -
  have u: "unat (usecs t) < 1000000" using ok by (simp add: time_ok_unat)
  let ?tot = "unat (usecs t) + unat us"
  have tot: "unat ((ucast (usecs t) :: u64) + us) = ?tot"
    using u us by (simp add: unat_word_ariths unsigned_ucast_eq take_bit_nat_eq_self)
  have d: "unat (((ucast (usecs t) :: u64) + us) div 1000000) = ?tot div 1000000"
    and m: "unat (((ucast (usecs t) :: u64) + us) mod 1000000) = ?tot mod 1000000"
    by (simp_all add: unat_div unat_mod tot)
  have s: "unat (secs t) + ?tot div 1000000 < 2 ^ 32"
    using fit by (simp add: usecs_of_def add.assoc)
  have "unat (ucast ((ucast (secs t) :: u64) + ((ucast (usecs t) :: u64) + us) div 1000000) :: u32)
      = unat (secs t) + ?tot div 1000000"
    using s unat_lt32[of "secs t"]
    by (simp add: unsigned_ucast_eq unat_word_ariths d take_bit_nat_eq_self)
  moreover have "unat (ucast (((ucast (usecs t) :: u64) + us) mod 1000000) :: u32) = ?tot mod 1000000"
    by (simp add: unsigned_ucast_eq m take_bit_nat_eq_self)
  ultimately show ?thesis
    by (simp add: iperf_time_add_usecs_def Let_def usecs_of_def)
qed

lemma time_sub_of:
  assumes "time_ok big" "time_ok small" "small \<le> big"
  shows "usecs_of (time_sub big small) = usecs_of big - usecs_of small \<and> time_ok (time_sub big small)"
proof -
  have b: "unat (usecs big) < 1000000" and s: "unat (usecs small) < 1000000"
    using assms by (simp_all add: time_ok_unat)
  have le: "usecs_of small \<le> usecs_of big" using assms usecs_of_le by blast
  show ?thesis
  proof (cases "usecs big < usecs small")
    case True
    then have lt: "unat (usecs big) < unat (usecs small)" by (simp add: word_less_nat_alt)
    then have "unat (secs small) < unat (secs big)" using le b s by (simp add: usecs_of_def)
    then have 1: "unat (secs big - secs small - 1) = unat (secs big) - unat (secs small) - 1"
      by (simp add: unat_sub_if' unat_eq_0 word_le_nat_alt split: if_splits)
    have 2: "unat (usecs big + 1000000 - usecs small) = unat (usecs big) + 1000000 - unat (usecs small)"
    proof -
      have a: "unat (usecs big + 1000000) = unat (usecs big) + 1000000"
        using b by (simp add: unat_word_ariths)
      then show ?thesis using s by (simp add: unat_sub_if' word_le_nat_alt)
    qed
    from \<open>unat (secs small) < unat (secs big)\<close> obtain d
      where d: "unat (secs big) = Suc (unat (secs small) + d)"
      using less_imp_Suc_add by blast
    then have 3: "unat (secs big) - unat (secs small) - 1 = d" by simp
    show ?thesis using True lt b s
      by (simp add: time_sub_def Let_def usecs_of_def time_ok_unat 1 2 3) (use d in linarith)
  next
    case False
    then have ge: "unat (usecs small) \<le> unat (usecs big)" by (simp add: word_less_nat_alt)
    then have "unat (secs small) \<le> unat (secs big)" using le b s by (simp add: usecs_of_def)
    then have 1: "unat (secs big - secs small) = unat (secs big) - unat (secs small)"
      by (simp add: unat_sub_if' word_le_nat_alt)
    have 2: "unat (usecs big - usecs small) = unat (usecs big) - unat (usecs small)"
      using ge by (simp add: unat_sub_if' word_le_nat_alt)
    show ?thesis using False 1 2 ge le b s
      by (simp add: time_sub_def Let_def usecs_of_def time_ok_unat diff_mult_distrib)
  qed
qed

lemma time_diff_of:
  assumes "time_ok t1" "time_ok t2"
  shows "fst (iperf_time_diff t1 t2) = (if t1 \<le> t2 then 1 else 0)"
    and "int (usecs_of (snd (iperf_time_diff t1 t2))) = \<bar>int (usecs_of t1) - int (usecs_of t2)\<bar>"
    and "time_ok (snd (iperf_time_diff t1 t2))"
proof -
  show "fst (iperf_time_diff t1 t2) = (if t1 \<le> t2 then 1 else 0)"
    by (auto simp: iperf_time_diff_def Let_def)
  consider "t1 = t2" | "t2 < t1" | "t1 < t2" by fastforce
  then have "int (usecs_of (snd (iperf_time_diff t1 t2))) = \<bar>int (usecs_of t1) - int (usecs_of t2)\<bar>
      \<and> time_ok (snd (iperf_time_diff t1 t2))"
  proof cases
    case 1
    then show ?thesis by (simp add: iperf_time_diff_def usecs_of_def time_ok_def)
  next
    case 2
    with time_sub_of[of t1 t2] usecs_of_le[of t2 t1] assms show ?thesis
      by (auto simp: iperf_time_diff_def Let_def)
  next
    case 3
    with time_sub_of[of t2 t1] usecs_of_le[of t1 t2] assms show ?thesis
      by (auto simp: iperf_time_diff_def Let_def)
  qed
  then show "int (usecs_of (snd (iperf_time_diff t1 t2))) = \<bar>int (usecs_of t1) - int (usecs_of t2)\<bar>"
    and "time_ok (snd (iperf_time_diff t1 t2))" by simp_all
qed

end
