(* ===== verification/Timers.thy ===== *)
theory Timers
  imports Iperf_Time "HOL-Library.Monad_Syntax" "HOL-Library.Multiset"
begin

text \<open>
  \<open>timer.c\<close>: the timer package. The first part is the code as it is: \<open>Timer\<close> structures in a
  store of addresses, the doubly linked list \<open>timers\<close>, the free list \<open>free_timers\<close>, and the
  operations on them, pointer by pointer. An operation is \<open>None\<close> when it would dereference
  \<open>NULL\<close> or an address that is not allocated, or when its loop does not end.

  The second part is the abstract timer queue, a list of entries, with its contract
  (locale \<open>sorted_queue\<close>) and the refinement: on a well-formed store every operation returns and
  does to the linked list what the abstract operation does to the list of entries. The last part
  is about \<open>tmr_run\<close>: it ends, calls every due timer and no other.

  \<open>timer_proc\<close> and \<open>client_data\<close> are one field, the closure they make.
\<close>

section \<open>The store\<close>

type_synonym addr = nat

record 'd timer =
  timer_proc :: 'd
  t_usecs :: int
  t_periodic :: int
  t_time :: iperf_time
  t_prev :: "addr option"
  t_next :: "addr option"

record 'd tstate =
  store :: "addr \<Rightarrow> 'd timer option"
  timers :: "addr option"
  free_timers :: "addr option"

definition tmr_init :: "'d tstate" where
  "tmr_init = \<lparr>store = (\<lambda>_. None), timers = None, free_timers = None\<rparr>"

text \<open>\<open>upd a f\<close> is an assignment to fields of \<open>*a\<close>.\<close>

definition upd :: "addr \<Rightarrow> ('d timer \<Rightarrow> 'd timer) \<Rightarrow> 'd tstate \<Rightarrow> 'd tstate option" where
  "upd a f s = do { c \<leftarrow> store s a; Some (s\<lparr>store := (store s)(a \<mapsto> f c)\<rparr>) }"

definition getnow :: "iperf_time option \<Rightarrow> iperf_time \<Rightarrow> iperf_time" where
  "getnow nowP clock = (case nowP of Some t \<Rightarrow> t | None \<Rightarrow> clock)"

section \<open>The linked list\<close>

text \<open>The walk of \<open>list_add\<close>: \<open>t2prev\<close> and \<open>t2\<close> at the insertion point (\<open>t2 = NULL\<close> at the tail).\<close>

partial_function (option) find_slot ::
  "(addr \<Rightarrow> 'd timer option) \<Rightarrow> iperf_time \<Rightarrow> addr \<Rightarrow> addr option \<Rightarrow> (addr \<times> addr option) option"
  where [code]:
  "find_slot h time t2prev t2 =
     (case t2 of
        None \<Rightarrow> Some (t2prev, None)
      | Some a \<Rightarrow>
          do { n \<leftarrow> h a;
               if iperf_time_compare time (t_time n) < 0 then Some (t2prev, Some a)
               else find_slot h time a (t_next n) })"

definition list_add :: "addr \<Rightarrow> 'd tstate \<Rightarrow> 'd tstate option" where
  "list_add t s =
     (case timers s of
        None \<Rightarrow> upd t (\<lambda>c. c\<lparr>t_prev := None, t_next := None\<rparr>) (s\<lparr>timers := Some t\<rparr>)
      | Some head \<Rightarrow>
          do { tn \<leftarrow> store s t;
               hn \<leftarrow> store s head;
               if iperf_time_compare (t_time tn) (t_time hn) < 0 then
                 do { s1 \<leftarrow> upd t (\<lambda>c. c\<lparr>t_prev := None, t_next := Some head\<rparr>) s;
                      s2 \<leftarrow> upd head (\<lambda>c. c\<lparr>t_prev := Some t\<rparr>) s1;
                      Some (s2\<lparr>timers := Some t\<rparr>) }
               else
                 do { (t2prev, t2) \<leftarrow> find_slot (store s) (t_time tn) head (t_next hn);
                      s1 \<leftarrow> upd t2prev (\<lambda>c. c\<lparr>t_next := Some t\<rparr>) s;
                      s2 \<leftarrow> upd t (\<lambda>c. c\<lparr>t_prev := Some t2prev, t_next := t2\<rparr>) s1;
                      (case t2 of
                         None \<Rightarrow> Some s2
                       | Some a \<Rightarrow> upd a (\<lambda>c. c\<lparr>t_prev := Some t\<rparr>) s2) } })"

definition list_remove :: "addr \<Rightarrow> 'd tstate \<Rightarrow> 'd tstate option" where
  "list_remove t s =
     do { c \<leftarrow> store s t;
          s1 \<leftarrow> (case t_prev c of
                    None \<Rightarrow> Some (s\<lparr>timers := t_next c\<rparr>)
                  | Some p \<Rightarrow> upd p (\<lambda>n. n\<lparr>t_next := t_next c\<rparr>) s);
          (case t_next c of
             None \<Rightarrow> Some s1
           | Some a \<Rightarrow> upd a (\<lambda>n. n\<lparr>t_prev := t_prev c\<rparr>) s1) }"

definition list_resort :: "addr \<Rightarrow> 'd tstate \<Rightarrow> 'd tstate option" where
  "list_resort t s = do { s1 \<leftarrow> list_remove t s; list_add t s1 }"

section \<open>The operations\<close>

text \<open>
  \<open>tmr_create\<close>: \<open>mem\<close> is what \<open>malloc\<close> returns when it is called. A cell taken from the free list
  is overwritten field by field, so both ways end in the same assignments.
\<close>

definition tmr_create ::
  "iperf_time option \<Rightarrow> iperf_time \<Rightarrow> addr option \<Rightarrow> 'd \<Rightarrow> int \<Rightarrow> int \<Rightarrow> 'd tstate
   \<Rightarrow> (addr option \<times> 'd tstate) option" where
  "tmr_create nowP clock mem proc us periodic s =
     (let now = getnow nowP clock;
          cell = \<lparr>timer_proc = proc, t_usecs = us, t_periodic = periodic,
                  t_time = iperf_time_add_usecs now (word_of_int us),
                  t_prev = None, t_next = None\<rparr>
      in case free_timers s of
           Some t \<Rightarrow>
             do { c \<leftarrow> store s t;
                  s1 \<leftarrow> upd t (\<lambda>_. cell\<lparr>t_prev := t_prev c, t_next := t_next c\<rparr>)
                           (s\<lparr>free_timers := t_next c\<rparr>);
                  s2 \<leftarrow> list_add t s1;
                  Some (Some t, s2) }
         | None \<Rightarrow>
             (case mem of
                None \<Rightarrow> Some (None, s)
              | Some t \<Rightarrow>
                  do { s2 \<leftarrow> list_add t (s\<lparr>store := (store s)(t \<mapsto> cell)\<rparr>);
                       Some (Some t, s2) }))"

text \<open>The \<open>struct timeval\<close> of \<open>tmr_timeout\<close> is the pair of its fields.\<close>

definition tmr_timeout ::
  "iperf_time option \<Rightarrow> iperf_time \<Rightarrow> 'd tstate \<Rightarrow> (int \<times> int) option option" where
  "tmr_timeout nowP clock s =
     (let now = getnow nowP clock
      in case timers s of
           None \<Rightarrow> Some None
         | Some t \<Rightarrow>
             do { c \<leftarrow> store s t;
                  let (past, diff) = iperf_time_diff (t_time c) now;
                      us = (if c_true past then 0 else uint (iperf_time_in_usecs diff))
                  in Some (Some (us div 1000000, us mod 1000000)) })"

definition tmr_cancel :: "addr \<Rightarrow> 'd tstate \<Rightarrow> 'd tstate option" where
  "tmr_cancel t s =
     do { s1 \<leftarrow> list_remove t s;
          s2 \<leftarrow> upd t (\<lambda>c. c\<lparr>t_next := free_timers s1, t_prev := None\<rparr>) s1;
          Some (s2\<lparr>free_timers := Some t\<rparr>) }"

text \<open>A timer procedure gets its closure, the time, and both the timers and the rest of the program's
state: the procedure of the omit period resets other timers while the list is being run.\<close>

type_synonym ('d, 'w) proc = "'d \<Rightarrow> iperf_time \<Rightarrow> 'd tstate \<times> 'w \<Rightarrow> ('d tstate \<times> 'w) option"

partial_function (option) run_from ::
  "('d, 'w) proc \<Rightarrow> iperf_time \<Rightarrow> addr option \<Rightarrow> 'd tstate \<Rightarrow> 'w \<Rightarrow> ('d tstate \<times> 'w) option"
  where [code]:
  "run_from proc now t s w =
     (case t of
        None \<Rightarrow> Some (s, w)
      | Some a \<Rightarrow>
          do { c \<leftarrow> store s a;
               if iperf_time_compare (t_time c) now > 0 then Some (s, w)
               else
                 do { (s0, w') \<leftarrow> proc (timer_proc c) now (s, w);
                      c0 \<leftarrow> store s0 a;
                      if c_true (t_periodic c0) then
                        do { s1 \<leftarrow> upd a (\<lambda>c. c\<lparr>t_time :=
                                      iperf_time_add_usecs (t_time c) (word_of_int (t_usecs c))\<rparr>) s0;
                             s2 \<leftarrow> list_resort a s1;
                             run_from proc now (t_next c) s2 w' }
                      else
                        do { s1 \<leftarrow> tmr_cancel a s0;
                             run_from proc now (t_next c) s1 w' } } })"

definition tmr_run ::
  "('d, 'w) proc \<Rightarrow> iperf_time option \<Rightarrow> iperf_time \<Rightarrow> 'd tstate \<Rightarrow> 'w \<Rightarrow> ('d tstate \<times> 'w) option" where
  "tmr_run proc nowP clock s w = run_from proc (getnow nowP clock) (timers s) s w"

text \<open>A procedure that leaves the timers alone.\<close>

definition quiet :: "('d \<Rightarrow> iperf_time \<Rightarrow> 'w \<Rightarrow> 'w) \<Rightarrow> ('d, 'w) proc" where
  "quiet f d now sw = Some (fst sw, f d now (snd sw))"

definition tmr_reset ::
  "iperf_time option \<Rightarrow> iperf_time \<Rightarrow> addr \<Rightarrow> 'd tstate \<Rightarrow> 'd tstate option" where
  "tmr_reset nowP clock t s =
     do { s1 \<leftarrow> upd t (\<lambda>c. c\<lparr>t_time :=
                   iperf_time_add_usecs (getnow nowP clock) (word_of_int (t_usecs c))\<rparr>) s;
          list_resort t s1 }"

partial_function (option) tmr_cleanup :: "'d tstate \<Rightarrow> 'd tstate option" where [code]:
  "tmr_cleanup s =
     (case free_timers s of
        None \<Rightarrow> Some s
      | Some t \<Rightarrow>
          do { c \<leftarrow> store s t;
               tmr_cleanup (s\<lparr>free_timers := t_next c, store := (store s)(t := None)\<rparr>) })"

partial_function (option) cancel_all :: "'d tstate \<Rightarrow> 'd tstate option" where [code]:
  "cancel_all s =
     (case timers s of
        None \<Rightarrow> Some s
      | Some t \<Rightarrow> do { s1 \<leftarrow> tmr_cancel t s; cancel_all s1 })"

definition tmr_destroy :: "'d tstate \<Rightarrow> 'd tstate option" where
  "tmr_destroy s = do { s1 \<leftarrow> cancel_all s; tmr_cleanup s1 }"

section \<open>The abstract timer queue\<close>

datatype 'd entry =
  Entry (e_addr: addr) (e_proc: 'd) (e_usecs: int) (e_periodic: int) (e_time: iperf_time)

text \<open>A timer goes after every timer that is not later: equal times keep their order.\<close>

definition enq :: "'d entry \<Rightarrow> 'd entry list \<Rightarrow> 'd entry list" where
  "enq e q = takeWhile (\<lambda>x. e_time x \<le> e_time e) q @ e # dropWhile (\<lambda>x. e_time x \<le> e_time e) q"

definition deq :: "addr \<Rightarrow> 'd entry list \<Rightarrow> 'd entry list" where
  "deq a q = filter (\<lambda>x. e_addr x \<noteq> a) q"

definition tq_sorted :: "'d entry list \<Rightarrow> bool" where
  "tq_sorted q \<longleftrightarrow> sorted (map e_time q)"

text \<open>
  The contract of a queue of timed items: what the client of the timer package relies on.
\<close>

locale sorted_queue =
  fixes key :: "'e \<Rightarrow> 'k::linorder"
    and ins :: "'e \<Rightarrow> 'e list \<Rightarrow> 'e list"
    and del :: "'a \<Rightarrow> 'e list \<Rightarrow> 'e list"
    and name_of :: "'e \<Rightarrow> 'a"
  assumes ins_elems: "mset (ins e q) = add_mset e (mset q)"
    and ins_sorted: "sorted (map key q) \<Longrightarrow> sorted (map key (ins e q))"
    and del_elems: "mset (del a q) = filter_mset (\<lambda>x. name_of x \<noteq> a) (mset q)"
    and del_sorted: "sorted (map key q) \<Longrightarrow> sorted (map key (del a q))"
begin

lemma head_min: "sorted (map key (x # q)) \<Longrightarrow> y \<in> set (x # q) \<Longrightarrow> key x \<le> key y"
  by auto

lemma due_prefix: "sorted (map key q) \<Longrightarrow> takeWhile (\<lambda>x. key x \<le> t) q = filter (\<lambda>x. key x \<le> t) q"
proof (induction q)
  case (Cons x q)
  have "filter (\<lambda>y. key y \<le> t) q = []" if "\<not> key x \<le> t"
    using that Cons.prems by (auto simp: filter_empty_conv)
  with Cons show ?case by auto
qed simp

lemma set_ins [simp]: "set (ins e q) = insert e (set q)"
  using ins_elems by (metis set_mset_add_mset_insert set_mset_mset)

lemma set_del [simp]: "set (del a q) = {x \<in> set q. name_of x \<noteq> a}"
  using del_elems by (metis set_mset_filter set_mset_mset)

text \<open>Rescheduling an item leaves the others and the order alone.\<close>

lemma resched:
  assumes "sorted (map key q)"
  shows "sorted (map key (ins e (del a q)))"
    and "mset (ins e (del a q)) = add_mset e (filter_mset (\<lambda>x. name_of x \<noteq> a) (mset q))"
  using assms by (simp_all add: ins_sorted del_sorted ins_elems del_elems)

lemma length_ins [simp]: "length (ins e q) = Suc (length q)"
  using ins_elems by (metis size_add_mset size_mset)

end

lemma sorted_enq: "sorted (map e_time q) \<Longrightarrow> sorted (map e_time (enq e q))"
  by (induction q) (auto simp: enq_def dest: set_takeWhileD set_dropWhileD intro: order.trans)

interpretation tqueue: sorted_queue e_time enq deq e_addr
proof unfold_locales
  fix e :: "'d entry" and q :: "'d entry list" and a :: addr
  have "mset q = mset (takeWhile (\<lambda>x. e_time x \<le> e_time e) q)
      + mset (dropWhile (\<lambda>x. e_time x \<le> e_time e) q)"
    by (metis mset_append takeWhile_dropWhile_id)
  then show "mset (enq e q) = add_mset e (mset q)"
    by (simp add: enq_def)
  show "sorted (map e_time q) \<Longrightarrow> sorted (map e_time (enq e q))"
    by (rule sorted_enq)
  show "mset (deq a q) = filter_mset (\<lambda>x. e_addr x \<noteq> a) (mset q)"
    by (simp add: deq_def mset_filter)
  show "sorted (map e_time q) \<Longrightarrow> sorted (map e_time (deq a q))"
    by (simp add: deq_def sorted_filter)
qed

section \<open>Well-formed stores\<close>

definition cell :: "'d entry \<Rightarrow> addr option \<Rightarrow> addr option \<Rightarrow> 'd timer" where
  "cell e p n = \<lparr>timer_proc = e_proc e, t_usecs = e_usecs e, t_periodic = e_periodic e,
                 t_time = e_time e, t_prev = p, t_next = n\<rparr>"

lemma cell_sel [simp]:
  "timer_proc (cell e p n) = e_proc e" "t_usecs (cell e p n) = e_usecs e"
  "t_periodic (cell e p n) = e_periodic e" "t_time (cell e p n) = e_time e"
  "t_prev (cell e p n) = p" "t_next (cell e p n) = n"
  "(cell e p n)\<lparr>t_prev := p'\<rparr> = cell e p' n" "(cell e p n)\<lparr>t_next := n'\<rparr> = cell e p n'"
  "cell e p n = cell e p' n' \<longleftrightarrow> p = p' \<and> n = n'"
  by (simp_all add: cell_def)

text \<open>
  \<open>seg h p f es l n\<close>: from the pointer \<open>f\<close>, the store holds the entries \<open>es\<close> one after the other;
  the first cell's \<open>prev\<close> is \<open>p\<close>, the last cell's \<open>next\<close> is \<open>n\<close>, and \<open>l\<close> is the last address.
\<close>

fun seg :: "(addr \<Rightarrow> 'd timer option) \<Rightarrow> addr option \<Rightarrow> addr option \<Rightarrow> 'd entry list
    \<Rightarrow> addr option \<Rightarrow> addr option \<Rightarrow> bool" where
  "seg h p f [] l n \<longleftrightarrow> f = n \<and> l = p"
| "seg h p f (e # es) l n \<longleftrightarrow>
     f = Some (e_addr e) \<and>
     (\<exists>n1. h (e_addr e) = Some (cell e p n1) \<and> seg h (Some (e_addr e)) n1 es l n)"

fun flist :: "(addr \<Rightarrow> 'd timer option) \<Rightarrow> addr option \<Rightarrow> addr list \<Rightarrow> bool" where
  "flist h f [] \<longleftrightarrow> f = None"
| "flist h f (a # as) \<longleftrightarrow> f = Some a \<and> (\<exists>c. h a = Some c \<and> flist h (t_next c) as)"

text \<open>\<open>tq s es fs\<close>: the active list holds \<open>es\<close>, the free list the addresses \<open>fs\<close>.\<close>

definition tq :: "'d tstate \<Rightarrow> 'd entry list \<Rightarrow> addr list \<Rightarrow> bool" where
  "tq s es fs \<longleftrightarrow>
     (\<exists>l. seg (store s) None (timers s) es l None) \<and> flist (store s) (free_timers s) fs \<and>
     distinct (map e_addr es @ fs)"

text \<open>One more cell, in neither list.\<close>

definition tq_extra :: "'d tstate \<Rightarrow> 'd entry \<Rightarrow> 'd entry list \<Rightarrow> addr list \<Rightarrow> bool" where
  "tq_extra s e es fs \<longleftrightarrow>
     tq s es fs \<and> (\<exists>p n. store s (e_addr e) = Some (cell e p n)) \<and>
     e_addr e \<notin> set (map e_addr es @ fs)"

lemma seg_append:
  "seg h p f (xs @ ys) l n \<longleftrightarrow> (\<exists>m k. seg h p f xs m k \<and> seg h m k ys l n)"
  by (induction h p f xs l n rule: seg.induct) auto

lemma seg_frame [frame_simps]:
  "a \<notin> e_addr ` set es \<Longrightarrow> seg (h(a := v)) p f es l n = seg h p f es l n"
  by (induction es arbitrary: p f) auto

lemma seg_snoc:
  "seg h p f (xs @ [e]) l n \<longleftrightarrow>
     (\<exists>m. seg h p f xs m (Some (e_addr e)) \<and> l = Some (e_addr e) \<and>
          h (e_addr e) = Some (cell e m n))"
  by (auto simp: seg_append)

lemma flist_frame [frame_simps]:
  "a \<notin> set as \<Longrightarrow> flist (h(a := v)) f as = flist h f as"
  by (induction as arbitrary: f) auto

definition head_addr :: "'d entry list \<Rightarrow> addr option" where
  "head_addr es = (case es of [] \<Rightarrow> None | e # _ \<Rightarrow> Some (e_addr e))"

lemma head_addr_simps [simp]: "head_addr [] = None" "head_addr (e # es) = Some (e_addr e)"
  by (simp_all add: head_addr_def)

lemma seg_head: "seg h p f es l None \<Longrightarrow> f = head_addr es"
  by (cases es) auto

lemma find_slot_seg:
  assumes "seg h m k es l None"
  shows "find_slot h tm p k =
    Some (last (p # map e_addr (takeWhile (\<lambda>x. e_time x \<le> tm) es)),
          head_addr (dropWhile (\<lambda>x. e_time x \<le> tm) es))"
  using assms
proof (induction es arbitrary: m k p)
  case Nil
  then show ?case by (subst find_slot.simps) simp
next
  case (Cons e es)
  then obtain n1 where "k = Some (e_addr e)" "h (e_addr e) = Some (cell e m n1)"
    and n1: "seg h (Some (e_addr e)) n1 es l None" by auto
  then show ?case using Cons.IH[OF n1, of "e_addr e"]
    by (subst find_slot.simps) (auto simp: not_le)
qed

lemma list_add_middle:
  assumes "seg h None f (xs @ [y]) (Some (e_addr y)) k" "seg h (Some (e_addr y)) k zs l None"
    and "h (e_addr e) = Some (cell e p n)"
    and "distinct (e_addr e # map e_addr (xs @ y # zs))"
  defines "h1 \<equiv> h(e_addr y \<mapsto> cell y (t_prev (the (h (e_addr y)))) (Some (e_addr e)),
                  e_addr e \<mapsto> cell e (Some (e_addr y)) k)"
  shows "\<exists>l. seg (case zs of [] \<Rightarrow> h1
                  | z # _ \<Rightarrow> h1(e_addr z \<mapsto> (the (h (e_addr z)))\<lparr>t_prev := Some (e_addr e)\<rparr>))
              None f (xs @ y # e # zs) l None"
proof (cases zs)
  case Nil
  with assms show ?thesis
    by (auto simp: h1_def seg_append seg_snoc frame_simps)
next
  case (Cons z zs')
  with assms show ?thesis
    by (auto simp: h1_def seg_append seg_snoc frame_simps)
qed

lemma list_add_tq:
  assumes x: "tq_extra s e es fs"
  shows "\<exists>s'. list_add (e_addr e) s = Some s' \<and> tq s' (enq e es) fs"
proof -
  let ?h = "store s" and ?t = "e_addr e" and ?P = "\<lambda>x. e_time x \<le> e_time e"
  from x obtain l p n where sg: "seg ?h None (timers s) es l None"
    and fl: "flist ?h (free_timers s) fs" and dist: "distinct (map e_addr es @ fs)"
    and t: "?h ?t = Some (cell e p n)" and new: "?t \<notin> set (map e_addr es @ fs)"
    by (auto simp: tq_extra_def tq_def)
  show ?thesis
  proof (cases es)
    case Nil
    with sg t fl dist new show ?thesis
      by (auto simp: list_add_def upd_def tq_def enq_def frame_simps)
  next
    case (Cons x xs)
    with sg obtain k where hd: "timers s = Some (e_addr x)" "?h (e_addr x) = Some (cell x None k)"
      and k: "seg ?h (Some (e_addr x)) k xs l None" by auto
    show ?thesis
    proof (cases "e_time e < e_time x")
      case True
      then show ?thesis using Cons hd k t fl dist new
        by (auto simp: list_add_def upd_def tq_def enq_def frame_simps)
    next
      case False
      then have px: "?P x" by simp
      define ys where "ys = takeWhile ?P xs"
      define zs where "zs = dropWhile ?P xs"
      have xs: "xs = ys @ zs" by (simp add: ys_def zs_def)
      obtain as y where asy: "x # ys = as @ [y]" by (metis append_butlast_last_id list.discI)
      have es: "es = as @ [y] @ zs" using Cons xs asy by simp
      have lst: "last (e_addr x # map e_addr ys) = e_addr y"
        using asy by (metis last_map last_snoc list.discI list.simps(9))
      have fs: "find_slot ?h (e_time e) (e_addr x) k = Some (e_addr y, head_addr zs)"
        using find_slot_seg[OF k, of "e_time e" "e_addr x"] lst by (simp add: ys_def zs_def)
      from sg obtain m j where s1: "seg ?h None (timers s) (as @ [y]) (Some (e_addr y)) j"
        and s2: "seg ?h (Some (e_addr y)) j zs l None"
        unfolding es append_assoc[symmetric] by (subst (asm) seg_append) (auto simp: seg_snoc)
      then have j: "j = head_addr zs" by (simp add: seg_head)
      have dist2: "distinct (?t # map e_addr (as @ y # zs))" and fnot: "set fs \<inter> e_addr ` set es = {}"
        using dist new es by auto
      obtain l' where l': "seg (case zs of [] \<Rightarrow> ?h(e_addr y \<mapsto> cell y (t_prev (the (?h (e_addr y)))) (Some ?t),
                  ?t \<mapsto> cell e (Some (e_addr y)) j)
               | z # _ \<Rightarrow> (?h(e_addr y \<mapsto> cell y (t_prev (the (?h (e_addr y)))) (Some ?t),
                  ?t \<mapsto> cell e (Some (e_addr y)) j))(e_addr z \<mapsto> (the (?h (e_addr z)))\<lparr>t_prev := Some ?t\<rparr>))
              None (timers s) (as @ y # e # zs) l' None"
        using list_add_middle[OF s1 s2 t dist2] by blast
      have enq: "enq e es = as @ y # e # zs"
        using px asy by (simp add: enq_def Cons flip: ys_def zs_def)
      from s1 obtain m where y: "?h (e_addr y) = Some (cell y m j)" by (auto simp: seg_snoc)
      show ?thesis
      proof (cases zs)
        case Nil
        then show ?thesis using hd px fs y l' j t dist2 fl fnot new dist es unfolding enq
          by (auto simp: list_add_def upd_def tq_def frame_simps)
      next
        case (Cons z zs')
        then obtain n2 where z: "?h (e_addr z) = Some (cell z (Some (e_addr y)) n2)" using s2 by auto
        show ?thesis using Cons z hd px fs y l' j t dist2 fl fnot new dist es unfolding enq
          by (auto simp: list_add_def upd_def tq_def frame_simps)
      qed
    qed
  qed
qed

lemma list_remove_tq:
  assumes "tq s (xs @ e # ys) fs"
  shows "\<exists>s'. list_remove (e_addr e) s = Some s' \<and> tq_extra s' e (xs @ ys) fs \<and>
              free_timers s' = free_timers s"
proof -
  let ?h = "store s"
  from assms obtain l m n1 where fl: "flist ?h (free_timers s) fs"
    and dist: "distinct (map e_addr (xs @ e # ys) @ fs)"
    and s1: "seg ?h None (timers s) xs m (Some (e_addr e))"
    and e: "?h (e_addr e) = Some (cell e m n1)"
    and s2: "seg ?h (Some (e_addr e)) n1 ys l None"
    by (auto simp: tq_def seg_append)
  consider "xs = []" "ys = []" | x xs' where "xs = xs' @ [x]" "ys = []" | y ys' where "xs = []" "ys = y # ys'"
    | x xs' y ys' where "xs = xs' @ [x]" "ys = y # ys'"
    by (metis list.exhaust rev_exhaust)
  then show ?thesis
  proof cases
    case 1
    with s1 s2 e fl dist show ?thesis
      by (auto simp: list_remove_def upd_def tq_extra_def tq_def)
  next
    case 2
    with s1 s2 e fl dist show ?thesis
      by (auto simp: list_remove_def upd_def tq_extra_def tq_def seg_snoc frame_simps)
  next
    case 3
    with s1 s2 e fl dist show ?thesis
      by (auto simp: list_remove_def upd_def tq_extra_def tq_def seg_snoc frame_simps)
  next
    case 4
    with s1 s2 e fl dist show ?thesis
      by (auto simp: list_remove_def upd_def tq_extra_def tq_def seg_append seg_snoc frame_simps)
  qed
qed

section \<open>The operations refine the abstract queue\<close>

lemma deq_split:
  "distinct (map e_addr (xs @ e # ys)) \<Longrightarrow> deq (e_addr e) (xs @ e # ys) = xs @ ys"
proof -
  assume "distinct (map e_addr (xs @ e # ys))"
  then have "e_addr e \<notin> e_addr ` set xs" "e_addr e \<notin> e_addr ` set ys" by auto
  then have "filter (\<lambda>x. e_addr x \<noteq> e_addr e) xs = xs" "filter (\<lambda>x. e_addr x \<noteq> e_addr e) ys = ys"
    unfolding filter_id_conv by (metis image_eqI)+
  then show ?thesis by (simp add: deq_def)
qed

lemma tq_distinct: "tq s es fs \<Longrightarrow> distinct (map e_addr es)"
  by (simp add: tq_def)

lemma tq_head: "tq s es fs \<Longrightarrow> timers s = head_addr es"
  by (auto simp: tq_def dest: seg_head)

definition retime :: "iperf_time \<Rightarrow> 'd entry \<Rightarrow> 'd entry" where
  "retime tm e = Entry (e_addr e) (e_proc e) (e_usecs e) (e_periodic e) tm"

lemma retime_sel [simp]:
  "e_addr (retime tm e) = e_addr e" "e_proc (retime tm e) = e_proc e"
  "e_usecs (retime tm e) = e_usecs e" "e_periodic (retime tm e) = e_periodic e"
  "e_time (retime tm e) = tm"
  by (simp_all add: retime_def)

lemma retime_same [simp]: "retime (e_time e) e = e"
  by (cases e) (simp add: retime_def)

lemma cell_retime [simp]: "(cell e p n)\<lparr>t_time := tm\<rparr> = cell (retime tm e) p n"
  by (simp add: cell_def)

lemma tq_store:
  assumes "tq s (xs @ e # ys) fs"
  obtains p where "store s (e_addr e) = Some (cell e p (head_addr ys))"
  using assms by (auto simp: tq_def seg_append dest: seg_head)

lemma upd_time_tq:
  assumes "tq s (xs @ e # ys) fs" "store s (e_addr e) = Some c"
  shows "tq (s\<lparr>store := (store s)(e_addr e \<mapsto> c\<lparr>t_time := tm\<rparr>)\<rparr>) (xs @ retime tm e # ys) fs"
  using assms by (auto simp: tq_def seg_append frame_simps)

lemma list_resort_tq:
  assumes "tq s (xs @ e # ys) fs"
  shows "\<exists>s'. list_resort (e_addr e) s = Some s' \<and> tq s' (enq e (xs @ ys)) fs"
  using list_remove_tq[OF assms] list_add_tq unfolding list_resort_def by fastforce

lemma tmr_cancel_tq:
  assumes "tq s (xs @ e # ys) fs"
  shows "\<exists>s'. tmr_cancel (e_addr e) s = Some s' \<and> tq s' (xs @ ys) (e_addr e # fs)"
proof -
  obtain s1 where s1: "list_remove (e_addr e) s = Some s1" and x: "tq_extra s1 e (xs @ ys) fs"
    using list_remove_tq[OF assms] by blast
  from x obtain p n where "store s1 (e_addr e) = Some (cell e p n)" by (auto simp: tq_extra_def)
  with s1 x show ?thesis
    by (auto simp: tmr_cancel_def upd_def tq_extra_def tq_def frame_simps image_Un)
qed

lemma tmr_reset_tq:
  assumes "tq s (xs @ e # ys) fs"
  shows "\<exists>s'. tmr_reset nowP clock (e_addr e) s = Some s' \<and>
    tq s' (enq (retime (iperf_time_add_usecs (getnow nowP clock) (word_of_int (e_usecs e))) e)
              (xs @ ys)) fs"
proof -
  obtain p where c: "store s (e_addr e) = Some (cell e p (head_addr ys))"
    using tq_store[OF assms] .
  show ?thesis
    using list_resort_tq[OF upd_time_tq[OF assms c]] c
    by (simp add: tmr_reset_def upd_def)
qed

lemma tmr_create_tq:
  assumes q: "tq s es fs" and fresh: "\<And>a. mem = Some a \<Longrightarrow> store s a = None"
    and full: "fs \<noteq> [] \<or> mem \<noteq> None"
  shows "\<exists>a s'. tmr_create nowP clock mem proc us per s = Some (Some a, s') \<and>
    tq s' (enq (Entry a proc us per
                  (iperf_time_add_usecs (getnow nowP clock) (word_of_int us))) es) (tl fs) \<and>
    a \<notin> e_addr ` set es \<and> (if fs = [] then mem = Some a else a = hd fs)"
proof (cases fs)
  case Nil
  then obtain a where a: "mem = Some a" using full by auto
  let ?e = "Entry a proc us per (iperf_time_add_usecs (getnow nowP clock) (word_of_int us))"
  have notin: "a \<notin> e_addr ` set es"
  proof
    assume "a \<in> e_addr ` set es"
    then obtain e xs ys where "es = xs @ e # ys" "e_addr e = a" by (metis image_iff split_list)
    then show False using q tq_store[of s xs e ys fs] fresh[OF a] by auto
  qed
  have "free_timers s = None" using q Nil by (simp add: tq_def)
  moreover have "tq_extra (s\<lparr>store := (store s)(a \<mapsto> cell ?e None None)\<rparr>) ?e es []"
    using q Nil notin by (auto simp: tq_extra_def tq_def frame_simps)
  from list_add_tq[OF this] obtain s' where
    "list_add a (s\<lparr>store := (store s)(a \<mapsto> cell ?e None None)\<rparr>) = Some s' \<and> tq s' (enq ?e es) []"
    by auto
  ultimately show ?thesis using a Nil notin
    by (auto simp: tmr_create_def Let_def cell_def)
next
  case (Cons a fs')
  let ?e = "Entry a proc us per (iperf_time_add_usecs (getnow nowP clock) (word_of_int us))"
  have notin: "a \<notin> e_addr ` set es" using q Cons by (auto simp: tq_def)
  from q Cons obtain c where c: "free_timers s = Some a" "store s a = Some c"
    by (auto simp: tq_def)
  let ?s1 = "s\<lparr>free_timers := t_next c, store := (store s)(a \<mapsto> cell ?e (t_prev c) (t_next c))\<rparr>"
  have "tq_extra ?s1 ?e es fs'"
    using q Cons notin c by (auto simp: tq_extra_def tq_def frame_simps)
  from list_add_tq[OF this] obtain s' where
    "list_add a ?s1 = Some s' \<and> tq s' (enq ?e es) fs'" by auto
  then show ?thesis using c Cons notin
    by (auto simp: tmr_create_def Let_def cell_def upd_def)
qed

lemma tmr_cleanup_tq:
  assumes "tq s es fs"
  shows "\<exists>s'. tmr_cleanup s = Some s' \<and> tq s' es [] \<and>
    store s' = (\<lambda>a. if a \<in> set fs then None else store s a)"
  using assms
proof (induction fs arbitrary: s)
  case Nil
  then show ?case by (subst tmr_cleanup.simps) (auto simp: tq_def)
next
  case (Cons a fs)
  then obtain c where c: "free_timers s = Some a" "store s a = Some c" by (auto simp: tq_def)
  let ?s1 = "s\<lparr>free_timers := t_next c, store := (store s)(a := None)\<rparr>"
  have "tq ?s1 es fs" using Cons.prems c by (auto simp: tq_def frame_simps)
  from Cons.IH[OF this] c show ?case by (subst tmr_cleanup.simps) (auto simp: fun_eq_iff)
qed

lemma cancel_all_tq:
  assumes "tq s es fs"
  shows "\<exists>s'. cancel_all s = Some s' \<and> tq s' [] (rev (map e_addr es) @ fs)"
  using assms
proof (induction es arbitrary: s fs)
  case Nil
  then show ?case by (subst cancel_all.simps) (auto simp: tq_def)
next
  case (Cons e es)
  then have "timers s = Some (e_addr e)" by (simp add: tq_head)
  moreover obtain s1 where "tmr_cancel (e_addr e) s = Some s1" "tq s1 es (e_addr e # fs)"
    using tmr_cancel_tq[of s "[]" e es fs] Cons.prems by auto
  ultimately show ?case using Cons.IH[of s1 "e_addr e # fs"] by (subst cancel_all.simps) auto
qed

section \<open>Running the due timers\<close>

text \<open>
  A timer is good at the time \<open>now\<close> when its fields are normalised and, if it is periodic, its
  period is positive and small enough for the 32-bit seconds of its next time. Two periodic
  timers with period zero would make \<open>tmr_run\<close> alternate between them for ever.
\<close>

definition timer_good :: "iperf_time \<Rightarrow> 'd entry \<Rightarrow> bool" where
  "timer_good now e \<longleftrightarrow>
     time_ok (e_time e) \<and>
     (e_periodic e \<noteq> 0 \<longrightarrow>
        0 < e_usecs e \<and> e_usecs e < 2 ^ 63 \<and>
        (usecs_of now + nat (e_usecs e)) div 1000000 < 2 ^ 32)"

definition due_once :: "iperf_time \<Rightarrow> 'd entry list \<Rightarrow> 'd entry set" where
  "due_once now es = {e \<in> set es. e_time e \<le> now \<and> e_periodic e = 0}"

definition next_time :: "'d entry \<Rightarrow> iperf_time" where
  "next_time e = iperf_time_add_usecs (e_time e) (word_of_int (e_usecs e))"

text \<open>A timer after \<open>n\<close> more of its periods.\<close>

definition after_periods :: "nat \<Rightarrow> 'd entry \<Rightarrow> 'd entry" where
  "after_periods n e = retime (((\<lambda>t. iperf_time_add_usecs t (word_of_int (e_usecs e))) ^^ n) (e_time e)) e"

definition calls :: "addr \<Rightarrow> 'd entry list \<Rightarrow> nat" where
  "calls a trace = length (filter (\<lambda>x. e_addr x = a) trace)"

lemma after_periods_0: "after_periods 0 e = e"
  by (cases e) (simp add: after_periods_def retime_def)

lemma after_periods_Suc: "after_periods n (retime (next_time e) e) = after_periods (Suc n) e"
  by (simp only: after_periods_def next_time_def retime_def entry.sel funpow_Suc_right o_apply)

lemma calls_simps [simp]:
  "calls a [] = 0" "calls a (x # xs) = (if e_addr x = a then Suc (calls a xs) else calls a xs)"
  by (simp_all add: calls_def)

definition work :: "iperf_time \<Rightarrow> 'd entry list \<Rightarrow> nat" where
  "work now es =
     (\<Sum>e\<leftarrow>es. if e_time e \<le> now then Suc (usecs_of now - usecs_of (e_time e)) else 0)"

lemma next_time_later:
  assumes "timer_good now e" "e_periodic e \<noteq> 0" "e_time e \<le> now" "time_ok now"
  shows "e_time e < next_time e \<and> time_ok (next_time e)"
proof -
  have le: "usecs_of (e_time e) \<le> usecs_of now" and us: "0 < e_usecs e" "e_usecs e < 2 ^ 63"
    and ok: "time_ok (e_time e)"
    using assms usecs_of_le[of "e_time e" now] by (auto simp: timer_good_def)
  then have u: "unat (word_of_int (e_usecs e) :: u64) = nat (e_usecs e)"
    by (simp add: unsigned_of_int take_bit_int_eq_self)
  have "(usecs_of (e_time e) + nat (e_usecs e)) div 1000000
      \<le> (usecs_of now + nat (e_usecs e)) div 1000000"
    using le by (simp add: div_le_mono)
  then have "usecs_of (next_time e) = usecs_of (e_time e) + nat (e_usecs e)"
    unfolding next_time_def using assms us ok
    by (subst add_usecs_of) (auto simp: u timer_good_def)
  then show ?thesis using ok us usecs_of_less[of "e_time e" "next_time e"]
    by (auto simp: next_time_def add_usecs_ok)
qed

lemma enq_append_le:
  "\<forall>x\<in>set xs. e_time x \<le> e_time e \<Longrightarrow> enq e (xs @ ys) = xs @ enq e ys"
  by (simp add: enq_def)

text \<open>Where the rescheduled timer goes, seen from the cursor of the loop.\<close>

lemma enq_cursor:
  assumes "\<forall>x\<in>set pre. e_time x \<le> e_time e"
  obtains pre' suf' where "enq e (pre @ suf) = pre' @ suf'" "head_addr suf' = head_addr suf"
    "pre' = pre \<and> suf' = enq e suf \<or> pre' = pre @ [e] \<and> suf' = suf"
proof (cases suf)
  case Nil
  with that[of "pre @ [e]" "[]"] assms show ?thesis by (simp add: enq_append_le enq_def)
next
  case (Cons x xs)
  show ?thesis
  proof (cases "e_time x \<le> e_time e")
    case True
    with that[of pre "enq e suf"] assms Cons show ?thesis by (simp add: enq_append_le enq_def)
  next
    case False
    with that[of "pre @ [e]" suf] assms Cons show ?thesis by (simp add: enq_append_le enq_def)
  qed
qed

lemma work_enq: "work now (enq e q) = work now (e # q)"
proof -
  have "work now q = work now (takeWhile (\<lambda>x. e_time x \<le> e_time e) q)
      + work now (dropWhile (\<lambda>x. e_time x \<le> e_time e) q)"
    by (metis (no_types, lifting) map_append sum_list_append takeWhile_dropWhile_id work_def)
  then show ?thesis by (simp add: enq_def work_def)
qed

text \<open>What the loop has done when it starts at the suffix \<open>suf\<close> of the queue \<open>pre @ suf\<close>.\<close>

definition ran :: "iperf_time \<Rightarrow> 'd entry list \<Rightarrow> 'd entry list \<Rightarrow> addr list
    \<Rightarrow> 'd entry list \<Rightarrow> 'd entry list \<Rightarrow> addr list \<Rightarrow> bool" where
  "ran now pre suf fs trace es' fs' \<longleftrightarrow>
     tq_sorted es' \<and>
     (\<forall>x\<in>set trace. \<exists>e\<in>set suf. x = retime (e_time x) e \<and> e_time e \<le> e_time x \<and> e_time x \<le> now) \<and>
     (\<forall>e\<in>set suf. e_time e \<le> now \<longrightarrow> e \<in> set trace) \<and>
     (\<forall>e\<in>due_once now suf. calls (e_addr e) trace = 1) \<and>
     (\<forall>e\<in>set suf. e_periodic e \<noteq> 0 \<longrightarrow> after_periods (calls (e_addr e) trace) e \<in> set es') \<and>
     e_addr ` set es' = e_addr ` (set (pre @ suf) - due_once now suf) \<and>
     (\<forall>e\<in>set pre \<union> {e \<in> set suf. now < e_time e}. e \<in> set es') \<and>
     set fs' = set fs \<union> e_addr ` due_once now suf"

lemma ran_stop:
  assumes "tq_sorted (pre @ suf)" "suf = [] \<or> now < e_time (hd suf)"
  shows "ran now pre suf fs [] (pre @ suf) fs"
proof -
  have "\<forall>e\<in>set suf. now < e_time e"
    using assms by (cases suf) (auto simp: tq_sorted_def sorted_append)
  then have "due_once now suf = {}" "\<forall>e\<in>set suf. \<not> e_time e \<le> now"
    by (auto simp: due_once_def)
  with assms show ?thesis by (auto simp: ran_def after_periods_0)
qed

lemma later_addr:
  assumes "distinct (map e_addr (pre @ e # suf))" "x \<in> set suf"
  shows "e_addr x \<noteq> e_addr e"
proof -
  have "e_addr e \<notin> e_addr ` set suf" using assms(1) by simp
  moreover have "e_addr x \<in> e_addr ` set suf" using assms(2) by simp
  ultimately show ?thesis by metis
qed

lemma due_once_addr:
  assumes "distinct (map e_addr (pre @ e # suf))" "x \<in> due_once now suf"
  shows "e_addr x \<noteq> e_addr e"
  using assms(2) by (intro later_addr[OF assms(1)]) (simp add: due_once_def)

lemma ran_once:
  assumes r: "ran now pre suf (e_addr e # fs) trace es' fs'"
    and e: "e_time e \<le> now" "e_periodic e = 0" and d: "distinct (map e_addr (pre @ e # suf))"
  shows "ran now pre (e # suf) fs (e # trace) es' fs'"
proof -
  have due: "due_once now (e # suf) = insert e (due_once now suf)"
    using e by (auto simp: due_once_def)
  have no: "e_addr x \<noteq> e_addr e" if "x \<in> set trace" for x
    using that r d unfolding ran_def by (metis (no_types, lifting) distinct.simps(2) distinct_append
        image_eqI list.simps(9) map_append retime_sel(1) set_map)
  then have "calls (e_addr e) trace = 0" by (simp add: calls_def filter_empty_conv)
  moreover have "e_addr x \<noteq> e_addr e" if "x \<in> set suf" for x
    using later_addr[OF d that] .
  moreover have "e_addr x \<noteq> e_addr e" if "x \<in> due_once now suf" for x
    using that due_once_addr[OF d] by blast
  moreover have "set (pre @ e # suf) - due_once now (e # suf) = set (pre @ suf) - due_once now suf"
    using d due by (auto simp: due_once_def)
  moreover have "after_periods (calls (e_addr x) (e # trace)) x \<in> set es'"
    if x: "x \<in> set (e # suf)" "e_periodic x \<noteq> 0" for x
  proof -
    have "x \<in> set suf" using x e(2) by auto
    moreover from this have "e_addr e \<noteq> e_addr x" using later_addr[OF d] by metis
    ultimately show ?thesis using r x(2) unfolding ran_def by simp
  qed
  moreover have "calls (e_addr x) (e # trace) = 1" if "x \<in> due_once now (e # suf)" for x
  proof (cases "x = e")
    case True
    then show ?thesis using \<open>calls (e_addr e) trace = 0\<close> by simp
  next
    case False
    then have x: "x \<in> due_once now suf" using that due by simp
    then have "e_addr e \<noteq> e_addr x" using due_once_addr[OF d] by metis
    with x r show ?thesis unfolding ran_def by simp
  qed
  ultimately show ?thesis using r e unfolding ran_def due
    by (intro conjI ballI) auto
qed

lemma ranI:
  assumes "tq_sorted es'"
    "\<And>x. x \<in> set trace \<Longrightarrow> \<exists>e\<in>set suf. x = retime (e_time x) e \<and> e_time e \<le> e_time x \<and> e_time x \<le> now"
    "\<And>y. y \<in> set suf \<Longrightarrow> e_time y \<le> now \<Longrightarrow> y \<in> set trace"
    "\<And>y. y \<in> due_once now suf \<Longrightarrow> calls (e_addr y) trace = 1"
    "\<And>y. y \<in> set suf \<Longrightarrow> e_periodic y \<noteq> 0 \<Longrightarrow> after_periods (calls (e_addr y) trace) y \<in> set es'"
    "e_addr ` set es' = e_addr ` (set (pre @ suf) - due_once now suf)"
    "\<And>y. y \<in> set pre \<union> {y \<in> set suf. now < e_time y} \<Longrightarrow> y \<in> set es'"
    "set fs' = set fs \<union> e_addr ` due_once now suf"
  shows "ran now pre suf fs trace es' fs'"
  using assms unfolding ran_def by (intro conjI ballI impI)

lemma ran_periodic:
  assumes r: "ran now pre' suf' fs trace es' fs'"
    and e: "e_time e \<le> now" "e_periodic e \<noteq> 0" "e_time e \<le> tm" and tm: "tm = next_time e"
    and d: "distinct (map e_addr (pre @ e # suf))"
    and s: "pre' = pre \<and> suf' = enq (retime tm e) suf \<or> pre' = pre @ [retime tm e] \<and> suf' = suf"
  shows "ran now pre (e # suf) fs (e # trace) es' fs'"
proof -
  have due: "due_once now (e # suf) = due_once now suf" "due_once now suf' = due_once now suf"
    using e s by (auto simp: due_once_def)
  have mem: "x \<in> set suf' \<Longrightarrow> x = retime tm e \<or> x \<in> set suf" for x using s by auto
  have tr: "\<exists>e'\<in>set (e # suf). x = retime (e_time x) e' \<and> e_time e' \<le> e_time x \<and> e_time x \<le> now"
    if "x \<in> set (e # trace)" for x
  proof (cases "x = e")
    case True
    with e show ?thesis by (intro bexI[of _ e]) (simp_all add: retime_def)
  next
    case False
    with that r obtain y where y: "y \<in> set suf'" "x = retime (e_time x) y" "e_time y \<le> e_time x"
      "e_time x \<le> now" unfolding ran_def by auto
    with mem[OF y(1)] e(3) show ?thesis by (auto simp: retime_def intro: order.trans)
  qed
  have addrs: "e_addr ` (set (pre @ e # suf) - due_once now suf)
      = e_addr ` (set (pre' @ suf') - due_once now suf)"
  proof -
    have "e \<notin> due_once now suf" "retime tm e \<notin> due_once now suf" using e by (auto simp: due_once_def)
    then have "set (pre @ e # suf) - due_once now suf = insert e (set (pre @ suf) - due_once now suf)"
      "set (pre' @ suf') - due_once now suf = insert (retime tm e) (set (pre @ suf) - due_once now suf)"
      using s by auto
    then show ?thesis by (simp only: image_insert retime_sel)
  qed
  have sub: "set suf \<subseteq> set suf'" "set pre \<subseteq> set pre'" using s by auto
  have per: "after_periods (calls (e_addr x) (e # trace)) x \<in> set es'"
    if x: "x \<in> set (e # suf)" "e_periodic x \<noteq> 0" for x
  proof (cases "x = e")
    case True
    have "after_periods (calls (e_addr e) trace) (retime tm e) \<in> set es'"
      using s
    proof
      assume "pre' = pre \<and> suf' = enq (retime tm e) suf"
      then have "retime tm e \<in> set suf'" by simp
      moreover have "\<forall>y\<in>set suf'. e_periodic y \<noteq> 0 \<longrightarrow> after_periods (calls (e_addr y) trace) y \<in> set es'"
        using r unfolding ran_def by simp
      ultimately have "e_periodic (retime tm e) \<noteq> 0 \<longrightarrow>
          after_periods (calls (e_addr (retime tm e)) trace) (retime tm e) \<in> set es'"
        by (rule bspec[rotated])
      with e(2) show ?thesis by (simp only: retime_sel) simp
    next
      assume a: "pre' = pre @ [retime tm e] \<and> suf' = suf"
      have "e_addr y \<noteq> e_addr e" if "y \<in> set trace" for y
      proof -
        have "\<forall>y\<in>set trace. \<exists>z\<in>set suf'. y = retime (e_time y) z \<and> e_time z \<le> e_time y \<and> e_time y \<le> now"
          using r unfolding ran_def by simp
        with that a obtain z where "z \<in> set suf" "y = retime (e_time y) z" by blast
        then show ?thesis using later_addr[OF d] by (metis retime_sel(1))
      qed
      then have "calls (e_addr e) trace = 0" by (simp add: calls_def filter_empty_conv)
      moreover have "retime tm e \<in> set es'" using r a unfolding ran_def by simp
      ultimately show ?thesis by (simp add: after_periods_0)
    qed
    then show ?thesis using after_periods_Suc[of _ e] by (simp add: True tm)
  next
    case False
    then have "x \<in> set suf" using x(1) by simp
    moreover from this have "e_addr e \<noteq> e_addr x" using later_addr[OF d] by metis
    ultimately show ?thesis using r x(2) sub(1) unfolding ran_def by auto
  qed
  have dues: "y \<in> set (e # trace)" if "y \<in> set (e # suf)" "e_time y \<le> now" for y
    using that r sub(1) unfolding ran_def by auto
  have kept: "y \<in> set es'" if "y \<in> set pre \<union> {y \<in> set (e # suf). now < e_time y}" for y
    using that r sub e(1) unfolding ran_def by (auto simp: leD)
  have one: "calls (e_addr y) (e # trace) = 1" if y: "y \<in> due_once now suf" for y
  proof -
    have "e_addr e \<noteq> e_addr y" using due_once_addr[OF d y] by metis
    with y r show ?thesis unfolding ran_def due by simp
  qed
  have same: "tq_sorted es'" "e_addr ` set es' = e_addr ` (set (pre' @ suf') - due_once now suf)"
    "set fs' = set fs \<union> e_addr ` due_once now suf"
    using r unfolding ran_def due by simp_all
  show ?thesis
  proof (rule ranI)
    show "e_addr ` set es' = e_addr ` (set (pre @ e # suf) - due_once now (e # suf))"
      unfolding due addrs by (rule same(2))
    show "set fs' = set fs \<union> e_addr ` due_once now (e # suf)"
      unfolding due by (rule same(3))
  qed (fact same(1), fact tr, fact dues, simp only: one due, fact per, fact kept)
qed

lemma run_from_tq:
  assumes "tq s (pre @ suf) fs" "tq_sorted (pre @ suf)" "\<forall>e\<in>set suf. timer_good now e" "time_ok now"
  shows "\<exists>s' es' fs' trace.
    run_from (quiet proc) now (head_addr suf) s w = Some (s', fold (\<lambda>e. proc (e_proc e) now) trace w) \<and>
    tq s' es' fs' \<and> ran now pre suf fs trace es' fs'"
  using assms
proof (induction "work now suf" arbitrary: s pre suf fs w rule: less_induct)
  case less
  note q = less.prems(1) and srt = less.prems(2) and good = less.prems(3) and now = less.prems(4)
  show ?case
  proof (cases "suf = [] \<or> now < e_time (hd suf)")
    case True
    have "run_from (quiet proc) now (head_addr suf) s w = Some (s, w)"
    proof (cases suf)
      case Nil
      then show ?thesis by (subst run_from.simps) simp
    next
      case (Cons e rest)
      with q obtain p where "store s (e_addr e) = Some (cell e p (head_addr rest))"
        using tq_store by blast
      with True Cons show ?thesis by (subst run_from.simps) simp
    qed
    with q ran_stop[OF srt True, of fs] show ?thesis
      by (intro exI[of _ s] exI[of _ "pre @ suf"] exI[of _ fs] exI[of _ "[]"]) simp
  next
    case False
    then obtain e rest where suf: "suf = e # rest" and due: "e_time e \<le> now" by (cases suf) auto
    obtain p where c: "store s (e_addr e) = Some (cell e p (head_addr rest))"
      using q tq_store unfolding suf by blast
    have d: "distinct (map e_addr (pre @ e # rest))" using q suf by (auto simp: tq_def)
    let ?w = "proc (e_proc e) now w"
    show ?thesis
    proof (cases "e_periodic e = 0")
      case True
      obtain s1 where s1: "tmr_cancel (e_addr e) s = Some s1" "tq s1 (pre @ rest) (e_addr e # fs)"
        using tmr_cancel_tq q suf by blast
      have "work now rest < work now suf" using due by (simp add: suf work_def)
      moreover have "tq_sorted (pre @ rest)" using srt by (auto simp: tq_sorted_def suf sorted_append)
      ultimately obtain s' es' fs' trace where r:
        "run_from (quiet proc) now (head_addr rest) s1 ?w = Some (s', fold (\<lambda>e. proc (e_proc e) now) trace ?w)"
        "tq s' es' fs'" "ran now pre rest (e_addr e # fs) trace es' fs'"
        using less.hyps[OF _ s1(2), of ?w] good now by (auto simp: suf)
      have "run_from (quiet proc) now (head_addr suf) s w
          = Some (s', fold (\<lambda>e. proc (e_proc e) now) (e # trace) w)"
        using r(1) c s1 due True by (subst run_from.simps) (simp add: quiet_def suf Let_def leD)
      with r(2) ran_once[OF r(3) due True d] show ?thesis unfolding suf by blast
    next
      case False
      let ?e = "retime (next_time e) e"
      have later: "e_time e < next_time e" "time_ok (next_time e)"
        using next_time_later[OF _ False due now] good by (simp_all add: suf)
      have le: "\<forall>x\<in>set pre. e_time x \<le> e_time ?e"
        using srt later by (auto simp: suf tq_sorted_def sorted_append intro: order.trans)
      obtain pre' suf' where ps: "enq ?e (pre @ rest) = pre' @ suf'" "head_addr suf' = head_addr rest"
        "pre' = pre \<and> suf' = enq ?e rest \<or> pre' = pre @ [?e] \<and> suf' = rest"
        using enq_cursor[OF le] .
      obtain s2 where s2: "list_resort (e_addr e)
            (s\<lparr>store := (store s)(e_addr e \<mapsto> cell ?e p (head_addr rest))\<rparr>) = Some s2"
          "tq s2 (pre' @ suf') fs"
        using list_resort_tq[OF upd_time_tq[OF q[unfolded suf] c, of "next_time e"]] ps by auto
      have "work now (?e # rest) < work now suf"
        using later due good now usecs_of_less[of "e_time e" "next_time e"]
          usecs_of_le[of "e_time e" now] usecs_of_le[of "next_time e" now]
        by (auto simp: work_def suf timer_good_def)
      then have "work now suf' < work now suf"
        using ps(3) work_enq[of now ?e rest] by (auto simp: work_def)
      moreover have "tq_sorted (pre' @ suf')"
        using srt unfolding ps(1)[symmetric] tq_sorted_def
        by (intro sorted_enq) (auto simp: suf sorted_append)
      moreover have "\<forall>x\<in>set suf'. timer_good now x"
        using ps(3) good later by (auto simp: suf timer_good_def)
      ultimately obtain s' es' fs' trace where r:
        "run_from (quiet proc) now (head_addr suf') s2 ?w = Some (s', fold (\<lambda>e. proc (e_proc e) now) trace ?w)"
        "tq s' es' fs'" "ran now pre' suf' fs trace es' fs'"
        using less.hyps[OF _ s2(2), of ?w] now by auto
      have "ran now pre suf fs (e # trace) es' fs'"
        unfolding suf using ran_periodic[OF r(3) due False _ refl d ps(3)] later by simp
      moreover have "run_from (quiet proc) now (head_addr suf) s w
          = Some (s', fold (\<lambda>e. proc (e_proc e) now) (e # trace) w)"
        using r(1) c s2 due False ps(2)
        by (subst run_from.simps) (simp add: quiet_def suf Let_def leD upd_def next_time_def c_true_def)
      ultimately show ?thesis using r(2) by blast
    qed
  qed
qed

text \<open>No operation on the lists allocates a cell.\<close>

lemma upd_dom: "upd a f s = Some s' \<Longrightarrow> store s x = None \<Longrightarrow> store s' x = None"
  by (cases "store s a") (auto simp: upd_def)

lemma list_remove_dom: "list_remove t s = Some s' \<Longrightarrow> store s x = None \<Longrightarrow> store s' x = None"
  by (cases "store s t")
    (auto simp: list_remove_def bind_eq_Some_conv dest!: upd_dom split: option.splits)

lemma tmr_cancel_dom: "tmr_cancel t s = Some s' \<Longrightarrow> store s x = None \<Longrightarrow> store s' x = None"
  by (auto simp: tmr_cancel_def bind_eq_Some_conv dest!: upd_dom list_remove_dom)

lemma cancel_all_frame:
  assumes "tq s es fs" "cancel_all s = Some s'" "store s x = None"
  shows "store s' x = None"
  using assms
proof (induction es arbitrary: s fs)
  case Nil
  then show ?case by (subst (asm) cancel_all.simps) (auto simp: tq_def)
next
  case (Cons e es)
  then have "timers s = Some (e_addr e)" by (simp add: tq_head)
  moreover obtain s1 where "tmr_cancel (e_addr e) s = Some s1" "tq s1 es (e_addr e # fs)"
    using tmr_cancel_tq[of s "[]" e es fs] Cons.prems by auto
  ultimately show ?case using Cons.IH Cons.prems tmr_cancel_dom
    by (subst (asm) (2) cancel_all.simps) fastforce
qed

section \<open>Properties\<close>

text \<open>C12: \<open>tmr_run\<close> with procedures that leave the timers alone ends, if the times of the timers are
  normalised, and the periods are positive and do not run past the range of a time. It calls the
  procedure of every timer that is due, of no other timer, and of a one-shot timer exactly once.
  Afterwards the list is still well linked and sorted, the one-shot timers that ran are on the free
  list, every periodic timer is queued one of its periods later for each of its calls, and the timers
  that were not due are untouched.\<close>

theorem tmr_run_calls_due:
  assumes "tq s es fs" "tq_sorted es" "\<forall>e\<in>set es. timer_good now e" "time_ok now"
  shows "\<exists>s' es' fs' trace.
    tmr_run (quiet proc) (Some now) clock s w = Some (s', fold (\<lambda>e. proc (e_proc e) now) trace w) \<and>
    tq s' es' fs' \<and> tq_sorted es' \<and>
    (\<forall>x\<in>set trace. \<exists>e\<in>set es. x = retime (e_time x) e \<and> e_time e \<le> e_time x \<and> e_time x \<le> now) \<and>
    (\<forall>e\<in>set es. e_time e \<le> now \<longrightarrow> e \<in> set trace) \<and>
    (\<forall>e\<in>due_once now es. calls (e_addr e) trace = 1) \<and>
    (\<forall>e\<in>set es. e_periodic e \<noteq> 0 \<longrightarrow> after_periods (calls (e_addr e) trace) e \<in> set es') \<and>
    e_addr ` set es' = e_addr ` (set es - due_once now es) \<and>
    (\<forall>e\<in>set es. now < e_time e \<longrightarrow> e \<in> set es') \<and>
    set fs' = set fs \<union> e_addr ` due_once now es"
proof -
  have "timers s = head_addr es" using assms(1) by (rule tq_head)
  moreover obtain s' es' fs' trace where
    "run_from (quiet proc) now (head_addr es) s w = Some (s', fold (\<lambda>e. proc (e_proc e) now) trace w)"
    "tq s' es' fs'" "ran now [] es fs trace es' fs'"
    using run_from_tq[of s "[]" es fs now proc w] assms by auto
  ultimately show ?thesis
    unfolding tmr_run_def getnow_def ran_def by (intro exI[of _ s'] exI[of _ es'] exI[of _ fs'] exI[of _ trace]) simp
qed

lemma tmr_run_calls_due_witness:
  "\<exists>s' es' fs' trace.
    tmr_run (quiet (\<lambda>d now log. log @ [d])) (Some (Iperf_Time 9 0)) (Iperf_Time 0 0)
      \<lparr>store = [10 \<mapsto> cell (Entry 10 True 1000000 1 (Iperf_Time 8 5)) None (Some 20),
                20 \<mapsto> cell (Entry 20 False 0 0 (Iperf_Time 8 7)) (Some 10) None],
       timers = Some 10, free_timers = None\<rparr> []
      = Some (s', fold (\<lambda>e log. log @ [e_proc e]) trace []) \<and>
    tq s' es' fs' \<and> set fs' = {20}"
proof -
  let ?e1 = "Entry 10 True 1000000 1 (Iperf_Time 8 5)" and ?e2 = "Entry 20 False 0 0 (Iperf_Time 8 7)"
  let ?s = "\<lparr>store = [10 \<mapsto> cell ?e1 None (Some 20), 20 \<mapsto> cell ?e2 (Some 10) None],
       timers = Some 10, free_timers = None\<rparr>"
  have q: "tq ?s [?e1, ?e2] []" by (simp add: tq_def)
  have srt: "tq_sorted [?e1, ?e2]"
    by (simp add: tq_sorted_def less_eq_iperf_time_def iperf_time_compare_def)
  have good: "\<forall>e\<in>set [?e1, ?e2]. timer_good (Iperf_Time 9 0) e"
    by (simp add: timer_good_def time_ok_def usecs_of_def)
  have ok: "time_ok (Iperf_Time 9 0)" by (simp add: time_ok_def)
  have due: "due_once (Iperf_Time 9 0) [?e1, ?e2] = {?e2}"
    by (auto simp: due_once_def less_eq_iperf_time_def iperf_time_compare_def)
  from tmr_run_calls_due[OF q srt good ok, of "\<lambda>d now log. log @ [d]" "Iperf_Time 0 0" "[]"]
  show ?thesis unfolding due
    by (elim exE conjE) (intro exI conjI, assumption, assumption, simp)
qed

text \<open>C33: \<open>tmr_timeout\<close> returns \<open>NULL\<close> exactly when no timer is pending; otherwise it returns a
  normalised \<open>timeval\<close>, the time from now to the earliest pending timer, or zero if that is past.\<close>

theorem tmr_timeout_earliest:
  assumes "tq s es fs" "tq_sorted es" "\<forall>e\<in>set es. time_ok (e_time e)" "time_ok now"
  shows "tmr_timeout (Some now) clock s =
    Some (if es = [] then None
          else let d = max 0 (Min ((\<lambda>e. int (usecs_of (e_time e))) ` set es) - int (usecs_of now))
               in Some (d div 1000000, d mod 1000000))"
proof (cases es)
  case Nil
  then show ?thesis using tq_head[OF assms(1)] by (simp add: tmr_timeout_def)
next
  case (Cons e rest)
  let ?d = "iperf_time_diff (e_time e) now"
  have okE: "time_ok (e_time e)" using assms(3) Cons by simp
  have "\<forall>x\<in>set es. usecs_of (e_time e) \<le> usecs_of (e_time x)"
    using assms(2,3) usecs_of_le unfolding tq_sorted_def Cons by auto
  then have min: "Min ((\<lambda>e. int (usecs_of (e_time e))) ` set es) = int (usecs_of (e_time e))"
    unfolding Cons by (intro Min_eqI) auto
  obtain p where c: "store s (e_addr e) = Some (cell e p (head_addr rest))"
    using tq_store[of s "[]" e rest fs] assms(1) Cons by auto
  have u: "uint (iperf_time_in_usecs (snd ?d)) = \<bar>int (usecs_of (e_time e)) - int (usecs_of now)\<bar>"
    using in_usecs_nat[of "snd ?d"] time_diff_of(2)[OF okE assms(4)] by (metis uint_nat)
  have "c_true (fst ?d) \<longleftrightarrow> usecs_of (e_time e) \<le> usecs_of now"
    using time_diff_of(1)[OF okE assms(4)] usecs_of_le[OF okE assms(4)] by simp
  then show ?thesis
    using tq_head[OF assms(1)] c u min
    by (simp add: tmr_timeout_def getnow_def Cons Let_def case_prod_unfold)
qed

lemma tmr_timeout_earliest_witness:
  "tmr_timeout (Some (Iperf_Time 6 500000)) (Iperf_Time 0 0)
      \<lparr>store = [1 \<mapsto> cell (Entry 1 True 1000000 1 (Iperf_Time 8 5)) None None],
       timers = Some 1, free_timers = None\<rparr> = Some (Some (1, 500005))"
proof -
  let ?e1 = "Entry 1 True 1000000 1 (Iperf_Time 8 5)"
  let ?s = "\<lparr>store = [1 \<mapsto> cell ?e1 None None], timers = Some 1, free_timers = None\<rparr>"
  have "tq ?s [?e1] []" by (simp add: tq_def)
  moreover have "tq_sorted [?e1]" by (simp add: tq_sorted_def)
  ultimately show ?thesis
    using tmr_timeout_earliest[of ?s "[?e1]" "[]" "Iperf_Time 6 500000" "Iperf_Time 0 0"]
    by (simp add: time_ok_def usecs_of_def Let_def)
qed

text \<open>C34: \<open>tmr_create\<close> reuses the head of the free list or a fresh cell, and puts the new timer,
  due \<open>usecs\<close> after now, behind every timer that is not later; the list stays sorted and well
  linked and no other timer changes. \<open>tmr_cancel\<close> then takes exactly that timer out again.\<close>

theorem tmr_create_cancel:
  assumes "tq s es fs" "tq_sorted es" "fs \<noteq> [] \<or> (\<exists>a. mem = Some a \<and> store s a = None)"
    and "fs = [] \<or> mem = None"
  shows "\<exists>a s1 s2. let e = Entry a proc us per (iperf_time_add_usecs now (word_of_int us)) in
    tmr_create (Some now) clock mem proc us per s = Some (Some a, s1) \<and>
    a \<notin> e_addr ` set es \<and> tq s1 (enq e es) (tl fs) \<and> tq_sorted (enq e es) \<and>
    tmr_cancel a s1 = Some s2 \<and> tq s2 es (a # tl fs)"
proof -
  obtain a s1 where c: "tmr_create (Some now) clock mem proc us per s = Some (Some a, s1)"
    and q: "tq s1 (enq (Entry a proc us per (iperf_time_add_usecs now (word_of_int us))) es) (tl fs)"
    and a: "a \<notin> e_addr ` set es"
    using tmr_create_tq[OF assms(1), of mem "Some now" clock proc us per] assms(3,4)
    by (auto simp: getnow_def)
  let ?e = "Entry a proc us per (iperf_time_add_usecs now (word_of_int us))"
  obtain s2 where "tmr_cancel a s1 = Some s2" "tq s2 es (a # tl fs)"
    using tmr_cancel_tq[OF q[unfolded enq_def]] by auto
  with c q a sorted_enq assms(2) show ?thesis unfolding tq_sorted_def Let_def by blast
qed

lemma tmr_create_cancel_witness:
  "\<exists>a s1 s2. tmr_create (Some (Iperf_Time 5 0)) (Iperf_Time 0 0) (Some 7) () 20 0 tmr_init
      = Some (Some a, s1) \<and> tmr_cancel a s1 = Some s2 \<and> tq s2 [] [a]"
proof -
  have "tq tmr_init [] []" by (simp add: tq_def tmr_init_def)
  moreover have "tq_sorted []" by (simp add: tq_sorted_def)
  ultimately show ?thesis
    using tmr_create_cancel[of "tmr_init :: unit tstate" "[]" "[]" "Some 7" "()" 20 0
        "Iperf_Time 5 0" "Iperf_Time 0 0"]
    by (auto simp: Let_def tmr_init_def)
qed

text \<open>\<open>tmr_destroy\<close> ends and frees every timer: when the allocated cells are those of the two
  lists, none is allocated afterwards and both lists are empty.\<close>

theorem tmr_destroy_frees:
  assumes "tq s es fs" "{a. store s a \<noteq> None} = e_addr ` set es \<union> set fs"
  shows "tmr_destroy s = Some tmr_init"
proof -
  obtain s1 where s1: "cancel_all s = Some s1" "tq s1 [] (rev (map e_addr es) @ fs)"
    using cancel_all_tq[OF assms(1)] by blast
  obtain s2 where s2: "tmr_cleanup s1 = Some s2" "tq s2 [] []"
    "store s2 = (\<lambda>a. if a \<in> set (rev (map e_addr es) @ fs) then None else store s1 a)"
    using tmr_cleanup_tq[OF s1(2)] by blast
  have "store s1 a = None" if "store s a = None" for a
    using that assms(1) s1(1) cancel_all_frame by blast
  then have "store s2 = (\<lambda>_. None)" using s2(3) assms(2) by (fastforce simp: fun_eq_iff)
  moreover have "timers s2 = None" "free_timers s2 = None" using s2(2) by (auto simp: tq_def)
  ultimately show ?thesis using s1 s2 by (simp add: tmr_destroy_def tmr_init_def)
qed

lemma tmr_destroy_frees_witness:
  "tmr_destroy \<lparr>store = [10 \<mapsto> cell (Entry 10 True 1000000 1 (Iperf_Time 8 5)) None None],
       timers = Some 10, free_timers = None\<rparr> = Some tmr_init"
proof -
  let ?e1 = "Entry 10 True 1000000 1 (Iperf_Time 8 5)"
  let ?s = "\<lparr>store = [10 \<mapsto> cell ?e1 None None], timers = Some 10, free_timers = None\<rparr>"
  have "tq ?s [?e1] []" by (simp add: tq_def)
  then show ?thesis by (rule tmr_destroy_frees) auto
qed

end
