(* ===== verification/Dscp.thy ===== *)
theory Dscp
  imports Prelude
begin

text \<open>
  \<open>dscp.c\<close>: the names of the IP type-of-service values, the parser of the \<open>--dscp\<close> argument and
  the printer. The constants are those the file defines itself (RFC 2474 code points).
\<close>

definition ipqos :: "(string \<times> int) list" where
  "ipqos =
    [(''af11'', 0x28), (''af12'', 0x30), (''af13'', 0x38), (''af21'', 0x48), (''af22'', 0x50),
     (''af23'', 0x58), (''af31'', 0x68), (''af32'', 0x70), (''af33'', 0x78), (''af41'', 0x88),
     (''af42'', 0x90), (''af43'', 0x98), (''cs0'', 0x00), (''cs1'', 0x20), (''cs2'', 0x40),
     (''cs3'', 0x60), (''cs4'', 0x80), (''cs5'', 0xa0), (''cs6'', 0xc0), (''cs7'', 0xe0),
     (''ef'', 0xb8), (''va'', 0xb0), (''lowdelay'', 0x10), (''throughput'', 0x08),
     (''reliability'', 0x04)]"

fun find_name :: "string \<Rightarrow> (string \<times> int) list \<Rightarrow> int option" where
  "find_name cp [] = None"
| "find_name cp ((n, v) # qs) = (if strcaseeq cp n then Some v else find_name cp qs)"

fun find_value :: "int \<Rightarrow> (string \<times> int) list \<Rightarrow> string option" where
  "find_value v [] = None"
| "find_value v ((n, w) # qs) = (if w = v then Some n else find_value v qs)"

text \<open>The argument is \<open>None\<close> for a \<open>NULL\<close> pointer.\<close>

definition parse_qos :: "string option \<Rightarrow> int" where
  "parse_qos cp_opt =
     (case cp_opt of
        None \<Rightarrow> - 1
      | Some cp \<Rightarrow>
          (case find_name cp ipqos of
             Some v \<Rightarrow> v
           | None \<Rightarrow>
               let (val, ep) = strtol cp 0
               in if cp = [] \<or> ep \<noteq> [] \<or> val < 0 \<or> val > 63 then - 1 else val * 4))"

definition iptos2str :: "int \<Rightarrow> string" where
  "iptos2str iptos =
     (let v = (if iptos < 0 \<or> iptos > 64 then 0 else iptos)
      in case find_value v ipqos of
           Some n \<Rightarrow> n
         | None \<Rightarrow> ''0x'' @ pad_left (CHR ''0'') 2 (print_base 16 (nat v)))"

lemma find_name_in: "find_name cp qs = Some v \<Longrightarrow> v \<in> snd ` set qs"
  by (induction cp qs rule: find_name.induct) (auto split: if_splits)

lemma ipqos_values: "v \<in> snd ` set ipqos \<Longrightarrow> 0 \<le> v \<and> v \<le> 252 \<and> v mod 4 = 0"
  by (auto simp: ipqos_def)

lemma qos_range:
  "parse_qos cp = - 1 \<or> (\<exists>d. 0 \<le> d \<and> d \<le> 63 \<and> parse_qos cp = 4 * d)"
proof (cases cp)
  case None
  then show ?thesis by (simp add: parse_qos_def)
next
  case (Some s)
  show ?thesis
  proof (cases "find_name s ipqos")
    case None
    with Some show ?thesis by (auto simp: parse_qos_def Let_def split: prod.split)
  next
    case found: (Some v)
    then have v: "0 \<le> v" "v \<le> 252" "v mod 4 = 0" using find_name_in ipqos_values by blast+
    then have "v = 4 * (v div 4)" "0 \<le> v div 4" "v div 4 \<le> 63" by presburger+
    with Some found show ?thesis by (simp add: parse_qos_def) metis
  qed
qed

text \<open>Whatever the string, \<open>parse_qos\<close> returns -1 or a type-of-service byte whose two ECN bits
  are clear, so the result always fits the byte that \<open>IP_TOS\<close> sets.\<close>

theorem parse_qos_range:
  "parse_qos cp = - 1 \<or> (\<exists>d. 0 \<le> d \<and> d \<le> 63 \<and> parse_qos cp = 4 * d)"
  by (rule qos_range)

lemma table_names: "list_all (\<lambda>(n, v). find_name n ipqos = Some v) ipqos"
  by code_simp

lemma find_name_table: "(n, v) \<in> set ipqos \<Longrightarrow> find_name n ipqos = Some v"
  using table_names by (auto simp: list_all_iff)

text \<open>Every name of the table denotes its value, whatever the case of its letters.\<close>

theorem parse_qos_names:
  "(\<forall>(n, v)\<in>set ipqos. parse_qos (Some n) = v) \<and>
   (\<forall>s t. strcaseeq s t \<longrightarrow> find_name s ipqos = find_name t ipqos)"
proof (intro conjI allI impI)
  show "\<forall>(n, v)\<in>set ipqos. parse_qos (Some n) = v"
    by (auto simp: parse_qos_def dest!: find_name_table)
  fix s t assume "strcaseeq s t"
  then have "strcaseeq s n \<longleftrightarrow> strcaseeq t n" for n by (simp add: strcaseeq_def)
  then have "find_name s qs = find_name t qs" for qs
    by (induction qs) auto
  then show "find_name s ipqos = find_name t ipqos" .
qed

lemma parse_qos_names_witness: "find_name ''EF'' ipqos = find_name ''ef'' ipqos"
proof -
  have "strcaseeq ''EF'' ''ef''" by code_simp
  with parse_qos_names show ?thesis by blast
qed

lemma iptos2str_af41: "iptos2str (parse_qos (Some ''AF41'')) = ''cs0''"
  by code_simp

end
