(* ===== verification/Units.thy ===== *)
theory Units
  imports Floats
begin

text \<open>
  \<open>units.c\<close>: numbers with a unit suffix, in both directions. \<open>scan_double\<close> is the directive
  \<open>"%lf"\<close> of \<open>sscanf\<close> on decimal numbers; it is \<open>None\<close> when no number is there, which leaves the
  code's variable uninitialised, and on the hexadecimal, infinity and NaN forms, which are outside
  the model. \<open>fmt_fixed\<close> is the directive \<open>"%.nf"\<close> of \<open>printf\<close>, which rounds the exact value.
\<close>

section \<open>Scanning and printing a double\<close>

definition frac_part :: "string \<Rightarrow> string \<times> string" where
  "frac_part r =
     (case r of
        c # r' \<Rightarrow> if c = CHR ''.'' then (takeWhile c_isdigit r', dropWhile c_isdigit r') else ([], r)
      | [] \<Rightarrow> ([], r))"

definition exp_part :: "string \<Rightarrow> int \<times> string" where
  "exp_part r =
     (case r of
        c # r' \<Rightarrow>
          if c = CHR ''e'' \<or> c = CHR ''E'' then
            (let (neg, q) = take_sign r'; ds = takeWhile c_isdigit q
             in if ds = [] then (0, r)
                else ((if neg then - 1 else 1) * int (digits_value 10 0 ds), dropWhile c_isdigit q))
          else (0, r)
      | [] \<Rightarrow> (0, r))"

definition pow10 :: "int \<Rightarrow> rat" where
  "pow10 k = (if 0 \<le> k then 10 ^ nat k else 1 / 10 ^ nat (- k))"

definition hex_form :: "string \<Rightarrow> bool" where
  "hex_form s =
     (case s of
        z # x # h # r \<Rightarrow>
          z = CHR ''0'' \<and> (x = CHR ''x'' \<or> x = CHR ''X'') \<and>
          (is_digit_of 16 h \<or> h = CHR ''.'' \<and> r \<noteq> [] \<and> is_digit_of 16 (hd r))
      | _ \<Rightarrow> False)"

definition scan_double :: "string \<Rightarrow> (dbl \<times> string) option" where
  "scan_double s =
     (let (neg, s1) = take_sign (dropWhile c_isspace s);
          ip = takeWhile c_isdigit s1;
          (fp, r1) = frac_part (dropWhile c_isdigit s1);
          (e, r2) = exp_part r1
      in if ip @ fp = [] \<or> hex_form s1 then None
         else Some (fl ((if neg then - 1 else 1) * of_nat (digits_value 10 0 (ip @ fp))
                        * pow10 (e - int (length fp))), r2))"

definition fmt_fixed :: "nat \<Rightarrow> dbl \<Rightarrow> string" where
  "fmt_fixed prec x =
     (let v = nat (rne (\<bar>x\<bar> * 10 ^ prec));
          body = dec_of_nat (v div 10 ^ prec) @
                 (if prec = 0 then []
                  else CHR ''.'' # pad_left (CHR ''0'') prec (dec_of_nat (v mod 10 ^ prec)))
      in if x < 0 then CHR ''-'' # body else body)"

section \<open>Units\<close>

definition KILO_UNIT :: dbl where "KILO_UNIT = 2 ^ 10"
definition MEGA_UNIT :: dbl where "MEGA_UNIT = 2 ^ 20"
definition GIGA_UNIT :: dbl where "GIGA_UNIT = 2 ^ 30"
definition TERA_UNIT :: dbl where "TERA_UNIT = 2 ^ 40"

definition KILO_RATE_UNIT :: dbl where "KILO_RATE_UNIT = 10 ^ 3"
definition MEGA_RATE_UNIT :: dbl where "MEGA_RATE_UNIT = 10 ^ 6"
definition GIGA_RATE_UNIT :: dbl where "GIGA_RATE_UNIT = 10 ^ 9"
definition TERA_RATE_UNIT :: dbl where "TERA_RATE_UNIT = 10 ^ 12"

text \<open>\<open>sscanf (s, "%lf%c", &n, &suffix)\<close>: the number, and the suffix, NUL if there is none.\<close>

definition scan_suffixed :: "string \<Rightarrow> (dbl \<times> char) option" where
  "scan_suffixed s =
     (case scan_double s of
        None \<Rightarrow> None
      | Some (n, r) \<Rightarrow> Some (n, case r of [] \<Rightarrow> CHR 0x00 | c # _ \<Rightarrow> c))"

definition unit_atof :: "string \<Rightarrow> dbl option" where
  "unit_atof s =
     (case scan_suffixed s of
        None \<Rightarrow> None
      | Some (n, suffix) \<Rightarrow>
          Some (if suffix \<in> {CHR ''t'', CHR ''T''} then dmul n TERA_UNIT
                else if suffix \<in> {CHR ''g'', CHR ''G''} then dmul n GIGA_UNIT
                else if suffix \<in> {CHR ''m'', CHR ''M''} then dmul n MEGA_UNIT
                else if suffix \<in> {CHR ''k'', CHR ''K''} then dmul n KILO_UNIT
                else n))"

definition unit_atof_rate :: "string \<Rightarrow> dbl option" where
  "unit_atof_rate s =
     (case scan_suffixed s of
        None \<Rightarrow> None
      | Some (n, suffix) \<Rightarrow>
          Some (if suffix \<in> {CHR ''t'', CHR ''T''} then dmul n TERA_RATE_UNIT
                else if suffix \<in> {CHR ''g'', CHR ''G''} then dmul n GIGA_RATE_UNIT
                else if suffix \<in> {CHR ''m'', CHR ''M''} then dmul n MEGA_RATE_UNIT
                else if suffix \<in> {CHR ''k'', CHR ''K''} then dmul n KILO_RATE_UNIT
                else n))"

text \<open>\<open>unit_atoi\<close> has the same switch as \<open>unit_atof\<close>; then \<open>(iperf_size_t) n\<close>.\<close>

definition unit_atoi :: "string \<Rightarrow> u64 option" where
  "unit_atoi s =
     (case scan_suffixed s of
        None \<Rightarrow> None
      | Some (n, suffix) \<Rightarrow>
          dbl_to_u64
            (if suffix \<in> {CHR ''t'', CHR ''T''} then dmul n TERA_UNIT
             else if suffix \<in> {CHR ''g'', CHR ''G''} then dmul n GIGA_UNIT
             else if suffix \<in> {CHR ''m'', CHR ''M''} then dmul n MEGA_UNIT
             else if suffix \<in> {CHR ''k'', CHR ''K''} then dmul n KILO_UNIT
             else n))"

section \<open>unit_snprintf\<close>

definition conversion_bytes :: "dbl list" where
  "conversion_bytes = [1, 1 / 2 ^ 10, 1 / 2 ^ 20, 1 / 2 ^ 30, 1 / 2 ^ 40]"

definition conversion_bits :: "dbl list" where
  "conversion_bits =
     [1, ddiv 1 1000, ddiv (ddiv 1 1000) 1000, ddiv (ddiv (ddiv 1 1000) 1000) 1000,
      ddiv (ddiv (ddiv (ddiv 1 1000) 1000) 1000) 1000]"

definition label_byte :: "string list" where
  "label_byte = [''Byte'', ''KByte'', ''MByte'', ''GByte'', ''TByte'']"

definition label_bit :: "string list" where
  "label_bit = [''bit'', ''Kbit'', ''Mbit'', ''Gbit'', ''Tbit'']"

text \<open>The loop \<open>while (tmpNum >= base && conv < TERA_CONV)\<close>, from \<open>conv = UNIT_CONV\<close>.\<close>

function adapt :: "dbl \<Rightarrow> dbl \<Rightarrow> nat \<Rightarrow> nat" where
  "adapt base tmpNum conv =
     (if base \<le> tmpNum \<and> conv < 4 then adapt base (ddiv tmpNum base) (conv + 1) else conv)"
  by pat_completeness auto
termination by (relation "measure (\<lambda>(_, _, conv). 4 - conv)") auto

declare adapt.simps [simp del]

definition unit_conv :: "dbl \<Rightarrow> char \<Rightarrow> nat" where
  "unit_conv num inFormat =
     (let f = c_toupper inFormat
      in if f = CHR ''B'' then 0 else if f = CHR ''K'' then 1 else if f = CHR ''M'' then 2
         else if f = CHR ''G'' then 3 else if f = CHR ''T'' then 4
         else if c_isupper inFormat then adapt 1024 num 0 else adapt 1000 num 0)"

definition unit_format_num :: "dbl \<Rightarrow> string" where
  "unit_format_num n =
     (if n < fl 9.995 then pad_left (CHR '' '') 4 (fmt_fixed 2 n)
      else if n < fl 99.95 then pad_left (CHR '' '') 4 (fmt_fixed 1 n)
      else pad_left (CHR '' '') 4 (fmt_fixed 0 n))"

text \<open>The buffer after the call: \<open>snprintf\<close> keeps at most \<open>inLen - 1\<close> characters.\<close>

definition unit_snprintf :: "nat \<Rightarrow> dbl \<Rightarrow> char \<Rightarrow> string" where
  "unit_snprintf inLen inNum inFormat =
     (let num = (if c_isupper inFormat then inNum else dmul inNum 8);
          conv = unit_conv num inFormat;
          (out, suffix) = (if c_isupper inFormat
                           then (dmul num (conversion_bytes ! conv), label_byte ! conv)
                           else (dmul num (conversion_bits ! conv), label_bit ! conv))
      in take (inLen - 1) (unit_format_num out @ '' '' @ suffix))"

section \<open>What the suffixes mean\<close>

text \<open>The specification: the exponent of the binary unit a suffix stands for.\<close>

definition suffix_bits :: "char \<Rightarrow> nat" where
  "suffix_bits c =
     (if c \<in> set ''kK'' then 10 else if c \<in> set ''mM'' then 20
      else if c \<in> set ''gG'' then 30 else if c \<in> set ''tT'' then 40 else 0)"

lemma isdigit_not_x: "c_isdigit c \<Longrightarrow> c \<noteq> CHR ''x'' \<and> c \<noteq> CHR ''X''"
  by (auto simp: c_isdigit_def ascii_def)

lemma not_hex_form:
  assumes d: "\<forall>c\<in>set ds. c_isdigit c" "ds \<noteq> []" and r: "r = [] \<or> hd r \<notin> {CHR ''x'', CHR ''X''}"
  shows "\<not> hex_form (ds @ r)"
proof
  assume h: "hex_form (ds @ r)"
  then obtain z x y t where eq: "ds @ r = z # x # y # t" and x0: "x \<in> {CHR ''x'', CHR ''X''}"
    by (auto simp: hex_form_def split: list.splits)
  have x: "(ds @ r) ! 1 \<in> {CHR ''x'', CHR ''X''}" and len: "1 < length (ds @ r)"
    unfolding eq using x0 by simp_all
  show False
  proof (cases "1 < length ds")
    case True
    then have "ds ! 1 \<in> set ds" "(ds @ r) ! 1 = ds ! 1" by (simp_all add: nth_append)
    with d x isdigit_not_x show ?thesis by auto
  next
    case False
    with d(2) have "length ds = 1" by (cases ds) auto
    with len have "(ds @ r) ! 1 = hd r" "r \<noteq> []" by (auto simp: nth_append hd_conv_nth)
    with x r show ?thesis by auto
  qed
qed

lemma scan_double_dec:
  assumes n: "n \<le> 2 ^ 53"
    and r: "r = [] \<or> \<not> c_isdigit (hd r) \<and> hd r \<notin> set ''.eExX''"
  shows "scan_double (dec_of_nat n @ r) = Some (of_nat n, r)"
proof -
  let ?ds = "dec_of_nat n"
  have d: "\<forall>c\<in>set ?ds. c_isdigit c" by (rule dec_of_nat_digits)
  have tw: "takeWhile c_isdigit (?ds @ r) = ?ds" "dropWhile c_isdigit (?ds @ r) = r"
    using d r by (cases r; simp add: takeWhile_append)+
  have "frac_part r = ([], r)" using r by (auto simp: frac_part_def split: list.splits)
  moreover have "exp_part r = (0, r)" using r by (auto simp: exp_part_def split: list.splits)
  moreover have "\<not> hex_form (?ds @ r)" using d r by (intro not_hex_form) auto
  moreover have "fl (of_nat n) = of_nat n" using fl_int[of "int n"] n by simp
  ultimately show ?thesis using d
    by (simp add: scan_double_def dropWhile_space_digits take_sign_digits tw dec_of_nat_value pow10_def)
qed

lemma unit_scale:
  assumes "n \<le> 2 ^ 53" "n * 2 ^ suffix_bits c < 2 ^ 64"
  shows "dbl_to_u64
     (if c \<in> {CHR ''t'', CHR ''T''} then dmul (of_nat n) TERA_UNIT
      else if c \<in> {CHR ''g'', CHR ''G''} then dmul (of_nat n) GIGA_UNIT
      else if c \<in> {CHR ''m'', CHR ''M''} then dmul (of_nat n) MEGA_UNIT
      else if c \<in> {CHR ''k'', CHR ''K''} then dmul (of_nat n) KILO_UNIT
      else of_nat n) = Some (of_nat (n * 2 ^ suffix_bits c))"
proof -
  have mul: "dmul (of_nat n) (2 ^ k) = of_int (int (n * 2 ^ k))" for k
    using dmul_pow2_exact[of "int n" k] assms(1) by simp
  have conv': "m < 2 ^ 64 \<Longrightarrow> dbl_to_u64 (of_int (int m)) = Some (of_nat m)" for m
    using dbl_to_u64_of_int[of "int m"] by simp
  have conv: "n * 2 ^ k < 2 ^ 64 \<Longrightarrow> dbl_to_u64 (of_int (int (n * 2 ^ k))) = Some (of_nat (n * 2 ^ k))" for k
    by (rule conv')
  have "(if c \<in> {CHR ''t'', CHR ''T''} then dmul (of_nat n) TERA_UNIT
      else if c \<in> {CHR ''g'', CHR ''G''} then dmul (of_nat n) GIGA_UNIT
      else if c \<in> {CHR ''m'', CHR ''M''} then dmul (of_nat n) MEGA_UNIT
      else if c \<in> {CHR ''k'', CHR ''K''} then dmul (of_nat n) KILO_UNIT
      else of_nat n) = of_int (int (n * 2 ^ suffix_bits c))"
    unfolding TERA_UNIT_def GIGA_UNIT_def MEGA_UNIT_def KILO_UNIT_def mul suffix_bits_def
    by (simp only: list.set insert_iff empty_iff if_distrib) auto
  then show ?thesis using conv[OF assms(2)] by (simp only:)
qed

text \<open>C35: \<open>unit_atoi\<close> on a decimal number up to \<open>2^53\<close> with or without a suffix letter is that
  number times the binary unit of the suffix, exactly, whenever the product fits 64 bits.\<close>

theorem unit_atoi_exact:
  assumes "n \<le> 2 ^ 53" "n * 2 ^ suffix_bits c < 2 ^ 64"
    and "\<not> c_isdigit c" "c \<notin> set ''.eExX''"
  shows "unit_atoi (dec_of_nat n @ [c]) = Some (of_nat (n * 2 ^ suffix_bits c)) \<and>
         unit_atoi (dec_of_nat n) = Some (of_nat n)"
proof
  show "unit_atoi (dec_of_nat n @ [c]) = Some (of_nat (n * 2 ^ suffix_bits c))"
    using unit_scale[OF assms(1,2)] scan_double_dec[OF assms(1), of "[c]"] assms(3,4)
    by (simp add: unit_atoi_def scan_suffixed_def)
  have "suffix_bits (CHR 0x00) = 0" by (simp add: suffix_bits_def)
  then show "unit_atoi (dec_of_nat n) = Some (of_nat n)"
    using unit_scale[of n "CHR 0x00"] scan_double_dec[OF assms(1), of "[]"] assms(1)
    by (simp add: unit_atoi_def scan_suffixed_def)
qed

lemma unit_atoi_exact_witness: "unit_atoi ''3T'' = Some (3 * 2 ^ 40)"
proof -
  have "dec_of_nat 3 = ''3''" by code_simp
  moreover have "\<not> c_isdigit (CHR ''T'')" by code_simp
  ultimately show ?thesis using unit_atoi_exact[of 3 "CHR ''T''"] by (simp add: suffix_bits_def)
qed

end
