(* ===== verification/Errors.thy ===== *)
theory Errors
  imports Prelude "HOL-Library.Sublist"
begin

text \<open>
  \<open>iperf_error.c\<close>: the error codes of \<open>iperf_api.h\<close> as integers, the limits of \<open>iperf.h\<close> their
  messages print, and \<open>iperf_strerror\<close>. The \<open>switch\<close> is a table in its order, cut in three: each
  row has the message and whether \<open>perr\<close> and \<open>herr\<close> are set. The texts of \<open>strerror\<close> and
  \<open>gai_strerror\<close> are parameters.
\<close>

section \<open>Limits\<close>

abbreviation (input) MAX_TIME :: int where "MAX_TIME \<equiv> 86400"
abbreviation (input) MAX_STREAMS :: int where "MAX_STREAMS \<equiv> 128"
abbreviation (input) MAX_BLOCKSIZE :: int where "MAX_BLOCKSIZE \<equiv> 1048576"
abbreviation (input) MAX_TCP_BUFFER :: int where "MAX_TCP_BUFFER \<equiv> 536870912"
abbreviation (input) MIN_UDP_BLOCKSIZE :: int where "MIN_UDP_BLOCKSIZE \<equiv> 16"
abbreviation (input) MAX_UDP_BLOCKSIZE :: int where "MAX_UDP_BLOCKSIZE \<equiv> 65507"
abbreviation (input) MAX_MSS :: int where "MAX_MSS \<equiv> 9216"
abbreviation (input) MAX_OMIT_TIME :: int where "MAX_OMIT_TIME \<equiv> 600"
abbreviation (input) MAX_BURST :: int where "MAX_BURST \<equiv> 1000"

section \<open>Error codes\<close>

abbreviation (input) IENONE :: int where "IENONE \<equiv> 0"
abbreviation (input) IESERVCLIENT :: int where "IESERVCLIENT \<equiv> 1"
abbreviation (input) IENOROLE :: int where "IENOROLE \<equiv> 2"
abbreviation (input) IESERVERONLY :: int where "IESERVERONLY \<equiv> 3"
abbreviation (input) IECLIENTONLY :: int where "IECLIENTONLY \<equiv> 4"
abbreviation (input) IEDURATION :: int where "IEDURATION \<equiv> 5"
abbreviation (input) IENUMSTREAMS :: int where "IENUMSTREAMS \<equiv> 6"
abbreviation (input) IEBLOCKSIZE :: int where "IEBLOCKSIZE \<equiv> 7"
abbreviation (input) IEBUFSIZE :: int where "IEBUFSIZE \<equiv> 8"
abbreviation (input) IEINTERVAL :: int where "IEINTERVAL \<equiv> 9"
abbreviation (input) IEMSS :: int where "IEMSS \<equiv> 10"
abbreviation (input) IENOSENDFILE :: int where "IENOSENDFILE \<equiv> 11"
abbreviation (input) IEOMIT :: int where "IEOMIT \<equiv> 12"
abbreviation (input) IEUNIMP :: int where "IEUNIMP \<equiv> 13"
abbreviation (input) IEFILE :: int where "IEFILE \<equiv> 14"
abbreviation (input) IEBURST :: int where "IEBURST \<equiv> 15"
abbreviation (input) IEENDCONDITIONS :: int where "IEENDCONDITIONS \<equiv> 16"
abbreviation (input) IELOGFILE :: int where "IELOGFILE \<equiv> 17"
abbreviation (input) IENOSCTP :: int where "IENOSCTP \<equiv> 18"
abbreviation (input) IEBIND :: int where "IEBIND \<equiv> 19"
abbreviation (input) IEUDPBLOCKSIZE :: int where "IEUDPBLOCKSIZE \<equiv> 20"
abbreviation (input) IEBADTOS :: int where "IEBADTOS \<equiv> 21"
abbreviation (input) IESETCLIENTAUTH :: int where "IESETCLIENTAUTH \<equiv> 22"
abbreviation (input) IESETSERVERAUTH :: int where "IESETSERVERAUTH \<equiv> 23"
abbreviation (input) IEBADFORMAT :: int where "IEBADFORMAT \<equiv> 24"
abbreviation (input) IEREVERSEBIDIR :: int where "IEREVERSEBIDIR \<equiv> 25"
abbreviation (input) IEBADPORT :: int where "IEBADPORT \<equiv> 26"
abbreviation (input) IETOTALRATE :: int where "IETOTALRATE \<equiv> 27"
abbreviation (input) IETOTALINTERVAL :: int where "IETOTALINTERVAL \<equiv> 28"
abbreviation (input) IESKEWTHRESHOLD :: int where "IESKEWTHRESHOLD \<equiv> 29"
abbreviation (input) IEIDLETIMEOUT :: int where "IEIDLETIMEOUT \<equiv> 30"
abbreviation (input) IERCVTIMEOUT :: int where "IERCVTIMEOUT \<equiv> 31"
abbreviation (input) IERVRSONLYRCVTIMEOUT :: int where "IERVRSONLYRCVTIMEOUT \<equiv> 32"
abbreviation (input) IESNDTIMEOUT :: int where "IESNDTIMEOUT \<equiv> 33"
abbreviation (input) IEUDPFILETRANSFER :: int where "IEUDPFILETRANSFER \<equiv> 34"
abbreviation (input) IESERVERAUTHUSERS :: int where "IESERVERAUTHUSERS \<equiv> 35"
abbreviation (input) IECNTLKA :: int where "IECNTLKA \<equiv> 36"
abbreviation (input) IENEWTEST :: int where "IENEWTEST \<equiv> 100"
abbreviation (input) IEINITTEST :: int where "IEINITTEST \<equiv> 101"
abbreviation (input) IELISTEN :: int where "IELISTEN \<equiv> 102"
abbreviation (input) IECONNECT :: int where "IECONNECT \<equiv> 103"
abbreviation (input) IEACCEPT :: int where "IEACCEPT \<equiv> 104"
abbreviation (input) IESENDCOOKIE :: int where "IESENDCOOKIE \<equiv> 105"
abbreviation (input) IERECVCOOKIE :: int where "IERECVCOOKIE \<equiv> 106"
abbreviation (input) IECTRLWRITE :: int where "IECTRLWRITE \<equiv> 107"
abbreviation (input) IECTRLREAD :: int where "IECTRLREAD \<equiv> 108"
abbreviation (input) IECTRLCLOSE :: int where "IECTRLCLOSE \<equiv> 109"
abbreviation (input) IEMESSAGE :: int where "IEMESSAGE \<equiv> 110"
abbreviation (input) IESENDMESSAGE :: int where "IESENDMESSAGE \<equiv> 111"
abbreviation (input) IERECVMESSAGE :: int where "IERECVMESSAGE \<equiv> 112"
abbreviation (input) IESENDPARAMS :: int where "IESENDPARAMS \<equiv> 113"
abbreviation (input) IERECVPARAMS :: int where "IERECVPARAMS \<equiv> 114"
abbreviation (input) IEPACKAGERESULTS :: int where "IEPACKAGERESULTS \<equiv> 115"
abbreviation (input) IESENDRESULTS :: int where "IESENDRESULTS \<equiv> 116"
abbreviation (input) IERECVRESULTS :: int where "IERECVRESULTS \<equiv> 117"
abbreviation (input) IESELECT :: int where "IESELECT \<equiv> 118"
abbreviation (input) IECLIENTTERM :: int where "IECLIENTTERM \<equiv> 119"
abbreviation (input) IESERVERTERM :: int where "IESERVERTERM \<equiv> 120"
abbreviation (input) IEACCESSDENIED :: int where "IEACCESSDENIED \<equiv> 121"
abbreviation (input) IESETNODELAY :: int where "IESETNODELAY \<equiv> 122"
abbreviation (input) IESETMSS :: int where "IESETMSS \<equiv> 123"
abbreviation (input) IESETBUF :: int where "IESETBUF \<equiv> 124"
abbreviation (input) IESETTOS :: int where "IESETTOS \<equiv> 125"
abbreviation (input) IESETCOS :: int where "IESETCOS \<equiv> 126"
abbreviation (input) IESETFLOW :: int where "IESETFLOW \<equiv> 127"
abbreviation (input) IEREUSEADDR :: int where "IEREUSEADDR \<equiv> 128"
abbreviation (input) IENONBLOCKING :: int where "IENONBLOCKING \<equiv> 129"
abbreviation (input) IESETWINDOWSIZE :: int where "IESETWINDOWSIZE \<equiv> 130"
abbreviation (input) IEPROTOCOL :: int where "IEPROTOCOL \<equiv> 131"
abbreviation (input) IEAFFINITY :: int where "IEAFFINITY \<equiv> 132"
abbreviation (input) IEDAEMON :: int where "IEDAEMON \<equiv> 133"
abbreviation (input) IESETCONGESTION :: int where "IESETCONGESTION \<equiv> 134"
abbreviation (input) IEPIDFILE :: int where "IEPIDFILE \<equiv> 135"
abbreviation (input) IEV6ONLY :: int where "IEV6ONLY \<equiv> 136"
abbreviation (input) IESETSCTPDISABLEFRAG :: int where "IESETSCTPDISABLEFRAG \<equiv> 137"
abbreviation (input) IESETSCTPNSTREAM :: int where "IESETSCTPNSTREAM \<equiv> 138"
abbreviation (input) IESETSCTPBINDX :: int where "IESETSCTPBINDX \<equiv> 139"
abbreviation (input) IESETPACING :: int where "IESETPACING \<equiv> 140"
abbreviation (input) IESETBUF2 :: int where "IESETBUF2 \<equiv> 141"
abbreviation (input) IEAUTHTEST :: int where "IEAUTHTEST \<equiv> 142"
abbreviation (input) IEBINDDEV :: int where "IEBINDDEV \<equiv> 143"
abbreviation (input) IENOMSG :: int where "IENOMSG \<equiv> 144"
abbreviation (input) IESETDONTFRAGMENT :: int where "IESETDONTFRAGMENT \<equiv> 145"
abbreviation (input) IEBINDDEVNOSUPPORT :: int where "IEBINDDEVNOSUPPORT \<equiv> 146"
abbreviation (input) IEHOSTDEV :: int where "IEHOSTDEV \<equiv> 147"
abbreviation (input) IESETUSERTIMEOUT :: int where "IESETUSERTIMEOUT \<equiv> 148"
abbreviation (input) IEPTHREADCREATE :: int where "IEPTHREADCREATE \<equiv> 150"
abbreviation (input) IEPTHREADCANCEL :: int where "IEPTHREADCANCEL \<equiv> 151"
abbreviation (input) IEPTHREADJOIN :: int where "IEPTHREADJOIN \<equiv> 152"
abbreviation (input) IEPTHREADATTRINIT :: int where "IEPTHREADATTRINIT \<equiv> 153"
abbreviation (input) IEPTHREADATTRDESTROY :: int where "IEPTHREADATTRDESTROY \<equiv> 154"
abbreviation (input) IESETCNTLKA :: int where "IESETCNTLKA \<equiv> 155"
abbreviation (input) IESETCNTLKAKEEPIDLE :: int where "IESETCNTLKAKEEPIDLE \<equiv> 156"
abbreviation (input) IESETCNTLKAINTERVAL :: int where "IESETCNTLKAINTERVAL \<equiv> 157"
abbreviation (input) IESETCNTLKACOUNT :: int where "IESETCNTLKACOUNT \<equiv> 158"
abbreviation (input) IEPTHREADSIGMASK :: int where "IEPTHREADSIGMASK \<equiv> 159"
abbreviation (input) IECREATESTREAM :: int where "IECREATESTREAM \<equiv> 200"
abbreviation (input) IEINITSTREAM :: int where "IEINITSTREAM \<equiv> 201"
abbreviation (input) IESTREAMLISTEN :: int where "IESTREAMLISTEN \<equiv> 202"
abbreviation (input) IESTREAMCONNECT :: int where "IESTREAMCONNECT \<equiv> 203"
abbreviation (input) IESTREAMACCEPT :: int where "IESTREAMACCEPT \<equiv> 204"
abbreviation (input) IESTREAMWRITE :: int where "IESTREAMWRITE \<equiv> 205"
abbreviation (input) IESTREAMREAD :: int where "IESTREAMREAD \<equiv> 206"
abbreviation (input) IESTREAMCLOSE :: int where "IESTREAMCLOSE \<equiv> 207"
abbreviation (input) IESTREAMID :: int where "IESTREAMID \<equiv> 208"
abbreviation (input) IENEWTIMER :: int where "IENEWTIMER \<equiv> 300"
abbreviation (input) IEUPDATETIMER :: int where "IEUPDATETIMER \<equiv> 301"

definition ierror_codes :: "int list" where
  "ierror_codes =
    [IENONE, IESERVCLIENT, IENOROLE, IESERVERONLY, IECLIENTONLY, IEDURATION, IENUMSTREAMS,
     IEBLOCKSIZE, IEBUFSIZE, IEINTERVAL, IEMSS, IENOSENDFILE, IEOMIT, IEUNIMP, IEFILE,
     IEBURST, IEENDCONDITIONS, IELOGFILE, IENOSCTP, IEBIND, IEUDPBLOCKSIZE, IEBADTOS,
     IESETCLIENTAUTH, IESETSERVERAUTH, IEBADFORMAT, IEREVERSEBIDIR, IEBADPORT, IETOTALRATE,
     IETOTALINTERVAL, IESKEWTHRESHOLD, IEIDLETIMEOUT, IERCVTIMEOUT, IERVRSONLYRCVTIMEOUT,
     IESNDTIMEOUT, IEUDPFILETRANSFER, IESERVERAUTHUSERS, IECNTLKA, IENEWTEST, IEINITTEST,
     IELISTEN, IECONNECT, IEACCEPT, IESENDCOOKIE, IERECVCOOKIE, IECTRLWRITE, IECTRLREAD,
     IECTRLCLOSE, IEMESSAGE, IESENDMESSAGE, IERECVMESSAGE, IESENDPARAMS, IERECVPARAMS,
     IEPACKAGERESULTS, IESENDRESULTS, IERECVRESULTS, IESELECT, IECLIENTTERM, IESERVERTERM,
     IEACCESSDENIED, IESETNODELAY, IESETMSS, IESETBUF, IESETTOS, IESETCOS, IESETFLOW,
     IEREUSEADDR, IENONBLOCKING, IESETWINDOWSIZE, IEPROTOCOL, IEAFFINITY, IEDAEMON,
     IESETCONGESTION, IEPIDFILE, IEV6ONLY, IESETSCTPDISABLEFRAG, IESETSCTPNSTREAM,
     IESETSCTPBINDX, IESETPACING, IESETBUF2, IEAUTHTEST, IEBINDDEV, IENOMSG,
     IESETDONTFRAGMENT, IEBINDDEVNOSUPPORT, IEHOSTDEV, IESETUSERTIMEOUT, IEPTHREADCREATE,
     IEPTHREADCANCEL, IEPTHREADJOIN, IEPTHREADATTRINIT, IEPTHREADATTRDESTROY, IESETCNTLKA,
     IESETCNTLKAKEEPIDLE, IESETCNTLKAINTERVAL, IESETCNTLKACOUNT, IEPTHREADSIGMASK,
     IECREATESTREAM, IEINITSTREAM, IESTREAMLISTEN, IESTREAMCONNECT, IESTREAMACCEPT,
     IESTREAMWRITE, IESTREAMREAD, IESTREAMCLOSE, IESTREAMID, IENEWTIMER, IEUPDATETIMER]"

section \<open>iperf_strerror\<close>

type_synonym strerror_row = "int \<times> string \<times> bool \<times> bool"

definition strerror_table1 :: "strerror_row list" where
  "strerror_table1 =
    [(IENONE, ''no error'', False, False),
     (IESERVCLIENT, ''cannot be both server and client'', False, False),
     (IENOROLE, ''must either be a client (-c) or server (-s)'', False, False),
     (IESERVERONLY, ''some option you are trying to set is server only'', False, False),
     (IECLIENTONLY, ''some option you are trying to set is client only'', False, False),
     (IEDURATION, ''test duration valid values are 0 to '' @ dec_of_int MAX_TIME @ '' seconds'', False, False),
     (IENUMSTREAMS, ''number of parallel streams too large (maximum = '' @ dec_of_int MAX_STREAMS @ '')'', False, False),
     (IEBLOCKSIZE, ''block size too large (maximum = '' @ dec_of_int MAX_BLOCKSIZE @ '' bytes)'', False, False),
     (IEBUFSIZE, ''socket buffer size too large (maximum = '' @ dec_of_int MAX_TCP_BUFFER @ '' bytes)'', False, False),
     (IEINTERVAL, ''invalid report interval (min = '' @ ''0.1'' @ '', max = '' @ ''60'' @ '' seconds)'', False, False),
     (IEBIND, ''--bind must be specified to use --cport'', False, False),
     (IEUDPBLOCKSIZE, ''block size invalid (minimum = '' @ dec_of_int MIN_UDP_BLOCKSIZE @ '' bytes, maximum = '' @ dec_of_int MAX_UDP_BLOCKSIZE @ '' bytes)'', False, False),
     (IEBADTOS, ''bad TOS value (must be between 0 and 255 inclusive)'', False, False),
     (IESETCLIENTAUTH, ''you must specify a username, password, and path to a valid RSA public key'', False, False),
     (IESETSERVERAUTH, ''you must specify a path to a valid RSA private key and a user credential file'', False, False),
     (IESERVERAUTHUSERS, ''cannot access authorized users file'', False, False),
     (IEBADFORMAT, ''bad format specifier (valid formats are in the set [kmgtKMGT])'', False, False),
     (IEBADPORT, ''port number must be between 1 and 65535 inclusive'', False, False),
     (IEMSS, ''TCP MSS too large (maximum = '' @ dec_of_int MAX_MSS @ '' bytes)'', False, False),
     (IENOSENDFILE, ''this OS does not support sendfile'', False, False),
     (IEOMIT, ''bogus value for --omit (maximum = '' @ dec_of_int MAX_OMIT_TIME @ '' seconds)'', False, False),
     (IEUNIMP, ''an option you are trying to set is not implemented yet'', False, False),
     (IEFILE, ''unable to open -F file'', True, False),
     (IEBURST, ''invalid burst count (maximum = '' @ dec_of_int MAX_BURST @ '')'', False, False),
     (IEENDCONDITIONS, ''only one test end condition (-t, -n, -k) may be specified'', False, False),
     (IELOGFILE, ''unable to open log file'', True, False),
     (IENOSCTP, ''no SCTP support available'', False, False),
     (IENEWTEST, ''unable to create a new test'', True, False),
     (IEINITTEST, ''test initialization failed'', True, False),
     (IEAUTHTEST, ''test authorization failed'', False, False),
     (IELISTEN, ''unable to start listener for connections'', True, True),
     (IECONNECT, ''unable to connect to server - server may have stopped running or use a different port, firewall issue, etc.'', True, True),
     (IEACCEPT, ''unable to accept connection from client'', True, True),
     (IESENDCOOKIE, ''unable to send cookie to server'', True, False),
     (IERECVCOOKIE, ''unable to receive cookie at server'', True, False),
     (IECTRLWRITE, ''unable to write to the control socket'', True, False),
     (IECTRLREAD, ''unable to read from the control socket'', True, False),
     (IECTRLCLOSE, ''control socket has closed unexpectedly'', False, False),
     (IEMESSAGE, ''received an unknown control message (ensure other side is iperf3 and not iperf)'', False, False),
     (IESENDMESSAGE, ''unable to send control message - port may not be available, the other side may have stopped running, etc.'', True, False)]"

definition strerror_table2 :: "strerror_row list" where
  "strerror_table2 =
    [(IERECVMESSAGE, ''unable to receive control message - port may not be available, the other side may have stopped running, etc.'', True, False),
     (IESENDPARAMS, ''unable to send parameters to server'', True, False),
     (IERECVPARAMS, ''unable to receive parameters from client'', True, False),
     (IEPACKAGERESULTS, ''unable to package results'', True, False),
     (IESENDRESULTS, ''unable to send results'', True, False),
     (IERECVRESULTS, ''unable to receive results'', True, False),
     (IESELECT, ''select failed'', True, False),
     (IECLIENTTERM, ''the client has terminated'', False, False),
     (IESERVERTERM, ''the server has terminated'', False, False),
     (IEACCESSDENIED, ''the server is busy running a test. try again later'', False, False),
     (IESETNODELAY, ''unable to set TCP/SCTP NODELAY'', True, False),
     (IESETMSS, ''unable to set TCP/SCTP MSS'', True, False),
     (IESETBUF, ''unable to set socket buffer size'', True, False),
     (IESETTOS, ''unable to set IP TOS'', True, False),
     (IESETCOS, ''unable to set IPv6 traffic class'', True, False),
     (IESETFLOW, ''unable to set IPv6 flow label'', False, False),
     (IEREUSEADDR, ''unable to reuse address on socket'', True, False),
     (IENONBLOCKING, ''unable to set socket to non-blocking'', True, False),
     (IESETWINDOWSIZE, ''unable to set socket window size'', True, False),
     (IEPROTOCOL, ''protocol does not exist'', False, False),
     (IEAFFINITY, ''unable to set CPU affinity'', True, False),
     (IERCVTIMEOUT, ''receive timeout value is incorrect or not in range'', True, False),
     (IESNDTIMEOUT, ''send timeout value is incorrect or not in range'', True, False),
     (IEUDPFILETRANSFER, ''cannot transfer file using UDP'', False, False),
     (IERVRSONLYRCVTIMEOUT, ''client receive timeout is valid only in receiving mode'', True, False),
     (IEDAEMON, ''unable to become a daemon'', True, False),
     (IECREATESTREAM, ''unable to create a new stream'', True, True),
     (IEINITSTREAM, ''unable to initialize stream'', True, True),
     (IESTREAMLISTEN, ''unable to start stream listener'', True, True),
     (IESTREAMCONNECT, ''unable to connect stream'', True, True),
     (IESTREAMACCEPT, ''unable to accept stream connection'', True, False),
     (IESTREAMWRITE, ''unable to write to stream socket'', True, False),
     (IESTREAMREAD, ''unable to read from stream socket'', True, False),
     (IESTREAMCLOSE, ''stream socket has closed unexpectedly'', False, False),
     (IESTREAMID, ''stream has an invalid id'', False, False),
     (IENEWTIMER, ''unable to create new timer'', True, False),
     (IEUPDATETIMER, ''unable to update timer'', True, False)]"

definition strerror_table3 :: "strerror_row list" where
  "strerror_table3 =
    [(IESETCONGESTION, ''unable to set TCP_CONGESTION: Supplied congestion control algorithm not supported on this host'', False, False),
     (IEPIDFILE, ''unable to write PID file'', True, False),
     (IEV6ONLY, ''Unable to set/reset IPV6_V6ONLY'', True, False),
     (IESETSCTPDISABLEFRAG, ''unable to set SCTP_DISABLE_FRAGMENTS'', True, False),
     (IESETSCTPNSTREAM, ''unable to set SCTP_INIT num of SCTP streams'' @ [CHR 0x0A], True, False),
     (IESETPACING, ''unable to set socket pacing'', True, False),
     (IESETBUF2, ''socket buffer size not set correctly'', False, False),
     (IEREVERSEBIDIR, ''cannot be both reverse and bidirectional'', False, False),
     (IETOTALRATE, ''total required bandwidth is larger than server limit'', False, False),
     (IESKEWTHRESHOLD, ''skew threshold must be a positive number'', False, False),
     (IEIDLETIMEOUT, ''idle timeout parameter is not positive or larger than allowed limit'', False, False),
     (IEBINDDEV, ''Unable to bind-to-device (check perror, maybe permissions?)'', False, False),
     (IEBINDDEVNOSUPPORT, ''`<ip>%<dev>` is not supported as system does not support bind to device'', False, False),
     (IEHOSTDEV, ''host device name (ip%<dev>) is supported (and required) only for IPv6 link-local address'', False, False),
     (IENOMSG, ''idle timeout for receiving data'', False, False),
     (IESETDONTFRAGMENT, ''unable to set IP Do-Not-Fragment flag'', False, False),
     (IESETUSERTIMEOUT, ''unable to set TCP USER_TIMEOUT'', True, False),
     (IEPTHREADCREATE, ''unable to create thread'', True, False),
     (IEPTHREADCANCEL, ''unable to cancel thread'', True, False),
     (IEPTHREADJOIN, ''unable to join thread'', True, False),
     (IEPTHREADATTRINIT, ''unable to create thread attributes'', True, False),
     (IEPTHREADSIGMASK, ''unable to change mask of blocked signals'', False, False),
     (IEPTHREADATTRDESTROY, ''control connection Keepalive period should be larger than the full retry period (interval * count)'', True, False),
     (IECNTLKA, ''control connection Keepalive period should be larger than the full retry period (interval * count)'', True, False),
     (IESETCNTLKA, ''unable to set socket keepalive (SO_KEEPALIVE) option'', True, False),
     (IESETCNTLKAKEEPIDLE, ''unable to set socket keepalive TCP period (TCP_KEEPIDLE) option'', True, False),
     (IESETCNTLKAINTERVAL, ''unable to set/get socket keepalive TCP retry interval (TCP_KEEPINTVL) option'', True, False),
     (IESETCNTLKACOUNT, ''unable to set/get socket keepalive TCP number of retries (TCP_KEEPCNT) option'', True, False)]"

definition strerror_row :: "int \<Rightarrow> string \<times> bool \<times> bool" where
  "strerror_row e =
     (case map_of (strerror_table1 @ strerror_table2 @ strerror_table3) e of
        Some r \<Rightarrow> r
      | None \<Rightarrow> (''int_errno='' @ dec_of_int e, True, False))"

text \<open>\<open>snprintf (errstr, len, ...)\<close> and \<open>strncat (errstr, s, len - strlen (errstr) - 1)\<close> with the
  buffer of 256 bytes.\<close>

definition err_print :: "string \<Rightarrow> string" where
  "err_print s = take 255 s"

definition err_cat :: "string \<Rightarrow> string \<Rightarrow> string" where
  "err_cat b s = b @ take (256 - length b - 1) s"

text \<open>The result is the text and the new value of the global \<open>gerror\<close>.\<close>

definition iperf_strerror ::
  "(int \<Rightarrow> string) \<Rightarrow> (int \<Rightarrow> string) \<Rightarrow> int \<Rightarrow> int \<Rightarrow> int \<Rightarrow> string \<times> int" where
  "iperf_strerror strerror gai_strerror errno gerror int_errno =
     (let (msg, perr, herr) = strerror_row int_errno;
          b0 = err_print msg;
          b1 = (if herr \<or> perr then err_cat b0 '': '' else b0)
      in if errno \<noteq> 0 \<and> perr then (err_cat b1 (strerror errno), gerror)
         else if herr \<and> gerror \<noteq> 0 then (err_cat b1 (gai_strerror gerror), 0)
         else (b1, gerror))"

section \<open>Properties\<close>

lemma err_cat_length: "length b \<le> 255 \<Longrightarrow> length (err_cat b s) \<le> 255"
  by (simp add: err_cat_def)

lemma err_cat_prefix: "take (length b) (err_cat b s) = b"
  by (simp add: err_cat_def)

lemma limits_printed:
  "dec_of_int MAX_TIME = ''86400''" "dec_of_int MAX_STREAMS = ''128''"
  "dec_of_int MAX_BLOCKSIZE = ''1048576''" "dec_of_int MAX_TCP_BUFFER = ''536870912''"
  "dec_of_int MIN_UDP_BLOCKSIZE = ''16''" "dec_of_int MAX_UDP_BLOCKSIZE = ''65507''"
  "dec_of_int MAX_MSS = ''9216''" "dec_of_int MAX_OMIT_TIME = ''600''"
  "dec_of_int MAX_BURST = ''1000''"
  by (simp_all add: dec_of_int_def dec_of_nat_def print_base.simps)

lemma table_keys:
  "list_all (\<lambda>c. c \<in> {IETOTALINTERVAL, IESETSCTPBINDX} \<or>
     c \<in> set (map fst strerror_table1) \<or> c \<in> set (map fst strerror_table2) \<or>
     c \<in> set (map fst strerror_table3)) ierror_codes"
  unfolding ierror_codes_def strerror_table1_def strerror_table2_def strerror_table3_def
  by (simp only: list.map fst_conv) simp

lemma table_complete:
  "c \<in> set ierror_codes \<Longrightarrow> c \<notin> {IETOTALINTERVAL, IESETSCTPBINDX} \<Longrightarrow>
   map_of (strerror_table1 @ strerror_table2 @ strerror_table3) c \<noteq> None"
  using table_keys unfolding map_of_eq_None_iff list_all_iff by auto

lemma table_fits:
  "list_all (\<lambda>r. length (fst (snd r)) \<le> 253) strerror_table1"
  "list_all (\<lambda>r. length (fst (snd r)) \<le> 253) strerror_table2"
  "list_all (\<lambda>r. length (fst (snd r)) \<le> 253) strerror_table3"
  by (simp_all only: strerror_table1_def strerror_table2_def strerror_table3_def limits_printed
      list.pred_inject fst_conv snd_conv) simp_all

lemma map_of_fits:
  assumes "map_of (strerror_table1 @ strerror_table2 @ strerror_table3) c = Some r"
  shows "length (fst r) \<le> 253"
  using map_of_SomeD[OF assms] table_fits unfolding list_all_iff set_append by (metis Un_iff snd_conv)

text \<open>The part of a text before its first colon tells the error: the messages that the text of another
function follows have no colon.\<close>

definition error_key :: "string \<Rightarrow> string" where
  "error_key s = takeWhile (\<lambda>c. c \<noteq> CHR '':'') s"

definition other_rows :: "strerror_row list" where
  "other_rows = filter (\<lambda>(c, _). c \<noteq> IEPTHREADATTRDESTROY)
     (strerror_table1 @ strerror_table2 @ strerror_table3 @
       [(IETOTALINTERVAL, ''int_errno=28'', True, False), (IESETSCTPBINDX, ''int_errno=139'', True, False)])"

lemma key_sums:
  "map (\<lambda>k. sum_list (map of_char k) :: int) (map (\<lambda>r. error_key (fst (snd r))) other_rows) =
    [807, 3040, 3643, 4611, 4587, 4354, 4654, 3877, 4775, 4461, 3493, 5274, 4342, 6695, 7059, 3462,
      5665, 4358, 3228, 3165, 3976, 5148, 1951, 3117, 4921, 2158, 2357, 2521, 2637, 2550, 3960,
      9977, 3789, 2968, 3267, 3571, 3637, 3802, 7413, 9681, 9994, 3410, 3908, 2456, 2166, 2479,
      1285, 2441, 2465, 4702, 2434, 2153, 3076, 1717, 2944, 2627, 3178, 3443, 3106, 2299, 2408,
      4802, 4489, 2839, 5199, 2330, 2725, 2680, 3066, 2352, 3334, 3101, 3167, 3685, 2251, 2489,
      2142, 2373, 2178, 2698, 2969, 3771, 2593, 3538, 3871, 5076, 3892, 6486, 5474, 6630, 7960,
      3010, 3307, 2514, 2214, 2200, 2018, 3341, 3782, 9278, 4646, 5570, 6872, 6929, 1143, 1194]"
  unfolding other_rows_def strerror_table1_def strerror_table2_def strerror_table3_def limits_printed
  by code_simp

lemma keys_distinct: "distinct (map (\<lambda>r. error_key (fst (snd r))) other_rows)"
proof -
  have "distinct (map (\<lambda>k. sum_list (map of_char k) :: int) (map (\<lambda>r. error_key (fst (snd r))) other_rows))"
    unfolding key_sums by simp
  then show ?thesis by (rule distinct_map[THEN iffD1, THEN conjunct1])
qed

lemma code_row:
  assumes "c \<in> set ierror_codes" "c \<noteq> IEPTHREADATTRDESTROY"
  shows "(c, strerror_row c) \<in> set other_rows"
proof (cases "c \<in> {IETOTALINTERVAL, IESETSCTPBINDX}")
  case True
  have "x \<notin> set (map fst (strerror_table1 @ strerror_table2 @ strerror_table3))"
    if "x \<in> {IETOTALINTERVAL, IESETSCTPBINDX}" for x
    using that unfolding strerror_table1_def strerror_table2_def strerror_table3_def
    by (simp only: append.simps list.map fst_conv) auto
  then have no: "map_of (strerror_table1 @ strerror_table2 @ strerror_table3) IETOTALINTERVAL = None"
    "map_of (strerror_table1 @ strerror_table2 @ strerror_table3) IESETSCTPBINDX = None"
    unfolding map_of_eq_None_iff set_map by blast+
  have "dec_of_int IETOTALINTERVAL = ''28''" "dec_of_int IESETSCTPBINDX = ''139''"
    by (simp_all add: dec_of_int_def dec_of_nat_def print_base.simps)
  then have "strerror_row IETOTALINTERVAL = (''int_errno=28'', True, False)"
    "strerror_row IESETSCTPBINDX = (''int_errno=139'', True, False)"
    by (simp_all only: strerror_row_def no) simp_all
  with True show ?thesis by (auto simp: other_rows_def)
next
  case False
  then obtain r where r: "map_of (strerror_table1 @ strerror_table2 @ strerror_table3) c = Some r"
    using table_complete assms(1) by blast
  then have "(c, r) \<in> set (strerror_table1 @ strerror_table2 @ strerror_table3)" by (rule map_of_SomeD)
  with r assms(2) show ?thesis by (auto simp: strerror_row_def other_rows_def)
qed

lemma row_fits:
  assumes "c \<in> set ierror_codes"
  shows "length (fst (strerror_row c)) \<le> 253"
proof (cases "c \<in> {IETOTALINTERVAL, IESETSCTPBINDX}")
  case True
  then have "(c, strerror_row c) \<in> set other_rows" using assms by (intro code_row) auto
  with table_fits show ?thesis
    unfolding other_rows_def list_all_iff by auto
next
  case False
  then obtain r where "map_of (strerror_table1 @ strerror_table2 @ strerror_table3) c = Some r"
    using table_complete assms by blast
  with map_of_fits show ?thesis by (simp add: strerror_row_def)
qed

lemma strerror_fallthrough: "strerror_row IEPTHREADATTRDESTROY = strerror_row IECNTLKA"
  unfolding strerror_row_def strerror_table1_def strerror_table2_def strerror_table3_def
  by (simp only: append.simps map_of.simps fst_conv snd_conv fun_upd_def) simp

lemma keys_differ:
  assumes c: "c \<in> set ierror_codes" and d: "d \<in> set ierror_codes" and "c \<noteq> d"
    and "{c, d} \<noteq> {IEPTHREADATTRDESTROY, IECNTLKA}"
  shows "error_key (fst (strerror_row c)) \<noteq> error_key (fst (strerror_row d))"
proof
  assume eq: "error_key (fst (strerror_row c)) = error_key (fst (strerror_row d))"
  define other where "other x = (if x = IEPTHREADATTRDESTROY then IECNTLKA else x)" for x :: int
  have row: "(other x, strerror_row x) \<in> set other_rows" if "x \<in> set ierror_codes" for x
  proof (cases "x = IEPTHREADATTRDESTROY")
    case True
    have "IECNTLKA \<in> set ierror_codes" by (simp add: ierror_codes_def)
    then have "(IECNTLKA, strerror_row IECNTLKA) \<in> set other_rows" by (rule code_row) simp
    then show ?thesis unfolding True strerror_fallthrough by (simp add: other_def)
  next
    case False
    with code_row[OF that] show ?thesis by (simp add: other_def)
  qed
  have "inj_on (\<lambda>r. error_key (fst (snd r))) (set other_rows)"
    using keys_distinct by (simp only: distinct_map)
  from inj_onD[OF this _ row[OF c] row[OF d]] eq have "other c = other d" by simp
  with assms(3,4) show False by (auto simp: other_def split: if_splits)
qed

lemma error_key_tail: "error_key (m @ CHR '':'' # s) = error_key m"
  unfolding error_key_def by (induction m) auto

text \<open>The whole text: the message, and after it a colon and the text of another function.\<close>

lemma strerror_text:
  assumes "c \<in> set ierror_codes" "t = fst (iperf_strerror strerror gai errno gerror c)"
    "m = fst (strerror_row c)"
  shows "(t = m \<or> (\<exists>s. t = m @ CHR '':'' # s)) \<and> length t \<le> 255"
proof -
  obtain perr herr where r: "strerror_row c = (m, perr, herr)" unfolding assms(3) by (metis prod.collapse)
  have len: "length m \<le> 253" using row_fits[OF assms(1)] by (simp add: assms(3))
  then show ?thesis
    unfolding assms(2) iperf_strerror_def r Let_def err_print_def
    by (auto simp: err_cat_def)
qed

text \<open>The limits of the options that \<open>iperf_parse_arguments\<close> checks, by the error it gives.\<close>

definition limit_errors :: "(int \<times> int) list" where
  "limit_errors = [(IEDURATION, MAX_TIME), (IENUMSTREAMS, MAX_STREAMS), (IEBLOCKSIZE, MAX_BLOCKSIZE),
     (IEBUFSIZE, MAX_TCP_BUFFER), (IEUDPBLOCKSIZE, MIN_UDP_BLOCKSIZE), (IEUDPBLOCKSIZE, MAX_UDP_BLOCKSIZE),
     (IEMSS, MAX_MSS), (IEOMIT, MAX_OMIT_TIME), (IEBURST, MAX_BURST)]"

lemma limits_named: "list_all (\<lambda>(e, l). sublist (dec_of_int l) (fst (strerror_row e))) limit_errors"
  unfolding limit_errors_def list.pred_inject prod.case limits_printed strerror_row_def
    strerror_table1_def
  by code_simp

text \<open>C40: The text \<open>iperf_strerror\<close> gives for an error code fits the buffer of 256 bytes and holds the
  whole message of the code, whatever the system's error texts are; the texts of two codes of the API
  are different, whatever the system's error texts are, except those of \<open>IEPTHREADATTRDESTROY\<close> and
  \<open>IECNTLKA\<close>: a missing \<open>break\<close> gives both the message of \<open>IECNTLKA\<close>. (\<open>IETOTALINTERVAL\<close> and
  \<open>IESETSCTPBINDX\<close> have no message but their number.) The messages about a limit name the limit the
  options are checked against.\<close>

theorem iperf_strerror_complete:
  assumes "c \<in> set ierror_codes" "d \<in> set ierror_codes" "c \<noteq> d"
  shows "length (fst (iperf_strerror se gai errno gerror c)) \<le> 255 \<and>
    take (length (fst (strerror_row c))) (fst (iperf_strerror se gai errno gerror c)) = fst (strerror_row c) \<and>
    ({c, d} \<noteq> {IEPTHREADATTRDESTROY, IECNTLKA} \<longrightarrow>
      fst (iperf_strerror se gai errno gerror c) \<noteq> fst (iperf_strerror se' gai' errno' gerror' d)) \<and>
    ({c, d} = {IEPTHREADATTRDESTROY, IECNTLKA} \<longrightarrow>
      fst (iperf_strerror se gai errno gerror c) = fst (iperf_strerror se gai errno gerror d)) \<and>
    (\<forall>(e, l) \<in> set limit_errors. sublist (dec_of_int l) (fst (strerror_row e)))"
proof (intro conjI impI)
  note tc = strerror_text[OF assms(1) refl refl, of se gai errno gerror]
  note td = strerror_text[OF assms(2) refl refl, of se' gai' errno' gerror']
  show "length (fst (iperf_strerror se gai errno gerror c)) \<le> 255" using tc by blast
  show "take (length (fst (strerror_row c))) (fst (iperf_strerror se gai errno gerror c)) = fst (strerror_row c)"
    using tc by auto
  show "fst (iperf_strerror se gai errno gerror c) \<noteq> fst (iperf_strerror se' gai' errno' gerror' d)"
    if "{c, d} \<noteq> {IEPTHREADATTRDESTROY, IECNTLKA}"
    using tc td keys_differ[OF assms that] error_key_tail by metis
  show "fst (iperf_strerror se gai errno gerror c) = fst (iperf_strerror se gai errno gerror d)"
    if "{c, d} = {IEPTHREADATTRDESTROY, IECNTLKA}"
    using that strerror_fallthrough by (auto simp: iperf_strerror_def doubleton_eq_iff)
  show "\<forall>(e, l) \<in> set limit_errors. sublist (dec_of_int l) (fst (strerror_row e))"
    using limits_named by (simp add: list_all_iff)
qed

lemma iperf_strerror_complete_witness:
  "fst (iperf_strerror (\<lambda>_. ''Bad file descriptor'') (\<lambda>_. []) 9 0 IESELECT)
     \<noteq> fst (iperf_strerror (\<lambda>_. ''Connection refused'') (\<lambda>_. []) 111 0 IESENDRESULTS) \<and>
   fst (iperf_strerror (\<lambda>_. []) (\<lambda>_. []) 0 0 IEPTHREADATTRDESTROY)
     = fst (iperf_strerror (\<lambda>_. []) (\<lambda>_. []) 0 0 IECNTLKA)"
proof -
  have m: "IESELECT \<in> set ierror_codes" "IESENDRESULTS \<in> set ierror_codes"
    "IEPTHREADATTRDESTROY \<in> set ierror_codes" "IECNTLKA \<in> set ierror_codes"
    by (simp_all add: ierror_codes_def)
  show ?thesis
    using iperf_strerror_complete[OF m(1,2), of "\<lambda>_. ''Bad file descriptor''" "\<lambda>_. []" 9 0
        "\<lambda>_. ''Connection refused''" "\<lambda>_. []" 111 0]
      iperf_strerror_complete[OF m(3,4), of "\<lambda>_. []" "\<lambda>_. []" 0 0]
    by (simp add: doubleton_eq_iff)
qed

end
