(* ===== verification/Json.thy ===== *)
theory Json
  imports Floats
begin

text \<open>
  The part of \<open>cjson.c\<close> the protocol relies on, on trees as the parser builds them: the integer
  value a number node carries next to its \<open>double\<close>, the case-insensitive lookup of a member, and
  the functions that append members. \<open>iperf_cJSON_GetObjectItemType\<close> of \<open>iperf_util.c\<close> is here too.
  A tree is a value; the functions of the code that add to an object return the new object.
\<close>

section \<open>Trees\<close>

datatype cJSON =
    J_Null
  | J_Bool bool
  | J_Number (valuedouble: dbl)
  | J_String (valuestring: string)
  | J_Array "cJSON list"
  | J_Object "(string \<times> cJSON) list"

text \<open>\<open>cJSON_CreateNumber\<close> and \<open>parse_number\<close> saturate the 64-bit integer value. The comparison
with \<open>LLONG_MAX\<close> converts it to the double \<open>2^63\<close>.\<close>

definition LLONG_MAX :: int where "LLONG_MAX = 2 ^ 63 - 1"
definition LLONG_MIN :: int where "LLONG_MIN = - (2 ^ 63)"

definition saturate :: "dbl \<Rightarrow> int" where
  "saturate num =
     (if num \<ge> 2 ^ 63 then LLONG_MAX
      else if num \<le> - (2 ^ 63) then LLONG_MIN
      else trunc num)"

text \<open>The field \<open>valueint\<close> of a parsed node: the parser sets it to 1 for \<open>true\<close>.\<close>

fun valueint :: "cJSON \<Rightarrow> int" where
  "valueint (J_Number d) = saturate d"
| "valueint (J_Bool True) = 1"
| "valueint _ = 0"

section \<open>Lookup\<close>

fun find_item :: "string \<Rightarrow> (string \<times> cJSON) list \<Rightarrow> cJSON option" where
  "find_item name [] = None"
| "find_item name ((k, v) # kvs) = (if strcaseeq name k then Some v else find_item name kvs)"

fun cJSON_GetObjectItem :: "cJSON \<Rightarrow> string \<Rightarrow> cJSON option" where
  "cJSON_GetObjectItem (J_Object kvs) name = find_item name kvs"
| "cJSON_GetObjectItem _ name = None"

fun cJSON_GetArraySize :: "cJSON \<Rightarrow> int" where
  "cJSON_GetArraySize (J_Array xs) = to_int32 (int (length xs))"
| "cJSON_GetArraySize (J_Object kvs) = to_int32 (int (length kvs))"
| "cJSON_GetArraySize _ = 0"

fun cJSON_GetArrayItem :: "cJSON \<Rightarrow> int \<Rightarrow> cJSON option" where
  "cJSON_GetArrayItem (J_Array xs) i =
     (if i < 0 then None else if nat i < length xs then Some (xs ! nat i) else None)"
| "cJSON_GetArrayItem (J_Object kvs) i =
     (if i < 0 then None else if nat i < length kvs then Some (snd (kvs ! nat i)) else None)"
| "cJSON_GetArrayItem _ i = None"

datatype json_type = cJSON_True | cJSON_String | cJSON_Number | cJSON_Array

text \<open>The expected type \<open>cJSON_True\<close> is checked with \<open>cJSON_IsBool\<close>, which \<open>false\<close> passes too.\<close>

fun has_type :: "json_type \<Rightarrow> cJSON \<Rightarrow> bool" where
  "has_type cJSON_True (J_Bool b) = True"
| "has_type cJSON_String (J_String s) = True"
| "has_type cJSON_Number (J_Number d) = True"
| "has_type cJSON_Array (J_Array xs) = True"
| "has_type _ _ = False"

definition iperf_cJSON_GetObjectItemType :: "cJSON \<Rightarrow> string \<Rightarrow> json_type \<Rightarrow> cJSON option" where
  "iperf_cJSON_GetObjectItemType j item_string expected_type =
     (case cJSON_GetObjectItem j item_string of
        None \<Rightarrow> None
      | Some j_p \<Rightarrow> if has_type expected_type j_p then Some j_p else None)"

section \<open>Construction\<close>

fun add_item_to_object :: "string \<Rightarrow> cJSON \<Rightarrow> cJSON \<Rightarrow> cJSON" where
  "add_item_to_object name v (J_Object kvs) = J_Object (kvs @ [(name, v)])"
| "add_item_to_object name v j = j"

definition cJSON_AddTrueToObject :: "string \<Rightarrow> cJSON \<Rightarrow> cJSON" where
  "cJSON_AddTrueToObject name = add_item_to_object name (J_Bool True)"

definition cJSON_AddNumberToObject :: "string \<Rightarrow> dbl \<Rightarrow> cJSON \<Rightarrow> cJSON" where
  "cJSON_AddNumberToObject name d = add_item_to_object name (J_Number d)"

definition cJSON_AddStringToObject :: "string \<Rightarrow> string \<Rightarrow> cJSON \<Rightarrow> cJSON" where
  "cJSON_AddStringToObject name s = add_item_to_object name (J_String s)"

text \<open>\<open>cJSON_DetachItemFromObject\<close>: the first member of that name, and the object without it.\<close>

fun remove_item :: "string \<Rightarrow> (string \<times> cJSON) list \<Rightarrow> (string \<times> cJSON) list" where
  "remove_item name [] = []"
| "remove_item name ((k, v) # kvs) =
     (if strcaseeq name k then kvs else (k, v) # remove_item name kvs)"

fun cJSON_DetachItemFromObject :: "string \<Rightarrow> cJSON \<Rightarrow> cJSON option \<times> cJSON" where
  "cJSON_DetachItemFromObject name (J_Object kvs) =
     (find_item name kvs, J_Object (remove_item name kvs))"
| "cJSON_DetachItemFromObject name j = (None, j)"

section \<open>Lemmas\<close>

lemma saturate_int: "\<bar>i\<bar> \<le> 2 ^ 53 \<Longrightarrow> saturate (dbl_of_int i) = i"
proof -
  assume i: "\<bar>i\<bar> \<le> 2 ^ 53"
  have "(of_int i :: rat) < of_int (2 ^ 63)" "(of_int (- (2 ^ 63)) :: rat) < of_int i"
    using i by (simp_all only: of_int_less_iff) simp_all
  then show ?thesis using i by (simp add: saturate_def dbl_of_int_exact)
qed

lemma saturate_range: "LLONG_MIN \<le> saturate d \<and> saturate d \<le> LLONG_MAX"
proof -
  have "trunc d \<le> LLONG_MAX" if "d < 2 ^ 63"
  proof (cases "0 \<le> d")
    case True
    then have "trunc d = \<lfloor>d\<rfloor>" by (simp add: trunc_def)
    moreover have "d < of_int (2 ^ 63)" using that by simp
    then have "\<lfloor>d\<rfloor> < 2 ^ 63" by (simp only: floor_less_iff)
    ultimately show ?thesis by (simp add: LLONG_MAX_def)
  next
    case False
    then have "trunc d \<le> 0" by (simp add: trunc_def)
    then show ?thesis by (simp add: LLONG_MAX_def)
  qed
  moreover have "LLONG_MIN \<le> trunc d" if "- (2 ^ 63) < d"
  proof (cases "0 \<le> d")
    case True
    then show ?thesis by (simp add: trunc_def LLONG_MIN_def)
  next
    case False
    then have "trunc d = \<lceil>d\<rceil>" by (simp add: trunc_def)
    moreover have "of_int (- (2 ^ 63)) < d" using that by simp
    then have "- (2 ^ 63) < \<lceil>d\<rceil>" by (simp only: less_ceiling_iff)
    ultimately show ?thesis by (simp add: LLONG_MIN_def)
  qed
  ultimately show ?thesis by (auto simp: saturate_def LLONG_MAX_def LLONG_MIN_def)
qed

lemma find_item_append:
  "find_item name (xs @ ys) = (case find_item name xs of None \<Rightarrow> find_item name ys | Some v \<Rightarrow> Some v)"
  by (induction name xs rule: find_item.induct) auto

lemma GetObjectItem_add:
  "cJSON_GetObjectItem (add_item_to_object k v (J_Object kvs)) name =
     (case find_item name kvs of
        None \<Rightarrow> if strcaseeq name k then Some v else None
      | Some w \<Rightarrow> Some w)"
  by (simp add: find_item_append split: option.split)

lemma find_item_none: "(\<And>k v. (k, v) \<in> set kvs \<Longrightarrow> \<not> strcaseeq name k) \<Longrightarrow> find_item name kvs = None"
  by (induction name kvs rule: find_item.induct) auto

end
