(* ===== verification/Test_State.thy ===== *)
theory Test_State
  imports Iperf_Time Timers Errors Json
begin

text \<open>
  The structures of \<open>iperf.h\<close> and the functions of \<open>iperf_api.c\<close> that set them up: the setters,
  \<open>iperf_new_test\<close> and \<open>iperf_defaults\<close>, \<open>iperf_reset_test\<close> and \<open>iperf_reset_stats\<close>. A field of
  \<open>struct iperf_test\<close> has the prefix \<open>t_\<close>, of \<open>iperf_settings\<close> \<open>s_\<close>, of \<open>iperf_stream\<close> \<open>sp_\<close>, of
  \<open>iperf_stream_result\<close> \<open>rp_\<close> and of \<open>iperf_interval_results\<close> \<open>irp_\<close>, after the variables of the code.
  \<open>struct iperf_test\<close> is one record in three layers (options, flags, run state). The global
  \<open>i_errno\<close> is the field \<open>t_i_errno\<close>. Left out are the fields for SCTP, SSL and MPTCP, which the
  build does not have, the output (streams of text and of JSON), and the callback pointers.
\<close>

section \<open>Constants\<close>

abbreviation (input) Ptcp :: int where "Ptcp \<equiv> 1"
abbreviation (input) Pudp :: int where "Pudp \<equiv> 2"
abbreviation (input) Psctp :: int where "Psctp \<equiv> 12"

abbreviation (input) TEST_START :: int where "TEST_START \<equiv> 1"
abbreviation (input) TEST_RUNNING :: int where "TEST_RUNNING \<equiv> 2"
abbreviation (input) TEST_END :: int where "TEST_END \<equiv> 4"
abbreviation (input) PARAM_EXCHANGE :: int where "PARAM_EXCHANGE \<equiv> 9"
abbreviation (input) CREATE_STREAMS :: int where "CREATE_STREAMS \<equiv> 10"
abbreviation (input) SERVER_TERMINATE :: int where "SERVER_TERMINATE \<equiv> 11"
abbreviation (input) CLIENT_TERMINATE :: int where "CLIENT_TERMINATE \<equiv> 12"
abbreviation (input) EXCHANGE_RESULTS :: int where "EXCHANGE_RESULTS \<equiv> 13"
abbreviation (input) DISPLAY_RESULTS :: int where "DISPLAY_RESULTS \<equiv> 14"
abbreviation (input) IPERF_START :: int where "IPERF_START \<equiv> 15"
abbreviation (input) IPERF_DONE :: int where "IPERF_DONE \<equiv> 16"
abbreviation (input) ACCESS_DENIED :: int where "ACCESS_DENIED \<equiv> - 1"
abbreviation (input) SERVER_ERROR :: int where "SERVER_ERROR \<equiv> - 2"

abbreviation (input) NET_SOFTERROR :: int where "NET_SOFTERROR \<equiv> - 1"
abbreviation (input) NET_HARDERROR :: int where "NET_HARDERROR \<equiv> - 2"

abbreviation (input) DEFAULT_TCP_BLKSIZE :: int where "DEFAULT_TCP_BLKSIZE \<equiv> 131072"
abbreviation (input) DEFAULT_UDP_BLKSIZE :: int where "DEFAULT_UDP_BLKSIZE \<equiv> 1460"
abbreviation (input) DEFAULT_PACING_TIMER :: int where "DEFAULT_PACING_TIMER \<equiv> 1000"
abbreviation (input) OMIT :: int where "OMIT \<equiv> 0"
abbreviation (input) DURATION :: int where "DURATION \<equiv> 10"
abbreviation (input) PORT :: int where "PORT \<equiv> 5201"

text \<open>The cyclic array of \<open>iperf_check_total_rate\<close> has \<open>MAX_INTERVAL\<close> cells.\<close>

definition MAX_INTERVAL_CELLS :: nat where "MAX_INTERVAL_CELLS = 60"

section \<open>Structures\<close>

record iperf_settings =
  s_domain :: int
  s_socket_bufsize :: int
  s_blksize :: int
  s_rate :: u64
  s_bitrate_limit :: u64
  s_bitrate_limit_interval :: dbl
  s_bitrate_limit_stats_per_interval :: int
  s_fqrate :: u64
  s_pacing_timer :: int
  s_burst :: int
  s_mss :: int
  s_ttl :: int
  s_tos :: int
  s_flowlabel :: int
  s_bytes :: u64
  s_blocks :: u64
  s_unit_format :: char
  s_dont_fragment :: int
  s_skip_rx_copy :: int
  s_connect_timeout :: int
  s_idle_timeout :: int
  s_snd_timeout :: u32
  s_rcv_timeout :: iperf_time
  s_cntl_ka :: int
  s_cntl_ka_keepidle :: int
  s_cntl_ka_interval :: int
  s_cntl_ka_count :: int

text \<open>The members of \<open>struct tcp_info\<close> the code reads.\<close>

record tcp_info =
  tcpi_total_retrans :: u32
  tcpi_snd_cwnd :: u32
  tcpi_snd_mss :: u32
  tcpi_rtt :: u32
  tcpi_rttvar :: u32
  tcpi_pmtu :: u32

record iperf_interval_results =
  irp_bytes_transferred :: u64
  irp_interval_start_time :: iperf_time
  irp_interval_end_time :: iperf_time
  irp_interval_duration :: rat
  irp_interval_packet_count :: int
  irp_interval_outoforder_packets :: int
  irp_interval_cnt_error :: int
  irp_packet_count :: int
  irp_jitter :: dbl
  irp_outoforder_packets :: int
  irp_cnt_error :: int
  irp_omitted :: int
  irp_tcpInfo :: tcp_info
  irp_interval_retrans :: int
  irp_snd_cwnd :: int
  irp_snd_wnd :: int
  irp_rtt :: int
  irp_rttvar :: int
  irp_pmtu :: int

record iperf_stream_result =
  rp_bytes_received :: u64
  rp_bytes_sent :: u64
  rp_bytes_received_this_interval :: u64
  rp_bytes_sent_this_interval :: u64
  rp_bytes_sent_omit :: u64
  rp_stream_prev_total_retrans :: int
  rp_stream_retrans :: int
  rp_stream_max_rtt :: int
  rp_stream_min_rtt :: int
  rp_stream_sum_rtt :: int
  rp_stream_count_rtt :: int
  rp_stream_max_snd_cwnd :: int
  rp_stream_max_snd_wnd :: int
  rp_start_time :: iperf_time
  rp_end_time :: iperf_time
  rp_start_time_fixed :: iperf_time
  rp_sender_time :: dbl
  rp_receiver_time :: dbl
  rp_interval_results :: "iperf_interval_results list"

text \<open>The functions the pointers \<open>snd\<close> and \<open>rcv\<close> of a stream can point to.\<close>

datatype io_proc = Tcp_io | Udp_io | Diskfile_io

record iperf_stream =
  sp_thread_created :: int
  sp_done :: int
  sp_local_port :: int
  sp_remote_port :: int
  sp_socket :: int
  sp_id :: int
  sp_sender :: int
  sp_result :: iperf_stream_result
  sp_green_light :: int
  sp_buffer :: "u8 list"
  sp_pending_size :: int
  sp_diskfile_fd :: int
  sp_diskfile_left :: int
  sp_packet_count :: int
  sp_peer_packet_count :: int
  sp_peer_omitted_packet_count :: int
  sp_omitted_packet_count :: int
  sp_jitter :: dbl
  sp_prev_transit :: dbl
  sp_outoforder_packets :: int
  sp_omitted_outoforder_packets :: int
  sp_cnt_error :: int
  sp_omitted_cnt_error :: int
  sp_snd :: io_proc
  sp_rcv :: io_proc
  sp_snd2 :: io_proc
  sp_rcv2 :: io_proc

datatype iperf_mode = SENDER | RECEIVER | BIDIRECTIONAL

record iperf_test_options =
  t_role :: char
  t_mode :: iperf_mode
  t_sender_has_retransmits :: int
  t_other_side_has_retransmits :: int
  t_protocol :: int
  t_protocols :: "int list"
  t_state :: int
  t_server_hostname :: "string option"
  t_bind_address :: "string option"
  t_bind_dev :: "string option"
  t_bind_port :: int
  t_server_port :: int
  t_omit :: int
  t_duration :: int
  t_diskfile_name :: "string option"
  t_affinity :: int
  t_server_affinity :: int
  t_title :: "string option"
  t_extra_data :: "string option"
  t_congestion :: "string option"
  t_congestion_used :: "string option"
  t_remote_congestion_used :: "string option"
  t_pidfile :: "string option"
  t_logfile :: "string option"

record iperf_test_flags = iperf_test_options +
  t_daemon :: int
  t_one_off :: int
  t_no_delay :: int
  t_reverse :: int
  t_bidirectional :: int
  t_verbose :: int
  t_json_output :: int
  t_json_stream :: int
  t_zerocopy :: int
  t_debug :: int
  t_debug_level :: int
  t_get_server_output :: int
  t_udp_counters_64bit :: int
  t_forceflush :: int
  t_multisend :: int
  t_repeating_payload :: int
  t_timestamps :: int
  t_timestamp_format :: "string option"

record iperf_test = iperf_test_flags +
  t_settings :: iperf_settings
  t_ctrl_sck :: int
  t_mapped_v4 :: int
  t_listener :: int
  t_prot_listener :: int
  t_ctrl_sck_mss :: int
  t_max_fd :: int
  t_read_set :: "int set"
  t_write_set :: "int set"
  t_omitting :: int
  t_stats_interval :: dbl
  t_reporter_interval :: dbl
  t_omit_timer :: "addr option"
  t_timer :: "addr option"
  t_done :: int
  t_stats_timer :: "addr option"
  t_reporter_timer :: "addr option"
  t_cpu_util :: "dbl \<times> dbl \<times> dbl"
  t_remote_cpu_util :: "dbl \<times> dbl \<times> dbl"
  t_num_streams :: int
  t_bytes_sent :: u64
  t_blocks_sent :: u64
  t_bytes_received :: u64
  t_blocks_received :: u64
  t_bitrate_limit_stats_count :: u64
  t_bitrate_limit_intervals_traffic_bytes :: "u64 list"
  t_bitrate_limit_last_interval_index :: u64
  t_bitrate_limit_exceeded :: int
  t_server_last_run_rc :: int
  t_server_forced_idle_restarts_count :: u32
  t_server_forced_no_msg_restarts_count :: u32
  t_server_test_number :: u32
  t_cookie :: string
  t_streams :: "iperf_stream list"
  t_server_output_text :: "string option"
  t_json_server_output :: "cJSON option"
  t_server_output_list :: "string list"
  t_i_errno :: int

section \<open>tcp_info.c on Linux\<close>

definition has_tcpinfo :: int where "has_tcpinfo = 1"
definition has_tcpinfo_retransmits :: int where "has_tcpinfo_retransmits = 1"

text \<open>\<open>save_tcpinfo\<close>: what \<open>getsockopt (TCP_INFO)\<close> fills in; on failure the old contents stay.\<close>

definition save_tcpinfo :: "tcp_info option \<Rightarrow> iperf_interval_results \<Rightarrow> iperf_interval_results" where
  "save_tcpinfo sockopt irp =
     (case sockopt of None \<Rightarrow> irp | Some i \<Rightarrow> irp\<lparr>irp_tcpInfo := i\<rparr>)"

definition get_total_retransmits :: "iperf_interval_results \<Rightarrow> int" where
  "get_total_retransmits irp = uint (tcpi_total_retrans (irp_tcpInfo irp))"

definition get_snd_cwnd :: "iperf_interval_results \<Rightarrow> int" where
  "get_snd_cwnd irp =
     to_int64 (uint (tcpi_snd_cwnd (irp_tcpInfo irp)) * uint (tcpi_snd_mss (irp_tcpInfo irp)))"

definition get_snd_wnd :: "iperf_interval_results \<Rightarrow> int" where
  "get_snd_wnd irp = - 1"

definition get_rtt :: "iperf_interval_results \<Rightarrow> int" where
  "get_rtt irp = uint (tcpi_rtt (irp_tcpInfo irp))"

definition get_rttvar :: "iperf_interval_results \<Rightarrow> int" where
  "get_rttvar irp = uint (tcpi_rttvar (irp_tcpInfo irp))"

definition get_pmtu :: "iperf_interval_results \<Rightarrow> int" where
  "get_pmtu irp = uint (tcpi_pmtu (irp_tcpInfo irp))"

section \<open>Zeroed structures\<close>

definition zero_time :: iperf_time where "zero_time = Iperf_Time 0 0"

definition zero_settings :: iperf_settings where
  "zero_settings =
    \<lparr>s_domain = 0, s_socket_bufsize = 0, s_blksize = 0, s_rate = 0, s_bitrate_limit = 0,
     s_bitrate_limit_interval = 0, s_bitrate_limit_stats_per_interval = 0, s_fqrate = 0,
     s_pacing_timer = 0, s_burst = 0, s_mss = 0, s_ttl = 0, s_tos = 0, s_flowlabel = 0,
     s_bytes = 0, s_blocks = 0, s_unit_format = CHR 0x00, s_dont_fragment = 0,
     s_skip_rx_copy = 0, s_connect_timeout = 0, s_idle_timeout = 0, s_snd_timeout = 0,
     s_rcv_timeout = zero_time, s_cntl_ka = 0, s_cntl_ka_keepidle = 0, s_cntl_ka_interval = 0,
     s_cntl_ka_count = 0\<rparr>"

definition zero_tcp_info :: tcp_info where
  "zero_tcp_info = \<lparr>tcpi_total_retrans = 0, tcpi_snd_cwnd = 0, tcpi_snd_mss = 0, tcpi_rtt = 0,
     tcpi_rttvar = 0, tcpi_pmtu = 0\<rparr>"

definition zero_interval :: iperf_interval_results where
  "zero_interval =
    \<lparr>irp_bytes_transferred = 0, irp_interval_start_time = zero_time,
     irp_interval_end_time = zero_time, irp_interval_duration = 0,
     irp_interval_packet_count = 0, irp_interval_outoforder_packets = 0,
     irp_interval_cnt_error = 0, irp_packet_count = 0, irp_jitter = 0,
     irp_outoforder_packets = 0, irp_cnt_error = 0, irp_omitted = 0,
     irp_tcpInfo = zero_tcp_info, irp_interval_retrans = 0, irp_snd_cwnd = 0, irp_snd_wnd = 0,
     irp_rtt = 0, irp_rttvar = 0, irp_pmtu = 0\<rparr>"

definition zero_result :: iperf_stream_result where
  "zero_result =
    \<lparr>rp_bytes_received = 0, rp_bytes_sent = 0, rp_bytes_received_this_interval = 0,
     rp_bytes_sent_this_interval = 0, rp_bytes_sent_omit = 0, rp_stream_prev_total_retrans = 0,
     rp_stream_retrans = 0, rp_stream_max_rtt = 0, rp_stream_min_rtt = 0,
     rp_stream_sum_rtt = 0, rp_stream_count_rtt = 0, rp_stream_max_snd_cwnd = 0,
     rp_stream_max_snd_wnd = 0, rp_start_time = zero_time, rp_end_time = zero_time,
     rp_start_time_fixed = zero_time, rp_sender_time = 0, rp_receiver_time = 0,
     rp_interval_results = []\<rparr>"

definition zero_stream :: iperf_stream where
  "zero_stream =
    \<lparr>sp_thread_created = 0, sp_done = 0, sp_local_port = 0, sp_remote_port = 0, sp_socket = 0,
     sp_id = 0, sp_sender = 0, sp_result = zero_result, sp_green_light = 0, sp_buffer = [],
     sp_pending_size = 0, sp_diskfile_fd = 0, sp_diskfile_left = 0, sp_packet_count = 0,
     sp_peer_packet_count = 0, sp_peer_omitted_packet_count = 0, sp_omitted_packet_count = 0,
     sp_jitter = 0, sp_prev_transit = 0, sp_outoforder_packets = 0,
     sp_omitted_outoforder_packets = 0, sp_cnt_error = 0, sp_omitted_cnt_error = 0,
     sp_snd = Tcp_io, sp_rcv = Tcp_io, sp_snd2 = Tcp_io, sp_rcv2 = Tcp_io\<rparr>"

text \<open>\<open>iperf_new_test\<close>: the three allocations succeed or not; all fields are zero.\<close>

definition zero_test :: iperf_test where
  "zero_test =
    \<lparr>t_role = CHR 0x00, t_mode = RECEIVER, t_sender_has_retransmits = 0,
     t_other_side_has_retransmits = 0, t_protocol = 0, t_protocols = [], t_state = 0,
     t_server_hostname = None, t_bind_address = None, t_bind_dev = None, t_bind_port = 0,
     t_server_port = 0, t_omit = 0, t_duration = 0, t_diskfile_name = None, t_affinity = 0,
     t_server_affinity = 0, t_title = None, t_extra_data = None, t_congestion = None,
     t_congestion_used = None, t_remote_congestion_used = None, t_pidfile = None,
     t_logfile = None,
     t_daemon = 0, t_one_off = 0, t_no_delay = 0, t_reverse = 0, t_bidirectional = 0,
     t_verbose = 0, t_json_output = 0, t_json_stream = 0, t_zerocopy = 0, t_debug = 0,
     t_debug_level = 0, t_get_server_output = 0, t_udp_counters_64bit = 0, t_forceflush = 0,
     t_multisend = 0, t_repeating_payload = 0, t_timestamps = 0, t_timestamp_format = None,
     t_settings = zero_settings, t_ctrl_sck = 0, t_mapped_v4 = 0, t_listener = 0,
     t_prot_listener = 0, t_ctrl_sck_mss = 0, t_max_fd = 0, t_read_set = {}, t_write_set = {},
     t_omitting = 0, t_stats_interval = 0, t_reporter_interval = 0, t_omit_timer = None,
     t_timer = None, t_done = 0, t_stats_timer = None, t_reporter_timer = None,
     t_cpu_util = (0, 0, 0), t_remote_cpu_util = (0, 0, 0), t_num_streams = 0,
     t_bytes_sent = 0, t_blocks_sent = 0, t_bytes_received = 0, t_blocks_received = 0,
     t_bitrate_limit_stats_count = 0,
     t_bitrate_limit_intervals_traffic_bytes = replicate MAX_INTERVAL_CELLS 0,
     t_bitrate_limit_last_interval_index = 0, t_bitrate_limit_exceeded = 0,
     t_server_last_run_rc = 0, t_server_forced_idle_restarts_count = 0,
     t_server_forced_no_msg_restarts_count = 0, t_server_test_number = 0, t_cookie = [],
     t_streams = [], t_server_output_text = None, t_json_server_output = None,
     t_server_output_list = [], t_i_errno = 0\<rparr>"

definition iperf_new_test :: "bool \<Rightarrow> bool \<Rightarrow> bool \<Rightarrow> int + iperf_test" where
  "iperf_new_test mem_test mem_settings mem_traffic =
     (if \<not> mem_test then Inl IENEWTEST
      else if \<not> mem_settings then Inl IENEWTEST
      else if \<not> mem_traffic then Inl IENEWTEST
      else Inr zero_test)"

section \<open>Setters that derive other fields\<close>

definition upd_settings :: "(iperf_settings \<Rightarrow> iperf_settings) \<Rightarrow> iperf_test \<Rightarrow> iperf_test" where
  "upd_settings f t = t\<lparr>t_settings := f (t_settings t)\<rparr>"

definition check_sender_has_retransmits :: "iperf_test \<Rightarrow> iperf_test" where
  "check_sender_has_retransmits ipt =
     (if t_mode ipt \<noteq> RECEIVER \<and> t_protocol ipt = Ptcp \<and> c_true has_tcpinfo_retransmits
      then ipt\<lparr>t_sender_has_retransmits := 1\<rparr>
      else ipt\<lparr>t_sender_has_retransmits := 0\<rparr>)"

definition iperf_set_test_role :: "char \<Rightarrow> iperf_test \<Rightarrow> iperf_test" where
  "iperf_set_test_role role ipt0 =
     (let ipt = ipt0\<lparr>t_role := role\<rparr>;
          m = (if \<not> c_true (t_reverse ipt) then
                 (if c_true (t_bidirectional ipt) then BIDIRECTIONAL
                  else if role = CHR ''c'' then SENDER
                  else if role = CHR ''s'' then RECEIVER
                  else t_mode ipt)
               else
                 (if role = CHR ''c'' then RECEIVER
                  else if role = CHR ''s'' then SENDER
                  else t_mode ipt))
      in check_sender_has_retransmits (ipt\<lparr>t_mode := m\<rparr>))"

definition iperf_set_test_reverse :: "int \<Rightarrow> iperf_test \<Rightarrow> iperf_test" where
  "iperf_set_test_reverse reverse ipt0 =
     (let ipt = ipt0\<lparr>t_reverse := reverse\<rparr>;
          m = (if \<not> c_true (t_reverse ipt) then
                 (if t_role ipt = CHR ''c'' then SENDER
                  else if t_role ipt = CHR ''s'' then RECEIVER
                  else t_mode ipt)
               else
                 (if t_role ipt = CHR ''c'' then RECEIVER
                  else if t_role ipt = CHR ''s'' then SENDER
                  else t_mode ipt))
      in check_sender_has_retransmits (ipt\<lparr>t_mode := m\<rparr>))"

definition iperf_set_test_bidirectional :: "int \<Rightarrow> iperf_test \<Rightarrow> iperf_test" where
  "iperf_set_test_bidirectional bidirectional ipt0 =
     (let ipt = ipt0\<lparr>t_bidirectional := bidirectional\<rparr>
      in if c_true bidirectional then ipt\<lparr>t_mode := BIDIRECTIONAL\<rparr>
         else iperf_set_test_reverse (t_reverse ipt) ipt)"

definition set_protocol :: "int \<Rightarrow> iperf_test \<Rightarrow> int \<times> iperf_test" where
  "set_protocol prot_id t =
     (if prot_id \<in> set (t_protocols t)
      then (0, check_sender_has_retransmits (t\<lparr>t_protocol := prot_id\<rparr>))
      else (- 1, t\<lparr>t_i_errno := IEPROTOCOL\<rparr>))"

definition get_protocol :: "int \<Rightarrow> iperf_test \<Rightarrow> int option \<times> iperf_test" where
  "get_protocol prot_id t =
     (if prot_id \<in> set (t_protocols t) then (Some prot_id, t)
      else (None, t\<lparr>t_i_errno := IEPROTOCOL\<rparr>))"

section \<open>iperf_defaults\<close>

definition default_settings :: "iperf_settings \<Rightarrow> iperf_settings" where
  "default_settings s =
    s\<lparr>s_domain := 0, s_unit_format := CHR ''a'', s_socket_bufsize := 0,
      s_blksize := DEFAULT_TCP_BLKSIZE, s_rate := 0, s_bitrate_limit := 0,
      s_bitrate_limit_interval := 5, s_bitrate_limit_stats_per_interval := 0, s_fqrate := 0,
      s_pacing_timer := DEFAULT_PACING_TIMER, s_burst := 0, s_mss := 0, s_bytes := 0,
      s_blocks := 0, s_connect_timeout := - 1, s_rcv_timeout := Iperf_Time 120 0,
      s_skip_rx_copy := 0, s_cntl_ka := 0, s_cntl_ka_keepidle := 0, s_cntl_ka_interval := 0,
      s_cntl_ka_count := 0\<rparr>"

definition iperf_defaults :: "bool \<Rightarrow> bool \<Rightarrow> iperf_test \<Rightarrow> int \<times> iperf_test" where
  "iperf_defaults mem_tcp mem_udp testp =
     (let t1 = testp\<lparr>t_omit := OMIT, t_duration := DURATION, t_diskfile_name := None,
                 t_affinity := - 1, t_server_affinity := - 1, t_title := None,
                 t_extra_data := None, t_congestion := None, t_congestion_used := None,
                 t_remote_congestion_used := None, t_server_port := PORT, t_ctrl_sck := - 1,
                 t_listener := - 1, t_prot_listener := - 1, t_other_side_has_retransmits := 0,
                 t_stats_interval := 1, t_reporter_interval := 1, t_num_streams := 1,
                 t_settings := default_settings (t_settings testp), t_zerocopy := 0,
                 t_cookie := [], t_multisend := 10, t_streams := [], t_protocols := []\<rparr>
      in if \<not> mem_tcp then (- 1, t1)
         else if \<not> mem_udp then (- 1, t1\<lparr>t_protocols := [Ptcp]\<rparr>)
         else (0, (snd (set_protocol Ptcp (t1\<lparr>t_protocols := [Ptcp, Pudp]\<rparr>)))
                    \<lparr>t_server_output_list := []\<rparr>))"

section \<open>iperf_reset_test and iperf_reset_stats\<close>

text \<open>The procedures of the timers the program creates.\<close>

datatype timer_proc_id = Omit_timer_proc | Test_timer_proc | Stats_timer_proc | Reporter_timer_proc

type_synonym tmrs = "timer_proc_id tstate"

text \<open>\<open>if (p != NULL) tmr_cancel (p)\<close>.\<close>

definition cancel_field :: "addr option \<Rightarrow> tmrs \<Rightarrow> tmrs option" where
  "cancel_field p tm = (case p of None \<Rightarrow> Some tm | Some a \<Rightarrow> tmr_cancel a tm)"

definition cancel_test_timers :: "iperf_test \<Rightarrow> tmrs \<Rightarrow> tmrs option" where
  "cancel_test_timers t tm =
     do { tm1 \<leftarrow> cancel_field (t_omit_timer t) tm;
          tm2 \<leftarrow> cancel_field (t_timer t) tm1;
          tm3 \<leftarrow> cancel_field (t_stats_timer t) tm2;
          cancel_field (t_reporter_timer t) tm3 }"

definition reset_settings :: "iperf_settings \<Rightarrow> iperf_settings" where
  "reset_settings s =
    s\<lparr>s_socket_bufsize := 0, s_blksize := DEFAULT_TCP_BLKSIZE, s_rate := 0, s_fqrate := 0,
      s_burst := 0, s_mss := 0, s_tos := 0, s_dont_fragment := 0, s_skip_rx_copy := 0\<rparr>"

text \<open>The assignments of \<open>iperf_reset_test\<close> before and after the call of \<open>set_protocol\<close>.\<close>

definition reset_fields1 :: "iperf_test \<Rightarrow> iperf_test" where
  "reset_fields1 test =
    test\<lparr>t_streams := [], t_omit_timer := None, t_timer := None, t_stats_timer := None,
         t_reporter_timer := None, t_done := 0, t_congestion := None,
         t_remote_congestion_used := None, t_role := CHR ''s'', t_mode := RECEIVER,
         t_sender_has_retransmits := 0\<rparr>"

definition reset_fields2 :: "iperf_test \<Rightarrow> iperf_test" where
  "reset_fields2 test =
    test\<lparr>t_omit := OMIT, t_duration := DURATION, t_server_affinity := - 1, t_state := 0,
         t_ctrl_sck := - 1, t_listener := - 1, t_prot_listener := - 1, t_bytes_sent := 0,
         t_blocks_sent := 0, t_bytes_received := 0, t_blocks_received := 0,
         t_other_side_has_retransmits := 0, t_bitrate_limit_stats_count := 0,
         t_bitrate_limit_last_interval_index := 0, t_bitrate_limit_exceeded := 0,
         t_bitrate_limit_intervals_traffic_bytes := replicate MAX_INTERVAL_CELLS 0,
         t_reverse := 0, t_bidirectional := 0, t_no_delay := 0, t_read_set := {},
         t_write_set := {}, t_num_streams := 1,
         t_settings := reset_settings (t_settings test), t_zerocopy := 0, t_cookie := [],
         t_multisend := 10, t_udp_counters_64bit := 0, t_title := None, t_extra_data := None,
         t_server_output_list := []\<rparr>"

definition reset_fields :: "iperf_test \<Rightarrow> iperf_test" where
  "reset_fields test = reset_fields2 (snd (set_protocol Ptcp (reset_fields1 test)))"

definition iperf_reset_test :: "iperf_test \<Rightarrow> tmrs \<Rightarrow> (iperf_test \<times> tmrs) option" where
  "iperf_reset_test test tm =
     do { tm1 \<leftarrow> cancel_test_timers test tm; Some (reset_fields test, tm1) }"

definition reset_stream_stats ::
  "int \<Rightarrow> iperf_time \<Rightarrow> (int \<Rightarrow> tcp_info) \<Rightarrow> iperf_stream \<Rightarrow> iperf_stream" where
  "reset_stream_stats sender_has_retransmits now tcpinfo sp =
     (let rp = sp_result sp;
          rp1 = rp\<lparr>rp_bytes_sent_omit := rp_bytes_sent rp, rp_bytes_received := 0,
                   rp_bytes_sent_this_interval := 0, rp_bytes_received_this_interval := 0\<rparr>;
          rp2 = (if sender_has_retransmits = 1
                 then rp1\<lparr>rp_stream_prev_total_retrans :=
                            get_total_retransmits (save_tcpinfo (Some (tcpinfo (sp_socket sp)))
                              zero_interval)\<rparr>
                 else rp1)
      in sp\<lparr>sp_omitted_packet_count := sp_packet_count sp,
            sp_omitted_cnt_error := sp_cnt_error sp,
            sp_omitted_outoforder_packets := sp_outoforder_packets sp,
            sp_jitter := 0,
            sp_result := rp2\<lparr>rp_stream_retrans := 0, rp_start_time := now\<rparr>\<rparr>)"

definition iperf_reset_stats :: "iperf_time \<Rightarrow> (int \<Rightarrow> tcp_info) \<Rightarrow> iperf_test \<Rightarrow> iperf_test" where
  "iperf_reset_stats now tcpinfo test =
     test\<lparr>t_bytes_sent := 0, t_blocks_sent := 0,
          t_streams := map (reset_stream_stats (t_sender_has_retransmits test) now tcpinfo)
                         (t_streams test)\<rparr>"

section \<open>Roles and modes\<close>

text \<open>The mode a role and the direction options stand for.\<close>

definition mode_for :: "char \<Rightarrow> int \<Rightarrow> int \<Rightarrow> iperf_mode" where
  "mode_for role rvs bidir =
     (if bidir \<noteq> 0 then BIDIRECTIONAL
      else if (role = CHR ''c'') = (rvs = 0) then SENDER else RECEIVER)"

definition mode_ok :: "iperf_test \<Rightarrow> bool" where
  "mode_ok t \<longleftrightarrow>
     t_role t \<in> {CHR ''c'', CHR ''s''} \<and> \<not> (t_reverse t \<noteq> 0 \<and> t_bidirectional t \<noteq> 0) \<and>
     t_mode t = mode_for (t_role t) (t_reverse t) (t_bidirectional t)"

definition opposite :: "iperf_mode \<Rightarrow> iperf_mode" where
  "opposite m = (case m of SENDER \<Rightarrow> RECEIVER | RECEIVER \<Rightarrow> SENDER | BIDIRECTIONAL \<Rightarrow> BIDIRECTIONAL)"

lemma check_retransmits_frame [simp]:
  "t_mode (check_sender_has_retransmits t) = t_mode t"
  "t_role (check_sender_has_retransmits t) = t_role t"
  "t_reverse (check_sender_has_retransmits t) = t_reverse t"
  "t_bidirectional (check_sender_has_retransmits t) = t_bidirectional t"
  "t_protocol (check_sender_has_retransmits t) = t_protocol t"
  "t_protocols (check_sender_has_retransmits t) = t_protocols t"
  "t_settings (check_sender_has_retransmits t) = t_settings t"
  "t_streams (check_sender_has_retransmits t) = t_streams t"
  by (simp_all add: check_sender_has_retransmits_def)

lemma check_retransmits_more: "\<exists>v. check_sender_has_retransmits t = t\<lparr>t_sender_has_retransmits := v\<rparr>"
  by (auto simp: check_sender_has_retransmits_def)

lemma setters_keep_mode:
  "role \<in> {CHR ''c'', CHR ''s''} \<Longrightarrow> t_reverse t = 0 \<or> t_bidirectional t = 0 \<Longrightarrow>
    mode_ok (iperf_set_test_role role t)"
  "mode_ok t \<Longrightarrow> t_bidirectional t = 0 \<Longrightarrow> mode_ok (iperf_set_test_reverse r t)"
  "mode_ok t \<Longrightarrow> t_reverse t = 0 \<Longrightarrow> mode_ok (iperf_set_test_bidirectional b t)"
  by (auto simp: mode_ok_def mode_for_def iperf_set_test_role_def iperf_set_test_reverse_def
      iperf_set_test_bidirectional_def Let_def c_true_def)

text \<open>The sender flag after a setter is the one the mode and the protocol call for.\<close>

definition retr_ok :: "iperf_test \<Rightarrow> bool" where
  "retr_ok t \<longleftrightarrow>
     t_sender_has_retransmits t = (if t_mode t \<noteq> RECEIVER \<and> t_protocol t = Ptcp then 1 else 0)"

lemma retr_ok_check [wf_intros]: "retr_ok (check_sender_has_retransmits t)"
  by (simp add: retr_ok_def check_sender_has_retransmits_def has_tcpinfo_retransmits_def)

lemma retr_ok_setters [wf_intros]:
  "retr_ok (iperf_set_test_role r t)" "retr_ok (iperf_set_test_reverse v t)"
  by (simp_all add: iperf_set_test_role_def iperf_set_test_reverse_def retr_ok_check Let_def)

section \<open>What a reset leaves\<close>

lemma defaults_ok:
  "iperf_defaults True True zero_test = (0, t) \<Longrightarrow> t_protocols t = [Ptcp, Pudp] \<and> t_protocol t = Ptcp"
  by (auto simp: iperf_defaults_def set_protocol_def Let_def)

lemma reset_mode_ok: "Ptcp \<in> set (t_protocols t) \<Longrightarrow> mode_ok (reset_fields t) \<and> retr_ok (reset_fields t)"
  by (simp add: reset_fields_def reset_fields1_def reset_fields2_def set_protocol_def mode_ok_def
      mode_for_def retr_ok_def check_sender_has_retransmits_def)

text \<open>
  The fields a reset does not touch, and which the server sets from the parameters of a client
  only when they are present in them. What one client set is still there for the next.
\<close>

definition leaks :: "iperf_test \<Rightarrow> iperf_test \<Rightarrow> bool" where
  "leaks t u \<longleftrightarrow>
     t_get_server_output t = t_get_server_output u \<and>
     t_repeating_payload t = t_repeating_payload u \<and>
     t_congestion_used t = t_congestion_used u \<and>
     s_pacing_timer (t_settings t) = s_pacing_timer (t_settings u) \<and>
     s_flowlabel (t_settings t) = s_flowlabel (t_settings u)"

lemma reset_leaks: "leaks (reset_fields t) t"
  by (simp add: leaks_def reset_fields_def reset_fields1_def reset_fields2_def set_protocol_def
      reset_settings_def check_sender_has_retransmits_def)

end
