(* ===== verification/Params.thy ===== *)
theory Params
  imports Test_State
begin

text \<open>
  The parameter exchange of \<open>iperf_api.c\<close>: \<open>send_parameters\<close> builds a JSON object from the client's
  test, \<open>get_parameters\<close> sets the server's test from it. The lemmas evaluate every lookup in the
  object; the properties say what the server has afterwards, whatever it had before.
\<close>

section \<open>send_parameters\<close>

definition IPERF_VERSION :: string where "IPERF_VERSION = ''3.19''"

text \<open>One call of \<open>cJSON_Add...ToObject\<close> appends one member.\<close>

definition num_member :: "string \<Rightarrow> int \<Rightarrow> (string \<times> cJSON) list" where
  "num_member name i = [(name, J_Number (dbl_of_int i))]"

definition true_member :: "string \<Rightarrow> (string \<times> cJSON) list" where
  "true_member name = [(name, J_Bool True)]"

definition str_member :: "string \<Rightarrow> string option \<Rightarrow> (string \<times> cJSON) list" where
  "str_member name so = (case so of None \<Rightarrow> [] | Some s \<Rightarrow> [(name, J_String s)])"

definition num_unless0 :: "string \<Rightarrow> int \<Rightarrow> (string \<times> cJSON) list" where
  "num_unless0 name i = (if i \<noteq> 0 then num_member name i else [])"

definition true_unless0 :: "string \<Rightarrow> int \<Rightarrow> (string \<times> cJSON) list" where
  "true_unless0 name i = (if i \<noteq> 0 then true_member name else [])"

definition params_members :: "iperf_test \<Rightarrow> (string \<times> cJSON) list" where
  "params_members test =
     (let st = t_settings test in
      (if t_protocol test = Ptcp then true_member ''tcp''
       else if t_protocol test = Pudp then true_member ''udp''
       else if t_protocol test = Psctp then true_member ''sctp'' else []) @
      num_member ''omit'' (t_omit test) @
      (if t_server_affinity test \<noteq> - 1 then num_member ''server_affinity'' (t_server_affinity test) else []) @
      num_member ''time'' (t_duration test) @
      num_member ''num'' (uint (s_bytes st)) @
      num_member ''blockcount'' (uint (s_blocks st)) @
      num_unless0 ''MSS'' (s_mss st) @
      true_unless0 ''nodelay'' (t_no_delay test) @
      num_member ''parallel'' (t_num_streams test) @
      true_unless0 ''reverse'' (t_reverse test) @
      true_unless0 ''bidirectional'' (t_bidirectional test) @
      num_unless0 ''window'' (s_socket_bufsize st) @
      num_unless0 ''len'' (s_blksize st) @
      num_unless0 ''bandwidth'' (uint (s_rate st)) @
      num_unless0 ''fqrate'' (uint (s_fqrate st)) @
      num_unless0 ''pacing_timer'' (s_pacing_timer st) @
      num_unless0 ''burst'' (s_burst st) @
      num_unless0 ''TOS'' (s_tos st) @
      num_unless0 ''flowlabel'' (s_flowlabel st) @
      str_member ''title'' (t_title test) @
      str_member ''extra_data'' (t_extra_data test) @
      str_member ''congestion'' (t_congestion test) @
      str_member ''congestion_used'' (t_congestion_used test) @
      num_unless0 ''get_server_output'' (t_get_server_output test) @
      num_unless0 ''udp_counters_64bit'' (t_udp_counters_64bit test) @
      num_unless0 ''repeating_payload'' (t_repeating_payload test) @
      num_unless0 ''zerocopy'' (t_zerocopy test) @
      num_unless0 ''skip_rx_copy'' (s_skip_rx_copy st) @
      [(''client_version'', J_String IPERF_VERSION)])"

definition params_json :: "iperf_test \<Rightarrow> cJSON" where
  "params_json test = J_Object (params_members test)"

text \<open>\<open>write_rc\<close> is what \<open>JSON_write (test->ctrl_sck, j)\<close> returns for the object.\<close>

definition send_parameters :: "(cJSON \<Rightarrow> int) \<Rightarrow> iperf_test \<Rightarrow> int \<times> iperf_test" where
  "send_parameters write_rc test =
     (if write_rc (params_json test) < 0 then (- 1, test\<lparr>t_i_errno := IESENDPARAMS\<rparr>)
      else (0, test))"

section \<open>get_parameters\<close>

text \<open>An assignment guarded by the presence of a member of the right type.\<close>

definition num_param :: "cJSON \<Rightarrow> string \<Rightarrow> (int \<Rightarrow> 'a) \<Rightarrow> 'a \<Rightarrow> 'a" where
  "num_param j name conv old =
     (case iperf_cJSON_GetObjectItemType j name cJSON_Number of
        Some j_p \<Rightarrow> conv (valueint j_p) | None \<Rightarrow> old)"

definition str_param :: "cJSON \<Rightarrow> string \<Rightarrow> string option \<Rightarrow> string option" where
  "str_param j name old =
     (case iperf_cJSON_GetObjectItemType j name cJSON_String of
        Some j_p \<Rightarrow> Some (valuestring j_p) | None \<Rightarrow> old)"

definition true_param :: "cJSON \<Rightarrow> string \<Rightarrow> bool" where
  "true_param j name = (iperf_cJSON_GetObjectItemType j name cJSON_True \<noteq> None)"

definition get_params_protocol :: "cJSON \<Rightarrow> iperf_test \<Rightarrow> iperf_test" where
  "get_params_protocol j t0 =
     (let t1 = (if true_param j ''tcp'' then snd (set_protocol Ptcp t0) else t0);
          t2 = (if true_param j ''udp'' then snd (set_protocol Pudp t1) else t1)
      in if true_param j ''sctp'' then snd (set_protocol Psctp t2) else t2)"

text \<open>From \<open>omit\<close> to \<open>parallel\<close>.\<close>

definition get_params_head :: "cJSON \<Rightarrow> iperf_test \<Rightarrow> iperf_test" where
  "get_params_head j t =
     (let st = t_settings t in
      t\<lparr>t_omit := num_param j ''omit'' to_int32 (t_omit t),
        t_server_affinity := num_param j ''server_affinity'' to_int32 (t_server_affinity t),
        t_duration := num_param j ''time'' to_int32 (t_duration t),
        t_settings := st\<lparr>s_bytes := num_param j ''num'' word_of_int 0,
                         s_blocks := num_param j ''blockcount'' word_of_int 0,
                         s_mss := num_param j ''MSS'' to_int32 (s_mss st)\<rparr>,
        t_no_delay := (if true_param j ''nodelay'' then 1 else t_no_delay t),
        t_num_streams := num_param j ''parallel'' to_int32 (t_num_streams t)\<rparr>)"

definition get_params_direction :: "cJSON \<Rightarrow> iperf_test \<Rightarrow> iperf_test" where
  "get_params_direction j t0 =
     (let t1 = (if true_param j ''reverse'' then iperf_set_test_reverse 1 t0 else t0)
      in if true_param j ''bidirectional'' then iperf_set_test_bidirectional 1 t1 else t1)"

text \<open>From \<open>window\<close> to \<open>skip_rx_copy\<close>, which is read without a check of its type.\<close>

definition get_params_tail :: "cJSON \<Rightarrow> iperf_test \<Rightarrow> iperf_test" where
  "get_params_tail j t =
     (let st = t_settings t in
      t\<lparr>t_settings :=
          st\<lparr>s_socket_bufsize := num_param j ''window'' to_int32 (s_socket_bufsize st),
             s_blksize := num_param j ''len'' to_int32 (s_blksize st),
             s_rate := num_param j ''bandwidth'' word_of_int (s_rate st),
             s_fqrate := num_param j ''fqrate'' word_of_int (s_fqrate st),
             s_pacing_timer := num_param j ''pacing_timer'' to_int32 (s_pacing_timer st),
             s_burst := num_param j ''burst'' to_int32 (s_burst st),
             s_tos := num_param j ''TOS'' to_int32 (s_tos st),
             s_flowlabel := num_param j ''flowlabel'' to_int32 (s_flowlabel st),
             s_skip_rx_copy := (case cJSON_GetObjectItem j ''skip_rx_copy'' of
                                  Some j_p \<Rightarrow> to_int32 (valueint j_p)
                                | None \<Rightarrow> s_skip_rx_copy st)\<rparr>,
        t_title := str_param j ''title'' (t_title t),
        t_extra_data := str_param j ''extra_data'' (t_extra_data t),
        t_congestion := str_param j ''congestion'' (t_congestion t),
        t_congestion_used := str_param j ''congestion_used'' (t_congestion_used t),
        t_get_server_output := num_param j ''get_server_output'' (\<lambda>_. 1) (t_get_server_output t),
        t_udp_counters_64bit := num_param j ''udp_counters_64bit'' (\<lambda>_. 1) (t_udp_counters_64bit t),
        t_repeating_payload := num_param j ''repeating_payload'' (\<lambda>_. 1) (t_repeating_payload t),
        t_zerocopy := num_param j ''zerocopy'' to_int32 (t_zerocopy t)\<rparr>)"

definition get_params_retrans :: "iperf_test \<Rightarrow> iperf_test" where
  "get_params_retrans t =
     (if t_mode t \<noteq> RECEIVER \<and> t_protocol t = Ptcp \<and> c_true has_tcpinfo_retransmits
      then t\<lparr>t_sender_has_retransmits := 1\<rparr> else t)"

definition apply_params :: "cJSON \<Rightarrow> iperf_test \<Rightarrow> iperf_test" where
  "apply_params j t =
     get_params_retrans (get_params_tail j (get_params_direction j (get_params_head j
       (get_params_protocol j t))))"

text \<open>\<open>j\<close> is what \<open>JSON_read (test->ctrl_sck, MAX_PARAMS_JSON_STRING)\<close> returns.\<close>

definition get_parameters :: "cJSON option \<Rightarrow> iperf_test \<Rightarrow> int \<times> iperf_test" where
  "get_parameters jo test =
     (case jo of
        None \<Rightarrow> (- 1, test\<lparr>t_i_errno := IERECVPARAMS\<rparr>)
      | Some j \<Rightarrow> (0, apply_params j test))"

section \<open>Lookups in the object of a client\<close>

definition low :: "string \<Rightarrow> string" where
  "low s = map c_tolower s"

lemma find_item_low: "find_item name kvs = map_of (map (apfst low) kvs) (low name)"
  by (induction name kvs rule: find_item.induct) (auto simp: strcaseeq_def low_def)

lemma low_names [simp]:
  "low ''tcp'' = ''tcp''" "low ''udp'' = ''udp''" "low ''sctp'' = ''sctp''"
  "low ''omit'' = ''omit''" "low ''server_affinity'' = ''server_affinity''"
  "low ''time'' = ''time''" "low ''num'' = ''num''" "low ''blockcount'' = ''blockcount''"
  "low ''MSS'' = ''mss''" "low ''nodelay'' = ''nodelay''" "low ''parallel'' = ''parallel''"
  "low ''reverse'' = ''reverse''" "low ''bidirectional'' = ''bidirectional''"
  "low ''window'' = ''window''" "low ''len'' = ''len''" "low ''bandwidth'' = ''bandwidth''"
  "low ''fqrate'' = ''fqrate''" "low ''pacing_timer'' = ''pacing_timer''"
  "low ''burst'' = ''burst''" "low ''TOS'' = ''tos''" "low ''flowlabel'' = ''flowlabel''"
  "low ''title'' = ''title''" "low ''extra_data'' = ''extra_data''"
  "low ''congestion'' = ''congestion''" "low ''congestion_used'' = ''congestion_used''"
  "low ''get_server_output'' = ''get_server_output''"
  "low ''udp_counters_64bit'' = ''udp_counters_64bit''"
  "low ''repeating_payload'' = ''repeating_payload''" "low ''zerocopy'' = ''zerocopy''"
  "low ''skip_rx_copy'' = ''skip_rx_copy''" "low ''client_version'' = ''client_version''"
  by code_simp+

lemma member_lookup [simp]:
  "map_of (map (apfst low) (num_member k i)) n = (if n = low k then Some (J_Number (dbl_of_int i)) else None)"
  "map_of (map (apfst low) (true_member k)) n = (if n = low k then Some (J_Bool True) else None)"
  "map_of (map (apfst low) (str_member k so)) n = (if n = low k then map_option J_String so else None)"
  "map_of (map (apfst low) (num_unless0 k i)) n =
     (if n = low k \<and> i \<noteq> 0 then Some (J_Number (dbl_of_int i)) else None)"
  "map_of (map (apfst low) (true_unless0 k i)) n = (if n = low k \<and> i \<noteq> 0 then Some (J_Bool True) else None)"
  by (auto simp: num_member_def true_member_def str_member_def num_unless0_def true_unless0_def
      split: option.splits)

lemma opt_none [simp]: "(case x of None \<Rightarrow> None | Some y \<Rightarrow> Some y) = x"
  by (cases x) simp_all

lemma lookup_num [simp]:
  "find_item ''omit'' (params_members c) = Some (J_Number (dbl_of_int (t_omit c)))"
  "find_item ''server_affinity'' (params_members c) =
     (if t_server_affinity c \<noteq> - 1 then Some (J_Number (dbl_of_int (t_server_affinity c))) else None)"
  "find_item ''time'' (params_members c) = Some (J_Number (dbl_of_int (t_duration c)))"
  "find_item ''num'' (params_members c) = Some (J_Number (dbl_of_int (uint (s_bytes (t_settings c)))))"
  "find_item ''blockcount'' (params_members c) = Some (J_Number (dbl_of_int (uint (s_blocks (t_settings c)))))"
  "find_item ''parallel'' (params_members c) = Some (J_Number (dbl_of_int (t_num_streams c)))"
  by (simp_all add: find_item_low params_members_def Let_def map_add_def)

lemma lookup_opt [simp]:
  "find_item ''MSS'' (params_members c) =
     (if s_mss (t_settings c) \<noteq> 0 then Some (J_Number (dbl_of_int (s_mss (t_settings c)))) else None)"
  "find_item ''window'' (params_members c) =
     (if s_socket_bufsize (t_settings c) \<noteq> 0 then Some (J_Number (dbl_of_int (s_socket_bufsize (t_settings c)))) else None)"
  "find_item ''len'' (params_members c) =
     (if s_blksize (t_settings c) \<noteq> 0 then Some (J_Number (dbl_of_int (s_blksize (t_settings c)))) else None)"
  "find_item ''bandwidth'' (params_members c) =
     (if s_rate (t_settings c) \<noteq> 0 then Some (J_Number (dbl_of_int (uint (s_rate (t_settings c))))) else None)"
  "find_item ''fqrate'' (params_members c) =
     (if s_fqrate (t_settings c) \<noteq> 0 then Some (J_Number (dbl_of_int (uint (s_fqrate (t_settings c))))) else None)"
  "find_item ''pacing_timer'' (params_members c) =
     (if s_pacing_timer (t_settings c) \<noteq> 0 then Some (J_Number (dbl_of_int (s_pacing_timer (t_settings c)))) else None)"
  "find_item ''burst'' (params_members c) =
     (if s_burst (t_settings c) \<noteq> 0 then Some (J_Number (dbl_of_int (s_burst (t_settings c)))) else None)"
  "find_item ''TOS'' (params_members c) =
     (if s_tos (t_settings c) \<noteq> 0 then Some (J_Number (dbl_of_int (s_tos (t_settings c)))) else None)"
  "find_item ''flowlabel'' (params_members c) =
     (if s_flowlabel (t_settings c) \<noteq> 0 then Some (J_Number (dbl_of_int (s_flowlabel (t_settings c)))) else None)"
  "find_item ''get_server_output'' (params_members c) =
     (if t_get_server_output c \<noteq> 0 then Some (J_Number (dbl_of_int (t_get_server_output c))) else None)"
  "find_item ''udp_counters_64bit'' (params_members c) =
     (if t_udp_counters_64bit c \<noteq> 0 then Some (J_Number (dbl_of_int (t_udp_counters_64bit c))) else None)"
  "find_item ''repeating_payload'' (params_members c) =
     (if t_repeating_payload c \<noteq> 0 then Some (J_Number (dbl_of_int (t_repeating_payload c))) else None)"
  "find_item ''zerocopy'' (params_members c) =
     (if t_zerocopy c \<noteq> 0 then Some (J_Number (dbl_of_int (t_zerocopy c))) else None)"
  "find_item ''skip_rx_copy'' (params_members c) =
     (if s_skip_rx_copy (t_settings c) \<noteq> 0 then Some (J_Number (dbl_of_int (s_skip_rx_copy (t_settings c)))) else None)"
  by (simp_all add: find_item_low params_members_def Let_def map_add_def uint_0_iff)

lemma lookup_true [simp]:
  "find_item ''tcp'' (params_members c) = (if t_protocol c = Ptcp then Some (J_Bool True) else None)"
  "find_item ''udp'' (params_members c) = (if t_protocol c = Pudp then Some (J_Bool True) else None)"
  "find_item ''sctp'' (params_members c) = (if t_protocol c = Psctp then Some (J_Bool True) else None)"
  "find_item ''nodelay'' (params_members c) = (if t_no_delay c \<noteq> 0 then Some (J_Bool True) else None)"
  "find_item ''reverse'' (params_members c) = (if t_reverse c \<noteq> 0 then Some (J_Bool True) else None)"
  "find_item ''bidirectional'' (params_members c) = (if t_bidirectional c \<noteq> 0 then Some (J_Bool True) else None)"
  by (simp_all add: find_item_low params_members_def Let_def map_add_def)

lemma lookup_str [simp]:
  "find_item ''title'' (params_members c) = map_option J_String (t_title c)"
  "find_item ''extra_data'' (params_members c) = map_option J_String (t_extra_data c)"
  "find_item ''congestion'' (params_members c) = map_option J_String (t_congestion c)"
  "find_item ''congestion_used'' (params_members c) = map_option J_String (t_congestion_used c)"
  by (simp_all add: find_item_low params_members_def Let_def map_add_def split: option.splits)

lemma member_num:
  "num_param (params_json c) n conv old =
     (case find_item n (params_members c) of
        Some (J_Number d) \<Rightarrow> conv (saturate d) | _ \<Rightarrow> old)"
  by (auto simp: num_param_def params_json_def iperf_cJSON_GetObjectItemType_def
      split: option.splits cJSON.splits)

lemma member_item: "cJSON_GetObjectItem (params_json c) n = find_item n (params_members c)"
  by (simp add: params_json_def)

lemma member_str:
  "str_param (params_json c) n old =
     (case find_item n (params_members c) of Some (J_String s) \<Rightarrow> Some s | _ \<Rightarrow> old)"
  by (auto simp: str_param_def params_json_def iperf_cJSON_GetObjectItemType_def
      split: option.splits cJSON.splits)

lemma member_true:
  "true_param (params_json c) n =
     (case find_item n (params_members c) of Some (J_Bool b) \<Rightarrow> True | _ \<Rightarrow> False)"
  by (auto simp: true_param_def params_json_def iperf_cJSON_GetObjectItemType_def
      split: option.splits cJSON.splits)

section \<open>The server after the exchange\<close>

definition int32 :: "int \<Rightarrow> bool" where
  "int32 i \<longleftrightarrow> - (2 ^ 31) \<le> i \<and> i < 2 ^ 31"

text \<open>Every \<open>int\<close> field is one, and the 64-bit counts are exact as doubles.\<close>

definition params_fit :: "iperf_test \<Rightarrow> bool" where
  "params_fit c \<longleftrightarrow>
     (let st = t_settings c in
      list_all int32 [t_omit c, t_server_affinity c, t_duration c, t_num_streams c, s_mss st,
        s_socket_bufsize st, s_blksize st, s_pacing_timer st, s_burst st, s_tos st,
        s_flowlabel st, s_skip_rx_copy st, t_zerocopy c] \<and>
      list_all (\<lambda>w. uint w \<le> 2 ^ 53) [s_bytes st, s_blocks st, s_rate st, s_fqrate st])"

lemma sat32 [simp]: "int32 i \<Longrightarrow> to_int32 (saturate (dbl_of_int i)) = i"
  by (subst saturate_int) (auto simp: int32_def to_int32_id)

lemma sat64 [simp]: "uint w \<le> 2 ^ 53 \<Longrightarrow> word_of_int (saturate (dbl_of_int (uint w))) = (w :: u64)"
  by (subst saturate_int) (auto intro: order.trans[OF _ uint_ge_0])

lemma set_protocol_mem:
  "p \<in> set (t_protocols t) \<Longrightarrow> snd (set_protocol p t) = check_sender_has_retransmits (t\<lparr>t_protocol := p\<rparr>)"
  by (simp add: set_protocol_def)

lemma check_retransmits_all [simp]:
  "t_omit (check_sender_has_retransmits t) = t_omit t"
  "t_duration (check_sender_has_retransmits t) = t_duration t"
  "t_server_affinity (check_sender_has_retransmits t) = t_server_affinity t"
  "t_num_streams (check_sender_has_retransmits t) = t_num_streams t"
  "t_no_delay (check_sender_has_retransmits t) = t_no_delay t"
  "t_title (check_sender_has_retransmits t) = t_title t"
  "t_extra_data (check_sender_has_retransmits t) = t_extra_data t"
  "t_congestion (check_sender_has_retransmits t) = t_congestion t"
  "t_zerocopy (check_sender_has_retransmits t) = t_zerocopy t"
  "t_udp_counters_64bit (check_sender_has_retransmits t) = t_udp_counters_64bit t"
  "t_get_server_output (check_sender_has_retransmits t) = t_get_server_output t"
  "t_repeating_payload (check_sender_has_retransmits t) = t_repeating_payload t"
  "t_congestion_used (check_sender_has_retransmits t) = t_congestion_used t"
  by (simp_all add: check_sender_has_retransmits_def)

text \<open>What the two sides agree on after the exchange.\<close>

definition same_params :: "iperf_test \<Rightarrow> iperf_test \<Rightarrow> bool" where
  "same_params c t \<longleftrightarrow>
     t_protocol t = t_protocol c \<and> t_omit t = t_omit c \<and> t_duration t = t_duration c \<and>
     t_server_affinity t = t_server_affinity c \<and> t_num_streams t = t_num_streams c \<and>
     t_title t = t_title c \<and> t_extra_data t = t_extra_data c \<and> t_congestion t = t_congestion c \<and>
     t_zerocopy t = t_zerocopy c \<and>
     (t_no_delay t = 0 \<longleftrightarrow> t_no_delay c = 0) \<and> (t_reverse t = 0 \<longleftrightarrow> t_reverse c = 0) \<and>
     (t_bidirectional t = 0 \<longleftrightarrow> t_bidirectional c = 0) \<and>
     (t_udp_counters_64bit t = 0 \<longleftrightarrow> t_udp_counters_64bit c = 0)"

definition same_settings :: "iperf_settings \<Rightarrow> iperf_settings \<Rightarrow> bool" where
  "same_settings c t \<longleftrightarrow>
     s_bytes t = s_bytes c \<and> s_blocks t = s_blocks c \<and> s_mss t = s_mss c \<and>
     s_socket_bufsize t = s_socket_bufsize c \<and> s_blksize t = s_blksize c \<and>
     s_rate t = s_rate c \<and> s_fqrate t = s_fqrate c \<and> s_burst t = s_burst c \<and>
     s_tos t = s_tos c \<and> s_skip_rx_copy t = s_skip_rx_copy c"

text \<open>The options the reset does not clear: the client sends them when they are set, and otherwise the
server keeps what it had, in the test \<open>s\<close>.\<close>

definition sent_or_kept :: "iperf_test \<Rightarrow> iperf_test \<Rightarrow> iperf_test \<Rightarrow> bool" where
  "sent_or_kept c s t \<longleftrightarrow>
     s_pacing_timer (t_settings t) =
       (if s_pacing_timer (t_settings c) \<noteq> 0 then s_pacing_timer (t_settings c) else s_pacing_timer (t_settings s)) \<and>
     s_flowlabel (t_settings t) =
       (if s_flowlabel (t_settings c) \<noteq> 0 then s_flowlabel (t_settings c) else s_flowlabel (t_settings s)) \<and>
     t_get_server_output t = (if t_get_server_output c \<noteq> 0 then 1 else t_get_server_output s) \<and>
     t_repeating_payload t = (if t_repeating_payload c \<noteq> 0 then 1 else t_repeating_payload s) \<and>
     t_congestion_used t = (if t_congestion_used c \<noteq> None then t_congestion_used c else t_congestion_used s)"

text \<open>Everything the server has after the exchange.\<close>

definition agreed :: "iperf_test \<Rightarrow> iperf_test \<Rightarrow> iperf_test \<Rightarrow> bool" where
  "agreed c s t \<longleftrightarrow>
     same_params c t \<and> same_settings (t_settings c) (t_settings t) \<and> sent_or_kept c s t \<and>
     t_role t = CHR ''s'' \<and> t_mode t = opposite (t_mode c) \<and> mode_ok t \<and>
     (t_protocol t = Ptcp \<and> t_mode t \<noteq> RECEIVER \<longrightarrow> t_sender_has_retransmits t = 1)"

lemma get_retrans_frame [simp]:
  "same_params c (get_params_retrans t) = same_params c t"
  "sent_or_kept c s (get_params_retrans t) = sent_or_kept c s t"
  "t_settings (get_params_retrans t) = t_settings t"
  "t_mode (get_params_retrans t) = t_mode t"
  "t_role (get_params_retrans t) = t_role t"
  "t_protocol (get_params_retrans t) = t_protocol t"
  "t_reverse (get_params_retrans t) = t_reverse t"
  "t_bidirectional (get_params_retrans t) = t_bidirectional t"
  by (simp_all add: get_params_retrans_def same_params_def sent_or_kept_def)

lemma params_transfer:
  assumes "t_role c = CHR ''c''" "mode_ok c" "params_fit c" "t_protocol c \<in> {Ptcp, Pudp}"
    and "s_blksize (t_settings c) \<noteq> 0" "set [Ptcp, Pudp] \<subseteq> set (t_protocols s)"
  shows "\<exists>t. get_parameters (Some (params_json c)) (reset_fields s) = (0, t) \<and>
    agreed c s t"
proof -
  let ?s = "reset_fields s" and ?j = "params_json c"
  let ?p = "get_params_protocol ?j ?s"
  have prots: "t_protocols ?s = t_protocols s" "t_role ?s = CHR ''s''" "t_mode ?s = RECEIVER"
    "t_reverse ?s = 0" "t_bidirectional ?s = 0"
    by (simp_all add: reset_fields_def reset_fields1_def reset_fields2_def set_protocol_def)
  have p: "?p = check_sender_has_retransmits (?s\<lparr>t_protocol := t_protocol c\<rparr>)"
    using assms(4,6) prots
    by (auto simp: get_params_protocol_def member_true set_protocol_mem)
  let ?h = "get_params_head ?j ?p"
  let ?d = "get_params_direction ?j ?h"
  have fits: "int32 (t_omit c)" "int32 (t_server_affinity c)" "int32 (t_duration c)"
    "int32 (t_num_streams c)" "int32 (s_mss (t_settings c))" "int32 (s_socket_bufsize (t_settings c))"
    "int32 (s_blksize (t_settings c))" "int32 (s_burst (t_settings c))" "int32 (s_tos (t_settings c))"
    "int32 (s_skip_rx_copy (t_settings c))" "int32 (t_zerocopy c)"
    "uint (s_bytes (t_settings c)) \<le> 2 ^ 53" "uint (s_blocks (t_settings c)) \<le> 2 ^ 53"
    "uint (s_rate (t_settings c)) \<le> 2 ^ 53" "uint (s_fqrate (t_settings c)) \<le> 2 ^ 53"
    using assms(3) by (simp_all add: params_fit_def Let_def)
  have h: "t_reverse ?h = 0" "t_bidirectional ?h = 0" "t_role ?h = CHR ''s''" "t_mode ?h = RECEIVER"
    unfolding p get_params_head_def Let_def using prots by simp_all
  have d: "?d = (if t_reverse c \<noteq> 0 then
        check_sender_has_retransmits (?h\<lparr>t_reverse := 1, t_mode := SENDER\<rparr>)
      else if t_bidirectional c \<noteq> 0 then ?h\<lparr>t_bidirectional := 1, t_mode := BIDIRECTIONAL\<rparr>
      else ?h)"
    using h assms(2)
    by (auto simp: get_params_direction_def member_true iperf_set_test_reverse_def
        iperf_set_test_bidirectional_def Let_def mode_ok_def)
  have r0: "t_server_affinity ?s = - 1" "t_no_delay ?s = 0" "t_title ?s = None" "t_extra_data ?s = None"
    "t_congestion ?s = None" "t_zerocopy ?s = 0" "t_udp_counters_64bit ?s = 0"
    "s_mss (t_settings ?s) = 0" "s_socket_bufsize (t_settings ?s) = 0" "s_rate (t_settings ?s) = 0"
    "s_fqrate (t_settings ?s) = 0" "s_burst (t_settings ?s) = 0" "s_tos (t_settings ?s) = 0"
    "s_skip_rx_copy (t_settings ?s) = 0"
    by (simp_all add: reset_fields_def reset_fields1_def reset_fields2_def set_protocol_def
        reset_settings_def)
  have hs: "t_protocol ?h = t_protocol c" "t_omit ?h = t_omit c" "t_duration ?h = t_duration c"
    "t_server_affinity ?h = t_server_affinity c" "t_num_streams ?h = t_num_streams c"
    "t_no_delay ?h = (if t_no_delay c = 0 then 0 else 1)"
    "t_title ?h = None" "t_extra_data ?h = None" "t_congestion ?h = None" "t_zerocopy ?h = 0"
    "t_udp_counters_64bit ?h = 0" "s_bytes (t_settings ?h) = s_bytes (t_settings c)"
    "s_blocks (t_settings ?h) = s_blocks (t_settings c)" "s_mss (t_settings ?h) = s_mss (t_settings c)"
    "s_socket_bufsize (t_settings ?h) = 0" "s_rate (t_settings ?h) = 0"
    "s_fqrate (t_settings ?h) = 0" "s_burst (t_settings ?h) = 0" "s_tos (t_settings ?h) = 0"
    "s_skip_rx_copy (t_settings ?h) = 0"
    unfolding p get_params_head_def Let_def
    using fits r0 by (simp_all add: member_num member_true)
  have ds: "t_protocol ?d = t_protocol ?h" "t_omit ?d = t_omit ?h" "t_duration ?d = t_duration ?h"
    "t_server_affinity ?d = t_server_affinity ?h" "t_num_streams ?d = t_num_streams ?h"
    "t_no_delay ?d = t_no_delay ?h" "t_title ?d = t_title ?h" "t_extra_data ?d = t_extra_data ?h"
    "t_congestion ?d = t_congestion ?h" "t_zerocopy ?d = t_zerocopy ?h"
    "t_udp_counters_64bit ?d = t_udp_counters_64bit ?h" "t_settings ?d = t_settings ?h"
    "t_role ?d = CHR ''s''" "t_mode ?d = opposite (t_mode c)" "mode_ok ?d"
    "t_reverse ?d = (if t_reverse c = 0 then 0 else 1)"
    "t_bidirectional ?d = (if t_bidirectional c = 0 then 0 else 1)"
    using h assms(1,2) by (auto simp: d mode_ok_def mode_for_def opposite_def)
  let ?t = "apply_params ?j ?s"
  have "same_params c ?t"
    unfolding apply_params_def get_retrans_frame
    unfolding same_params_def get_params_tail_def Let_def
    using fits by (simp add: hs ds member_num member_str split: option.split)
  moreover have "same_settings (t_settings c) (t_settings ?t)"
    unfolding apply_params_def get_retrans_frame
    unfolding same_settings_def get_params_tail_def Let_def
    using fits assms(5) by (simp add: hs ds member_num member_item)
  moreover have "t_role ?t = CHR ''s''" "t_mode ?t = opposite (t_mode c)" "mode_ok ?t"
    unfolding apply_params_def get_retrans_frame mode_ok_def
    unfolding get_params_tail_def Let_def
    using ds(13-15) by (simp_all add: mode_ok_def)
  moreover have "sent_or_kept c s ?t"
  proof -
    let ?keeps = "\<lambda>u. t_get_server_output u = t_get_server_output s \<and>
      t_repeating_payload u = t_repeating_payload s \<and> t_congestion_used u = t_congestion_used s \<and>
      s_pacing_timer (t_settings u) = s_pacing_timer (t_settings s) \<and>
      s_flowlabel (t_settings u) = s_flowlabel (t_settings s)"
    have "?keeps ?s" using reset_leaks[of s] by (simp add: leaks_def)
    then have "?keeps ?p" unfolding p by simp
    then have "?keeps ?h" by (simp add: get_params_head_def Let_def)
    then have k: "?keeps ?d"
      by (simp add: get_params_direction_def iperf_set_test_reverse_def iperf_set_test_bidirectional_def
          Let_def c_true_def)
    have "int32 (s_pacing_timer (t_settings c))" "int32 (s_flowlabel (t_settings c))"
      using assms(3) by (simp_all add: params_fit_def Let_def)
    then show ?thesis
      unfolding apply_params_def get_retrans_frame
      unfolding sent_or_kept_def get_params_tail_def Let_def
      using k by (auto simp: member_num member_str split: option.split)
  qed
  moreover have "t_protocol ?t = Ptcp \<and> t_mode ?t \<noteq> RECEIVER \<longrightarrow> t_sender_has_retransmits ?t = 1"
    by (simp add: apply_params_def get_params_retrans_def has_tcpinfo_retransmits_def c_true_def)
  ultimately show ?thesis by (simp add: get_parameters_def agreed_def)
qed

text \<open>C1: After the parameter exchange the server's test is the client's: protocol, durations,
  number of streams, amounts, block size, rates and options are those of the client, whatever was
  left in the server's test before its reset; the five options the reset does not clear are the client's
  where the client sends them, and what the server had before where it does not; and the server's mode is
  the opposite of the client's, so that every direction has a sender on one side and a receiver on
  the other. The numbers of the client fit an \<open>int\<close>, and the 64-bit ones a double.\<close>

theorem parameters_agree:
  assumes "t_role c = CHR ''c''" "mode_ok c" "params_fit c" "t_protocol c \<in> {Ptcp, Pudp}"
    and "s_blksize (t_settings c) \<noteq> 0" "set [Ptcp, Pudp] \<subseteq> set (t_protocols s)"
  shows "\<exists>t. get_parameters (Some (params_json c)) (reset_fields s) = (0, t) \<and>
    agreed c s t"
  using params_transfer[OF assms] .

text \<open>A client and a server as \<open>main\<close> and the Android glue make them.\<close>

definition default_client :: iperf_test where
  "default_client = iperf_set_test_role (CHR ''c'') (snd (iperf_defaults True True zero_test))"

definition default_server :: iperf_test where
  "default_server = iperf_set_test_role (CHR ''s'') (snd (iperf_defaults True True zero_test))"

lemma default_client_fields:
  "t_role default_client = CHR ''c''" "t_mode default_client = SENDER"
  "t_reverse default_client = 0" "t_bidirectional default_client = 0"
  "t_protocol default_client = Ptcp" "t_protocols default_client = [Ptcp, Pudp]"
  "t_settings default_client = default_settings zero_settings"
  "t_omit default_client = 0" "t_duration default_client = 10" "t_num_streams default_client = 1"
  "t_server_affinity default_client = - 1" "t_zerocopy default_client = 0"
  by (simp_all add: default_client_def iperf_set_test_role_def iperf_defaults_def set_protocol_def
      zero_test_def check_sender_has_retransmits_def has_tcpinfo_retransmits_def Let_def c_true_def)

lemma default_server_fields:
  "t_role default_server = CHR ''s''" "t_protocols default_server = [Ptcp, Pudp]"
  "t_mode default_server = RECEIVER"
  by (simp_all add: default_server_def iperf_set_test_role_def iperf_defaults_def set_protocol_def
      zero_test_def check_sender_has_retransmits_def has_tcpinfo_retransmits_def Let_def c_true_def)

lemma default_client_ok: "mode_ok default_client \<and> params_fit default_client"
  by (simp add: mode_ok_def mode_for_def params_fit_def Let_def int32_def default_client_fields
      default_settings_def zero_settings_def)

lemma parameters_agree_witness:
  "\<exists>t. get_parameters (Some (params_json default_client)) (reset_fields default_server) = (0, t) \<and>
     t_mode t = RECEIVER \<and> t_duration t = 10"
proof -
  have "s_blksize (t_settings default_client) \<noteq> 0"
    by (simp add: default_client_fields default_settings_def)
  then obtain t where "get_parameters (Some (params_json default_client)) (reset_fields default_server) = (0, t)"
    "same_params default_client t" "t_mode t = opposite (t_mode default_client)"
    using parameters_agree[of default_client default_server] default_client_ok
    by (auto simp: default_client_fields default_server_fields agreed_def)
  then show ?thesis by (auto simp: same_params_def default_client_fields opposite_def)
qed

text \<open>C29: Options the reset does not clear and a client does not send keep the value a previous
  client gave them: a client without them inherits the server output, the payload pattern, the
  pacing timer and the flow label of the one before.\<close>

theorem options_leak:
  assumes "t_get_server_output c = 0" "t_repeating_payload c = 0"
    and "s_pacing_timer (t_settings c) = 0" "s_flowlabel (t_settings c) = 0"
  shows "\<exists>t. get_parameters (Some (params_json c)) (reset_fields s) = (0, t) \<and>
    t_get_server_output t = t_get_server_output s \<and>
    t_repeating_payload t = t_repeating_payload s \<and>
    s_pacing_timer (t_settings t) = s_pacing_timer (t_settings s) \<and>
    s_flowlabel (t_settings t) = s_flowlabel (t_settings s)"
proof -
  let ?f = "\<lambda>u. t_get_server_output u = t_get_server_output s \<and>
    t_repeating_payload u = t_repeating_payload s \<and>
    s_pacing_timer (t_settings u) = s_pacing_timer (t_settings s) \<and>
    s_flowlabel (t_settings u) = s_flowlabel (t_settings s)"
  let ?j = "params_json c"
  have 1: "?f (reset_fields s)" using reset_leaks[of s] by (simp add: leaks_def)
  have chk: "?f (check_sender_has_retransmits u) = ?f u" for u by simp
  have 2: "?f u \<Longrightarrow> ?f (get_params_protocol ?j u)" for u
    by (simp add: get_params_protocol_def set_protocol_def Let_def)
  have 3: "?f u \<Longrightarrow> ?f (get_params_head ?j u)" for u
    by (simp add: get_params_head_def Let_def)
  have 4: "?f u \<Longrightarrow> ?f (get_params_direction ?j u)" for u
    by (simp add: get_params_direction_def iperf_set_test_reverse_def
        iperf_set_test_bidirectional_def Let_def c_true_def)
  have 5: "?f u \<Longrightarrow> ?f (get_params_tail ?j u)" for u
    using assms by (simp add: get_params_tail_def Let_def member_num)
  have 6: "?f u \<Longrightarrow> ?f (get_params_retrans u)" for u
    by (simp add: get_params_retrans_def)
  show ?thesis unfolding get_parameters_def apply_params_def
    using 6[OF 5[OF 4[OF 3[OF 2[OF 1]]]]] by simp
qed

lemma options_leak_witness:
  "t_get_server_output (snd (get_parameters (Some (params_json
      (default_client\<lparr>t_settings := (t_settings default_client)\<lparr>s_pacing_timer := 0\<rparr>\<rparr>)))
    (reset_fields (default_server\<lparr>t_get_server_output := 1\<rparr>)))) = 1"
proof -
  let ?c = "default_client\<lparr>t_settings := (t_settings default_client)\<lparr>s_pacing_timer := 0\<rparr>\<rparr>"
  have "t_get_server_output ?c = 0" "t_repeating_payload ?c = 0"
    "s_pacing_timer (t_settings ?c) = 0" "s_flowlabel (t_settings ?c) = 0"
    by (simp_all add: default_client_def iperf_set_test_role_def iperf_defaults_def set_protocol_def
      zero_test_def check_sender_has_retransmits_def has_tcpinfo_retransmits_def Let_def c_true_def
      default_settings_def zero_settings_def)
  from options_leak[OF this, of "default_server\<lparr>t_get_server_output := 1\<rparr>"] show ?thesis by auto
qed

text \<open>A member \<open>"reverse": false\<close> turns the test around as well.\<close>

lemma reverse_false_counts:
  "t_reverse (get_params_direction (J_Object [(''reverse'', J_Bool False)]) default_server) = 1"
proof -
  have "find_item ''reverse'' [(''reverse'', J_Bool False)] = Some (J_Bool False)" by simp
  moreover have "find_item ''bidirectional'' [(''reverse'', J_Bool False)] = None" by code_simp
  ultimately show ?thesis
    by (simp add: get_params_direction_def true_param_def iperf_cJSON_GetObjectItemType_def
        iperf_set_test_reverse_def Let_def)
qed

end
