(* ===== verification/Net_IO.thy ===== *)
theory Net_IO
  imports Test_State
begin

text \<open>
  \<open>net.c\<close>: the loops that write and read a counted number of bytes, the functions that open
  sockets, and the framing of JSON messages on the control connection (\<open>JSON_write\<close> and
  \<open>JSON_read\<close> of \<open>iperf_api.c\<close>).

  The system calls \<open>write\<close>, \<open>read\<close>, \<open>select\<close> and \<open>clock_gettime\<close> are arguments of the loops, acting on
  a state of the operating system of any type. The locales \<open>write_stream\<close> and \<open>read_stream\<close> state
  the documented behaviour of the calls on a stream socket; they are interpreted on a scripted
  socket, which takes or delivers any number of bytes at each call, in the order of the stream.
\<close>

section \<open>System calls\<close>

abbreviation (input) EINTR :: int where "EINTR \<equiv> 4"
abbreviation (input) EAGAIN :: int where "EAGAIN \<equiv> 11"
abbreviation (input) ENOBUFS :: int where "ENOBUFS \<equiv> 105"

text \<open>The result of \<open>write\<close>: a count or \<open>errno\<close>; of \<open>read\<close>: the bytes (none at the end) or \<open>errno\<close>.\<close>

datatype wresult = Wrote nat | W_error int
datatype rresult = Got "u8 list" | R_error int

type_synonym 's sys_write = "u8 list \<Rightarrow> 's \<Rightarrow> wresult \<times> 's"
type_synonym 's sys_read = "nat \<Rightarrow> 's \<Rightarrow> rresult \<times> 's"

text \<open>\<open>select\<close> on one descriptor with a timeout: its result, the time left (Linux writes it back)
and the new state. The timeout is in microseconds.\<close>

type_synonym 's sys_select = "int \<Rightarrow> 's \<Rightarrow> int \<times> int \<times> 's"

section \<open>Nwrite\<close>

text \<open>The loop, with what is left of the buffer. A call that writes more than it was given is
outside the contract of \<open>write\<close>; the loop then ends with a hard error.\<close>

function nwrite_loop :: "'s sys_write \<Rightarrow> nat \<Rightarrow> u8 list \<Rightarrow> 's \<Rightarrow> int \<times> 's" where
  "nwrite_loop write cnt rest s =
     (if rest = [] then (to_int32 (int cnt), s)
      else case write rest s of
        (W_error e, s1) \<Rightarrow>
          (if e = EINTR \<or> e = EAGAIN then
             (if cnt = length rest then (NET_SOFTERROR, s1)
              else (to_int32 (int (cnt - length rest)), s1))
           else if e = ENOBUFS then (NET_SOFTERROR, s1)
           else (NET_HARDERROR, s1))
      | (Wrote r, s1) \<Rightarrow>
          (if r = 0 then (NET_SOFTERROR, s1)
           else if length rest < r then (NET_HARDERROR, s1)
           else nwrite_loop write cnt (drop r rest) s1))"
  by pat_completeness auto
termination by (relation "measure (\<lambda>(_, _, rest, _). length rest)") auto

declare nwrite_loop.simps [simp del]

definition Nwrite :: "'s sys_write \<Rightarrow> u8 list \<Rightarrow> 's \<Rightarrow> int \<times> 's" where
  "Nwrite write buf s = nwrite_loop write (length buf) buf s"

section \<open>Nrecv and Nread\<close>

abbreviation (input) nread_read_timeout :: int where "nread_read_timeout \<equiv> 10"
abbreviation (input) nread_overall_timeout :: u64 where "nread_overall_timeout \<equiv> 30"

text \<open>The number of bytes read, returned as an \<open>int\<close>.\<close>

definition int_len :: "u8 list \<Rightarrow> int" where
  "int_len bs = to_int32 (int (length bs))"

text \<open>The loop of \<open>Nrecv_no_select\<close>: the bytes read so far, how many are left to read. A read that
returns more than it was asked for is outside the contract; the loop then stops.\<close>

function recv_loop :: "'s sys_read \<Rightarrow> nat \<Rightarrow> u8 list \<Rightarrow> 's \<Rightarrow> int \<times> u8 list \<times> 's" where
  "recv_loop read nleft buf s =
     (if nleft = 0 then (int_len buf, buf, s)
      else case read nleft s of
        (R_error e, s1) \<Rightarrow>
          (if e = EINTR \<or> e = EAGAIN then (int_len buf, buf, s1)
           else (NET_HARDERROR, buf, s1))
      | (Got bs, s1) \<Rightarrow>
          (if bs = [] \<or> nleft < length bs then (int_len buf, buf, s1)
           else recv_loop read (nleft - length bs) (buf @ bs) s1))"
  by pat_completeness auto
termination by (relation "measure (\<lambda>(_, nleft, _, _). nleft)") auto

declare recv_loop.simps [simp del]

definition Nrecv_no_select :: "'s sys_read \<Rightarrow> nat \<Rightarrow> 's \<Rightarrow> int \<times> u8 list \<times> 's" where
  "Nrecv_no_select read cnt s = recv_loop read cnt [] s"

text \<open>The loop of \<open>Nrecv\<close>, with the deadline \<open>ftimeout\<close> (seconds 0: not set yet) and the timeout
\<open>tmo\<close> that \<open>select\<close> has left.\<close>

function nrecv_loop ::
  "'s sys_read \<Rightarrow> 's sys_select \<Rightarrow> ('s \<Rightarrow> iperf_time \<times> 's) \<Rightarrow> nat \<Rightarrow> iperf_time \<Rightarrow> int \<Rightarrow> u8 list
   \<Rightarrow> 's \<Rightarrow> int \<times> u8 list \<times> 's" where
  "nrecv_loop read select clock nleft ftimeout tmo buf s =
     (if nleft = 0 then (int_len buf, buf, s)
      else case read nleft s of
        (R_error e, s1) \<Rightarrow>
          (if e = EINTR \<or> e = EAGAIN then (int_len buf, buf, s1)
           else (NET_HARDERROR, buf, s1))
      | (Got bs, s1) \<Rightarrow>
          (if bs = [] \<or> nleft < length bs then (int_len buf, buf, s1)
           else if nleft - length bs = 0 then (int_len (buf @ bs), buf @ bs, s1)
           else
             (let (now, s2) = clock s1;
                  ft = (if secs ftimeout = 0
                        then iperf_time_add_usecs now (nread_overall_timeout * 1000000)
                        else ftimeout)
              in if iperf_time_compare ft now < 0 then (int_len (buf @ bs), buf @ bs, s2)
                 else (let (r, tmo1, s3) = select tmo s2
                       in if r < 0 then (NET_HARDERROR, buf @ bs, s3)
                          else if r = 0 then (int_len (buf @ bs), buf @ bs, s3)
                          else nrecv_loop read select clock (nleft - length bs) ft tmo1
                                 (buf @ bs) s3))))"
  by pat_completeness auto
termination by (relation "measure (\<lambda>(_, _, _, nleft, _). nleft)") auto

declare nrecv_loop.simps [simp del]

definition Nrecv ::
  "'s sys_read \<Rightarrow> 's sys_select \<Rightarrow> ('s \<Rightarrow> iperf_time \<times> 's) \<Rightarrow> nat \<Rightarrow> 's \<Rightarrow> int \<times> u8 list \<times> 's" where
  "Nrecv read select clock cnt s =
     (let (r, tmo, s1) = select (nread_read_timeout * 1000000) s
      in if r < 0 then (NET_HARDERROR, [], s1)
         else if r = 0 then (0, [], s1)
         else nrecv_loop read select clock cnt (Iperf_Time 0 0) tmo [] s1)"

definition Nread ::
  "'s sys_read \<Rightarrow> 's sys_select \<Rightarrow> ('s \<Rightarrow> iperf_time \<times> 's) \<Rightarrow> nat \<Rightarrow> 's \<Rightarrow> int \<times> u8 list \<times> 's" where
  "Nread read select clock cnt s = Nrecv read select clock cnt s"

section \<open>JSON messages\<close>

definition bytes_of :: "string \<Rightarrow> u8 list" where
  "bytes_of s = map (\<lambda>c. of_nat (of_char c)) s"

definition string_of :: "u8 list \<Rightarrow> string" where
  "string_of bs = map (\<lambda>b. char_of (unat b)) bs"

text \<open>A C string ends at the first NUL.\<close>

definition c_string :: "u8 list \<Rightarrow> string" where
  "c_string bs = takeWhile (\<lambda>c. c \<noteq> CHR 0x00) (string_of bs)"

text \<open>\<open>JSON_write\<close>: \<open>print\<close> is \<open>cJSON_PrintUnformatted\<close>, \<open>None\<close> when it has no memory.\<close>

definition JSON_write :: "'s sys_write \<Rightarrow> ('j \<Rightarrow> string option) \<Rightarrow> 'j \<Rightarrow> 's \<Rightarrow> int \<times> 's" where
  "JSON_write write print json s =
     (case print json of
        None \<Rightarrow> (- 1, s)
      | Some str \<Rightarrow>
          (let hsize = (of_nat (length str) :: u32);
               (r1, s1) = Nwrite write (be32 hsize) s
           in if r1 < 0 then (- 1, s1)
              else (let (r2, s2) = Nwrite write (take (unat hsize) (bytes_of str)) s1
                    in if r2 < 0 then (- 1, s2) else (0, s2))))"

text \<open>\<open>JSON_read\<close>: \<open>parse\<close> is \<open>cJSON_Parse\<close>, \<open>mem\<close> says whether \<open>calloc\<close> succeeds. The size of the buffer
is \<open>hsize + 1\<close> in 32-bit arithmetic, converted to \<open>size_t\<close> afterwards.\<close>

definition JSON_read ::
  "'s sys_read \<Rightarrow> 's sys_select \<Rightarrow> ('s \<Rightarrow> iperf_time \<times> 's) \<Rightarrow> (string \<Rightarrow> 'j option) \<Rightarrow> bool \<Rightarrow> int
   \<Rightarrow> 's \<Rightarrow> 'j option \<times> 's" where
  "JSON_read read select clock parse mem max_size s =
     (let (rc, nsize, s1) = Nread read select clock 4 s
      in if rc = 4 then
           (let hsize = of_be32 nsize
            in if hsize > 0 \<and> (max_size = 0 \<or> uint hsize \<le> uint (word_of_int max_size :: u32)) then
                 (if hsize + 1 \<noteq> 0 \<and> mem then
                    (let (rc2, str, s2) = Nread read select clock (unat hsize) s1
                     in if rc2 \<ge> 0 \<and> (word_of_int rc2 :: u32) = hsize then (parse (c_string str), s2)
                        else (None, s2))
                  else (None, s1))
               else (None, s1))
         else (None, s1))"

section \<open>Stream sockets\<close>

text \<open>What \<open>write\<close> promises on a stream socket: a count of bytes taken from the front of the buffer,
in order; nothing is taken when it fails.\<close>

locale write_stream =
  fixes wr :: "'s sys_write" and sent :: "'s \<Rightarrow> u8 list"
  assumes wrote: "wr buf s = (Wrote n, s') \<Longrightarrow> n \<le> length buf \<and> sent s' = sent s @ take n buf"
    and werror: "wr buf s = (W_error e, s') \<Longrightarrow> sent s' = sent s"
begin

lemma nwrite_loop_sent:
  assumes "nwrite_loop wr cnt rest s = (r, s')" "length rest \<le> cnt" "int cnt < 2 ^ 31"
  shows "\<exists>k \<le> length rest. sent s' = sent s @ take k rest \<and>
    (r \<ge> 0 \<longrightarrow> r = int (cnt - length rest + k)) \<and> (r < 0 \<longrightarrow> r = NET_SOFTERROR \<or> r = NET_HARDERROR)"
  using assms
proof (induction "length rest" arbitrary: rest s rule: less_induct)
  case less
  show ?case
  proof (cases "rest = []")
    case True
    with less.prems show ?thesis by (subst (asm) nwrite_loop.simps) (auto simp: to_int32_id)
  next
    case ne: False
    obtain res s1 where w: "wr rest s = (res, s1)" by (cases "wr rest s")
    show ?thesis
    proof (cases res)
      case (W_error e)
      with less.prems ne w werror show ?thesis
        by (subst (asm) nwrite_loop.simps)
          (auto simp: to_int32_id split: if_splits intro!: exI[of _ 0])
    next
      case (Wrote n)
      with w wrote have n: "n \<le> length rest" "sent s1 = sent s @ take n rest" by auto
      show ?thesis
      proof (cases "n = 0")
        case True
        with less.prems ne w Wrote n show ?thesis
          by (subst (asm) nwrite_loop.simps) (auto intro!: exI[of _ 0])
      next
        case False
        then have eq: "nwrite_loop wr cnt (drop n rest) s1 = (r, s')"
          using less.prems(1) ne w Wrote n(1) by (subst (asm) nwrite_loop.simps) auto
        have "length (drop n rest) < length rest" using False ne by auto
        have cnt: "length (drop n rest) \<le> cnt" using less.prems(2) by simp
        obtain k where k: "k \<le> length (drop n rest)" "sent s' = sent s1 @ take k (drop n rest)"
          "r \<ge> 0 \<longrightarrow> r = int (cnt - length (drop n rest) + k)"
          "r < 0 \<longrightarrow> r = NET_SOFTERROR \<or> r = NET_HARDERROR"
          using less.hyps[OF \<open>length (drop n rest) < length rest\<close> eq cnt less.prems(3)] by blast
        have "take n rest @ take k (drop n rest) = take (n + k) rest" by (simp add: take_add)
        with k(2) n(2) have "sent s' = sent s @ take (n + k) rest" by simp
        moreover have "cnt - length (drop n rest) + k = cnt - length rest + (n + k)" "n + k \<le> length rest"
          using n(1) less.prems(2) k(1) by simp_all
        ultimately show ?thesis using k(3,4) by (intro exI[of _ "n + k"]) auto
      qed
    qed
  qed
qed

text \<open>A count is the length of the prefix of the buffer that went out, nothing else did.\<close>

lemma Nwrite_sent:
  assumes "Nwrite wr buf s = (r, s')" "length buf < 2 ^ 31"
  shows "r \<ge> 0 \<Longrightarrow> nat r \<le> length buf \<and> sent s' = sent s @ take (nat r) buf"
    and "r < 0 \<Longrightarrow> r \<in> {NET_SOFTERROR, NET_HARDERROR} \<and> (\<exists>k \<le> length buf. sent s' = sent s @ take k buf)"
  using nwrite_loop_sent[of "length buf" buf s r s'] assms by (auto simp: Nwrite_def)

end

text \<open>What \<open>read\<close> promises: at most the bytes asked for, from the front of the stream.\<close>

locale read_stream =
  fixes rd :: "'s sys_read" and pending :: "'s \<Rightarrow> u8 list"
  assumes got: "rd n s = (Got bs, s') \<Longrightarrow> length bs \<le> n \<and> pending s = bs @ pending s'"
    and rerror: "rd n s = (R_error e, s') \<Longrightarrow> pending s' = pending s"
begin

lemma recv_loop_got:
  assumes "recv_loop rd nleft buf s = (r, buf', s')"
  shows "\<exists>bs. buf' = buf @ bs \<and> pending s = bs @ pending s' \<and> length bs \<le> nleft \<and>
    (r = int_len buf' \<or> r = NET_HARDERROR)"
  using assms
proof (induction nleft arbitrary: buf s rule: less_induct)
  case (less nleft)
  show ?case
  proof (cases "nleft = 0")
    case True
    with less.prems show ?thesis by (subst (asm) recv_loop.simps) auto
  next
    case ne: False
    obtain res s1 where w: "rd nleft s = (res, s1)" by (cases "rd nleft s")
    show ?thesis
    proof (cases res)
      case (R_error e)
      with less.prems ne w rerror show ?thesis
        by (subst (asm) recv_loop.simps) (auto split: if_splits)
    next
      case (Got bs)
      with w got have bs: "length bs \<le> nleft" "pending s = bs @ pending s1" by auto
      show ?thesis
      proof (cases "bs = []")
        case True
        with less.prems ne w Got bs show ?thesis by (subst (asm) recv_loop.simps) auto
      next
        case False
        then have "recv_loop rd (nleft - length bs) (buf @ bs) s1 = (r, buf', s')"
          using less.prems ne w Got bs(1) by (subst (asm) recv_loop.simps) auto
        from less.IH[OF _ this] False ne bs show ?thesis by fastforce
      qed
    qed
  qed
qed

end

locale timed_read_stream = read_stream rd pending
  for rd :: "'s sys_read" and pending :: "'s \<Rightarrow> u8 list" +
  fixes sel :: "'s sys_select" and clk :: "'s \<Rightarrow> iperf_time \<times> 's"
  assumes sel_pending: "sel t s = (r, t', s') \<Longrightarrow> pending s' = pending s"
    and clk_pending: "clk s = (now, s') \<Longrightarrow> pending s' = pending s"
begin

lemma nrecv_loop_got:
  assumes "nrecv_loop rd sel clk nleft ft tmo buf s = (r, buf', s')"
  shows "\<exists>bs. buf' = buf @ bs \<and> pending s = bs @ pending s' \<and> length bs \<le> nleft \<and>
    (r = int_len buf' \<or> r = NET_HARDERROR)"
  using assms
proof (induction nleft arbitrary: ft tmo buf s rule: less_induct)
  case (less nleft)
  show ?case
  proof (cases "nleft = 0")
    case True
    with less.prems show ?thesis by (subst (asm) nrecv_loop.simps) auto
  next
    case ne: False
    obtain res s1 where w: "rd nleft s = (res, s1)" by (cases "rd nleft s")
    show ?thesis
    proof (cases res)
      case (R_error e)
      with less.prems ne w rerror show ?thesis
        by (subst (asm) nrecv_loop.simps) (auto split: if_splits)
    next
      case (Got bs)
      with w got have bs: "length bs \<le> nleft" "pending s = bs @ pending s1" by auto
      obtain now s2 where clk: "clk s1 = (now, s2)" by (cases "clk s1")
      obtain rs tmo1 s3 where sel: "sel tmo s2 = (rs, tmo1, s3)" by (cases "sel tmo s2") auto
      note fr = clk_pending[OF clk] sel_pending[OF sel]
      consider "bs = []" | "bs \<noteq> []" "nleft = length bs" | "bs \<noteq> []" "length bs < nleft"
        using bs(1) by fastforce
      then show ?thesis
      proof cases
        case 1
        with less.prems ne w Got bs show ?thesis by (subst (asm) nrecv_loop.simps) auto
      next
        case 2
        with less.prems ne w Got bs show ?thesis by (subst (asm) nrecv_loop.simps) auto
      next
        case 3
        then have step: "(r = int_len buf' \<or> r = NET_HARDERROR) \<and> buf' = buf @ bs \<and> (s' = s2 \<or> s' = s3) \<or>
            (\<exists>ft'. nrecv_loop rd sel clk (nleft - length bs) ft' tmo1 (buf @ bs) s3 = (r, buf', s'))"
          using less.prems ne w Got clk sel
          by (subst (asm) nrecv_loop.simps) (auto simp: Let_def split: if_splits)
        then show ?thesis
        proof
          assume "(r = int_len buf' \<or> r = NET_HARDERROR) \<and> buf' = buf @ bs \<and> (s' = s2 \<or> s' = s3)"
          then show ?thesis using bs fr by auto
        next
          assume "\<exists>ft'. nrecv_loop rd sel clk (nleft - length bs) ft' tmo1 (buf @ bs) s3 = (r, buf', s')"
          then obtain ft' where "nrecv_loop rd sel clk (nleft - length bs) ft' tmo1 (buf @ bs) s3 = (r, buf', s')" ..
          from less.IH[OF _ this] 3 bs fr show ?thesis by fastforce
        qed
      qed
    qed
  qed
qed

lemma Nread_got:
  assumes "Nread rd sel clk cnt s = (r, buf, s')"
  shows "pending s = buf @ pending s' \<and> length buf \<le> cnt \<and> (r = int_len buf \<or> r = NET_HARDERROR)"
proof -
  obtain rs tmo s1 where sel: "sel (nread_read_timeout * 1000000) s = (rs, tmo, s1)"
    by (cases "sel (nread_read_timeout * 1000000) s") auto
  note p = sel_pending[OF sel]
  show ?thesis
  proof (cases "0 < rs")
    case True
    with assms sel have "nrecv_loop rd sel clk cnt (Iperf_Time 0 0) tmo [] s1 = (r, buf, s')"
      by (auto simp: Nread_def Nrecv_def split: if_splits)
    from nrecv_loop_got[OF this] p show ?thesis by auto
  next
    case False
    with assms sel p show ?thesis
      by (auto simp: Nread_def Nrecv_def int_len_def to_int32_def split: if_splits)
  qed
qed

end

section \<open>A scripted socket\<close>

text \<open>
  One end of a connection: the bytes the peer has sent and this side has not read, the bytes this
  side has written, and what the system does at the following calls: move at most so many bytes,
  fail with an \<open>errno\<close>, or let \<open>select\<close> time out. With no step left the peer has closed.
\<close>

datatype sock_step = Move nat | Fail int | Timed_out

record sock =
  k_in :: "u8 list"
  k_out :: "u8 list"
  k_script :: "sock_step list"
  k_clock :: iperf_time

definition sock_write :: "sock sys_write" where
  "sock_write buf k =
     (case k_script k of
        Move n # sc \<Rightarrow>
          (let m = min n (length buf)
           in (Wrote m, k\<lparr>k_out := k_out k @ take m buf, k_script := sc\<rparr>))
      | Fail e # sc \<Rightarrow> (W_error e, k\<lparr>k_script := sc\<rparr>)
      | Timed_out # sc \<Rightarrow> (W_error EAGAIN, k\<lparr>k_script := sc\<rparr>)
      | [] \<Rightarrow> (W_error 32, k))"

definition sock_read :: "sock sys_read" where
  "sock_read n k =
     (case k_script k of
        Move m # sc \<Rightarrow>
          (let c = min n m
           in (Got (take c (k_in k)), k\<lparr>k_in := drop c (k_in k), k_script := sc\<rparr>))
      | Fail e # sc \<Rightarrow> (R_error e, k\<lparr>k_script := sc\<rparr>)
      | Timed_out # sc \<Rightarrow> (R_error EAGAIN, k\<lparr>k_script := sc\<rparr>)
      | [] \<Rightarrow> (Got [], k))"

definition sock_select :: "sock sys_select" where
  "sock_select t k =
     (case k_script k of
        Timed_out # sc \<Rightarrow> (0, 0, k\<lparr>k_script := sc\<rparr>)
      | _ \<Rightarrow> (1, t, k))"

definition sock_clock :: "sock \<Rightarrow> iperf_time \<times> sock" where
  "sock_clock k = (k_clock k, k)"

interpretation out_sock: write_stream sock_write k_out
  by unfold_locales
    (auto simp: sock_write_def Let_def split: list.splits sock_step.splits)

interpretation in_sock: timed_read_stream sock_read k_in sock_select sock_clock
  by unfold_locales
    (auto simp: sock_read_def sock_select_def sock_clock_def Let_def
      split: list.splits sock_step.splits)

text \<open>The steps of a connection that works: bytes move at every call, and there are enough steps.\<close>

definition flowing :: "sock_step list \<Rightarrow> nat \<Rightarrow> bool" where
  "flowing sc n \<longleftrightarrow> n \<le> length sc \<and> (\<forall>st\<in>set sc. \<exists>m. st = Move m \<and> 0 < m)"

lemma flowing_tl: "flowing (st # sc) (Suc n) \<Longrightarrow> flowing sc n"
  by (simp add: flowing_def)

lemma flowing_mono: "flowing sc n \<Longrightarrow> m \<le> n \<Longrightarrow> flowing sc m"
  by (simp add: flowing_def)

lemma flowing_Cons: "flowing sc (Suc n) \<Longrightarrow> \<exists>m sc'. sc = Move (Suc m) # sc' \<and> flowing sc' n"
  by (cases sc) (auto simp: flowing_def gr0_conv_Suc)

lemma nwrite_flowing:
  assumes "flowing (k_script k) (length rest + extra)" "length rest \<le> cnt"
  shows "\<exists>k'. nwrite_loop sock_write cnt rest k = (to_int32 (int cnt), k') \<and> flowing (k_script k') extra"
  using assms
proof (induction "length rest" arbitrary: rest k rule: less_induct)
  case less
  show ?case
  proof (cases rest)
    case Nil
    with less.prems show ?thesis by (subst nwrite_loop.simps) simp
  next
    case (Cons b bs)
    with less.prems obtain m sc where sc: "k_script k = Move (Suc m) # sc"
      "flowing sc (length bs + extra)" using flowing_Cons by fastforce
    let ?n = "min (Suc m) (length rest)"
    let ?k = "k\<lparr>k_out := k_out k @ take ?n rest, k_script := sc\<rparr>"
    have len: "length (drop ?n rest) < length rest" "length (drop ?n rest) \<le> length bs" using Cons by auto
    moreover have "flowing (k_script ?k) (length (drop ?n rest) + extra)"
      using sc(2) len(2) by (auto intro: flowing_mono)
    ultimately obtain k' where
      "nwrite_loop sock_write cnt (drop ?n rest) ?k = (to_int32 (int cnt), k')" "flowing (k_script k') extra"
      using less.hyps[of "drop ?n rest" ?k] less.prems(2) by auto
    then show ?thesis using Cons sc(1)
      by (subst nwrite_loop.simps) (simp add: sock_write_def Let_def)
  qed
qed

lemma select_flowing: "flowing (k_script k) n \<Longrightarrow> sock_select t k = (1, t, k)"
  by (auto simp: sock_select_def flowing_def split: list.splits sock_step.splits)

text \<open>The deadline has not passed: the clock of the script stands still.\<close>

definition in_time :: "iperf_time \<Rightarrow> sock \<Rightarrow> bool" where
  "in_time ft k \<longleftrightarrow> k_clock k \<le> iperf_time_add_usecs (k_clock k) (30 * 1000000) \<and>
     (secs ft = 0 \<or> k_clock k \<le> ft)"

lemma nrecv_flowing:
  assumes "flowing (k_script k) (nleft + extra)" "nleft \<le> length (k_in k)" "in_time ft k"
  shows "\<exists>k'. nrecv_loop sock_read sock_select sock_clock nleft ft tmo buf k
      = (int_len (buf @ take nleft (k_in k)), buf @ take nleft (k_in k), k') \<and>
    k_in k' = drop nleft (k_in k) \<and> k_clock k' = k_clock k \<and> flowing (k_script k') extra"
  using assms
proof (induction nleft arbitrary: ft tmo buf k rule: less_induct)
  case (less nleft)
  show ?case
  proof (cases nleft)
    case 0
    with less.prems show ?thesis by (subst nrecv_loop.simps) simp
  next
    case (Suc n)
    with less.prems obtain m sc where sc: "k_script k = Move (Suc m) # sc" "flowing sc (n + extra)"
      using flowing_Cons by fastforce
    let ?c = "min nleft (Suc m)"
    let ?k = "k\<lparr>k_in := drop ?c (k_in k), k_script := sc\<rparr>"
    have read: "sock_read nleft k = (Got (take ?c (k_in k)), ?k)"
      using sc(1) by (simp add: sock_read_def Let_def)
    have c: "length (take ?c (k_in k)) = ?c" "take ?c (k_in k) \<noteq> []" "0 < ?c"
      using less.prems(2) Suc by (auto simp: min_def)
    show ?thesis
    proof (cases "nleft \<le> Suc m")
      case True
      then have "?c = nleft" by simp
      with read c Suc sc less.prems(2) show ?thesis
        by (subst nrecv_loop.simps) (auto intro: flowing_mono)
    next
      case False
      let ?ft = "if secs ft = 0 then iperf_time_add_usecs (k_clock k) (30 * 1000000) else ft"
      have fl: "flowing (k_script ?k) ((nleft - ?c) + extra)"
        using sc(2) Suc by (auto intro: flowing_mono)
      have it: "in_time ?ft ?k" using less.prems(3) by (auto simp: in_time_def)
      have "nleft - ?c \<le> length (k_in ?k)" "nleft - ?c < nleft" using less.prems(2) Suc by auto
      from less.IH[OF this(2) fl this(1) it, of tmo "buf @ take ?c (k_in k)"] obtain k' where k':
        "nrecv_loop sock_read sock_select sock_clock (nleft - ?c) ?ft tmo (buf @ take ?c (k_in k)) ?k
          = (int_len ((buf @ take ?c (k_in k)) @ take (nleft - ?c) (k_in ?k)),
             (buf @ take ?c (k_in k)) @ take (nleft - ?c) (k_in ?k), k')"
        "k_in k' = drop (nleft - ?c) (k_in ?k)" "k_clock k' = k_clock k" "flowing (k_script k') extra"
        by auto
      have app: "take ?c (k_in k) @ take (nleft - ?c) (drop ?c (k_in k)) = take nleft (k_in k)"
        using False by (metis le_add_diff_inverse min.cobounded1 take_add)
      have notlate: "\<not> iperf_time_add_usecs (k_clock k) 30000000 < k_clock k"
        "secs ft \<noteq> 0 \<Longrightarrow> \<not> ft < k_clock k"
        using less.prems(3) by (auto simp: in_time_def not_less)
      have "nrecv_loop sock_read sock_select sock_clock nleft ft tmo buf k
        = nrecv_loop sock_read sock_select sock_clock (nleft - ?c) ?ft tmo (buf @ take ?c (k_in k)) ?k"
        using False Suc read c notlate select_flowing[OF fl]
        by (subst nrecv_loop.simps) (simp add: sock_clock_def Let_def)
      with k' app False show ?thesis by (intro exI[of _ k']) (auto simp: drop_drop)
    qed
  qed
qed

lemma Nread_flowing:
  assumes "flowing (k_script k) (n + extra)" "n \<le> length (k_in k)" "in_time (Iperf_Time 0 0) k"
  shows "\<exists>k'. Nread sock_read sock_select sock_clock n k
      = (int_len (take n (k_in k)), take n (k_in k), k') \<and>
    k_in k' = drop n (k_in k) \<and> k_clock k' = k_clock k \<and> flowing (k_script k') extra"
  using nrecv_flowing[OF assms, of "10 * 1000000" "[]"] select_flowing[OF assms(1)]
  by (simp add: Nread_def Nrecv_def)

section \<open>Properties\<close>

lemma string_bytes: "string_of (bytes_of s) = s"
proof -
  have "char_of (unat (of_nat (of_char c) :: u8)) = c" for c
  proof -
    have "(of_char c :: nat) < 256" by (metis of_char_mod_256 mod_less_divisor zero_less_numeral)
    then show ?thesis by (simp add: unat_of_nat)
  qed
  then show ?thesis by (simp add: string_of_def bytes_of_def comp_def)
qed

lemma c_string_bytes: "CHR 0x00 \<notin> set s \<Longrightarrow> c_string (bytes_of s) = s"
  by (auto simp: c_string_def string_bytes takeWhile_eq_all_conv)

text \<open>The frame of a message: its length in network order, then its bytes.\<close>

definition frame :: "string \<Rightarrow> u8 list" where
  "frame str = be32 (of_nat (length str)) @ bytes_of str"

lemma length_bytes_of [simp]: "length (bytes_of s) = length s"
  by (simp add: bytes_of_def)

text \<open>C30: \<open>Nwrite\<close> returns the number of bytes it put on the connection: they are that prefix of the
  buffer, and the whole buffer when the number is its length. On an error it still put out only a
  prefix, in order.\<close>

theorem nwrite_prefix:
  assumes "length buf < 2 ^ 31" "Nwrite sock_write buf k = (r, k')"
  shows "(r \<ge> 0 \<and> nat r \<le> length buf \<and> k_out k' = k_out k @ take (nat r) buf) \<or>
    (r \<in> {NET_SOFTERROR, NET_HARDERROR} \<and> (\<exists>n \<le> length buf. k_out k' = k_out k @ take n buf))"
  using out_sock.Nwrite_sent[OF assms(2,1)] by (cases "r \<ge> 0") auto

text \<open>C31: \<open>Nread\<close> never invents, drops or reorders bytes: what it puts in the buffer is the front of
  the stream and the rest is still to be read, and a result that is not an error is its length;
  it is never longer than asked for.\<close>

theorem nread_prefix:
  assumes "Nread sock_read sock_select sock_clock n k = (r, buf, k')"
  shows "k_in k = buf @ k_in k' \<and> length buf \<le> n \<and> (r = int_len buf \<or> r = NET_HARDERROR)"
  using in_sock.Nread_got[OF assms] .

lemma json_message_passes:
  assumes "print j = Some str" "CHR 0x00 \<notin> set str" "str \<noteq> []" "length str < 2 ^ 31"
    and "max_size = 0 \<or> int (length str) \<le> max_size \<and> max_size < 2 ^ 31"
    and "flowing (k_script w) (4 + length str)" "flowing (k_script k) (4 + length str)"
    and "k_in k = frame str @ tail" "in_time (Iperf_Time 0 0) k"
  shows "(\<exists>w'. JSON_write sock_write print j w = (0, w') \<and> k_out w' = k_out w @ frame str) \<and>
    (\<exists>k'. JSON_read sock_read sock_select sock_clock parse True max_size k = (parse str, k') \<and>
      k_in k' = tail)"
proof
  let ?hd = "be32 (of_nat (length str))" and ?n = "length str"
  have n: "unat (of_nat ?n :: u32) = ?n" "uint (of_nat ?n :: u32) = int ?n"
    using assms(4) by (simp_all add: unat_of_nat uint_nat)
  obtain w1 where w1: "Nwrite sock_write ?hd w = (4, w1)" "flowing (k_script w1) ?n"
    using nwrite_flowing[of w ?hd ?n 4] assms(6) by (auto simp: Nwrite_def to_int32_id)
  obtain w2 where w2: "Nwrite sock_write (bytes_of str) w1 = (int ?n, w2)"
    using nwrite_flowing[of w1 "bytes_of str" 0 ?n] w1(2) assms(4) by (auto simp: Nwrite_def to_int32_id)
  have o1: "k_out w1 = k_out w @ ?hd" using out_sock.Nwrite_sent(1)[OF w1(1)] by simp
  have o2: "k_out w2 = k_out w1 @ bytes_of str"
    using out_sock.Nwrite_sent(1)[OF w2] assms(4) by simp
  show "\<exists>w'. JSON_write sock_write print j w = (0, w') \<and> k_out w' = k_out w @ frame str"
    using w1 w2 o1 o2 assms(1) n by (simp add: JSON_write_def Let_def frame_def)
  obtain k1 where k1: "Nread sock_read sock_select sock_clock 4 k = (4, ?hd, k1)"
    "k_in k1 = bytes_of str @ tail" "k_clock k1 = k_clock k" "flowing (k_script k1) ?n"
    using Nread_flowing[of k 4 ?n] assms(7-9) by (auto simp: frame_def int_len_def to_int32_id)
  have it: "in_time (Iperf_Time 0 0) k1" using assms(9) k1(3) by (simp add: in_time_def)
  obtain k2 where k2: "Nread sock_read sock_select sock_clock ?n k1 = (int ?n, bytes_of str, k2)"
    "k_in k2 = tail"
    using Nread_flowing[of k1 ?n 0, OF _ _ it] k1 assms(4) by (auto simp: int_len_def to_int32_id)
  have pos: "(0 :: u32) < of_nat ?n" using assms(3) n by (simp add: word_less_nat_alt)
  have nz: "(of_nat ?n :: u32) + 1 \<noteq> 0"
  proof
    assume "(of_nat ?n :: u32) + 1 = 0"
    then have "unat ((of_nat ?n :: u32) + 1) = 0" by simp
    then show False using n assms(4) by (simp add: unat_word_ariths)
  qed
  have max: "max_size = 0 \<or> int ?n \<le> uint (word_of_int max_size :: u32)"
    using assms(5) by (auto simp: unsigned_of_int take_bit_int_eq_self)
  show "\<exists>k'. JSON_read sock_read sock_select sock_clock parse True max_size k = (parse str, k') \<and>
      k_in k' = tail"
    using k1(1) k2 pos nz max n c_string_bytes[OF assms(2)]
    by (simp add: JSON_read_def Let_def)
qed

text \<open>C13: A JSON message written on one end and read on the other arrives as it is, however the
  connection splits it: when every call moves some bytes, \<open>JSON_write\<close> succeeds and puts exactly one
  frame on the stream, and \<open>JSON_read\<close> on a stream that starts with the frame gives the parser the
  same text and leaves what follows the frame unread.\<close>

theorem json_message_arrives:
  assumes "print j = Some str" "CHR 0x00 \<notin> set str" "str \<noteq> []" "length str < 2 ^ 31"
    and "max_size = 0 \<or> int (length str) \<le> max_size \<and> max_size < 2 ^ 31"
    and "flowing (k_script w) (4 + length str)" "flowing (k_script k) (4 + length str)"
    and "k_in k = frame str @ tail" "in_time (Iperf_Time 0 0) k"
  shows "(\<exists>w'. JSON_write sock_write print j w = (0, w') \<and> k_out w' = k_out w @ frame str) \<and>
    (\<exists>k'. JSON_read sock_read sock_select sock_clock parse True max_size k = (parse str, k') \<and>
      k_in k' = tail)"
  using assms by (rule json_message_passes)

lemma nwrite_prefix_witness:
  "k_out (snd (Nwrite sock_write [1, 2, 3]
     \<lparr>k_in = [], k_out = [], k_script = [Move 2, Fail EAGAIN], k_clock = Iperf_Time 0 0\<rparr>)) = [1, 2]"
proof -
  let ?k = "\<lparr>k_in = [], k_out = [], k_script = [Move 2, Fail EAGAIN], k_clock = Iperf_Time 0 0\<rparr>"
  have "fst (Nwrite sock_write [1, 2, 3] ?k) = 2"
    by (simp add: Nwrite_def nwrite_loop.simps sock_write_def Let_def to_int32_def)
  then show ?thesis
    using nwrite_prefix[of "[1, 2, 3]" ?k 2 "snd (Nwrite sock_write [1, 2, 3] ?k)"]
    by (cases "Nwrite sock_write [1, 2, 3] ?k") auto
qed

lemma nread_prefix_witness:
  "fst (snd (Nread sock_read sock_select sock_clock 4
     \<lparr>k_in = [7, 8, 9], k_out = [], k_script = [Move 2, Timed_out], k_clock = Iperf_Time 5 0\<rparr>)) = [7, 8]"
proof -
  let ?k = "\<lparr>k_in = [7, 8, 9], k_out = [], k_script = [Move 2, Timed_out], k_clock = Iperf_Time 5 0\<rparr>"
  obtain r buf k' where n: "Nread sock_read sock_select sock_clock 4 ?k = (r, buf, k')"
    by (cases "Nread sock_read sock_select sock_clock 4 ?k") auto
  have "k_in k' = [9]"
    using n by (simp add: Nread_def Nrecv_def nrecv_loop.simps sock_read_def sock_select_def
        sock_clock_def Let_def iperf_time_compare_def iperf_time_add_usecs_def split: if_splits) auto
  with nread_prefix[OF n] n show ?thesis by simp
qed

lemma json_message_arrives_witness:
  "\<exists>k'. JSON_read sock_read sock_select sock_clock Some True 8192
     \<lparr>k_in = frame ''{}'' @ [1], k_out = [], k_script = replicate 9 (Move 1), k_clock = Iperf_Time 5 0\<rparr>
     = (Some ''{}'', k') \<and> k_in k' = [1]"
proof -
  let ?k = "\<lparr>k_in = frame ''{}'' @ [1], k_out = [], k_script = replicate 9 (Move 1), k_clock = Iperf_Time 5 0\<rparr>"
  have f: "flowing (k_script ?k) (4 + length ''{}'')" by (auto simp: flowing_def)
  have "in_time (Iperf_Time 0 0) ?k"
    by (simp add: in_time_def less_eq_iperf_time_def iperf_time_compare_def iperf_time_add_usecs_def)
  from json_message_arrives[where print = "\<lambda>_ :: unit. Some ''{}''" and str = "''{}''" and max_size = 8192
      and w = ?k and k = ?k and tail = "[1]" and parse = Some, OF _ _ _ _ _ f f _ this]
  show ?thesis by simp
qed

section \<open>Opening sockets\<close>

text \<open>
  The system as the functions that open sockets see it: the results of the calls to come (return
  value, \<open>errno\<close> set by the call, and a value it stores), and what is allocated: the open
  descriptors and the number of live \<open>addrinfo\<close> lists.
\<close>

datatype sysres = Sys (sr_ret: int) (sr_errno: int) (sr_out: int)

record netsys =
  n_script :: "sysres list"
  n_open :: "int list"
  n_ai :: nat
  n_errno :: int
  n_gerror :: int

definition syscall :: "netsys \<Rightarrow> sysres \<times> netsys" where
  "syscall n =
     (case n_script n of
        [] \<Rightarrow> (Sys (- 1) 38 0, n\<lparr>n_errno := 38\<rparr>)
      | r # rs \<Rightarrow> (r, n\<lparr>n_script := rs, n_errno := (if sr_ret r < 0 then sr_errno r else n_errno n)\<rparr>))"

definition call_getaddrinfo :: "netsys \<Rightarrow> sysres \<times> netsys" where
  "call_getaddrinfo n =
     (let (r, n1) = syscall n
      in (r, n1\<lparr>n_gerror := sr_ret r, n_ai := (if sr_ret r = 0 then Suc (n_ai n1) else n_ai n1)\<rparr>))"

definition freeaddrinfo :: "netsys \<Rightarrow> netsys" where
  "freeaddrinfo n = n\<lparr>n_ai := n_ai n - 1\<rparr>"

definition call_socket :: "netsys \<Rightarrow> int \<times> netsys" where
  "call_socket n =
     (let (r, n1) = syscall n
      in (sr_ret r, if sr_ret r < 0 then n1 else n1\<lparr>n_open := sr_ret r # n_open n1\<rparr>))"

text \<open>\<open>close\<close> with \<open>errno\<close> saved and restored around it.\<close>

definition call_close :: "int \<Rightarrow> netsys \<Rightarrow> netsys" where
  "call_close s n = n\<lparr>n_open := remove1 s (n_open n)\<rparr>"

abbreviation (input) AF_UNSPEC :: int where "AF_UNSPEC \<equiv> 0"
abbreviation (input) AF_INET :: int where "AF_INET \<equiv> 2"
abbreviation (input) AF_INET6 :: int where "AF_INET6 \<equiv> 10"
abbreviation (input) EINPROGRESS :: int where "EINPROGRESS \<equiv> 115"
abbreviation (input) ETIMEDOUT :: int where "ETIMEDOUT \<equiv> 110"
abbreviation (input) EAFNOSUPPORT :: int where "EAFNOSUPPORT \<equiv> 97"

definition timeout_connect :: "int \<Rightarrow> netsys \<Rightarrow> int \<times> netsys" where
  "timeout_connect timeout n0 =
     (let (flags, n1) = (if timeout \<noteq> - 1 then (let (r, n) = syscall n0 in (sr_ret r, n)) else (0, n0));
          (nb, n2) = (if timeout \<noteq> - 1 then (let (r, n) = syscall n1 in (sr_ret r, n)) else (0, n1))
      in if nb = - 1 then (- 1, n2)
         else
           (let (c, n3) = syscall n2;
                (ret, n4) =
                  (if sr_ret c \<noteq> 0 \<and> n_errno n3 = EINPROGRESS then
                     (let (p, n) = syscall n3
                      in if sr_ret p = 1 then
                           (let (g, n') = syscall n
                            in if sr_ret g = 0
                               then (if sr_out g = 0 then 0 else - 1, n'\<lparr>n_errno := sr_out g\<rparr>)
                               else (sr_ret g, n'))
                         else if sr_ret p = 0 then (- 1, n\<lparr>n_errno := ETIMEDOUT\<rparr>)
                         else (- 1, n))
                   else (sr_ret c, n3));
                (bl, n5) = (if timeout \<noteq> - 1 then (let (r, n) = syscall n4 in (sr_ret r, n)) else (0, n4))
            in (if timeout \<noteq> - 1 \<and> bl = - 1 then - 1 else ret, n5)))"

text \<open>\<open>create_socket\<close>: \<open>has_local\<close> and \<open>has_dev\<close> say whether \<open>local\<close> and \<open>bind_dev\<close> are given; the
build has no \<open>SO_BINDTODEVICE\<close>. On success the server's address list is handed to the caller.\<close>

definition create_socket :: "bool \<Rightarrow> bool \<Rightarrow> int \<Rightarrow> netsys \<Rightarrow> int \<times> netsys" where
  "create_socket has_local has_dev local_port n0 =
     (let free_local = (\<lambda>n. if has_local then freeaddrinfo n else n);
          (g1, n1) = (if has_local then (let (r, n) = call_getaddrinfo n0 in (sr_ret r, n)) else (0, n0))
      in if g1 \<noteq> 0 then (- 1, n1)
         else
           (let (g2, n2) = call_getaddrinfo n1; fam = sr_out g2
            in if sr_ret g2 \<noteq> 0 then (- 1, free_local n2)
               else
                 (let (s, n3) = call_socket n2
                  in if s < 0 then (- 1, freeaddrinfo (free_local n3))
                     else if has_dev then (- 1, freeaddrinfo (free_local (call_close s n3)))
                     else if has_local then
                       (let (b, n4) = syscall n3
                        in if sr_ret b < 0 then (- 1, freeaddrinfo (freeaddrinfo (call_close s n4)))
                           else (s, freeaddrinfo n4))
                     else if local_port \<noteq> 0 then
                       (if fam \<noteq> AF_INET \<and> fam \<noteq> AF_INET6
                        then (- 1, (freeaddrinfo (call_close s n3))\<lparr>n_errno := EAFNOSUPPORT\<rparr>)
                        else (let (b, n4) = syscall n3
                              in if sr_ret b < 0 then (- 1, freeaddrinfo (call_close s n4))
                                 else (s, n4)))
                     else (s, n3))))"

definition netdial :: "bool \<Rightarrow> bool \<Rightarrow> int \<Rightarrow> int \<Rightarrow> netsys \<Rightarrow> int \<times> netsys" where
  "netdial has_local has_dev local_port timeout n0 =
     (let (s, n1) = create_socket has_local has_dev local_port n0
      in if s < 0 then (- 1, n1)
         else
           (let (c, n2) = timeout_connect timeout n1
            in if c < 0 \<and> n_errno n2 \<noteq> EINPROGRESS
               then (- 1, freeaddrinfo (call_close s n2))
               else (s, freeaddrinfo n2)))"

text \<open>The \<open>IPV6_V6ONLY\<close> option of a listener, set for an IPv6 socket unless IPv4 was asked for.\<close>

definition set_v6only :: "int \<Rightarrow> int \<Rightarrow> netsys \<Rightarrow> int \<times> netsys" where
  "set_v6only fam domain n =
     (if fam = AF_INET6 \<and> (domain = AF_UNSPEC \<or> domain = AF_INET6)
      then (let (r, n1) = syscall n in (sr_ret r, n1)) else (0, n))"

definition netannounce :: "int \<Rightarrow> int \<Rightarrow> bool \<Rightarrow> bool \<Rightarrow> netsys \<Rightarrow> int \<times> netsys" where
  "netannounce domain proto has_local has_dev n0 =
     (let (g, n1) = call_getaddrinfo n0; fam = sr_out g
      in if sr_ret g \<noteq> 0 then (- 1, n1)
         else
           (let (s, n2) = call_socket n1
            in if s < 0 then (- 1, freeaddrinfo n2)
               else if has_dev then (- 1, freeaddrinfo (call_close s n2))
               else
                 (let (o1, n3) = syscall n2
                  in if sr_ret o1 < 0 then (- 1, freeaddrinfo (call_close s n3))
                     else
                       (let (o2, n4) = set_v6only fam domain n3
                        in if o2 < 0 then (- 1, freeaddrinfo (call_close s n4))
                           else
                             (let (b, n5) = syscall n4
                              in if sr_ret b < 0 then (- 1, freeaddrinfo (call_close s n5))
                                 else
                                   (let n6 = freeaddrinfo n5
                                    in if proto = Ptcp then
                                         (let (l, n7) = syscall n6
                                          in if sr_ret l < 0 then (- 1, call_close s n7) else (s, n7))
                                       else (s, n6)))))))"

text \<open>The address family the listener asks for.\<close>

definition announce_family :: "int \<Rightarrow> bool \<Rightarrow> int" where
  "announce_family domain has_local = (if domain = AF_UNSPEC \<and> \<not> has_local then AF_INET6 else domain)"

text \<open>What a call leaves allocated: nothing more than before, or one socket.\<close>

definition clean :: "netsys \<Rightarrow> int \<times> netsys \<Rightarrow> bool" where
  "clean n r \<longleftrightarrow>
     n_ai (snd r) = n_ai n \<and>
     (if fst r < 0 then n_open (snd r) = n_open n else n_open (snd r) = fst r # n_open n)"

lemma syscall_frame [simp]: "syscall n = (r, n') \<Longrightarrow> n_open n' = n_open n \<and> n_ai n' = n_ai n"
  by (auto simp: syscall_def split: list.splits)

lemma frames [simp]:
  "n_ai (freeaddrinfo n) = n_ai n - 1" "n_open (freeaddrinfo n) = n_open n"
  "n_ai (call_close s n) = n_ai n" "n_open (call_close s n) = remove1 s (n_open n)"
  by (simp_all add: freeaddrinfo_def call_close_def)

lemma getaddrinfo_frame:
  "call_getaddrinfo n = (r, n') \<Longrightarrow>
     n_open n' = n_open n \<and> n_ai n' = (if sr_ret r = 0 then Suc (n_ai n) else n_ai n)"
  by (auto simp: call_getaddrinfo_def split: prod.splits)

lemma socket_frame:
  "call_socket n = (s, n') \<Longrightarrow>
     n_ai n' = n_ai n \<and> n_open n' = (if s < 0 then n_open n else s # n_open n)"
  by (auto simp: call_socket_def split: prod.splits)

lemma timeout_connect_frame:
  "timeout_connect t n = (r, n') \<Longrightarrow> n_open n' = n_open n \<and> n_ai n' = n_ai n"
  by (auto simp: timeout_connect_def Let_def split: prod.splits if_splits)

lemma create_socket_frame:
  "create_socket l d p n = (s, n') \<Longrightarrow>
     n_open n' = (if s < 0 then n_open n else s # n_open n) \<and>
     n_ai n' = (if s < 0 then n_ai n else Suc (n_ai n))"
  by (auto simp: create_socket_def Let_def split: prod.splits if_splits
      dest!: getaddrinfo_frame socket_frame)

lemma netdial_clean: "clean n (netdial has_local has_dev local_port timeout n)"
proof -
  obtain s n1 where 1: "create_socket has_local has_dev local_port n = (s, n1)"
    by (cases "create_socket has_local has_dev local_port n")
  obtain c n2 where 2: "timeout_connect timeout n1 = (c, n2)" by (cases "timeout_connect timeout n1")
  show ?thesis
    using create_socket_frame[OF 1] timeout_connect_frame[OF 2]
    by (simp add: clean_def netdial_def 1 2)
qed

lemma netannounce_clean: "clean n (netannounce domain proto has_local has_dev n)"
proof -
  obtain g n1 where 1: "call_getaddrinfo n = (g, n1)" by (cases "call_getaddrinfo n")
  obtain s n2 where 2: "call_socket n1 = (s, n2)" by (cases "call_socket n1")
  obtain o1 n3 where 3: "syscall n2 = (o1, n3)" by (cases "syscall n2")
  obtain o2 n4 where 4: "set_v6only (sr_out g) domain n3 = (o2, n4)"
    by (cases "set_v6only (sr_out g) domain n3")
  obtain b n5 where 5: "syscall n4 = (b, n5)" by (cases "syscall n4")
  obtain l n7 where 7: "syscall (freeaddrinfo n5) = (l, n7)" by (cases "syscall (freeaddrinfo n5)")
  have f4: "n_open n4 = n_open n3 \<and> n_ai n4 = n_ai n3"
    using 4 by (cases "syscall n3") (auto simp: set_v6only_def split: if_splits)
  note f = getaddrinfo_frame[OF 1] socket_frame[OF 2] syscall_frame[OF 3] f4 syscall_frame[OF 5]
    syscall_frame[OF 7]
  show ?thesis
    unfolding netannounce_def 1 Let_def prod.case 2 3 4 5 7
    using f by (simp add: clean_def)
qed

text \<open>C32: Whatever the system calls return, \<open>netdial\<close> and \<open>netannounce\<close> leave nothing behind: on an
  error every socket they opened is closed and every address list is freed, on success exactly the
  returned socket is open.\<close>

theorem net_open_clean:
  "clean n (netdial has_local has_dev local_port timeout n) \<and>
   clean n (netannounce domain proto has_local has_dev n)"
  using netdial_clean netannounce_clean by blast

end
