(* ===== verification/Udp.thy ===== *)
theory Udp
  imports Net_IO
begin

text \<open>
  \<open>iperf_udp.c\<close>: the packet header, sending and receiving, the accounting of lost and reordered
  packets, the check of the socket buffers and the two halves of the UDP "connection".
  Parameters are the system calls: reading and writing (as in theory Net_IO), the clock, and the
  results of the socket options and of the datagrams of the connection.

  The accounting is related to its meaning: for packets that arrive at most once, in any order,
  the counters are exactly the number of missing sequence numbers and of reordered packets.
\<close>

section \<open>The packet header\<close>

text \<open>What \<open>iperf_udp_send\<close> writes at the start of the buffer.\<close>

definition udp_header :: "bool \<Rightarrow> iperf_time \<Rightarrow> int \<Rightarrow> u8 list" where
  "udp_header counters_64bit before packet_count =
     (if counters_64bit
      then be32 (secs before) @ be32 (usecs before) @ be64 (word_of_int packet_count)
      else be32 (secs before) @ be32 (usecs before) @ be32 (word_of_int packet_count))"

text \<open>\<open>memcpy\<close> to the start of the buffer.\<close>

definition overwrite :: "u8 list \<Rightarrow> u8 list \<Rightarrow> u8 list" where
  "overwrite bs buffer = bs @ drop (length bs) buffer"

text \<open>What \<open>iperf_udp_recv\<close> digs out of the buffer.\<close>

definition udp_parse :: "bool \<Rightarrow> u8 list \<Rightarrow> iperf_time \<times> u64" where
  "udp_parse counters_64bit buffer =
     (Iperf_Time (of_be32 buffer) (of_be32 (drop 4 buffer)),
      if counters_64bit then of_be64 (drop 8 buffer)
      else ucast (of_be32 (drop 8 buffer)))"

section \<open>Sending\<close>

definition iperf_udp_send ::
  "'s sys_write \<Rightarrow> iperf_time \<Rightarrow> iperf_test \<Rightarrow> iperf_stream \<Rightarrow> 's \<Rightarrow> int \<times> iperf_stream \<times> 's" where
  "iperf_udp_send wr before test sp s =
     (let size = s_blksize (t_settings test);
          pc = sp_packet_count sp + 1;
          sp1 = sp\<lparr>sp_packet_count := pc,
                   sp_buffer := overwrite (udp_header (c_true (t_udp_counters_64bit test)) before pc)
                                  (sp_buffer sp)\<rparr>;
          (r, s1) = Nwrite wr (take (nat size) (sp_buffer sp1)) s;
          sp2 = (if r \<le> 0 then sp1\<lparr>sp_packet_count := pc - 1\<rparr> else sp1)
      in if r < 0 then (r, sp2, s1)
         else
           (let rp = sp_result sp2
            in (r, sp2\<lparr>sp_result :=
                     rp\<lparr>rp_bytes_sent := rp_bytes_sent rp + word_of_int r,
                        rp_bytes_sent_this_interval :=
                          rp_bytes_sent_this_interval rp + word_of_int r\<rparr>\<rparr>, s1)))"

section \<open>Receiving\<close>

text \<open>The sequence numbers: the comparison and the difference are in \<open>uint64_t\<close>.\<close>

definition udp_account :: "u64 \<Rightarrow> iperf_stream \<Rightarrow> iperf_stream" where
  "udp_account pcount sp =
     (let pc = (word_of_int (sp_packet_count sp) :: u64)
      in if pcount \<ge> pc + 1 then
           (let sp1 = (if pcount > pc + 1
                       then sp\<lparr>sp_cnt_error :=
                              to_int64 (uint (word_of_int (sp_cnt_error sp) + ((pcount - 1) - pc)))\<rparr>
                       else sp)
            in sp1\<lparr>sp_packet_count := to_int64 (uint pcount)\<rparr>)
         else
           (let sp1 = sp\<lparr>sp_outoforder_packets := sp_outoforder_packets sp + 1\<rparr>
            in if sp_cnt_error sp1 > 0 then sp1\<lparr>sp_cnt_error := sp_cnt_error sp1 - 1\<rparr> else sp1))"

definition udp_jitter ::
  "bool \<Rightarrow> iperf_time \<Rightarrow> iperf_time \<Rightarrow> iperf_stream \<Rightarrow> iperf_stream" where
  "udp_jitter first_packet arrival_time sent_time sp =
     (let transit = iperf_time_in_secs (snd (iperf_time_diff arrival_time sent_time));
          prev = (if first_packet then transit else sp_prev_transit sp);
          d0 = dsub transit prev;
          d = (if d0 < 0 then - d0 else d0)
      in sp\<lparr>sp_prev_transit := transit,
            sp_jitter := dadd (sp_jitter sp) (ddiv (dsub d (sp_jitter sp)) 16)\<rparr>)"

definition iperf_udp_recv ::
  "'s sys_read \<Rightarrow> iperf_time \<Rightarrow> iperf_test \<Rightarrow> iperf_stream \<Rightarrow> 's \<Rightarrow> int \<times> iperf_stream \<times> 's" where
  "iperf_udp_recv rd arrival test sp s =
     (let size = s_blksize (t_settings test);
          (r, bs, s1) = Nrecv_no_select rd (nat size) s;
          sp0 = sp\<lparr>sp_buffer := overwrite bs (sp_buffer sp)\<rparr>
      in if r \<le> 0 then (r, sp0, s1)
         else if t_state test = TEST_RUNNING then
           (let rp = sp_result sp0;
                first_packet = (rp_bytes_received rp = 0);
                sp1 = sp0\<lparr>sp_result :=
                        rp\<lparr>rp_bytes_received := rp_bytes_received rp + word_of_int r,
                           rp_bytes_received_this_interval :=
                             rp_bytes_received_this_interval rp + word_of_int r\<rparr>\<rparr>;
                (sent_time, pcount) = udp_parse (c_true (t_udp_counters_64bit test)) (sp_buffer sp1);
                sp2 = udp_account pcount sp1
            in (r, udp_jitter first_packet arrival sent_time sp2, s1))
         else (r, sp0, s1))"

section \<open>Socket buffers\<close>

text \<open>The results of the four calls: \<open>setsockopt\<close> for both directions, and the sizes
\<open>getsockopt\<close> reads back, \<open>None\<close> if it fails.\<close>

record bufcalls =
  bc_set_rcv :: int
  bc_set_snd :: int
  bc_snd_actual :: "int option"
  bc_rcv_actual :: "int option"

definition iperf_udp_buffercheck :: "bufcalls \<Rightarrow> iperf_test \<Rightarrow> int \<times> iperf_test" where
  "iperf_udp_buffercheck bc test =
     (let opt = s_socket_bufsize (t_settings test); blksize = s_blksize (t_settings test)
      in if c_true opt \<and> bc_set_rcv bc < 0 then (- 1, test\<lparr>t_i_errno := IESETBUF\<rparr>)
         else if c_true opt \<and> bc_set_snd bc < 0 then (- 1, test\<lparr>t_i_errno := IESETBUF\<rparr>)
         else case bc_snd_actual bc of
           None \<Rightarrow> (- 1, test\<lparr>t_i_errno := IESETBUF\<rparr>)
         | Some sndbuf \<Rightarrow>
             if c_true opt \<and> opt > sndbuf then (- 1, test\<lparr>t_i_errno := IESETBUF2\<rparr>)
             else
               (let rc1 = (if blksize > sndbuf then 1 else 0)
                in case bc_rcv_actual bc of
                     None \<Rightarrow> (- 1, test\<lparr>t_i_errno := IESETBUF\<rparr>)
                   | Some rcvbuf \<Rightarrow>
                       if c_true opt \<and> opt > rcvbuf then (- 1, test\<lparr>t_i_errno := IESETBUF2\<rparr>)
                       else (if blksize > rcvbuf then 1 else rc1, test)))"

abbreviation (input) UDP_BUFFER_EXTRA :: int where "UDP_BUFFER_EXTRA \<equiv> 1024"

text \<open>The check, and the second try with a larger buffer (the same in accept and connect).\<close>

definition udp_fit_buffers :: "bufcalls \<Rightarrow> bufcalls \<Rightarrow> iperf_test \<Rightarrow> int \<times> iperf_test" where
  "udp_fit_buffers bc1 bc2 test =
     (let (rc, t1) = iperf_udp_buffercheck bc1 test
      in if rc < 0 then (rc, t1)
         else if rc > 0 \<and> s_socket_bufsize (t_settings t1) = 0 then
           (let bufsize = to_int32 (s_blksize (t_settings t1) + UDP_BUFFER_EXTRA);
                t2 = upd_settings (\<lambda>s. s\<lparr>s_socket_bufsize := bufsize\<rparr>) t1;
                (rc2, t3) = iperf_udp_buffercheck bc2 t2
            in (rc2, t3))
         else (rc, t1))"

section \<open>The two halves of the connection\<close>

definition UDP_CONNECT_MSG :: u32 where "UDP_CONNECT_MSG = 0x36373839"
definition UDP_CONNECT_REPLY :: u32 where "UDP_CONNECT_REPLY = 0x39383736"
definition LEGACY_UDP_CONNECT_REPLY :: u32 where "LEGACY_UDP_CONNECT_REPLY = 987654321"
abbreviation (input) MAX_REVERSE_OUT_OF_ORDER_PACKETS :: int
  where "MAX_REVERSE_OUT_OF_ORDER_PACKETS \<equiv> 2"

text \<open>\<open>iperf_udp_accept\<close>: the results of \<open>recvfrom\<close>, \<open>connect\<close>, \<open>netannounce\<close> and \<open>write\<close>.\<close>

definition iperf_udp_accept ::
  "int \<Rightarrow> int \<Rightarrow> bufcalls \<Rightarrow> bufcalls \<Rightarrow> int \<Rightarrow> int \<Rightarrow> iperf_test \<Rightarrow> int \<times> iperf_test" where
  "iperf_udp_accept recvfrom_rc connect_rc bc1 bc2 new_listener write_rc test =
     (let s = t_prot_listener test
      in if recvfrom_rc < 0 then (- 1, test\<lparr>t_i_errno := IESTREAMACCEPT\<rparr>)
         else if connect_rc < 0 then (- 1, test\<lparr>t_i_errno := IESTREAMACCEPT\<rparr>)
         else
           (let (rc, t1) = udp_fit_buffers bc1 bc2 test
            in if rc < 0 then (rc, t1)
               else
                 (let t2 = t1\<lparr>t_read_set := t_read_set t1 - {t_prot_listener t1},
                              t_prot_listener := new_listener\<rparr>
                  in if new_listener < 0 then (- 1, t2\<lparr>t_i_errno := IESTREAMLISTEN\<rparr>)
                     else
                       (let t3 = t2\<lparr>t_read_set := insert new_listener (t_read_set t2),
                                    t_max_fd := max (t_max_fd t2) new_listener\<rparr>
                        in if write_rc < 0 then (- 1, t3\<lparr>t_i_errno := IESTREAMWRITE\<rparr>)
                           else (s, t3)))))"

definition iperf_udp_listen :: "int \<Rightarrow> iperf_test \<Rightarrow> int \<times> iperf_test" where
  "iperf_udp_listen announced test =
     (if announced < 0 then (- 1, test\<lparr>t_i_errno := IESTREAMLISTEN\<rparr>) else (announced, test))"

definition is_reply :: "u32 \<Rightarrow> bool" where
  "is_reply buf \<longleftrightarrow> buf = UDP_CONNECT_REPLY \<or> buf = LEGACY_UDP_CONNECT_REPLY"

text \<open>The loop that waits for the reply: each \<open>recv (s, &buf, sizeof (buf), 0)\<close> returns the size,
at most 4, and the buffer; \<open>None\<close> when no further datagram comes (the call blocks until its
timeout, which is an error result). The first component is the new \<open>i\<close>, or -1 for an error.\<close>

fun wait_reply :: "int \<Rightarrow> int \<Rightarrow> (int \<times> u32) list \<Rightarrow> (int \<times> u32) option" where
  "wait_reply max_len i [] = None"
| "wait_reply max_len i ((sz, buf) # rs) =
     (if sz < 0 then Some (- 1, buf)
      else if \<not> is_reply buf \<and> i + sz < max_len then wait_reply max_len (i + sz) rs
      else Some (i + sz, buf))"

definition max_len_wait_for_reply :: "iperf_test \<Rightarrow> int" where
  "max_len_wait_for_reply test =
     4 + (if c_true (t_reverse test)
          then MAX_REVERSE_OUT_OF_ORDER_PACKETS * s_blksize (t_settings test) else 0)"

definition iperf_udp_connect ::
  "int \<Rightarrow> bufcalls \<Rightarrow> bufcalls \<Rightarrow> (iperf_test \<Rightarrow> int \<times> iperf_test) \<Rightarrow> int \<Rightarrow> (int \<times> u32) list
   \<Rightarrow> iperf_test \<Rightarrow> (int \<times> iperf_test) option" where
  "iperf_udp_connect dialed bc1 bc2 common_sockopts write_rc replies test =
     (if dialed < 0 then Some (- 1, test\<lparr>t_i_errno := IESTREAMCONNECT\<rparr>)
      else
        (let (rc, t1) = udp_fit_buffers bc1 bc2 test
         in if rc < 0 then Some (rc, t1)
            else
              (let (_, t2) = common_sockopts t1
               in if write_rc < 0 then Some (- 1, t2\<lparr>t_i_errno := IESTREAMWRITE\<rparr>)
                  else case wait_reply (max_len_wait_for_reply t2) 0 replies of
                         None \<Rightarrow> None
                       | Some (i, buf) \<Rightarrow>
                           if i < 0 then Some (- 1, t2\<lparr>t_i_errno := IESTREAMREAD\<rparr>)
                           else if \<not> is_reply buf then Some (- 1, t2\<lparr>t_i_errno := IESTREAMREAD\<rparr>)
                           else Some (dialed, t2))))"

definition iperf_udp_init :: "iperf_test \<Rightarrow> int" where
  "iperf_udp_init test = 0"

section \<open>What the counters mean\<close>

text \<open>One packet, on counters in the range of sequence numbers.\<close>

lemma to_int64_uint: "uint w < 2 ^ 63 \<Longrightarrow> to_int64 (uint (w :: u64)) = uint w"
  by (rule to_int64_id) (auto intro: order.trans[OF _ uint_ge_0])

lemma to_int64_of_nat: "k < 2 ^ 63 \<Longrightarrow> to_int64 (uint (of_nat k :: u64)) = int k"
proof -
  assume k: "k < 2 ^ 63"
  then have "unat (of_nat k :: u64) = k" by (simp add: unat_of_nat)
  then have "uint (of_nat k :: u64) = int k" by (metis uint_nat)
  with k show ?thesis by (simp add: to_int64_id)
qed

lemma udp_account_step:
  assumes "n < 2 ^ 63" "sp_packet_count sp = int pc" "pc < 2 ^ 63 - 1" "sp_cnt_error sp = int ce"
    and "ce \<le> pc"
  shows "udp_account (of_nat n) sp =
    (if pc < n then sp\<lparr>sp_cnt_error := int (ce + (n - 1 - pc)), sp_packet_count := int n\<rparr>
     else sp\<lparr>sp_outoforder_packets := sp_outoforder_packets sp + 1, sp_cnt_error := int (ce - 1)\<rparr>)"
proof -
  have u: "unat (of_nat n :: u64) = n" "unat (of_nat pc :: u64) = pc" "unat (of_nat pc + 1 :: u64) = pc + 1"
    using assms(1,3) by (simp_all add: unat_of_nat unat_word_ariths)
  then have cmp: "of_nat pc + 1 \<le> (of_nat n :: u64) \<longleftrightarrow> pc < n" "of_nat pc + 1 < (of_nat n :: u64) \<longleftrightarrow> pc + 1 < n"
    by (simp_all add: word_le_nat_alt word_less_nat_alt Suc_le_eq)
  have w: "(word_of_int (sp_packet_count sp) :: u64) = of_nat pc"
    "(word_of_int (sp_cnt_error sp) :: u64) = of_nat ce"
    using assms(2,4) by simp_all
  note acc = udp_account_def[of "of_nat n" sp, unfolded Let_def w cmp]
  show ?thesis
  proof (cases "pc < n")
    case True
    then have "(of_nat ce :: u64) + ((of_nat n - 1) - of_nat pc) = of_nat (ce + (n - 1 - pc))"
      by (simp add: of_nat_diff)
    moreover have "ce + (n - 1 - pc) < 2 ^ 63" using assms(1,5) True by linarith
    ultimately have gap: "to_int64 (uint ((of_nat ce :: u64) + ((of_nat n - 1) - of_nat pc)))
        = int (ce + (n - 1 - pc))"
      by (simp only: to_int64_of_nat)
    have pcn: "to_int64 (uint (of_nat n :: u64)) = int n"
      using assms(1) by (rule to_int64_of_nat)
    show ?thesis
    proof (cases "pc + 1 < n")
      case False
      with True have "n - 1 - pc = 0" by simp
      then have "int (ce + (n - 1 - pc)) = sp_cnt_error sp" using assms(4) by simp
      then show ?thesis by (simp only: acc True False if_True if_False pcn) simp
    next
      case gt: True
      then show ?thesis by (simp only: acc True gt if_True gap pcn)
    qed
  next
    case False
    with assms(4) show ?thesis
      by (cases ce) (simp_all add: acc)
  qed
qed

definition highest :: "nat list \<Rightarrow> nat" where
  "highest ns = Max (insert 0 (set ns))"

text \<open>The packets that arrive after one with a higher number.\<close>

definition reordered :: "nat list \<Rightarrow> nat" where
  "reordered ns = card {j. j < length ns \<and> (\<exists>i<j. ns ! j < ns ! i)}"

definition account_all :: "nat list \<Rightarrow> iperf_stream \<Rightarrow> iperf_stream" where
  "account_all ns sp = fold (\<lambda>n. udp_account (of_nat n)) ns sp"

lemma highest_snoc: "highest (ns @ [n]) = max (highest ns) n"
proof -
  have "Max (insert n (insert 0 (set ns))) = max n (Max (insert 0 (set ns)))"
    by (intro Max_insert) simp_all
  then show ?thesis by (simp only: highest_def set_append list.set Un_insert_right Un_empty_right
        insert_commute[of 0 n] max.commute)
qed

lemma in_highest: "n \<in> set ns \<Longrightarrow> n \<le> highest ns"
  by (simp add: highest_def)

lemma highest_in: "highest ns = 0 \<or> highest ns \<in> set ns"
proof -
  have "Max (insert 0 (set ns)) \<in> insert 0 (set ns)" by (rule Max_in) auto
  then show ?thesis by (auto simp: highest_def)
qed

lemma reordered_snoc:
  "reordered (ns @ [n]) = reordered ns + (if n < highest ns then 1 else 0)"
proof -
  have "(\<exists>i<length ns. n < ns ! i) \<longleftrightarrow> n < highest ns"
    using in_highest highest_in[of ns] by (metis in_set_conv_nth less_le_trans not_less_zero)
  moreover have "{j. j < length (ns @ [n]) \<and> (\<exists>i<j. (ns @ [n]) ! j < (ns @ [n]) ! i)}
      = {j. j < length ns \<and> (\<exists>i<j. ns ! j < ns ! i)} \<union>
        (if \<exists>i<length ns. n < ns ! i then {length ns} else {})" (is "?L = ?R")
  proof (rule set_eqI)
    fix j
    consider "j < length ns" | "j = length ns" | "length ns < j" by linarith
    then show "j \<in> ?L \<longleftrightarrow> j \<in> ?R"
    proof cases
      case 1
      then have "i < j \<Longrightarrow> (ns @ [n]) ! i = ns ! i" for i by (simp add: nth_append)
      with 1 show ?thesis by (simp add: nth_append cong: conj_cong)
    next
      case 2
      then have "i < j \<Longrightarrow> (ns @ [n]) ! i = ns ! i" for i by (simp add: nth_append)
      with 2 show ?thesis by (simp add: nth_append cong: conj_cong)
    next
      case 3
      then show ?thesis by simp
    qed
  qed
  ultimately have eq: "reordered (ns @ [n]) = card ({j. j < length ns \<and> (\<exists>i<j. ns ! j < ns ! i)} \<union>
        (if n < highest ns then {length ns} else {}))"
    by (simp only: reordered_def)
  have "finite {j. j < length ns \<and> (\<exists>i<j. ns ! j < ns ! i)}" by simp
  then show ?thesis unfolding eq by (simp add: reordered_def)
qed

lemma distinct_length_le:
  assumes "distinct ns" "\<forall>n\<in>set ns. 1 \<le> n"
  shows "length ns \<le> highest ns"
proof -
  have "set ns \<subseteq> {1..highest ns}" using assms(2) in_highest by auto
  then have "card (set ns) \<le> card {1..highest ns}" by (intro card_mono) auto
  then show ?thesis using assms(1) by (simp add: distinct_card)
qed

lemma account_all_counts:
  assumes "distinct ns" "\<forall>n\<in>set ns. 1 \<le> n \<and> n < 2 ^ 63 - 1"
    and "sp_packet_count sp = 0" "sp_cnt_error sp = 0"
  shows "sp_packet_count (account_all ns sp) = int (highest ns) \<and>
    sp_cnt_error (account_all ns sp) = int (highest ns - length ns) \<and>
    sp_outoforder_packets (account_all ns sp) = sp_outoforder_packets sp + int (reordered ns)"
  using assms
proof (induction ns rule: rev_induct)
  case Nil
  then show ?case by (simp add: account_all_def highest_def reordered_def)
next
  case (snoc n ns)
  let ?sp = "account_all ns sp" and ?h = "highest ns"
  have IH: "sp_packet_count ?sp = int ?h" "sp_cnt_error ?sp = int (?h - length ns)"
    "sp_outoforder_packets ?sp = sp_outoforder_packets sp + int (reordered ns)"
    using snoc by simp_all
  have n: "n \<notin> set ns" "1 \<le> n" "n < 2 ^ 63 - 1" using snoc.prems by auto
  have hb: "?h < 2 ^ 63 - 1" using snoc.prems(2) highest_in[of ns] by auto
  have len: "length ns \<le> ?h" using snoc.prems by (intro distinct_length_le) auto
  have len': "length (ns @ [n]) \<le> highest (ns @ [n])" using snoc.prems by (intro distinct_length_le) auto
  have "account_all (ns @ [n]) sp = udp_account (of_nat n) ?sp" by (simp add: account_all_def)
  also have "\<dots> = (if ?h < n then ?sp\<lparr>sp_cnt_error := int (?h - length ns + (n - 1 - ?h)), sp_packet_count := int n\<rparr>
     else ?sp\<lparr>sp_outoforder_packets := sp_outoforder_packets ?sp + 1, sp_cnt_error := int (?h - length ns - 1)\<rparr>)"
    using udp_account_step[OF _ IH(1) hb IH(2)] n by simp
  finally have eq: "account_all (ns @ [n]) sp = \<dots>" .
  show ?case
  proof (cases "?h < n")
    case True
    with eq IH len show ?thesis by (simp add: highest_snoc reordered_snoc)
  next
    case False
    then have "n < ?h" using n highest_in[of ns] by (metis le_neq_implies_less not_less not_one_le_zero)
    with eq IH len' False show ?thesis by (simp add: highest_snoc reordered_snoc)
  qed
qed

lemma missing_count:
  assumes "distinct ns" "\<forall>n\<in>set ns. 1 \<le> n"
  shows "card ({1..highest ns} - set ns) = highest ns - length ns"
proof -
  have "set ns \<subseteq> {1..highest ns}" using assms(2) in_highest by auto
  then show ?thesis using assms(1) by (simp add: card_Diff_subset distinct_card)
qed

subsection \<open>A network of datagrams\<close>

text \<open>The sender's socket puts each datagram on the network; the receiver's takes the first one,
cut to the size it asked for.\<close>

definition dg_write :: "u8 list list sys_write" where
  "dg_write d net = (Wrote (length d), net @ [d])"

definition dg_read :: "u8 list list sys_read" where
  "dg_read n net = (case net of [] \<Rightarrow> (R_error EAGAIN, []) | d # ds \<Rightarrow> (Got (take n d), ds))"

fun udp_send_all ::
  "iperf_test \<Rightarrow> iperf_time list \<Rightarrow> iperf_stream \<Rightarrow> u8 list list \<Rightarrow> iperf_stream \<times> u8 list list" where
  "udp_send_all test [] sp net = (sp, net)"
| "udp_send_all test (t # ts) sp net =
     (let (r, sp1, net1) = iperf_udp_send dg_write t test sp net in udp_send_all test ts sp1 net1)"

fun udp_recv_all ::
  "iperf_test \<Rightarrow> iperf_time list \<Rightarrow> iperf_stream \<Rightarrow> u8 list list \<Rightarrow> iperf_stream" where
  "udp_recv_all test [] sp net = sp"
| "udp_recv_all test (a # as) sp net =
     (let (r, sp1, net1) = iperf_udp_recv dg_read a test sp net in udp_recv_all test as sp1 net1)"

definition udp_ready :: "nat \<Rightarrow> iperf_test \<Rightarrow> bool" where
  "udp_ready b test \<longleftrightarrow> s_blksize (t_settings test) = int b \<and> 16 \<le> b \<and> b < 2 ^ 31 \<and>
     t_state test = TEST_RUNNING"

lemma length_udp_header: "length (udp_header c t n) \<le> 16"
  by (simp add: udp_header_def)

lemma length_overwrite: "length bs \<le> length buffer \<Longrightarrow> length (overwrite bs buffer) = length buffer"
  by (simp add: overwrite_def)

lemma Nwrite_dg:
  assumes "d \<noteq> []" "length d < 2 ^ 31"
  shows "Nwrite dg_write d net = (int (length d), net @ [d])"
  using assms
  by (simp add: Nwrite_def nwrite_loop.simps[of _ _ d] nwrite_loop.simps[of _ _ "[]"] dg_write_def to_int32_id)

lemma Nrecv_dg:
  assumes "d \<noteq> []" "length d < 2 ^ 31"
  shows "Nrecv_no_select dg_read (length d) (d # net) = (int (length d), d, net)"
  using assms
  by (simp add: Nrecv_no_select_def recv_loop.simps[of _ "length d"] recv_loop.simps[of _ 0] dg_read_def
      int_len_def to_int32_id)

lemma iperf_udp_send_dg:
  assumes "udp_ready b test" "length (sp_buffer sp) = b"
  obtains sp' d where "iperf_udp_send dg_write t test sp net = (int b, sp', net @ [d])"
    "length d = b" "length (sp_buffer sp') = b" "sp_packet_count sp' = sp_packet_count sp + 1"
    "\<exists>rest. d = udp_header (c_true (t_udp_counters_64bit test)) t (sp_packet_count sp + 1) @ rest"
proof -
  define d where "d = overwrite (udp_header (c_true (t_udp_counters_64bit test)) t (sp_packet_count sp + 1))
    (sp_buffer sp)"
  have b: "s_blksize (t_settings test) = int b" "16 \<le> b" "b < 2 ^ 31" using assms by (auto simp: udp_ready_def)
  have len: "length d = b"
    unfolding d_def using b assms(2) length_udp_header[of "c_true (t_udp_counters_64bit test)" t "sp_packet_count sp + 1"]
    by (subst length_overwrite) auto
  have "d \<noteq> []" using len b by auto
  then have w: "Nwrite dg_write d net = (int b, net @ [d])" using Nwrite_dg[of d net] len b by simp
  show thesis
  proof (rule that[of "snd_stream" d for snd_stream])
    show "iperf_udp_send dg_write t test sp net = (int b, fst (snd (iperf_udp_send dg_write t test sp net)), net @ [d])"
      using w b len by (simp add: iperf_udp_send_def Let_def d_def[symmetric])
    show "length (sp_buffer (fst (snd (iperf_udp_send dg_write t test sp net)))) = b"
      using w b len by (simp add: iperf_udp_send_def Let_def d_def[symmetric])
    show "sp_packet_count (fst (snd (iperf_udp_send dg_write t test sp net))) = sp_packet_count sp + 1"
      using w b len by (simp add: iperf_udp_send_def Let_def d_def[symmetric])
    show "\<exists>rest. d = udp_header (c_true (t_udp_counters_64bit test)) t (sp_packet_count sp + 1) @ rest"
      by (auto simp: d_def overwrite_def)
  qed (rule len)
qed

text \<open>The header is a round trip. What the sender writes is what the receiver digs out: the
time of sending always, and the sequence number modulo 2^64 with 64-bit counters and modulo 2^32
without (so a 32-bit run must not send 2^32 packets or more), whatever follows in the packet.\<close>

lemma udp_parse_header:
  "udp_parse c (udp_header c t n @ rest) =
     (t, if c then word_of_int n else word_of_int (n mod 2 ^ 32))"
proof -
  have "(ucast (word_of_int n :: u32) :: u64) = word_of_int (uint (word_of_int n :: u32))"
    by (simp add: unsigned_ucast_eq of_int_uint)
  also have "\<dots> = word_of_int (n mod 2 ^ 32)" by (simp add: uint_word_of_int)
  finally show ?thesis
    by (cases t) (simp add: udp_parse_def udp_header_def)
qed

text \<open>The accounting uses and changes only the three counters.\<close>

definition same_counters :: "iperf_stream \<Rightarrow> iperf_stream \<Rightarrow> bool" where
  "same_counters a b \<longleftrightarrow> sp_packet_count a = sp_packet_count b \<and> sp_cnt_error a = sp_cnt_error b \<and>
     sp_outoforder_packets a = sp_outoforder_packets b"

lemma udp_account_same: "same_counters a b \<Longrightarrow> same_counters (udp_account p a) (udp_account p b)"
  by (simp add: same_counters_def udp_account_def Let_def)

lemma account_all_same: "same_counters a b \<Longrightarrow> same_counters (account_all ns a) (account_all ns b)"
  by (induction ns arbitrary: a b) (auto simp: account_all_def udp_account_same)

lemma account_all_Cons: "account_all (n # ns) sp = account_all ns (udp_account (of_nat n) sp)"
  by (simp add: account_all_def)

lemma udp_account_frame [simp]:
  "sp_result (udp_account p sp) = sp_result sp" "sp_buffer (udp_account p sp) = sp_buffer sp"
  by (simp_all add: udp_account_def Let_def)

lemma udp_jitter_frame [simp]:
  "same_counters (udp_jitter f a t sp) b \<longleftrightarrow> same_counters sp b"
  "sp_result (udp_jitter f a t sp) = sp_result sp"
  by (simp_all add: udp_jitter_def same_counters_def Let_def)

lemma iperf_udp_recv_dg:
  assumes "udp_ready b test" "length d = b"
    and "d = udp_header (c_true (t_udp_counters_64bit test)) t (int n) @ rest"
    and "n < 2 ^ 32 \<or> c_true (t_udp_counters_64bit test)"
  obtains sp' where "iperf_udp_recv dg_read a test sp (d # net) = (int b, sp', net)"
    "same_counters sp' (udp_account (of_nat n) sp)"
    "rp_bytes_received (sp_result sp') = rp_bytes_received (sp_result sp) + of_nat b"
proof -
  have b: "s_blksize (t_settings test) = int b" "16 \<le> b" "b < 2 ^ 31" "t_state test = TEST_RUNNING"
    using assms(1) by (auto simp: udp_ready_def)
  have "d \<noteq> []" using assms(2) b by auto
  then have r: "Nrecv_no_select dg_read b (d # net) = (int b, d, net)" using Nrecv_dg[of d net] assms(2) b by simp
  have "int n mod 2 ^ 32 = int n" if "n < 2 ^ 32" using that by simp
  then have p: "udp_parse (c_true (t_udp_counters_64bit test)) (overwrite d buf) = (t, of_nat n)" for buf
    using assms(3,4) by (auto simp: overwrite_def udp_parse_header)
  show thesis
  proof (rule that[of "fst (snd (iperf_udp_recv dg_read a test sp (d # net)))"])
    show "iperf_udp_recv dg_read a test sp (d # net)
        = (int b, fst (snd (iperf_udp_recv dg_read a test sp (d # net))), net)"
      using b r p by (simp add: iperf_udp_recv_def Let_def)
    show "same_counters (fst (snd (iperf_udp_recv dg_read a test sp (d # net)))) (udp_account (of_nat n) sp)"
      using b r p by (simp add: iperf_udp_recv_def Let_def) (rule udp_account_same, simp add: same_counters_def)
    show "rp_bytes_received (sp_result (fst (snd (iperf_udp_recv dg_read a test sp (d # net)))))
        = rp_bytes_received (sp_result sp) + of_nat b"
      using b r p by (simp add: iperf_udp_recv_def Let_def)
  qed
qed

text \<open>The datagrams a sender puts on the network carry the numbers \<open>k + 1, k + 2, \<dots>\<close>.\<close>

definition carries :: "nat \<Rightarrow> iperf_test \<Rightarrow> u8 list \<Rightarrow> nat \<Rightarrow> bool" where
  "carries b test d n \<longleftrightarrow> length d = b \<and>
     (\<exists>t rest. d = udp_header (c_true (t_udp_counters_64bit test)) t (int n) @ rest)"

lemma udp_send_all_carries:
  assumes "udp_ready b test" "length (sp_buffer sp) = b" "sp_packet_count sp = int k"
  shows "\<exists>ds. snd (udp_send_all test ts sp net) = net @ ds \<and> length ds = length ts \<and>
    (\<forall>i < length ts. carries b test (ds ! i) (Suc (k + i)))"
  using assms(2,3)
proof (induction ts arbitrary: sp net k)
  case Nil
  then show ?case by simp
next
  case (Cons t ts)
  obtain sp' d where st: "iperf_udp_send dg_write t test sp net = (int b, sp', net @ [d])"
    "length d = b" "length (sp_buffer sp') = b" "sp_packet_count sp' = int (Suc k)"
    "carries b test d (Suc k)"
    by (rule iperf_udp_send_dg[OF assms(1) Cons.prems(1), of t net])
      (use Cons.prems(2) in \<open>auto simp: carries_def add.commute\<close>)
  from Cons.IH[OF st(3,4), of "net @ [d]"] obtain ds where
    ds: "snd (udp_send_all test ts sp' (net @ [d])) = (net @ [d]) @ ds" "length ds = length ts"
    "\<forall>i < length ts. carries b test (ds ! i) (Suc (Suc k + i))" by blast
  have "carries b test ((d # ds) ! i) (Suc (k + i))" if "i < length (t # ts)" for i
    using that ds(3) st(5) by (cases i) auto
  with st(1) ds(1,2) show ?case by (intro exI[of _ "d # ds"]) auto
qed

lemma udp_recv_all_counts:
  assumes "udp_ready b test" "length as = length ds" "list_all2 (carries b test) ds ns"
    and "\<forall>n\<in>set ns. n < 2 ^ 32 \<or> c_true (t_udp_counters_64bit test)"
  shows "same_counters (udp_recv_all test as sp ds) (account_all ns sp) \<and>
    rp_bytes_received (sp_result (udp_recv_all test as sp ds))
      = rp_bytes_received (sp_result sp) + of_nat (length ns * b)"
  using assms(3,2,4)
proof (induction ds ns arbitrary: as sp rule: list_all2_induct)
  case Nil
  then show ?case by (simp add: account_all_def same_counters_def)
next
  case (Cons d ds n ns)
  obtain a as' where as: "as = a # as'" "length as' = length ds" using Cons.prems(1) by (cases as) auto
  obtain t rest where d: "length d = b"
    "d = udp_header (c_true (t_udp_counters_64bit test)) t (int n) @ rest"
    using Cons.hyps(1) by (auto simp: carries_def)
  obtain sp' where r: "iperf_udp_recv dg_read a test sp (d # ds) = (int b, sp', ds)"
    "same_counters sp' (udp_account (of_nat n) sp)"
    "rp_bytes_received (sp_result sp') = rp_bytes_received (sp_result sp) + of_nat b"
    using iperf_udp_recv_dg[OF assms(1) d(1,2)] Cons.prems(2) by (metis list.set_intros(1))
  have IH: "same_counters (udp_recv_all test as' sp' ds) (account_all ns sp')"
    "rp_bytes_received (sp_result (udp_recv_all test as' sp' ds))
      = rp_bytes_received (sp_result sp') + of_nat (length ns * b)"
    using Cons.IH[OF as(2), of sp'] Cons.prems(2) by auto
  have "same_counters (account_all ns sp') (account_all ns (udp_account (of_nat n) sp))"
    by (rule account_all_same[OF r(2)])
  with IH(1) have "same_counters (udp_recv_all test as' sp' ds) (account_all (n # ns) sp)"
    by (simp add: same_counters_def account_all_Cons)
  with IH(2) r as(1) show ?case by (simp add: algebra_simps)
qed

subsection \<open>The properties\<close>

text \<open>C25: the counters of the receiver mean what their names say. If distinct packets numbered
from 1 arrive in any order (each number at most once, below 2^63 - 1) on a stream that starts with
its counters at zero, the count of errors is exactly the number of packets up to the highest
number seen that have not arrived, the packet count is that highest number, and the out of order
count is the number of packets that arrived after a packet with a higher number.\<close>

theorem udp_loss_accounting:
  assumes "distinct ns" "\<forall>n\<in>set ns. 1 \<le> n \<and> n < 2 ^ 63 - 1"
    and "sp_packet_count sp = 0" "sp_cnt_error sp = 0" "sp_outoforder_packets sp = 0"
  shows "sp_cnt_error (account_all ns sp) = int (card ({1..highest ns} - set ns)) \<and>
    sp_packet_count (account_all ns sp) = int (highest ns) \<and>
    sp_outoforder_packets (account_all ns sp)
      = int (card {j. j < length ns \<and> (\<exists>i<j. ns ! j < ns ! i)})"
  using account_all_counts[OF assms(1-4)] missing_count[OF assms(1)] assms(2,5)
  by (simp add: reordered_def)

theorem udp_loss_accounting_witness:
  "sp_cnt_error (account_all [1, 2, 5, 3, 7] zero_stream) = int (card ({1..highest [1, 2, 5, 3, 7]} - set [1, 2, 5, 3, 7]))"
  by (rule conjunct1[OF udp_loss_accounting[of "[1, 2, 5, 3, 7]" zero_stream]]) (simp_all add: zero_stream_def)

text \<open>C3: end to end over UDP. A sender sends one datagram at each of the times \<open>ts\<close>; the network
drops and reorders them freely, delivering the datagrams with the positions \<open>js\<close> (each at most
once) in that order; a receiver reads them. Then the receiver has counted every byte of the
datagrams that were delivered, its error count is the number of datagrams up to the last one it
has seen that were lost, its packet count is the number of that last one and its out of order count
is the number of datagrams overtaken by a later one. With 32-bit counters the sender must stay
below 2^32 packets.\<close>

theorem udp_end_to_end:
  assumes "udp_ready b test" "length (sp_buffer snd_sp) = b" "sp_packet_count snd_sp = 0"
    and "sp_packet_count rcv_sp = 0" "sp_cnt_error rcv_sp = 0" "sp_outoforder_packets rcv_sp = 0"
    and "distinct js" "\<forall>j\<in>set js. j < length ts" "length as = length js"
    and "length ts < (if c_true (t_udp_counters_64bit test) then 2 ^ 63 - 1 else 2 ^ 32)"
  shows "let sent = snd (udp_send_all test ts snd_sp []);
             rcvd = udp_recv_all test as rcv_sp (map ((!) sent) js);
             last_seen = Max (insert 0 (Suc ` set js))
         in rp_bytes_received (sp_result rcvd)
              = rp_bytes_received (sp_result rcv_sp) + of_nat (length js * b) \<and>
            sp_packet_count rcvd = int last_seen \<and>
            sp_cnt_error rcvd = int (card ({1..last_seen} - Suc ` set js)) \<and>
            sp_outoforder_packets rcvd
              = int (card {j. j < length js \<and> (\<exists>i<j. js ! j < js ! i)})"
proof -
  obtain ds where ds: "snd (udp_send_all test ts snd_sp []) = ds" "length ds = length ts"
    "\<forall>i < length ts. carries b test (ds ! i) (Suc i)"
    using udp_send_all_carries[OF assms(1,2), of 0 ts "[]"] assms(3) by auto
  define ns where "ns = map Suc js"
  have lim: "length ts < 2 ^ 63 - 1" using assms(10) by (auto split: if_splits)
  have "list_all2 (carries b test) (map ((!) ds) js) ns"
    using ds(3) assms(8) by (auto simp: ns_def list_all2_conv_all_nth)
  moreover have "\<forall>n\<in>set ns. n < 2 ^ 32 \<or> c_true (t_udp_counters_64bit test)"
    using assms(8,10) by (auto simp: ns_def split: if_splits)
  ultimately have rc: "same_counters (udp_recv_all test as rcv_sp (map ((!) ds) js)) (account_all ns rcv_sp)"
    "rp_bytes_received (sp_result (udp_recv_all test as rcv_sp (map ((!) ds) js)))
      = rp_bytes_received (sp_result rcv_sp) + of_nat (length js * b)"
    using udp_recv_all_counts[OF assms(1), of as "map ((!) ds) js" ns rcv_sp] assms(9) by (simp_all add: ns_def)
  have dn: "distinct ns" "\<forall>n\<in>set ns. 1 \<le> n \<and> n < 2 ^ 63 - 1"
    using assms(7,8) lim by (auto simp: ns_def distinct_map)
  have re: "reordered ns = card {j. j < length js \<and> (\<exists>i<j. js ! j < js ! i)}"
    unfolding reordered_def ns_def by (rule arg_cong[of _ _ card]) auto
  have h: "highest ns = Max (insert 0 (Suc ` set js))" "set ns = Suc ` set js"
    by (simp_all add: highest_def ns_def)
  show ?thesis
    using account_all_counts[OF dn assms(4,5)] missing_count[OF dn(1)] dn(2) rc assms(6)
    unfolding Let_def ds(1) same_counters_def h re by auto
qed

text \<open>A sender and a receiver for the witness: 64-byte packets, 32-bit counters.\<close>

definition udp_test_64 :: iperf_test where
  "udp_test_64 = upd_settings (\<lambda>s. s\<lparr>s_blksize := 64\<rparr>) (zero_test\<lparr>t_state := TEST_RUNNING\<rparr>)"

theorem udp_end_to_end_witness:
  "let sent = snd (udp_send_all udp_test_64 (replicate 4 zero_time)
                     (zero_stream\<lparr>sp_buffer := replicate 64 0\<rparr>) []);
       rcvd = udp_recv_all udp_test_64 (replicate 2 zero_time) zero_stream (map ((!) sent) [3, 1]);
       last_seen = Max (insert 0 (Suc ` set [3, 1]))
   in rp_bytes_received (sp_result rcvd)
        = rp_bytes_received (sp_result zero_stream) + of_nat (length [3::nat, 1] * 64) \<and>
      sp_packet_count rcvd = int last_seen \<and>
      sp_cnt_error rcvd = int (card ({1..last_seen} - Suc ` set [3, 1])) \<and>
      sp_outoforder_packets rcvd
        = int (card {j. j < length [3::nat, 1] \<and> (\<exists>i<j. [3::nat, 1] ! j < [3, 1] ! i)})"
  by (rule udp_end_to_end)
    (simp_all add: udp_ready_def udp_test_64_def upd_settings_def zero_stream_def zero_test_def
      zero_settings_def c_true_def)

lemma wait_reply_window:
  assumes "\<not> is_reply junk" "is_reply rep"
  shows "wait_reply max_len i (replicate k (4, junk) @ (4, rep) # rest) =
    (if k = 0 \<or> i + 4 * int k < max_len then Some (i + 4 * int k + 4, rep)
     else Some (i + 4 * max 1 ((max_len - i + 3) div 4), junk))"
  using assms
proof (induction k arbitrary: i)
  case 0
  then show ?case by simp
next
  case (Suc k)
  show ?case
  proof (cases "i + 4 < max_len")
    case True
    moreover have "max 1 ((max_len - (i + 4) + 3) div 4) + 1 = max 1 ((max_len - i + 3) div 4)"
      using True by linarith
    ultimately show ?thesis using Suc by (auto simp: algebra_simps)
  next
    case False
    then have "max 1 ((max_len - i + 3) div 4) = 1" by linarith
    with False Suc show ?thesis by auto
  qed
qed

text \<open>C36: how long the client waits for the server's answer. With sockets and buffers in order, when
\<open>k\<close> datagrams that are not the reply arrive before it (each is read as four bytes, the size of the
buffer), the client connects exactly if \<open>k\<close> is zero or \<open>4 * k\<close> is below the limit, 4 in a forward
test and \<open>4 + 2 * blksize\<close> in a reverse test; otherwise it fails with IESTREAMREAD. The limit is
meant to allow two blocks out of order, but it counts the bytes read, so it allows half as many
datagrams as a block has bytes.\<close>

theorem udp_connect_window:
  assumes "\<not> is_reply junk" "is_reply rep" "0 \<le> dialed" "0 \<le> wrc"
    and "udp_fit_buffers bc1 bc2 test = (0, t1)" "snd (opts t1) = t2" "0 \<le> s_blksize (t_settings t2)"
  shows "iperf_udp_connect dialed bc1 bc2 opts wrc (replicate k (4, junk) @ (4, rep) # rest) test =
    (if k = 0 \<or> (c_true (t_reverse t2) \<and> 2 * int k < 2 + s_blksize (t_settings t2))
     then Some (dialed, t2) else Some (- 1, t2\<lparr>t_i_errno := IESTREAMREAD\<rparr>))"
proof -
  obtain rc where o: "opts t1 = (rc, t2)" using assms(6) by (cases "opts t1") auto
  have lim: "0 < k \<Longrightarrow> 4 * int k < max_len_wait_for_reply t2 \<longleftrightarrow>
    c_true (t_reverse t2) \<and> 2 * int k < 2 + s_blksize (t_settings t2)"
    by (auto simp: max_len_wait_for_reply_def)
  show ?thesis
    using assms(1-5) o
    by (auto simp: iperf_udp_connect_def Let_def wait_reply_window[OF assms(1,2)] lim simp del: wait_reply.simps)
qed

definition big_bufs :: bufcalls where
  "big_bufs = \<lparr>bc_set_rcv = 0, bc_set_snd = 0, bc_snd_actual = Some 212992, bc_rcv_actual = Some 212992\<rparr>"

theorem udp_connect_window_witness:
  "iperf_udp_connect 5 big_bufs big_bufs (\<lambda>t. (0, t)) 4 (replicate 32 (4, 7) @ (4, UDP_CONNECT_REPLY) # [])
     (udp_test_64\<lparr>t_reverse := 1\<rparr>) = Some (5, udp_test_64\<lparr>t_reverse := 1\<rparr>)"
  using udp_connect_window[of 7 UDP_CONNECT_REPLY 5 4 big_bufs big_bufs "udp_test_64\<lparr>t_reverse := 1\<rparr>"
      "udp_test_64\<lparr>t_reverse := 1\<rparr>" "\<lambda>t. (0, t)" "udp_test_64\<lparr>t_reverse := 1\<rparr>" 32 "[]"]
  by (simp add: is_reply_def UDP_CONNECT_REPLY_def LEGACY_UDP_CONNECT_REPLY_def udp_fit_buffers_def
      iperf_udp_buffercheck_def big_bufs_def udp_test_64_def upd_settings_def zero_test_def zero_settings_def
      c_true_def)

end
