(* ===== verification/Results.thy ===== *)
theory Results
  imports Params
begin

text \<open>
  The exchange of the results after a test (\<open>iperf_api.c\<close>): \<open>send_results\<close> builds a JSON object from
  the sums and the streams of one side, \<open>get_results\<close> copies what the other side knows into the
  streams of this side, and \<open>iperf_exchange_results\<close> orders the two. The property of the theory is
  that afterwards both sides hold the same figures for every stream.
\<close>

section \<open>send_results\<close>

definition dbl_member :: "string \<Rightarrow> dbl \<Rightarrow> (string \<times> cJSON) list" where
  "dbl_member name d = [(name, J_Number d)]"

text \<open>\<open>start_time\<close> and \<open>end_time\<close> of a stream, both relative to its start.\<close>

definition stream_times :: "iperf_stream_result \<Rightarrow> dbl \<times> dbl" where
  "stream_times rp =
     (iperf_time_in_secs (snd (iperf_time_diff (rp_start_time rp) (rp_start_time rp))),
      iperf_time_in_secs (snd (iperf_time_diff (rp_start_time rp) (rp_end_time rp))))"

definition stream_bytes :: "iperf_stream \<Rightarrow> u64" where
  "stream_bytes sp =
     (if c_true (sp_sender sp)
      then rp_bytes_sent (sp_result sp) - rp_bytes_sent_omit (sp_result sp)
      else rp_bytes_received (sp_result sp))"

definition stream_retransmits :: "iperf_test \<Rightarrow> iperf_stream \<Rightarrow> int" where
  "stream_retransmits test sp =
     (if c_true (sp_sender sp) \<and> c_true (t_sender_has_retransmits test)
      then to_int32 (rp_stream_retrans (sp_result sp)) else - 1)"

definition stream_members :: "iperf_test \<Rightarrow> iperf_stream \<Rightarrow> (string \<times> cJSON) list" where
  "stream_members test sp =
     (let (start_time, end_time) = stream_times (sp_result sp) in
      num_member ''id'' (sp_id sp) @
      num_member ''bytes'' (uint (stream_bytes sp)) @
      num_member ''retransmits'' (stream_retransmits test sp) @
      dbl_member ''jitter'' (sp_jitter sp) @
      num_member ''errors'' (sp_cnt_error sp) @
      num_member ''omitted_errors'' (sp_omitted_cnt_error sp) @
      num_member ''packets'' (sp_packet_count sp) @
      num_member ''omitted_packets'' (sp_omitted_packet_count sp) @
      dbl_member ''start_time'' start_time @
      dbl_member ''end_time'' end_time)"

definition stream_json :: "iperf_test \<Rightarrow> iperf_stream \<Rightarrow> cJSON" where
  "stream_json test sp = J_Object (stream_members test sp)"

text \<open>The output of the server, as a reference to its JSON report (\<open>test->json_top\<close>, absent when it
is \<open>NULL\<close>) or as the text of all its lines.\<close>

definition server_output_members :: "cJSON option \<Rightarrow> iperf_test \<Rightarrow> (string \<times> cJSON) list" where
  "server_output_members json_top test =
     (if t_role test = CHR ''s'' \<and> c_true (t_get_server_output test)
      then if c_true (t_json_output test)
        then (case json_top of None \<Rightarrow> [] | Some j \<Rightarrow> [(''server_output_json'', j)])
        else [(''server_output_text'', J_String (concat (t_server_output_list test)))]
      else [])"

definition results_members :: "cJSON option \<Rightarrow> iperf_test \<Rightarrow> (string \<times> cJSON) list" where
  "results_members json_top test =
     (let (cpu_total, cpu_user, cpu_system) = t_cpu_util test in
      dbl_member ''cpu_util_total'' cpu_total @
      dbl_member ''cpu_util_user'' cpu_user @
      dbl_member ''cpu_util_system'' cpu_system @
      num_member ''sender_has_retransmits''
        (if t_mode test = RECEIVER then - 1 else t_sender_has_retransmits test) @
      str_member ''congestion_used'' (t_congestion_used test) @
      server_output_members json_top test @
      [(''streams'', J_Array (map (stream_json test) (t_streams test)))])"

definition results_json :: "cJSON option \<Rightarrow> iperf_test \<Rightarrow> cJSON" where
  "results_json json_top test = J_Object (results_members json_top test)"

text \<open>\<open>write_rc\<close> is what \<open>JSON_write (test->ctrl_sck, j)\<close> returns; the allocations succeed.\<close>

definition send_results :: "(cJSON \<Rightarrow> int) \<Rightarrow> cJSON option \<Rightarrow> iperf_test \<Rightarrow> int \<times> iperf_test" where
  "send_results write_rc json_top test =
     (if write_rc (results_json json_top test) < 0 then (- 1, test\<lparr>t_i_errno := IESENDRESULTS\<rparr>)
      else (0, test))"

section \<open>get_results\<close>

text \<open>The local variables of the loop over the streams. The two omitted counters come together or
not at all, and so do the times as far as the code looks at them.\<close>

record peer_stream =
  p_sid :: int
  p_bytes_transferred :: u64
  p_retransmits :: int
  p_jitter :: dbl
  p_cerror :: int
  p_pcount :: int
  p_omitted :: "(int \<times> int) option"
  p_times :: "(dbl \<times> dbl) option"

definition num_item :: "cJSON \<Rightarrow> string \<Rightarrow> dbl option" where
  "num_item j name = map_option valuedouble (iperf_cJSON_GetObjectItemType j name cJSON_Number)"

definition both :: "'a option \<Rightarrow> 'b option \<Rightarrow> ('a \<times> 'b) option" where
  "both x y = (case (x, y) of (Some a, Some b) \<Rightarrow> Some (a, b) | _ \<Rightarrow> None)"

text \<open>\<open>None\<close> is one of the two branches with \<open>IERECVRESULTS\<close>.\<close>

definition parse_stream :: "cJSON \<Rightarrow> peer_stream option" where
  "parse_stream j =
     (case (num_item j ''id'', num_item j ''bytes'', num_item j ''retransmits'',
            num_item j ''jitter'', num_item j ''errors'', num_item j ''packets'') of
        (Some i, Some b, Some r, Some d, Some e, Some p) \<Rightarrow>
          (let oe = num_item j ''omitted_errors''; opk = num_item j ''omitted_packets'' in
           if (oe = None) \<noteq> (opk = None) then None
           else Some \<lparr>p_sid = to_int32 (saturate i), p_bytes_transferred = word_of_int (saturate b),
                      p_retransmits = to_int32 (saturate r), p_jitter = d,
                      p_cerror = saturate e, p_pcount = saturate p,
                      p_omitted = map_option (map_prod saturate saturate) (both oe opk),
                      p_times = both (num_item j ''start_time'') (num_item j ''end_time'')\<rparr>)
      | _ \<Rightarrow> None)"

definition elapsed :: "(dbl \<times> dbl) option \<Rightarrow> dbl" where
  "elapsed ts = (case ts of Some (a, b) \<Rightarrow> dsub b a | None \<Rightarrow> 0)"

definition results_of_sender :: "peer_stream \<Rightarrow> iperf_stream \<Rightarrow> iperf_stream" where
  "results_of_sender p sp =
     (let sp1 = sp\<lparr>sp_jitter := p_jitter p, sp_cnt_error := p_cerror p,
                   sp_peer_packet_count := p_pcount p,
                   sp_result := (sp_result sp)\<lparr>rp_bytes_received := p_bytes_transferred p,
                                               rp_receiver_time := elapsed (p_times p)\<rparr>\<rparr>
      in case p_omitted p of
           Some (e, n) \<Rightarrow> sp1\<lparr>sp_omitted_cnt_error := e, sp_peer_omitted_packet_count := n\<rparr>
         | None \<Rightarrow>
             sp1\<lparr>sp_peer_omitted_packet_count := sp_omitted_packet_count sp1,
                 sp_omitted_cnt_error :=
                   (if sp_omitted_packet_count sp1 > 0
                    then (if sp_cnt_error sp1 > 0 then - 1 else 0)
                    else sp_cnt_error sp1)\<rparr>)"

definition results_of_receiver :: "peer_stream \<Rightarrow> iperf_stream \<Rightarrow> iperf_stream" where
  "results_of_receiver p sp =
     sp\<lparr>sp_peer_packet_count := p_pcount p,
        sp_result := (sp_result sp)\<lparr>rp_bytes_sent := p_bytes_transferred p,
                                    rp_stream_retrans := p_retransmits p,
                                    rp_sender_time := elapsed (p_times p)\<rparr>,
        sp_peer_omitted_packet_count :=
          (case p_omitted p of Some (e, n) \<Rightarrow> n | None \<Rightarrow> p_pcount p)\<rparr>"

definition apply_peer :: "peer_stream \<Rightarrow> iperf_stream \<Rightarrow> iperf_stream" where
  "apply_peer p sp =
     (if c_true (sp_sender sp) then results_of_sender p sp else results_of_receiver p sp)"

text \<open>The first stream with the number, as \<open>SLIST_FOREACH\<close> with \<open>break\<close> finds it.\<close>

fun upd_stream :: "int \<Rightarrow> (iperf_stream \<Rightarrow> iperf_stream) \<Rightarrow> iperf_stream list \<Rightarrow> iperf_stream list option" where
  "upd_stream sid f [] = None"
| "upd_stream sid f (sp # sps) =
     (if sp_id sp = sid then Some (f sp # sps)
      else map_option (\<lambda>r. sp # r) (upd_stream sid f sps))"

definition one_stream :: "cJSON option \<Rightarrow> int \<times> iperf_test \<Rightarrow> int \<times> iperf_test" where
  "one_stream jo rt =
     (let test = snd rt in
      case jo of
        None \<Rightarrow> (- 1, test\<lparr>t_i_errno := IERECVRESULTS\<rparr>)
      | Some j_stream \<Rightarrow>
         (case parse_stream j_stream of
            None \<Rightarrow> (- 1, test\<lparr>t_i_errno := IERECVRESULTS\<rparr>)
          | Some p \<Rightarrow>
             (case upd_stream (p_sid p) (apply_peer p) (t_streams test) of
                None \<Rightarrow> (- 1, test\<lparr>t_i_errno := IESTREAMID\<rparr>)
              | Some sps \<Rightarrow> (fst rt, test\<lparr>t_streams := sps\<rparr>))))"

fun streams_loop :: "cJSON \<Rightarrow> int \<Rightarrow> nat \<Rightarrow> int \<times> iperf_test \<Rightarrow> int \<times> iperf_test" where
  "streams_loop j_streams i 0 rt = rt"
| "streams_loop j_streams i (Suc k) rt =
     streams_loop j_streams (i + 1) k (one_stream (cJSON_GetArrayItem j_streams i) rt)"

text \<open>What a client that asked for the server's output does; the second result is the object
without a detached report.\<close>

definition take_server_output :: "cJSON \<Rightarrow> iperf_test \<Rightarrow> iperf_test \<times> cJSON" where
  "take_server_output j test =
     (if t_role test = CHR ''c'' \<and> c_true (t_get_server_output test)
      then (case cJSON_DetachItemFromObject ''server_output_json'' j of
              (Some out, j') \<Rightarrow> (test\<lparr>t_json_server_output := Some out\<rparr>, j')
            | (None, j') \<Rightarrow>
               (case iperf_cJSON_GetObjectItemType j' ''server_output_text'' cJSON_String of
                  Some out \<Rightarrow> (test\<lparr>t_server_output_text := Some (valuestring out)\<rparr>, j')
                | None \<Rightarrow> (test, j')))
      else (test, j))"

definition set_remote :: "dbl \<times> dbl \<times> dbl \<Rightarrow> int \<Rightarrow> iperf_test \<Rightarrow> iperf_test" where
  "set_remote cpu has_retransmits test =
     (let test1 = test\<lparr>t_remote_cpu_util := cpu\<rparr> in
      if t_mode test1 = RECEIVER
      then test1\<lparr>t_sender_has_retransmits := has_retransmits, t_other_side_has_retransmits := 0\<rparr>
      else if t_mode test1 = BIDIRECTIONAL
      then test1\<lparr>t_other_side_has_retransmits := has_retransmits\<rparr>
      else test1)"

definition results_body :: "cJSON \<Rightarrow> iperf_test \<Rightarrow> int \<times> iperf_test \<times> cJSON" where
  "results_body j test =
     (case (num_item j ''cpu_util_total'', num_item j ''cpu_util_user'',
            num_item j ''cpu_util_system'', num_item j ''sender_has_retransmits'') of
        (Some ct, Some cu, Some cs, Some h) \<Rightarrow>
          (let test1 = set_remote (ct, cu, cs) (to_int32 (saturate h)) test in
           case iperf_cJSON_GetObjectItemType j ''streams'' cJSON_Array of
             None \<Rightarrow> (- 1, test1\<lparr>t_i_errno := IERECVRESULTS\<rparr>, j)
           | Some j_streams \<Rightarrow>
               (let (r, test2) = streams_loop j_streams 0 (nat (cJSON_GetArraySize j_streams)) (0, test1);
                    (test3, j') = take_server_output j test2
                in (r, test3, j')))
      | _ \<Rightarrow> (- 1, test\<lparr>t_i_errno := IERECVRESULTS\<rparr>, j))"

text \<open>\<open>jo\<close> is what \<open>JSON_read (test->ctrl_sck, 0)\<close> returns.\<close>

definition get_results :: "cJSON option \<Rightarrow> iperf_test \<Rightarrow> int \<times> iperf_test" where
  "get_results jo test =
     (case jo of
        None \<Rightarrow> (- 1, test\<lparr>t_i_errno := IERECVRESULTS\<rparr>)
      | Some j \<Rightarrow>
         (let (r, test1, j') = results_body j test in
          (r, case iperf_cJSON_GetObjectItemType j' ''congestion_used'' cJSON_String of
                Some c \<Rightarrow> test1\<lparr>t_remote_congestion_used := Some (valuestring c)\<rparr>
              | None \<Rightarrow> test1)))"

definition iperf_exchange_results ::
    "(cJSON \<Rightarrow> int) \<Rightarrow> cJSON option \<Rightarrow> cJSON option \<Rightarrow> iperf_test \<Rightarrow> int \<times> iperf_test" where
  "iperf_exchange_results write_rc json_top jo test =
     (if t_role test = CHR ''c''
      then (let (r, test1) = send_results write_rc json_top test in
            if r < 0 then (- 1, test1)
            else let (r, test2) = get_results jo test1 in (if r < 0 then - 1 else 0, test2))
      else (let (r, test1) = get_results jo test in
            if r < 0 then (- 1, test1)
            else let (r, test2) = send_results write_rc json_top test1 in
                 (if r < 0 then - 1 else 0, test2)))"


section \<open>The figures both sides hold\<close>

text \<open>What a side knows of a stream: the bytes sent after the omit period and the bytes received,
jitter and losses, the packets of both sides, the packets of the omit period of both sides.\<close>

definition figures :: "iperf_stream \<Rightarrow> (u64 \<times> u64) \<times> (dbl \<times> int \<times> int) \<times> (int \<times> int) \<times> (int \<times> int)" where
  "figures sp =
     (let rp = sp_result sp in
      if c_true (sp_sender sp)
      then ((rp_bytes_sent rp - rp_bytes_sent_omit rp, rp_bytes_received rp),
            (sp_jitter sp, sp_cnt_error sp, sp_omitted_cnt_error sp),
            (sp_packet_count sp, sp_peer_packet_count sp),
            (sp_omitted_packet_count sp, sp_peer_omitted_packet_count sp))
      else ((rp_bytes_sent rp, rp_bytes_received rp),
            (sp_jitter sp, sp_cnt_error sp, sp_omitted_cnt_error sp),
            (sp_peer_packet_count sp, sp_packet_count sp),
            (sp_peer_omitted_packet_count sp, sp_omitted_packet_count sp)))"

definition int53 :: "int \<Rightarrow> bool" where "int53 i \<longleftrightarrow> \<bar>i\<bar> \<le> 2 ^ 53"

text \<open>The figures are exact as doubles.\<close>

definition stream_fits :: "iperf_stream \<Rightarrow> bool" where
  "stream_fits sp \<longleftrightarrow>
     int32 (sp_id sp) \<and> int53 (uint (stream_bytes sp)) \<and> int53 (sp_cnt_error sp) \<and>
     int53 (sp_omitted_cnt_error sp) \<and> int53 (sp_packet_count sp) \<and>
     int53 (sp_omitted_packet_count sp)"

text \<open>The two ends of one stream.\<close>

definition ends :: "iperf_stream \<Rightarrow> iperf_stream \<Rightarrow> bool" where
  "ends a b \<longleftrightarrow> sp_id a = sp_id b \<and> (c_true (sp_sender a) \<longleftrightarrow> \<not> c_true (sp_sender b)) \<and>
     stream_fits a \<and> stream_fits b"

lemma low_results [simp]:
  "low ''id'' = ''id''" "low ''bytes'' = ''bytes''" "low ''retransmits'' = ''retransmits''"
  "low ''jitter'' = ''jitter''" "low ''errors'' = ''errors''"
  "low ''omitted_errors'' = ''omitted_errors''" "low ''packets'' = ''packets''"
  "low ''omitted_packets'' = ''omitted_packets''" "low ''start_time'' = ''start_time''"
  "low ''end_time'' = ''end_time''" "low ''cpu_util_total'' = ''cpu_util_total''"
  "low ''cpu_util_user'' = ''cpu_util_user''" "low ''cpu_util_system'' = ''cpu_util_system''"
  "low ''sender_has_retransmits'' = ''sender_has_retransmits''" "low ''streams'' = ''streams''"
  "low ''server_output_json'' = ''server_output_json''"
  "low ''server_output_text'' = ''server_output_text''"
  by code_simp+

lemma dbl_member_lookup [simp]:
  "map_of (map (apfst low) (dbl_member k d)) n = (if n = low k then Some (J_Number d) else None)"
  by (simp add: dbl_member_def)

lemma stream_items [simp]:
  "num_item (stream_json t sp) ''id'' = Some (dbl_of_int (sp_id sp))"
  "num_item (stream_json t sp) ''bytes'' = Some (dbl_of_int (uint (stream_bytes sp)))"
  "num_item (stream_json t sp) ''retransmits'' = Some (dbl_of_int (stream_retransmits t sp))"
  "num_item (stream_json t sp) ''jitter'' = Some (sp_jitter sp)"
  "num_item (stream_json t sp) ''errors'' = Some (dbl_of_int (sp_cnt_error sp))"
  "num_item (stream_json t sp) ''omitted_errors'' = Some (dbl_of_int (sp_omitted_cnt_error sp))"
  "num_item (stream_json t sp) ''packets'' = Some (dbl_of_int (sp_packet_count sp))"
  "num_item (stream_json t sp) ''omitted_packets'' = Some (dbl_of_int (sp_omitted_packet_count sp))"
  "num_item (stream_json t sp) ''start_time'' = Some (fst (stream_times (sp_result sp)))"
  "num_item (stream_json t sp) ''end_time'' = Some (snd (stream_times (sp_result sp)))"
  by (simp_all add: num_item_def iperf_cJSON_GetObjectItemType_def stream_json_def find_item_low
      stream_members_def map_add_def split: prod.split)

lemma sat53: "int53 i \<Longrightarrow> saturate (dbl_of_int i) = i"
  by (rule saturate_int) (simp add: int53_def)

lemma word_of_int53: "int53 (uint (w :: u64)) \<Longrightarrow> word_of_int (saturate (dbl_of_int (uint w))) = w"
  by (simp add: sat53)

definition sent_peer :: "iperf_test \<Rightarrow> iperf_stream \<Rightarrow> peer_stream" where
  "sent_peer t sp =
     \<lparr>p_sid = sp_id sp, p_bytes_transferred = stream_bytes sp,
      p_retransmits = to_int32 (saturate (dbl_of_int (stream_retransmits t sp))),
      p_jitter = sp_jitter sp, p_cerror = sp_cnt_error sp, p_pcount = sp_packet_count sp,
      p_omitted = Some (sp_omitted_cnt_error sp, sp_omitted_packet_count sp),
      p_times = Some (stream_times (sp_result sp))\<rparr>"

lemma parse_stream_json: "stream_fits sp \<Longrightarrow> parse_stream (stream_json t sp) = Some (sent_peer t sp)"
  by (simp add: parse_stream_def both_def sent_peer_def stream_fits_def sat53 word_of_int53)

lemma apply_peer_id [simp]: "sp_id (apply_peer p sp) = sp_id sp"
  by (simp add: apply_peer_def results_of_sender_def results_of_receiver_def Let_def split: option.split)

lemma apply_peer_sender [simp]: "sp_sender (apply_peer p sp) = sp_sender sp"
  by (simp add: apply_peer_def results_of_sender_def results_of_receiver_def Let_def split: option.split)

lemma upd_stream_at:
  assumes "i < length sps" "distinct (map sp_id sps)"
  shows "upd_stream (sp_id (sps ! i)) f sps = Some (sps[i := f (sps ! i)])"
  using assms
proof (induction sps arbitrary: i)
  case Nil then show ?case by simp
next
  case (Cons sp sps)
  show ?case
  proof (cases i)
    case 0 then show ?thesis by simp
  next
    case (Suc k)
    with Cons.prems have k: "k < length sps" by simp
    then have "sp_id (sps ! k) \<in> set (map sp_id sps)" by simp
    with Cons.prems have "sp_id sp \<noteq> sp_id (sps ! k)" by auto
    with Cons.IH[OF k] Cons.prems Suc show ?thesis by simp
  qed
qed


section \<open>One side reads the results of the other\<close>

lemma streams_loop_fold:
  "n + k \<le> length xs \<Longrightarrow>
   streams_loop (J_Array xs) (int n) k rt = fold (\<lambda>j. one_stream (Some j)) (take k (drop n xs)) rt"
proof (induction k arbitrary: n rt)
  case 0 then show ?case by simp
next
  case (Suc k)
  then have n: "n < length xs" by simp
  have "streams_loop (J_Array xs) (int n) (Suc k) rt =
    streams_loop (J_Array xs) (int (Suc n)) k (one_stream (Some (xs ! n)) rt)"
    using n by (simp add: add.commute)
  also have "\<dots> = fold (\<lambda>j. one_stream (Some j)) (take k (drop (Suc n) xs)) (one_stream (Some (xs ! n)) rt)"
    using Suc.prems by (intro Suc.IH) simp
  also have "\<dots> = fold (\<lambda>j. one_stream (Some j)) (take (Suc k) (drop n xs)) rt"
    using n by (simp add: Cons_nth_drop_Suc[symmetric])
  finally show ?case .
qed

definition merged :: "iperf_test \<Rightarrow> iperf_stream list \<Rightarrow> iperf_stream list \<Rightarrow> iperf_stream list" where
  "merged t ps sps = map2 (\<lambda>p. apply_peer (sent_peer t p)) ps sps"

lemma fold_merges:
  assumes "list_all2 ends ps sps" "distinct (map sp_id (pre @ sps))"
  shows "fold (\<lambda>j. one_stream (Some j)) (map (stream_json t) ps) (0, test\<lparr>t_streams := pre @ sps\<rparr>) =
    (0, test\<lparr>t_streams := pre @ merged t ps sps\<rparr>)"
  using assms
proof (induction ps sps arbitrary: pre rule: list_all2_induct)
  case Nil then show ?case by (simp add: merged_def)
next
  case (Cons p ps sp sps)
  let ?sp = "apply_peer (sent_peer t p) sp"
  have p: "parse_stream (stream_json t p) = Some (sent_peer t p)" "p_sid (sent_peer t p) = sp_id sp"
    using Cons.hyps(1) by (simp_all add: ends_def parse_stream_json sent_peer_def)
  have "upd_stream (sp_id sp) (apply_peer (sent_peer t p)) (pre @ sp # sps) = Some (pre @ ?sp # sps)"
    using upd_stream_at[OF _ Cons.prems, of "length pre" "apply_peer (sent_peer t p)"] by simp
  then have "one_stream (Some (stream_json t p)) (0, test\<lparr>t_streams := pre @ sp # sps\<rparr>) =
    (0, test\<lparr>t_streams := (pre @ [?sp]) @ sps\<rparr>)"
    by (simp add: one_stream_def Let_def p)
  moreover have "distinct (map sp_id ((pre @ [?sp]) @ sps))" using Cons.prems by simp
  ultimately show ?case using Cons.IH[of "pre @ [?sp]"] by (simp add: merged_def)
qed

lemma server_output_lookup [simp]:
  "n \<noteq> ''server_output_json'' \<Longrightarrow> n \<noteq> ''server_output_text'' \<Longrightarrow>
   map_of (map (apfst low) (server_output_members jt t)) n = None"
  by (auto simp: server_output_members_def split: option.split)

lemma results_items:
  "num_item (results_json jt t) ''cpu_util_total'' = Some (fst (t_cpu_util t))"
  "num_item (results_json jt t) ''cpu_util_user'' = Some (fst (snd (t_cpu_util t)))"
  "num_item (results_json jt t) ''cpu_util_system'' = Some (snd (snd (t_cpu_util t)))"
  "num_item (results_json jt t) ''sender_has_retransmits'' =
     Some (dbl_of_int (if t_mode t = RECEIVER then - 1 else t_sender_has_retransmits t))"
  "iperf_cJSON_GetObjectItemType (results_json jt t) ''streams'' cJSON_Array =
     Some (J_Array (map (stream_json t) (t_streams t)))"
  by (simp_all add: num_item_def iperf_cJSON_GetObjectItemType_def results_json_def find_item_low
      results_members_def map_add_def split: prod.split)

lemma take_output_streams [simp]:
  "t_streams (fst (take_server_output j t)) = t_streams t"
  "t_role (fst (take_server_output j t)) = t_role t"
  by (simp_all add: take_server_output_def split: option.split prod.split)

lemma set_remote_frame [simp]:
  "t_streams (set_remote cpu h t) = t_streams t" "t_role (set_remote cpu h t) = t_role t"
  "t_i_errno (set_remote cpu h t) = t_i_errno t"
  by (simp_all add: set_remote_def Let_def)

lemma get_results_merges:
  assumes "list_all2 ends (t_streams p) (t_streams t)" "distinct (map sp_id (t_streams t))"
    and "length (t_streams t) < 2 ^ 31"
  shows "\<exists>t'. get_results (Some (results_json jt p)) t = (0, t') \<and>
    t_streams t' = merged p (t_streams p) (t_streams t) \<and> t_role t' = t_role t"
proof -
  let ?js = "J_Array (map (stream_json p) (t_streams p))"
  have len: "length (t_streams p) = length (t_streams t)" using assms(1) by (rule list_all2_lengthD)
  then have n: "nat (cJSON_GetArraySize ?js) = length (t_streams p)"
    using assms(3) by (simp add: to_int32_id)
  have loop: "streams_loop ?js 0 (length (t_streams p)) (0, u) =
      (0, u\<lparr>t_streams := merged p (t_streams p) (t_streams t)\<rparr>)" if "t_streams u = t_streams t" for u
  proof -
    have u: "u\<lparr>t_streams := [] @ t_streams t\<rparr> = u" using that by (cases u) simp
    have "streams_loop ?js 0 (length (t_streams p)) (0, u) =
      fold (\<lambda>j. one_stream (Some j)) (map (stream_json p) (t_streams p)) (0, u)"
      using streams_loop_fold[of 0 "length (t_streams p)"] by simp
    also have "\<dots> = (0, u\<lparr>t_streams := [] @ merged p (t_streams p) (t_streams t)\<rparr>)"
      using fold_merges[OF assms(1), of "[]" p u] assms(2) unfolding u by simp
    finally show ?thesis by simp
  qed
  let ?t1 = "set_remote (t_cpu_util p)
    (to_int32 (saturate (dbl_of_int (if t_mode p = RECEIVER then - 1 else t_sender_has_retransmits p)))) t"
  let ?t2 = "?t1\<lparr>t_streams := merged p (t_streams p) (t_streams t)\<rparr>"
  obtain t3 j' where out: "take_server_output (results_json jt p) ?t2 = (t3, j')"
    by (cases "take_server_output (results_json jt p) ?t2")
  have t3: "t_streams t3 = merged p (t_streams p) (t_streams t)" "t_role t3 = t_role t"
    using take_output_streams[of "results_json jt p" ?t2] unfolding out by simp_all
  have body: "results_body (results_json jt p) t = (0, t3, j')"
    unfolding results_body_def results_items using loop[of ?t1] n out by (simp add: Let_def)
  show ?thesis
    unfolding get_results_def option.case body Let_def prod.case
    using t3 by (auto split: option.split)
qed

lemma merged_pair:
  assumes "ends a b"
  shows "ends (apply_peer (sent_peer t a) b) a"
    and "figures (apply_peer (sent_peer u (apply_peer (sent_peer t a) b)) a) =
      figures (apply_peer (sent_peer t a) b)"
  using assms
  by (auto simp: ends_def figures_def apply_peer_def results_of_sender_def results_of_receiver_def
      sent_peer_def stream_fits_def stream_bytes_def Let_def)

text \<open>C17: When both sides have exchanged their results they hold the same figures for every stream,
  whichever side sent it: bytes sent and received, jitter, lost packets, packets of both sides and
  those of the omit period. The client sends first, the server answers with what it holds after
  reading the client's results.\<close>

theorem results_agree:
  assumes "t_role c = CHR ''c''" "t_role s = CHR ''s''"
    and "list_all2 ends (t_streams c) (t_streams s)"
    and "distinct (map sp_id (t_streams c))" "length (t_streams c) < 2 ^ 31"
    and "0 \<le> wc (results_json None c)" "\<And>j. 0 \<le> ws j"
  shows "\<exists>s1 c1. iperf_exchange_results ws jt (Some (results_json None c)) s = (0, s1) \<and>
    iperf_exchange_results wc None (Some (results_json jt s1)) c = (0, c1) \<and>
    map figures (t_streams c1) = map figures (t_streams s1)"
proof -
  have ids: "map sp_id (t_streams s) = map sp_id (t_streams c)" and len: "length (t_streams s) = length (t_streams c)"
    using assms(3) by (auto simp: list_all2_conv_all_nth ends_def intro!: nth_equalityI)
  obtain s1 where s1: "get_results (Some (results_json None c)) s = (0, s1)"
    "t_streams s1 = merged c (t_streams c) (t_streams s)" "t_role s1 = CHR ''s''"
    using get_results_merges[OF assms(3), of None] assms(2,4,5) ids len by auto
  have "list_all2 ends (t_streams s1) (t_streams c)"
    using assms(3) merged_pair(1) unfolding s1 merged_def list_all2_conv_all_nth by simp
  then obtain c1 where c1: "get_results (Some (results_json jt s1)) c = (0, c1)"
    "t_streams c1 = merged s1 (t_streams s1) (t_streams c)"
    using get_results_merges[of s1 c jt] assms(4,5) by auto
  have "map figures (t_streams c1) = map figures (t_streams s1)"
    using assms(3) merged_pair(2) len unfolding c1 s1 merged_def
    by (auto simp: list_all2_conv_all_nth intro!: nth_equalityI)
  moreover have "iperf_exchange_results ws jt (Some (results_json None c)) s = (0, s1)"
    using assms(2) assms(7)[of "results_json jt s1"] by (simp add: iperf_exchange_results_def s1 send_results_def)
  moreover have "iperf_exchange_results wc None (Some (results_json jt s1)) c = (0, c1)"
    using assms(1,6) c1 by (simp add: iperf_exchange_results_def send_results_def)
  ultimately show ?thesis by blast
qed


text \<open>A client sending one stream to a server.\<close>

definition demo_sender :: iperf_stream where
  "demo_sender = zero_stream\<lparr>sp_id := 1, sp_sender := 1, sp_packet_count := 9,
     sp_result := zero_result\<lparr>rp_bytes_sent := 9000\<rparr>\<rparr>"

definition demo_receiver :: iperf_stream where
  "demo_receiver = zero_stream\<lparr>sp_id := 1, sp_packet_count := 9, sp_cnt_error := 2,
     sp_result := zero_result\<lparr>rp_bytes_received := 7000\<rparr>\<rparr>"

lemma demo_ends: "ends demo_sender demo_receiver"
  by (simp add: ends_def demo_sender_def demo_receiver_def stream_fits_def stream_bytes_def
      int53_def int32_def zero_stream_def zero_result_def)

lemma results_agree_witness:
  "\<exists>s1 c1. iperf_exchange_results (\<lambda>_. 0) None
       (Some (results_json None (default_client\<lparr>t_streams := [demo_sender]\<rparr>)))
       (default_server\<lparr>t_streams := [demo_receiver]\<rparr>) = (0, s1) \<and>
     iperf_exchange_results (\<lambda>_. 0) None (Some (results_json None s1))
       (default_client\<lparr>t_streams := [demo_sender]\<rparr>) = (0, c1) \<and>
     map figures (t_streams c1) = map figures (t_streams s1)"
  by (rule results_agree) (simp_all add: default_client_fields default_server_fields demo_ends)

end
