(* ===== verification/Throttle.thy ===== *)
theory Throttle
  imports Udp
begin

text \<open>
  The system calls of the data path as a record, and \<open>iperf_check_throttle\<close>, which keeps a sender at
  the rate of the option \<open>-b\<close>: it turns the green light of the stream off, or sleeps until the
  average rate is down to the target. The locale \<open>sleeping\<close> says what \<open>nanosleep\<close> is relied on for;
  it is interpreted on a clock that counts nanoseconds.
\<close>

section \<open>The operating system\<close>

record 's os =
  os_write :: "'s sys_write"
  os_read :: "'s sys_read"
  os_now :: "'s \<Rightarrow> iperf_time \<times> 's"
  os_file_read :: "'s sys_read"
  os_file_write :: "'s sys_write"
  os_nanosleep :: "int \<Rightarrow> 's \<Rightarrow> int \<times> 's"

section \<open>The throttle\<close>

abbreviation (input) SEC_TO_NS :: int where "SEC_TO_NS \<equiv> 1000000000"

text \<open>The loop of \<open>nanosleep\<close>: the last result.\<close>

function sleep_loop :: "'s os \<Rightarrow> int \<Rightarrow> 's \<Rightarrow> int \<times> 's" where
  "sleep_loop os time_to_green_light s =
     (let tv_nsec = (if time_to_green_light \<ge> SEC_TO_NS then SEC_TO_NS - 1 else time_to_green_light);
          left = time_to_green_light - tv_nsec;
          (ret, s1) = os_nanosleep os tv_nsec s
      in if ret = 0 \<and> left > 0 then sleep_loop os left s1 else (ret, s1))"
  by pat_completeness auto
termination by (relation "measure (\<lambda>(_, t, _). nat t)") (auto split: if_splits)

declare sleep_loop.simps [simp del]

text \<open>The wait when the rate is exceeded; \<open>None\<close> where the number of nanoseconds overflows.\<close>

definition throttle_wait ::
  "'s os \<Rightarrow> u64 \<Rightarrow> u64 \<Rightarrow> dbl \<Rightarrow> iperf_stream \<Rightarrow> 's \<Rightarrow> (iperf_stream \<times> 's) option" where
  "throttle_wait os rate bits_sent seconds sp s =
     (case dbl_to_i64 (dsub (dbl_of_u64 bits_sent) (dmul seconds (dbl_of_u64 rate))) of
        None \<Rightarrow> None
      | Some delta_bits \<Rightarrow>
          if to_int64 (SEC_TO_NS * delta_bits) \<noteq> SEC_TO_NS * delta_bits then None
          else
            (let time_to_green_light = to_int64 (uint (word_of_int (SEC_TO_NS * delta_bits) div rate))
             in if time_to_green_light \<ge> 0 then
                  (let (ret, s1) = sleep_loop os time_to_green_light s
                   in Some (if ret = 0 then sp\<lparr>sp_green_light := 1\<rparr> else sp, s1))
                else Some (sp, s)))"

text \<open>\<open>iperf_check_throttle\<close>; \<open>None\<close> where C leaves the behaviour undefined: no time since the start
(a division by zero), a rate or a number of bits that does not fit its type.\<close>

definition iperf_check_throttle ::
  "'s os \<Rightarrow> iperf_time \<Rightarrow> iperf_test \<Rightarrow> iperf_stream \<Rightarrow> 's \<Rightarrow> (iperf_stream \<times> 's) option" where
  "iperf_check_throttle os nowP test sp s =
     (let rate = s_rate (t_settings test)
      in if t_done test \<noteq> 0 \<or> rate = 0 then Some (sp, s)
         else
           (let seconds = iperf_time_in_secs
                            (snd (iperf_time_diff (rp_start_time_fixed (sp_result sp)) nowP));
                bits_sent = rp_bytes_sent (sp_result sp) * 8
            in if seconds = 0 then None
               else case dbl_to_u64 (ddiv (dbl_of_u64 bits_sent) seconds) of
                 None \<Rightarrow> None
               | Some bits_per_second \<Rightarrow>
                   (let missing_rate = to_int64 (uint (rate - bits_per_second));
                        sp1 = sp\<lparr>sp_green_light := (if missing_rate > 0 then 1 else 0)\<rparr>
                    in if missing_rate < 0 then throttle_wait os rate bits_sent seconds sp1 s
                       else Some (sp1, s))))"

text \<open>The throttle changes nothing but the green light.\<close>

definition no_light :: "iperf_stream \<Rightarrow> iperf_stream" where
  "no_light sp = sp\<lparr>sp_green_light := 0\<rparr>"

lemma no_light_upd [simp]: "no_light (sp\<lparr>sp_green_light := g\<rparr>) = no_light sp"
  by (simp add: no_light_def)

lemma no_light_fields:
  assumes "no_light a = no_light b"
  shows "sp_result a = sp_result b" "sp_pending_size a = sp_pending_size b" "sp_buffer a = sp_buffer b"
    "sp_snd a = sp_snd b" "sp_sender a = sp_sender b"
  using arg_cong[OF assms, of sp_result] arg_cong[OF assms, of sp_pending_size]
    arg_cong[OF assms, of sp_buffer] arg_cong[OF assms, of sp_snd] arg_cong[OF assms, of sp_sender]
  by (simp_all add: no_light_def)

lemma throttle_wait_frame:
  "throttle_wait os rate bits seconds sp s = Some (sp1, s1) \<Longrightarrow> no_light sp1 = no_light sp"
  by (auto simp: throttle_wait_def Let_def split: option.split_asm if_split_asm prod.split_asm)

lemma throttle_frame:
  "iperf_check_throttle os now test sp s = Some (sp1, s1) \<Longrightarrow> no_light sp1 = no_light sp"
  by (auto simp: iperf_check_throttle_def Let_def split: option.split_asm if_split_asm
      dest!: throttle_wait_frame)

section \<open>Sleeping\<close>

text \<open>A \<open>nanosleep\<close> that is not interrupted: it returns 0 and the given time has passed.\<close>

locale sleeping =
  fixes os :: "'s os" and elapsed :: "'s \<Rightarrow> int"
  assumes sleep: "0 \<le> n \<Longrightarrow> n < SEC_TO_NS \<Longrightarrow>
    fst (os_nanosleep os n s) = 0 \<and> elapsed (snd (os_nanosleep os n s)) = elapsed s + n"
begin

lemma sleep_loop_elapsed:
  "0 \<le> t \<Longrightarrow> fst (sleep_loop os t s) = 0 \<and> elapsed (snd (sleep_loop os t s)) = elapsed s + t"
proof (induction "nat t" arbitrary: t s rule: less_induct)
  case less
  define n where "n = (if t \<ge> SEC_TO_NS then SEC_TO_NS - 1 else t)"
  obtain ret s1 where os: "os_nanosleep os n s = (ret, s1)" by fastforce
  have n: "0 \<le> n" "n < SEC_TO_NS" "n \<le> t" using less.prems by (auto simp: n_def)
  then have s1: "ret = 0" "elapsed s1 = elapsed s + n" using sleep[of n s] os by simp_all
  have step: "sleep_loop os t s = (if ret = 0 \<and> t - n > 0 then sleep_loop os (t - n) s1 else (ret, s1))"
    by (subst sleep_loop.simps) (simp add: Let_def n_def[symmetric] os)
  show ?case
  proof (cases "t - n > 0")
    case True
    then have "0 < n" by (auto simp: n_def split: if_splits)
    with True have "fst (sleep_loop os (t - n) s1) = 0 \<and> elapsed (snd (sleep_loop os (t - n) s1)) = elapsed s1 + (t - n)"
      by (intro less.hyps) auto
    with True step s1 show ?thesis by simp
  next
    case False
    with n have "t = n" by simp
    with step s1 show ?thesis by simp
  qed
qed

end

text \<open>A clock: the state is the time in nanoseconds.\<close>

definition clock_os :: "int os" where
  "clock_os = \<lparr>os_write = (\<lambda>bs c. (Wrote (length bs), c)), os_read = (\<lambda>n c. (R_error EAGAIN, c)),
     os_now = (\<lambda>c. (Iperf_Time (word_of_int (c div SEC_TO_NS)) (word_of_int (c mod SEC_TO_NS div 1000)), c)),
     os_file_read = (\<lambda>n c. (Got [], c)), os_file_write = (\<lambda>bs c. (Wrote (length bs), c)),
     os_nanosleep = (\<lambda>n c. (0, c + n))\<rparr>"

interpretation clock_sleep: sleeping clock_os "\<lambda>c. c"
  by unfold_locales (simp add: clock_os_def)

section \<open>The rate is kept\<close>

lemma to_int64_diff:
  fixes v w :: u64
  assumes "- (2 ^ 63) \<le> uint v - uint w" "uint v - uint w < 2 ^ 63"
  shows "to_int64 (uint (v - w)) = uint v - uint w"
proof -
  have "uint (v - w) = take_bit 64 (uint v - uint w)" by (simp add: uint_word_ariths take_bit_eq_mod)
  then have "to_int64 (uint (v - w)) = to_int64 (uint v - uint w)"
    by (simp add: to_int64_def signed_take_bit_take_bit)
  then show ?thesis using assms by (simp add: to_int64_id)
qed

lemma secs_exact:
  assumes "usecs t = 0"
  shows "iperf_time_in_secs t = of_int (uint (secs t))"
proof -
  have "uint (secs t) < 2 ^ 32" by (rule order.strict_trans2[OF unsigned_less]) simp
  then have b: "\<bar>uint (secs t)\<bar> \<le> 2 ^ 53" by simp
  have "iperf_time_in_secs t = dadd (dbl_of_int (uint (secs t))) 0"
    using assms by (simp add: iperf_time_in_secs_def dbl_of_int_def ddiv_def)
  also have "\<dots> = fl (of_int (uint (secs t)))"
    unfolding dadd_def dbl_of_int_exact[OF b] add_0_right ..
  also have "\<dots> = of_int (uint (secs t))" by (rule fl_int[OF b])
  finally show ?thesis .
qed

lemma throttle_wait_exact:
  assumes "0 < k" "0 < r" "uint bits = k * q" "uint rate = r" "k * q \<le> 2 ^ 53" "r < q"
    and "SEC_TO_NS * (k * q - r * k) < 2 ^ 63"
  shows "throttle_wait os rate bits (of_int k) sp s =
    (let (ret, s1) = sleep_loop os (SEC_TO_NS * (k * q - r * k) div r) s
     in Some (if ret = 0 then sp\<lparr>sp_green_light := 1\<rparr> else sp, s1))"
proof -
  let ?d = "k * q - r * k"
  have rk: "r * k \<le> k * q" using assms(1,6) by (simp add: mult.commute)
  have r1: "r * 1 \<le> r * k" using assms(1,2) by (intro mult_left_mono) auto
  have rk0: "0 \<le> r * k" using assms(1,2) by simp
  have d0: "0 \<le> ?d" "?d \<le> 2 ^ 53" using rk rk0 assms(5) by linarith+
  have rb: "r \<le> 2 ^ 53" "0 \<le> r * k" "r * k \<le> 2 ^ 53" using r1 rk rk0 assms(5) by linarith+
  have "dbl_of_u64 bits = of_int (k * q)" using assms(3,5) by (metis dbl_of_u64_exact)
  moreover have "dbl_of_u64 rate = of_int r" using assms(4) rb(1) by (metis dbl_of_u64_exact)
  moreover have "dmul (of_int k) (of_int r) = of_int (r * k)"
    unfolding dmul_def of_int_mult[symmetric] mult.commute[of k r] by (rule fl_int) (use rb in simp)
  moreover have "dsub (of_int (k * q)) (of_int (r * k)) = of_int ?d"
    unfolding dsub_def of_int_diff[symmetric] by (rule fl_int) (use d0 in simp)
  moreover have "dbl_to_i64 (of_int d) = Some d" if "0 \<le> d" "d \<le> 2 ^ 53" for d
    using that by (simp add: dbl_to_i64_def)
  from this[OF d0] have "dbl_to_i64 (of_int ?d) = Some ?d" .
  ultimately have d: "dbl_to_i64 (dsub (dbl_of_u64 bits) (dmul (of_int k) (dbl_of_u64 rate))) = Some ?d"
    by (simp only:)
  have n0: "0 \<le> SEC_TO_NS * ?d" using d0(1) by simp
  have ov: "to_int64 (SEC_TO_NS * ?d) = SEC_TO_NS * ?d" using n0 assms(7) by (intro to_int64_id) auto
  have "uint (word_of_int (SEC_TO_NS * ?d) :: u64) = SEC_TO_NS * ?d"
    using n0 assms(7) by (simp only: uint_word_of_int) (intro mod_pos_pos_trivial, auto)
  then have "uint (word_of_int (SEC_TO_NS * ?d) div rate) = SEC_TO_NS * ?d div r"
    using assms(4) by (simp only: uint_div)
  moreover have q: "0 \<le> SEC_TO_NS * ?d div r" "SEC_TO_NS * ?d div r \<le> SEC_TO_NS * ?d"
    using n0 assms(2) zdiv_mono2[OF n0, of 1 r] by (simp_all add: pos_imp_zdiv_nonneg_iff)
  ultimately have t: "to_int64 (uint (word_of_int (SEC_TO_NS * ?d) div rate)) = SEC_TO_NS * ?d div r"
    using assms(7) by (simp only:) (intro to_int64_id, auto)
  show ?thesis
    unfolding throttle_wait_def Let_def d option.case ov t using q(1) by simp
qed

text \<open>C26: the throttle keeps the rate. Let a stream with the target rate \<open>r\<close> (bits per second) have
sent \<open>k * q\<close> bits in \<open>k\<close> whole seconds, numbers a \<open>double\<close> holds exactly. If \<open>q < r\<close> the light is
green and no time passes; if \<open>q = r\<close> it is red; if \<open>q > r\<close> the call sleeps and then gives the green
light, and it has slept just long enough: at the end the average rate is at most \<open>r\<close>, up to the
rounding of the wait to whole nanoseconds.\<close>

theorem throttle_keeps_rate:
  assumes "t_done test = 0" "uint (s_rate (t_settings test)) = r" "0 < r" "0 < k"
    and "uint (rp_bytes_sent (sp_result sp) * 8) = k * q" "k * q \<le> 2 ^ 53" "r * k \<le> 2 ^ 53"
    and "SEC_TO_NS * (k * q - r * k) < 2 ^ 63"
    and "snd (iperf_time_diff (rp_start_time_fixed (sp_result sp)) now) = Iperf_Time (word_of_int k) 0" "k < 2 ^ 32"
  shows "\<exists>sp1 c1. iperf_check_throttle clock_os now test sp c = Some (sp1, c1) \<and>
    sp_green_light sp1 = (if q = r then 0 else 1) \<and>
    (if q \<le> r then c1 = c
     else c \<le> c1 \<and> r * (SEC_TO_NS * k + (c1 - c)) \<le> SEC_TO_NS * (k * q) \<and>
       SEC_TO_NS * (k * q) < r * (SEC_TO_NS * k + (c1 - c) + 1))"
proof -
  let ?rate = "s_rate (t_settings test)" and ?bits = "rp_bytes_sent (sp_result sp) * 8"
  have kb: "uint (word_of_int k :: u32) = k" using assms(4,10) by (simp add: uint_word_of_int)
  have secs: "iperf_time_in_secs (snd (iperf_time_diff (rp_start_time_fixed (sp_result sp)) now)) = of_int k"
    unfolding assms(9) using secs_exact[of "Iperf_Time (word_of_int k) 0"] kb by simp
  have kq0: "0 \<le> k * q" using assms(5) by (metis uint_ge_0)
  then have q0: "0 \<le> q" using assms(4) by (simp add: zero_le_mult_iff)
  have le: "1 * q \<le> k * q" by (rule mult_right_mono) (use assms(4) q0 in auto)
  have le': "r * 1 \<le> r * k" by (rule mult_left_mono) (use assms(3,4) in auto)
  from le le' have qb: "q \<le> 2 ^ 53" "r \<le> 2 ^ 53" using assms(6,7) by simp_all
  have "dbl_of_u64 ?bits = of_int (k * q)" using assms(5,6) by (metis dbl_of_u64_exact)
  moreover have "ddiv (of_int (k * q)) (of_int k) = of_int q"
  proof -
    have "(of_int (k * q) :: rat) / of_int k = of_int q" using assms(4) by simp
    then show ?thesis using fl_int[of q] q0 qb(1) by (simp add: ddiv_def)
  qed
  ultimately have bps: "dbl_to_u64 (ddiv (dbl_of_u64 ?bits) (of_int k)) = Some (word_of_int q)"
    using dbl_to_u64_of_int[of q] q0 qb(1) by simp
  have uq: "uint (word_of_int q :: u64) = q" using q0 qb(1) by (simp add: uint_word_of_int)
  have miss: "to_int64 (uint (?rate - word_of_int q)) = r - q"
    using to_int64_diff[of ?rate "word_of_int q"] assms(2,3) uq q0 qb by simp
  have rate0: "?rate \<noteq> 0" using assms(2,3) by auto
  have unf: "iperf_check_throttle clock_os now test sp c =
      (if r - q < 0 then throttle_wait clock_os ?rate ?bits (of_int k)
           (sp\<lparr>sp_green_light := (if r - q > 0 then 1 else 0)\<rparr>) c
       else Some (sp\<lparr>sp_green_light := (if r - q > 0 then 1 else 0)\<rparr>, c))"
    using assms(1,4) rate0 bps secs miss by (simp add: iperf_check_throttle_def Let_def)
  show ?thesis
  proof (cases "r < q")
    case False
    with unf show ?thesis by auto
  next
    case True
    define t where "t = SEC_TO_NS * (k * q - r * k) div r"
    have t0: "0 \<le> t" unfolding t_def using True assms(3,4)
      by (intro pos_imp_zdiv_nonneg_iff[THEN iffD2]) (auto simp: mult.commute)
    obtain ret c1 where sl: "sleep_loop clock_os t c = (ret, c1)" by fastforce
    have c1: "ret = 0" "c1 = c + t" using clock_sleep.sleep_loop_elapsed[OF t0, of c] sl by auto
    have tr: "r * t \<le> SEC_TO_NS * (k * q - r * k)" "SEC_TO_NS * (k * q - r * k) < r * (t + 1)"
      using mult_div_mod_eq[of r "SEC_TO_NS * (k * q - r * k)"] assms(3)
        pos_mod_sign[OF assms(3), of "SEC_TO_NS * (k * q - r * k)"]
        pos_mod_bound[OF assms(3), of "SEC_TO_NS * (k * q - r * k)"]
      unfolding t_def distrib_left by linarith+
    have "iperf_check_throttle clock_os now test sp c = Some (sp\<lparr>sp_green_light := 1\<rparr>, c1)"
      using True c1 sl
      unfolding unf throttle_wait_exact[OF assms(4,3,5,2,6) True assms(8)] t_def[symmetric] by simp
    with True t0 c1 tr show ?thesis by (auto simp: algebra_simps)
  qed
qed

text \<open>A stream that has sent 4000 bits in two seconds with a target of 500 bits per second: it sleeps
for six seconds.\<close>

definition slow_test :: iperf_test where
  "slow_test = upd_settings (\<lambda>s. s\<lparr>s_rate := 500\<rparr>) zero_test"

definition fast_stream :: iperf_stream where
  "fast_stream = zero_stream\<lparr>sp_result := zero_result\<lparr>rp_bytes_sent := 500, rp_start_time_fixed := Iperf_Time 7 0\<rparr>\<rparr>"

theorem throttle_keeps_rate_witness:
  "\<exists>sp1 c1. iperf_check_throttle clock_os (Iperf_Time 9 0) slow_test fast_stream 0 = Some (sp1, c1) \<and>
    sp_green_light sp1 = 1 \<and> 500 * (1000000000 * 2 + c1) \<le> 1000000000 * 4000"
  using throttle_keeps_rate[of slow_test 500 2 fast_stream 2000 "Iperf_Time 9 0" 0]
  by (auto simp: slow_test_def fast_stream_def upd_settings_def zero_test_def zero_settings_def zero_stream_def
      zero_result_def iperf_time_diff_def iperf_time_compare_def time_sub_def Let_def)

end
