(* ===== verification/Util.thy ===== *)
theory Util
  imports Test_State
begin

text \<open>
  The helpers of \<open>iperf_util.c\<close> the program's logic uses: the payload pattern, the cookie, the
  differences of \<open>timeval\<close>s, the CPU load and the names of the states. Bytes of \<open>/dev/urandom\<close>, the
  clocks and \<open>getrusage\<close> are arguments.
\<close>

section \<open>Payload and cookie\<close>

text \<open>\<open>readentropy\<close>: \<open>None\<close> where the file cannot be opened or ends, which exits the program.\<close>

definition readentropy :: "(nat \<Rightarrow> u8 list option) \<Rightarrow> nat \<Rightarrow> u8 list option" where
  "readentropy urandom outsize =
     (if outsize = 0 then Some []
      else case urandom outsize of
        None \<Rightarrow> None
      | Some bs \<Rightarrow> if length bs \<noteq> outsize then None else Some bs)"

text \<open>The loop of \<open>fill_with_repeating_pattern\<close>, with \<open>counter\<close> and the number of bytes to write.\<close>

fun fill_from :: "nat \<Rightarrow> nat \<Rightarrow> u8 list" where
  "fill_from 0 counter = []"
| "fill_from (Suc n) counter =
     of_nat (48 + counter) # fill_from n (if counter \<ge> 9 then 0 else counter + 1)"

definition fill_with_repeating_pattern :: "nat \<Rightarrow> u8 list" where
  "fill_with_repeating_pattern outsize = (if outsize = 0 then [] else fill_from outsize 0)"

abbreviation (input) COOKIE_SIZE :: nat where "COOKIE_SIZE \<equiv> 37"

definition rndchars :: string where "rndchars = ''abcdefghijklmnopqrstuvwxyz234567''"

definition make_cookie :: "(nat \<Rightarrow> u8 list option) \<Rightarrow> string option" where
  "make_cookie urandom =
     (case readentropy urandom COOKIE_SIZE of
        None \<Rightarrow> None
      | Some out \<Rightarrow>
          Some (map (\<lambda>b. rndchars ! (unat b mod length rndchars)) (take (COOKIE_SIZE - 1) out)
                @ [CHR 0x00]))"

section \<open>timeval\<close>

datatype timeval = Timeval (tv_sec: int) (tv_usec: int)

text \<open>The division of \<open>timeval_to_double\<close> is one of integers.\<close>

definition timeval_to_double :: "timeval \<Rightarrow> dbl" where
  "timeval_to_double tv = dbl_of_int (tv_sec tv + (if tv_usec tv < 0 then - (- tv_usec tv div 1000000) else tv_usec tv div 1000000))"

definition timeval_equals :: "timeval \<Rightarrow> timeval \<Rightarrow> int" where
  "timeval_equals tv0 tv1 =
     (if tv_sec tv0 = tv_sec tv1 \<and> tv_usec tv0 = tv_usec tv1 then 1 else 0)"

definition timeval_secs :: "timeval \<Rightarrow> dbl" where
  "timeval_secs tv = dadd (dbl_of_int (tv_sec tv)) (ddiv (dbl_of_int (tv_usec tv)) 1000000)"

definition timeval_diff :: "timeval \<Rightarrow> timeval \<Rightarrow> dbl" where
  "timeval_diff tv0 tv1 =
     (let time1 = dsub (timeval_secs tv0) (timeval_secs tv1)
      in if time1 < 0 then - time1 else time1)"

section \<open>CPU load\<close>

record cpu_sample =
  cs_now :: iperf_time
  cs_clock :: int
  cs_utime :: timeval
  cs_stime :: timeval

definition timeval_usecs :: "timeval \<Rightarrow> dbl" where
  "timeval_usecs tv = dadd (dmul (dbl_of_int (tv_sec tv)) 1000000) (dbl_of_int (tv_usec tv))"

text \<open>\<open>cpu_util\<close> after the first call, which only stores the sample \<open>last\<close>; \<open>CLOCKS_PER_SEC\<close> is a
million. \<open>None\<close> when no time has passed, where the C code divides by zero.\<close>

definition cpu_util :: "cpu_sample \<Rightarrow> cpu_sample \<Rightarrow> (dbl \<times> dbl \<times> dbl) option" where
  "cpu_util prev now =
     (let timediff = dbl_of_int (uint (iperf_time_in_usecs (snd (iperf_time_diff (cs_now now) (cs_now prev)))));
          userdiff = dsub (timeval_usecs (cs_utime now)) (timeval_usecs (cs_utime prev));
          systemdiff = dsub (timeval_usecs (cs_stime now)) (timeval_usecs (cs_stime prev));
          ticks = ddiv (dmul (dbl_of_int (cs_clock now - cs_clock prev)) 1000000) 1000000
      in if timediff = 0 then None
         else Some (dmul (ddiv ticks timediff) 100, dmul (ddiv userdiff timediff) 100,
                    dmul (ddiv systemdiff timediff) 100))"

section \<open>Names of the states\<close>

definition state_to_text :: "int \<Rightarrow> string" where
  "state_to_text state =
     (if state = 0 then ''Test reset''
      else if state = TEST_START then ''TEST_START - starting a new test''
      else if state = TEST_RUNNING then ''TEST_RUNNING''
      else if state = TEST_END then ''TEST_END''
      else if state = PARAM_EXCHANGE then ''PARAM_EXCHANGE - Client to Server Parameters Exchange''
      else if state = CREATE_STREAMS then ''CREATE_STREAMS''
      else if state = SERVER_TERMINATE then ''SERVER_TERMINATE''
      else if state = CLIENT_TERMINATE then ''CLIENT_TERMINATE''
      else if state = EXCHANGE_RESULTS then ''EXCHANGE_RESULTS''
      else if state = DISPLAY_RESULTS then ''DISPLAY_RESULTS''
      else if state = IPERF_START then ''IPERF_START - waiting for a new test''
      else if state = IPERF_DONE then ''IPERF_DONE''
      else if state = ACCESS_DENIED then ''ACCESS_DENIED - Server is busy''
      else if state = SERVER_ERROR then ''SERVER_ERROR''
      else ''Unknown State'')"

section \<open>Properties\<close>

lemma fill_from_nth:
  "counter \<le> 9 \<Longrightarrow> i < n \<Longrightarrow> fill_from n counter ! i = of_nat (48 + (counter + i) mod 10)"
proof (induction n counter arbitrary: i rule: fill_from.induct)
  case (2 n counter)
  show ?case
  proof (cases i)
    case 0
    with 2 show ?thesis by simp
  next
    case (Suc k)
    moreover have "(if counter \<ge> 9 then 0 else counter + 1) \<le> (9::nat)" using 2 by auto
    moreover have "((if counter \<ge> 9 then 0 else counter + 1) + k) mod 10 = (counter + Suc k) mod 10"
    proof (cases "counter \<ge> 9")
      case True
      then have "counter = 9" using 2 by simp
      then show ?thesis by (simp add: mod_Suc_eq[symmetric] flip: add_Suc)
    qed simp
    ultimately show ?thesis using 2 by (simp del: of_nat_add)
  qed
qed simp

lemma length_fill_from [simp]: "length (fill_from n counter) = n"
  by (induction n counter rule: fill_from.induct) auto

lemma length_pattern [simp]: "length (fill_with_repeating_pattern n) = n"
  by (simp add: fill_with_repeating_pattern_def)

lemma length_readentropy: "readentropy urandom n = Some bs \<Longrightarrow> length bs = n"
  by (auto simp: readentropy_def split: if_splits option.splits)

lemma cookie_chars:
  assumes "make_cookie urandom = Some ck"
  shows "length ck = COOKIE_SIZE" "set (butlast ck) \<subseteq> set rndchars" "last ck = CHR 0x00"
proof -
  obtain out where out: "readentropy urandom COOKIE_SIZE = Some out"
    "ck = map (\<lambda>b. rndchars ! (unat b mod length rndchars)) (take (COOKIE_SIZE - 1) out) @ [CHR 0x00]"
    using assms by (auto simp: make_cookie_def split: option.splits)
  show "length ck = COOKIE_SIZE" using length_readentropy[OF out(1)] out(2) by simp
  have "length rndchars > 0" by (simp add: rndchars_def)
  then have "rndchars ! (unat b mod length rndchars) \<in> set rndchars" for b :: u8
    by (intro nth_mem mod_less_divisor)
  then show "set (butlast ck) \<subseteq> set rndchars" using out(2) by (auto simp: butlast_append)
  show "last ck = CHR 0x00" using out(2) by simp
qed

text \<open>The cookie and the payload are what the protocol needs: a cookie has \<open>COOKIE_SIZE\<close>
characters, the last one NUL and the others letters and digits of the alphabet, so that it is a C
string of length \<open>COOKIE_SIZE - 1\<close> whatever the random bytes are; the repeating payload has the
size of the block and its i-th byte is the digit \<open>i mod 10\<close>.\<close>

theorem cookie_and_pattern:
  assumes "make_cookie urandom = Some ck" "i < n"
  shows "length ck = COOKIE_SIZE \<and> last ck = CHR 0x00 \<and> CHR 0x00 \<notin> set (butlast ck) \<and>
    set (butlast ck) \<subseteq> set rndchars \<and>
    length (fill_with_repeating_pattern n) = n \<and>
    fill_with_repeating_pattern n ! i = of_nat (48 + i mod 10)"
proof -
  have "CHR 0x00 \<notin> set rndchars" by (simp add: rndchars_def)
  moreover have "fill_with_repeating_pattern n ! i = of_nat (48 + i mod 10)"
    using assms(2) fill_from_nth[of 0 i n] by (simp add: fill_with_repeating_pattern_def)
  ultimately show ?thesis using cookie_chars[OF assms(1)] by auto
qed

theorem cookie_and_pattern_witness:
  "length (replicate 36 CHR ''z'' @ [CHR 0x00]) = COOKIE_SIZE \<and>
   fill_with_repeating_pattern 20 ! 13 = of_nat (48 + 13 mod 10)"
proof -
  have "make_cookie (\<lambda>n. Some (replicate n 25)) = Some (replicate 36 CHR ''z'' @ [CHR 0x00])"
    by (simp add: make_cookie_def readentropy_def rndchars_def map_replicate)
  moreover have "(13::nat) < 20" by simp
  ultimately show ?thesis using cookie_and_pattern by blast
qed

end
