(* ===== verification/Streams.thy ===== *)
theory Streams
  imports Throttle Util
begin

text \<open>
  The data path: \<open>iperf_tcp.c\<close> (sending and receiving), the file variants \<open>diskfile_send\<close> and
  \<open>diskfile_recv\<close>, the throttle, the bursts of \<open>iperf_send_mt\<close> and \<open>iperf_recv_mt\<close>, and the creation
  of streams (\<open>iperf_api.c\<close>).

  The operating system is a record of calls on a state: reading and writing the socket and the
  file, the clock, and \<open>nanosleep\<close>. A worker thread owns its stream; the test's totals are shared
  by all threads (they are atomic in the code), so a run of the threads is a sequence of calls of
  \<open>iperf_send_mt\<close> and \<open>iperf_recv_mt\<close> on any of the streams.
\<close>

section \<open>TCP\<close>

text \<open>Without \<open>HAVE_MSG_TRUNC\<close> the option \<open>skip_rx_copy\<close> has no effect.\<close>

definition iperf_tcp_recv ::
  "'s sys_read \<Rightarrow> iperf_test \<Rightarrow> iperf_stream \<Rightarrow> 's \<Rightarrow> int \<times> iperf_stream \<times> 's" where
  "iperf_tcp_recv rd test sp s =
     (let (r, bs, s1) = Nrecv_no_select rd (nat (s_blksize (t_settings test))) s;
          sp0 = sp\<lparr>sp_buffer := overwrite bs (sp_buffer sp)\<rparr>
      in if r < 0 then (r, sp0, s1)
         else if t_state test = TEST_RUNNING then
           (let rp = sp_result sp0
            in (r, sp0\<lparr>sp_result :=
                     rp\<lparr>rp_bytes_received := rp_bytes_received rp + word_of_int r,
                        rp_bytes_received_this_interval :=
                          rp_bytes_received_this_interval rp + word_of_int r\<rparr>\<rparr>, s1))
         else (r, sp0, s1))"

text \<open>Without \<open>HAVE_SENDFILE\<close> the function \<open>Nsendfile\<close> always fails.\<close>

definition Nsendfile :: "u8 list \<Rightarrow> 's \<Rightarrow> int \<times> 's" where
  "Nsendfile buf s = (NET_HARDERROR, s)"

definition iperf_tcp_send ::
  "'s sys_write \<Rightarrow> iperf_test \<Rightarrow> iperf_stream \<Rightarrow> 's \<Rightarrow> int \<times> iperf_stream \<times> 's" where
  "iperf_tcp_send wr test sp s =
     (let sp1 = (if sp_pending_size sp = 0
                 then sp\<lparr>sp_pending_size := s_blksize (t_settings test)\<rparr> else sp);
          buf = take (nat (sp_pending_size sp1)) (sp_buffer sp1);
          (r, s1) = (if c_true (t_zerocopy test) then Nsendfile buf s else Nwrite wr buf s)
      in if r < 0 then (r, sp1, s1)
         else
           (let rp = sp_result sp1
            in (r, sp1\<lparr>sp_pending_size := sp_pending_size sp1 - r,
                       sp_result :=
                         rp\<lparr>rp_bytes_sent := rp_bytes_sent rp + word_of_int r,
                            rp_bytes_sent_this_interval :=
                              rp_bytes_sent_this_interval rp + word_of_int r\<rparr>\<rparr>, s1)))"

section \<open>The functions behind \<open>snd\<close> and \<open>rcv\<close>\<close>

text \<open>\<open>iperf_udp_recv\<close> reads the clock after a packet has been read and counted.\<close>

definition udp_recv_now ::
  "'s os \<Rightarrow> iperf_test \<Rightarrow> iperf_stream \<Rightarrow> 's \<Rightarrow> int \<times> iperf_stream \<times> 's" where
  "udp_recv_now os test sp s =
     (let (r, _, s1) = Nrecv_no_select (os_read os) (nat (s_blksize (t_settings test))) s;
          (arrival, s2) = os_now os s1;
          (r', sp', s') = iperf_udp_recv (os_read os) arrival test sp s
      in (r', sp', if r > 0 \<and> t_state test = TEST_RUNNING then s2 else s'))"

definition udp_send_now ::
  "'s os \<Rightarrow> iperf_test \<Rightarrow> iperf_stream \<Rightarrow> 's \<Rightarrow> int \<times> iperf_stream \<times> 's" where
  "udp_send_now os test sp s =
     (let (before, s1) = os_now os s in iperf_udp_send (os_write os) before test sp s1)"

text \<open>The protocol's own functions, as \<open>protocol->send\<close> and \<open>protocol->recv\<close> are set up.\<close>

definition net_snd ::
  "'s os \<Rightarrow> io_proc \<Rightarrow> iperf_test \<Rightarrow> iperf_stream \<Rightarrow> 's \<Rightarrow> int \<times> iperf_stream \<times> 's" where
  "net_snd os p test sp s =
     (if p = Udp_io then udp_send_now os test sp s else iperf_tcp_send (os_write os) test sp s)"

definition net_rcv ::
  "'s os \<Rightarrow> io_proc \<Rightarrow> iperf_test \<Rightarrow> iperf_stream \<Rightarrow> 's \<Rightarrow> int \<times> iperf_stream \<times> 's" where
  "net_rcv os p test sp s =
     (if p = Udp_io then udp_recv_now os test sp s else iperf_tcp_recv (os_read os) test sp s)"

text \<open>\<open>diskfile_send\<close>: \<open>read\<close> puts its bytes at the start of the buffer. The copy that slides the
rest to the front is the one of \<open>memcpy\<close> where the two areas do not overlap.\<close>

definition diskfile_read ::
  "'s os \<Rightarrow> iperf_test \<Rightarrow> iperf_stream \<Rightarrow> 's \<Rightarrow> int \<times> iperf_test \<times> iperf_stream \<times> 's" where
  "diskfile_read os test sp s =
     (let blksize = s_blksize (t_settings test)
      in if sp_diskfile_left sp < blksize \<and> t_done test = 0 then
           (let (res, s1) = os_file_read os (nat (blksize - sp_diskfile_left sp)) s;
                r = (case res of Got bs \<Rightarrow> int (length bs) | R_error e \<Rightarrow> - 1);
                sp1 = (case res of Got bs \<Rightarrow> sp\<lparr>sp_buffer := overwrite bs (sp_buffer sp)\<rparr>
                       | R_error e \<Rightarrow> sp);
                buffer_left = sp_diskfile_left sp + r;
                sp2 = (if buffer_left \<noteq> blksize then sp1\<lparr>sp_pending_size := buffer_left\<rparr> else sp1);
                test1 = (if buffer_left = 0 then test\<lparr>t_done := 1\<rparr> else test)
            in (buffer_left, test1, sp2, s1))
         else (sp_diskfile_left sp, test, sp, s))"

definition diskfile_send ::
  "'s os \<Rightarrow> iperf_test \<Rightarrow> iperf_stream \<Rightarrow> 's \<Rightarrow> int \<times> iperf_test \<times> iperf_stream \<times> 's" where
  "diskfile_send os test sp s =
     (let blksize = s_blksize (t_settings test);
          (buffer_left, test1, sp1, s1) = diskfile_read os test sp s
      in if t_done test1 \<noteq> 0 \<or> buffer_left = 0 then (0, test1\<lparr>t_done := 1\<rparr>, sp1, s1)
         else
           (let (r, sp2, s2) = net_snd os (sp_snd2 sp1) test1 sp1 s1
            in if r < 0 then (r, test1, sp2, s2)
               else
                 (let left = buffer_left - r;
                      sp3 = sp2\<lparr>sp_diskfile_left := left\<rparr>
                  in if left \<noteq> 0 \<and> left < blksize
                     then (r, test1,
                           sp3\<lparr>sp_buffer :=
                             overwrite (take (nat left) (drop (nat (blksize - left)) (sp_buffer sp3)))
                               (sp_buffer sp3)\<rparr>, s2)
                     else (r, test1, sp3, s2))))"

definition diskfile_recv ::
  "'s os \<Rightarrow> iperf_test \<Rightarrow> iperf_stream \<Rightarrow> 's \<Rightarrow> int \<times> iperf_stream \<times> 's" where
  "diskfile_recv os test sp s =
     (let (r, sp1, s1) = net_rcv os (sp_rcv2 sp) test sp s
      in if r > 0 then (r, sp1, snd (os_file_write os (take (nat r) (sp_buffer sp1)) s1))
         else (r, sp1, s1))"

text \<open>The calls through the function pointers.\<close>

definition stream_snd ::
  "'s os \<Rightarrow> iperf_test \<Rightarrow> iperf_stream \<Rightarrow> 's \<Rightarrow> int \<times> iperf_test \<times> iperf_stream \<times> 's" where
  "stream_snd os test sp s =
     (case sp_snd sp of
        Diskfile_io \<Rightarrow> diskfile_send os test sp s
      | p \<Rightarrow> (let (r, sp1, s1) = net_snd os p test sp s in (r, test, sp1, s1)))"

definition stream_rcv ::
  "'s os \<Rightarrow> iperf_test \<Rightarrow> iperf_stream \<Rightarrow> 's \<Rightarrow> int \<times> iperf_stream \<times> 's" where
  "stream_rcv os test sp s =
     (case sp_rcv sp of
        Diskfile_io \<Rightarrow> diskfile_recv os test sp s
      | p \<Rightarrow> net_rcv os p test sp s)"

section \<open>Bursts\<close>

text \<open>The two checks at the start of a round, with \<open>multisend\<close> rounds to go.\<close>

definition enough_sent :: "nat \<Rightarrow> iperf_test \<Rightarrow> bool" where
  "enough_sent multisend test \<longleftrightarrow>
     multisend > 1 \<and> s_bytes (t_settings test) \<noteq> 0 \<and> t_bytes_sent test \<ge> s_bytes (t_settings test) \<or>
     multisend > 1 \<and> s_blocks (t_settings test) \<noteq> 0 \<and> t_blocks_sent test \<ge> s_blocks (t_settings test)"

definition add_sent :: "int \<Rightarrow> iperf_stream \<Rightarrow> iperf_test \<Rightarrow> iperf_test" where
  "add_sent r sp test =
     test\<lparr>t_bytes_sent := t_bytes_sent test + word_of_int r,
          t_blocks_sent := (if sp_pending_size sp = 0 then t_blocks_sent test + 1
                            else t_blocks_sent test)\<rparr>"

text \<open>The rest of a round: it leaves the loop (\<open>break\<close>, or \<open>return\<close> with a value) or goes on with the
time \<open>now\<close>. \<open>None\<close> is the undefined behaviour of the throttle.\<close>

datatype 's round =
  Leave "int option" iperf_test iperf_stream 's
| Go_on iperf_time iperf_test iperf_stream 's

definition send_round ::
  "'s os \<Rightarrow> bool \<Rightarrow> int \<Rightarrow> iperf_time \<Rightarrow> iperf_test \<Rightarrow> iperf_stream \<Rightarrow> 's \<Rightarrow> 's round option" where
  "send_round os check message_sent now test sp s =
     (let (r, test1, sp1, s1) = stream_snd os test sp s
      in if r < 0 then
           (if r = NET_SOFTERROR then Some (Leave None test1 sp1 s1)
            else Some (Leave (Some r) (test1\<lparr>t_i_errno := IESTREAMWRITE\<rparr>) sp1 s1))
         else if check then
           (let (now1, s2) = (if message_sent = 0 then os_now os s1 else (now, s1))
            in case iperf_check_throttle os now1 (add_sent r sp1 test1) sp1 s2 of
                 None \<Rightarrow> None
               | Some (sp2, s3) \<Rightarrow> Some (Go_on now1 (add_sent r sp1 test1) sp2 s3))
         else Some (Go_on now (add_sent r sp1 test1) sp1 s1))"

text \<open>The for loop of \<open>iperf_send_mt\<close>: the value returned from inside it, if any, \<open>message_sent\<close>, and
the state.\<close>

fun send_loop ::
  "'s os \<Rightarrow> bool \<Rightarrow> nat \<Rightarrow> int \<Rightarrow> iperf_time \<Rightarrow> iperf_test \<Rightarrow> iperf_stream \<Rightarrow> 's
   \<Rightarrow> (int option \<times> int \<times> iperf_test \<times> iperf_stream \<times> 's) option" where
  "send_loop os check 0 message_sent now test sp s = Some (None, message_sent, test, sp, s)"
| "send_loop os check (Suc m) message_sent now test sp s =
     (if sp_green_light sp = 0 \<or> enough_sent (Suc m) test then Some (None, message_sent, test, sp, s)
      else case send_round os check message_sent now test sp s of
        None \<Rightarrow> None
      | Some (Leave ret test1 sp1 s1) \<Rightarrow> Some (ret, message_sent, test1, sp1, s1)
      | Some (Go_on now1 test1 sp1 s1) \<Rightarrow> send_loop os check m 1 now1 test1 sp1 s1)"

definition iperf_send_mt ::
  "'s os \<Rightarrow> iperf_test \<Rightarrow> iperf_stream \<Rightarrow> 's \<Rightarrow> (int \<times> iperf_test \<times> iperf_stream \<times> 's) option" where
  "iperf_send_mt os test sp s =
     (let st = t_settings test;
          multisend = (if s_burst st \<noteq> 0 then s_burst st
                       else if s_rate st = 0 then t_multisend test else 1);
          throttle_check = (s_rate st \<noteq> 0);
          throttle_check_per_message = (s_rate st \<noteq> 0 \<and> s_burst st = 0)
      in case send_loop os throttle_check_per_message (nat multisend) 0 zero_time test sp s of
           None \<Rightarrow> None
         | Some (Some r, _, test1, sp1, s1) \<Rightarrow> Some (r, test1, sp1, s1)
         | Some (None, message_sent, test1, sp1, s1) \<Rightarrow>
             (if throttle_check \<and> (\<not> throttle_check_per_message \<or> message_sent = 0) then
                (let (now, s2) = os_now os s1
                 in case iperf_check_throttle os now test1 sp1 s2 of
                      None \<Rightarrow> None
                    | Some (sp2, s3) \<Rightarrow> Some (0, test1, sp2, s3))
              else Some (0, test1, sp1, s1)))"

definition iperf_recv_mt ::
  "'s os \<Rightarrow> iperf_test \<Rightarrow> iperf_stream \<Rightarrow> 's \<Rightarrow> int \<times> iperf_test \<times> iperf_stream \<times> 's" where
  "iperf_recv_mt os test sp s =
     (let (r, sp1, s1) = stream_rcv os test sp s
      in if r < 0 then (r, test\<lparr>t_i_errno := IESTREAMREAD\<rparr>, sp1, s1)
         else if r > 0 then
           (0, test\<lparr>t_bytes_received := t_bytes_received test + word_of_int r,
                   t_blocks_received := t_blocks_received test + 1\<rparr>, sp1, s1)
         else (0, test, sp1, s1))"

section \<open>Starting the streams\<close>

definition iperf_init_test :: "int \<Rightarrow> iperf_time option \<Rightarrow> iperf_test \<Rightarrow> int \<times> iperf_test" where
  "iperf_init_test proto_init now test =
     (if proto_init < 0 then (- 1, test)
      else case now of
        None \<Rightarrow> (- 1, test\<lparr>t_i_errno := IEINITTEST\<rparr>)
      | Some t \<Rightarrow>
          (0, test\<lparr>t_streams := map (\<lambda>sp. sp\<lparr>sp_result :=
                  (sp_result sp)\<lparr>rp_start_time := t, rp_start_time_fixed := t\<rparr>\<rparr>)
                (t_streams test)\<rparr>))"

definition iperf_create_send_timers :: "iperf_test \<Rightarrow> int \<times> iperf_test" where
  "iperf_create_send_timers test =
     (0, test\<lparr>t_streams := map (\<lambda>sp. sp\<lparr>sp_green_light := 1\<rparr>) (t_streams test)\<rparr>)"

section \<open>Creating a stream\<close>

text \<open>What the calls of \<open>iperf_new_stream\<close> return, and what \<open>getsockname\<close> and \<open>getpeername\<close> give (the
ports, \<open>None\<close> for a failure).\<close>

record stream_calls =
  sc_malloc :: bool
  sc_malloc_result :: bool
  sc_mkstemp :: int
  sc_unlink :: int
  sc_ftruncate :: int
  sc_mmap :: bool
  sc_open :: int
  sc_entropy :: "nat \<Rightarrow> u8 list option"
  sc_sockname :: "int option"
  sc_peername :: "int option"

definition iperf_common_sockopts :: "bool \<Rightarrow> int \<Rightarrow> iperf_test \<Rightarrow> int \<times> iperf_test" where
  "iperf_common_sockopts is_inet6 setsockopt_rc test =
     (if s_tos (t_settings test) \<noteq> 0 \<and> setsockopt_rc < 0
      then (- 1, test\<lparr>t_i_errno := (if is_inet6 then IESETCOS else IESETTOS)\<rparr>)
      else (0, test))"

definition iperf_init_stream ::
  "int option \<Rightarrow> int option \<Rightarrow> iperf_stream \<Rightarrow> iperf_test \<Rightarrow> int \<times> iperf_stream \<times> iperf_test" where
  "iperf_init_stream sockname peername sp test =
     (case sockname of
        None \<Rightarrow> (- 1, sp, test\<lparr>t_i_errno := IEINITSTREAM\<rparr>)
      | Some lp \<Rightarrow>
          (case peername of
             None \<Rightarrow> (- 1, sp\<lparr>sp_local_port := lp\<rparr>, test\<lparr>t_i_errno := IEINITSTREAM\<rparr>)
           | Some rp \<Rightarrow> (0, sp\<lparr>sp_local_port := lp, sp_remote_port := rp\<rparr>, test)))"

text \<open>The new stream goes to the end; the ids are 1, 3, 4, and so on.\<close>

definition iperf_add_stream :: "iperf_test \<Rightarrow> iperf_stream \<Rightarrow> iperf_test" where
  "iperf_add_stream test sp =
     (if t_streams test = [] then test\<lparr>t_streams := [sp\<lparr>sp_id := 1\<rparr>]\<rparr>
      else test\<lparr>t_streams := t_streams test @ [sp\<lparr>sp_id := int (length (t_streams test)) + 2\<rparr>]\<rparr>)"

text \<open>The result: the stream, the test, and the descriptors that stay open. \<open>None\<close> where
\<open>readentropy\<close> ends the program.\<close>

definition iperf_new_stream ::
  "stream_calls \<Rightarrow> int \<Rightarrow> int \<Rightarrow> iperf_test \<Rightarrow> (iperf_stream option \<times> iperf_test \<times> int set) option" where
  "iperf_new_stream sc s sender test =
     (let failed = test\<lparr>t_i_errno := IECREATESTREAM\<rparr>; blksize = nat (s_blksize (t_settings test)); fd = sc_mkstemp sc
      in if \<not> sc_malloc sc then Some (None, failed, {})
         else if \<not> sc_malloc_result sc then Some (None, failed, {})
         else if fd = - 1 then Some (None, failed, {})
         else if sc_unlink sc < 0 then Some (None, failed, {fd})
         else if sc_ftruncate sc < 0 then Some (None, failed, {fd})
         else if \<not> sc_mmap sc then Some (None, failed, {fd})
         else
           (let sp = zero_stream\<lparr>sp_sender := sender, sp_socket := s, sp_buffer := replicate blksize 0,
                       sp_snd := (if t_protocol test = Pudp then Udp_io else Tcp_io),
                       sp_rcv := (if t_protocol test = Pudp then Udp_io else Tcp_io)\<rparr>;
                with_file = (t_diskfile_name test \<noteq> None)
            in if with_file \<and> sc_open sc = - 1
               then Some (None, test\<lparr>t_i_errno := IEFILE\<rparr>, {fd})
               else
                 (let sp1 = (if with_file
                             then sp\<lparr>sp_diskfile_fd := sc_open sc, sp_snd2 := sp_snd sp,
                                     sp_snd := Diskfile_io, sp_rcv2 := sp_rcv sp,
                                     sp_rcv := Diskfile_io\<rparr>
                             else sp\<lparr>sp_diskfile_fd := - 1\<rparr>);
                      fds = (if with_file then {sc_open sc} else {})
                  in do {
                    payload \<leftarrow> (if c_true (t_repeating_payload test)
                               then Some (fill_with_repeating_pattern blksize)
                               else readentropy (sc_entropy sc) blksize);
                    let (rc, sp2, test1) = iperf_init_stream (sc_sockname sc) (sc_peername sc)
                                             (sp1\<lparr>sp_buffer := payload\<rparr>) test
                    in if rc < 0 then Some (None, test1, fds)
                       else (let test2 = iperf_add_stream test1 sp2
                             in Some (Some (last (t_streams test2)), test2, insert fd fds))
                  })))"

section \<open>What a call changes\<close>

text \<open>Sending: the bytes counted are the value returned, the rest of the result is left alone.\<close>

definition sent_only :: "iperf_stream \<Rightarrow> u64 \<Rightarrow> iperf_stream \<Rightarrow> bool" where
  "sent_only sp n sp1 \<longleftrightarrow>
     rp_bytes_sent (sp_result sp1) = rp_bytes_sent (sp_result sp) + n \<and>
     rp_bytes_sent_this_interval (sp_result sp1) = rp_bytes_sent_this_interval (sp_result sp) + n \<and>
     rp_bytes_sent_omit (sp_result sp1) = rp_bytes_sent_omit (sp_result sp) \<and>
     rp_bytes_received (sp_result sp1) = rp_bytes_received (sp_result sp) \<and>
     rp_bytes_received_this_interval (sp_result sp1) = rp_bytes_received_this_interval (sp_result sp) \<and>
     sp_sender sp1 = sp_sender sp"

definition received_only :: "iperf_stream \<Rightarrow> u64 \<Rightarrow> iperf_stream \<Rightarrow> bool" where
  "received_only sp n sp1 \<longleftrightarrow>
     rp_bytes_received (sp_result sp1) = rp_bytes_received (sp_result sp) + n \<and>
     rp_bytes_received_this_interval (sp_result sp1) = rp_bytes_received_this_interval (sp_result sp) + n \<and>
     rp_bytes_sent (sp_result sp1) = rp_bytes_sent (sp_result sp) \<and>
     rp_bytes_sent_omit (sp_result sp1) = rp_bytes_sent_omit (sp_result sp) \<and>
     rp_bytes_sent_this_interval (sp_result sp1) = rp_bytes_sent_this_interval (sp_result sp) \<and>
     sp_sender sp1 = sp_sender sp"

lemma sent_only_trans: "sent_only a n b \<Longrightarrow> sent_only b m c \<Longrightarrow> sent_only a (n + m) c"
  by (simp add: sent_only_def)

lemma sent_only_refl [simp]: "sent_only a 0 a"
  by (simp add: sent_only_def)

lemma received_only_refl [simp]: "received_only a 0 a"
  by (simp add: received_only_def)

lemma iperf_tcp_send_counts:
  "iperf_tcp_send wr test sp s = (r, sp1, s1) \<Longrightarrow> sent_only sp (if r < 0 then 0 else word_of_int r) sp1"
  by (auto simp: iperf_tcp_send_def Let_def sent_only_def split: prod.splits if_splits)

lemma iperf_udp_send_counts:
  "iperf_udp_send wr before test sp s = (r, sp1, s1) \<Longrightarrow> sent_only sp (if r < 0 then 0 else word_of_int r) sp1"
  by (auto simp: iperf_udp_send_def Let_def sent_only_def split: prod.splits if_splits)

lemma net_snd_counts:
  assumes "net_snd os p test sp s = (r, sp1, s1)"
  shows "sent_only sp (if r < 0 then 0 else word_of_int r) sp1"
proof (cases "p = Udp_io")
  case True
  obtain t s0 where "os_now os s = (t, s0)" by fastforce
  with True assms have "iperf_udp_send (os_write os) t test sp s0 = (r, sp1, s1)"
    by (simp add: net_snd_def udp_send_now_def)
  then show ?thesis by (rule iperf_udp_send_counts)
next
  case False
  with assms have "iperf_tcp_send (os_write os) test sp s = (r, sp1, s1)" by (simp add: net_snd_def)
  then show ?thesis by (rule iperf_tcp_send_counts)
qed

text \<open>The part of the test that a burst leaves alone.\<close>

definition totals_cleared :: "iperf_test \<Rightarrow> iperf_test" where
  "totals_cleared test =
     test\<lparr>t_done := 0, t_bytes_sent := 0, t_blocks_sent := 0, t_bytes_received := 0,
          t_blocks_received := 0, t_i_errno := 0\<rparr>"

definition same_but_totals :: "iperf_test \<Rightarrow> iperf_test \<Rightarrow> bool" where
  "same_but_totals a b \<longleftrightarrow> totals_cleared a = totals_cleared b"

lemma same_but_totals_refl [simp]: "same_but_totals a a"
  by (simp add: same_but_totals_def)

lemma same_but_totals_trans: "same_but_totals a b \<Longrightarrow> same_but_totals b c \<Longrightarrow> same_but_totals a c"
  by (simp add: same_but_totals_def)

lemma same_but_totals_upd [simp]:
  "same_but_totals a (b\<lparr>t_done := d\<rparr>) = same_but_totals a b"
  "same_but_totals a (b\<lparr>t_i_errno := e\<rparr>) = same_but_totals a b"
  "same_but_totals a (b\<lparr>t_bytes_sent := n\<rparr>) = same_but_totals a b"
  "same_but_totals a (b\<lparr>t_blocks_sent := n\<rparr>) = same_but_totals a b"
  "same_but_totals a (b\<lparr>t_bytes_received := n\<rparr>) = same_but_totals a b"
  "same_but_totals a (b\<lparr>t_blocks_received := n\<rparr>) = same_but_totals a b"
  by (simp_all add: same_but_totals_def totals_cleared_def)

lemma same_but_totals_fields:
  assumes "same_but_totals a b"
  shows "t_settings b = t_settings a" "t_streams b = t_streams a" "t_state b = t_state a"
    "t_multisend b = t_multisend a" "t_role b = t_role a" "t_mode b = t_mode a"
  using arg_cong[OF assms[unfolded same_but_totals_def], of t_settings]
    arg_cong[OF assms[unfolded same_but_totals_def], of t_streams]
    arg_cong[OF assms[unfolded same_but_totals_def], of t_state]
    arg_cong[OF assms[unfolded same_but_totals_def], of t_multisend]
    arg_cong[OF assms[unfolded same_but_totals_def], of t_role]
    arg_cong[OF assms[unfolded same_but_totals_def], of t_mode]
  by (simp_all add: totals_cleared_def)

lemma diskfile_read_frame:
  assumes "diskfile_read os test sp s = (n, test1, sp1, s1)"
  shows "sp_result sp1 = sp_result sp \<and> sp_snd2 sp1 = sp_snd2 sp \<and> sp_sender sp1 = sp_sender sp \<and> same_but_totals test test1 \<and>
    t_bytes_sent test1 = t_bytes_sent test \<and> t_bytes_received test1 = t_bytes_received test"
proof (cases "sp_diskfile_left sp < s_blksize (t_settings test) \<and> t_done test = 0")
  case True
  obtain res s0 where "os_file_read os (nat (s_blksize (t_settings test) - sp_diskfile_left sp)) s = (res, s0)"
    by fastforce
  with True assms show ?thesis
    by (cases res) (auto simp: diskfile_read_def Let_def)
next
  case False
  with assms show ?thesis by (auto simp: diskfile_read_def)
qed

lemma stream_snd_counts:
  assumes "stream_snd os test sp s = (r, test1, sp1, s1)"
  shows "sent_only sp (if r < 0 then 0 else word_of_int r) sp1 \<and> same_but_totals test test1 \<and>
    t_bytes_sent test1 = t_bytes_sent test \<and> t_bytes_received test1 = t_bytes_received test"
proof (cases "sp_snd sp = Diskfile_io")
  case True
  then have d: "diskfile_send os test sp s = (r, test1, sp1, s1)" using assms by (simp add: stream_snd_def)
  obtain n t2 sp2 s2 where rd: "diskfile_read os test sp s = (n, t2, sp2, s2)" by (metis prod_cases4)
  note fr = diskfile_read_frame[OF rd]
  obtain r3 sp3 s3 where ns: "net_snd os (sp_snd2 sp2) t2 sp2 s2 = (r3, sp3, s3)" by (metis prod_cases3)
  have so: "sent_only sp2 (if r3 < 0 then 0 else word_of_int r3) sp3" by (rule net_snd_counts[OF ns])
  consider "t_done t2 \<noteq> 0 \<or> n = 0" | "t_done t2 = 0" "n \<noteq> 0" "r3 < 0" | "t_done t2 = 0" "n \<noteq> 0" "\<not> r3 < 0"
    by linarith
  then show ?thesis
  proof cases
    case 1
    with d rd fr show ?thesis by (auto simp: diskfile_send_def Let_def sent_only_def)
  next
    case 2
    with d rd ns fr so show ?thesis by (auto simp: diskfile_send_def Let_def sent_only_def)
  next
    case 3
    with d rd ns fr so show ?thesis
      by (auto simp: diskfile_send_def Let_def sent_only_def split: if_split_asm)
  qed
next
  case False
  obtain r2 sp2 s2 where "net_snd os (sp_snd sp) test sp s = (r2, sp2, s2)" by (metis prod_cases3)
  with False assms have ns: "net_snd os (sp_snd sp) test sp s = (r, sp1, s1)" and t: "test1 = test"
    by (cases "sp_snd sp"; simp add: stream_snd_def)+
  show ?thesis using net_snd_counts[OF ns] t by (simp only: same_but_totals_refl simp_thms)
qed

lemma sent_only_light: "no_light b = no_light c \<Longrightarrow> sent_only a n c \<longleftrightarrow> sent_only a n b"
  using no_light_fields[of b c] by (simp add: sent_only_def)

text \<open>A burst counts in the test what it counts in the stream.\<close>

definition counted :: "iperf_test \<Rightarrow> iperf_stream \<Rightarrow> iperf_test \<Rightarrow> iperf_stream \<Rightarrow> bool" where
  "counted test sp test1 sp1 \<longleftrightarrow>
     (\<exists>n. sent_only sp n sp1 \<and> t_bytes_sent test1 = t_bytes_sent test + n) \<and>
     t_bytes_received test1 = t_bytes_received test \<and> same_but_totals test test1"

lemma counted_refl [simp]: "counted test sp test sp"
  by (auto simp: counted_def intro: exI[of _ 0])

lemma counted_trans:
  assumes "counted t1 a t2 b" "counted t2 b t3 c"
  shows "counted t1 a t3 c"
proof -
  obtain n m where "sent_only a n b" "t_bytes_sent t2 = t_bytes_sent t1 + n"
    "sent_only b m c" "t_bytes_sent t3 = t_bytes_sent t2 + m"
    using assms by (auto simp: counted_def)
  then have "sent_only a (n + m) c" "t_bytes_sent t3 = t_bytes_sent t1 + (n + m)"
    by (simp_all add: sent_only_def add.assoc)
  then show ?thesis using assms same_but_totals_trans by (auto simp: counted_def)
qed

lemma counted_light: "no_light b = no_light c \<Longrightarrow> counted test a test1 b \<Longrightarrow> counted test a test1 c"
  unfolding counted_def using sent_only_light by blast

lemma send_round_counted:
  assumes "send_round os check ms now test sp s = Some rd"
  shows "case rd of Leave ret t1 sp1 s1 \<Rightarrow> counted test sp t1 sp1
    | Go_on now1 t1 sp1 s1 \<Rightarrow> counted test sp t1 sp1"
proof -
  obtain r t1 sp1 s1 where sd: "stream_snd os test sp s = (r, t1, sp1, s1)" by (metis prod_cases4)
  note c = stream_snd_counts[OF sd]
  show ?thesis
  proof (cases "r < 0")
    case True
    then have "counted test sp t1 sp1" "counted test sp (t1\<lparr>t_i_errno := e\<rparr>) sp1" for e
      using c by (auto simp: counted_def intro: exI[of _ 0])
    with True sd assms show ?thesis by (auto simp: send_round_def split: if_split_asm)
  next
    case False
    then have ct: "counted test sp (add_sent r sp1 t1) sp1"
      using c by (auto simp: counted_def add_sent_def)
    obtain now1 s2 where nw: "(if ms = 0 then os_now os s1 else (now, s1)) = (now1, s2)" by fastforce
    show ?thesis
    proof (cases check)
      case True
      with False sd assms nw obtain sp2 s3 where
        "iperf_check_throttle os now1 (add_sent r sp1 t1) sp1 s2 = Some (sp2, s3)"
        "rd = Go_on now1 (add_sent r sp1 t1) sp2 s3"
        by (auto simp: send_round_def split: option.split_asm)
      with ct show ?thesis using counted_light[OF throttle_frame[symmetric]] by simp
    next
      case nocheck: False
      with False sd assms ct show ?thesis by (auto simp: send_round_def)
    qed
  qed
qed

lemma send_loop_counted:
  "send_loop os check m ms now test sp s = Some (ret, ms1, test1, sp1, s1) \<Longrightarrow> counted test sp test1 sp1"
proof (induction m arbitrary: ms now test sp s)
  case 0
  then show ?case by simp
next
  case (Suc m)
  show ?case
  proof (cases "sp_green_light sp = 0 \<or> enough_sent (Suc m) test")
    case True
    with Suc.prems show ?thesis by simp
  next
    case False
    with Suc.prems obtain rd where rd: "send_round os check ms now test sp s = Some rd"
      by (cases "send_round os check ms now test sp s") auto
    note ct = send_round_counted[OF rd]
    show ?thesis
    proof (cases rd)
      case (Leave ret t1 sp1 s1)
      with False rd ct Suc.prems show ?thesis by simp
    next
      case (Go_on now1 t2 sp2 s2)
      with False rd Suc.prems have "counted t2 sp2 test1 sp1" by (intro Suc.IH) simp
      with Go_on ct show ?thesis using counted_trans by fastforce
    qed
  qed
qed

lemma iperf_send_mt_counted:
  assumes "iperf_send_mt os test sp s = Some (r, test1, sp1, s1)"
  shows "counted test sp test1 sp1"
proof -
  define check where "check = (s_rate (t_settings test) \<noteq> 0 \<and> s_burst (t_settings test) = 0)"
  define k where "k = nat (if s_burst (t_settings test) \<noteq> 0 then s_burst (t_settings test)
    else if s_rate (t_settings test) = 0 then t_multisend test else 1)"
  note mt = assms[unfolded iperf_send_mt_def Let_def, folded check_def k_def]
  obtain ret ms t2 sp2 s2 where l: "send_loop os check k 0 zero_time test sp s = Some (ret, ms, t2, sp2, s2)"
    using mt by (cases "send_loop os check k 0 zero_time test sp s") auto
  have ct: "counted test sp t2 sp2" by (rule send_loop_counted[OF l])
  show ?thesis
  proof (cases ret)
    case (Some v)
    with mt l ct show ?thesis by simp
  next
    case None
    obtain now s3 where nw: "os_now os s2 = (now, s3)" by fastforce
    from mt l None nw ct show ?thesis
      by (auto split: if_split_asm option.split_asm intro: counted_light[OF throttle_frame[symmetric]])
  qed
qed

text \<open>Receiving: in the state TEST_RUNNING the stream counts what the test counts.\<close>

lemma iperf_tcp_recv_counts:
  "iperf_tcp_recv rd test sp s = (r, sp1, s1) \<Longrightarrow>
    received_only sp (if r > 0 \<and> t_state test = TEST_RUNNING then word_of_int r else 0) sp1"
  by (auto simp: iperf_tcp_recv_def Let_def received_only_def split: prod.split_asm if_split_asm)

lemma iperf_udp_recv_counts:
  "iperf_udp_recv rd a test sp s = (r, sp1, s1) \<Longrightarrow>
    received_only sp (if r > 0 \<and> t_state test = TEST_RUNNING then word_of_int r else 0) sp1"
  by (auto simp: iperf_udp_recv_def Let_def received_only_def udp_jitter_def udp_account_def
      split: prod.split_asm if_split_asm)

lemma net_rcv_counts:
  assumes "net_rcv os p test sp s = (r, sp1, s1)"
  shows "received_only sp (if r > 0 \<and> t_state test = TEST_RUNNING then word_of_int r else 0) sp1"
proof (cases "p = Udp_io")
  case True
  with assms obtain a s2 where "iperf_udp_recv (os_read os) a test sp s = (r, sp1, s2)"
    by (auto simp: net_rcv_def udp_recv_now_def split: prod.split_asm if_split_asm)
  then show ?thesis by (rule iperf_udp_recv_counts)
next
  case False
  with assms have "iperf_tcp_recv (os_read os) test sp s = (r, sp1, s1)" by (simp add: net_rcv_def)
  then show ?thesis by (rule iperf_tcp_recv_counts)
qed

lemma stream_rcv_counts:
  assumes "stream_rcv os test sp s = (r, sp1, s1)"
  shows "received_only sp (if r > 0 \<and> t_state test = TEST_RUNNING then word_of_int r else 0) sp1"
proof (cases "sp_rcv sp = Diskfile_io")
  case True
  with assms obtain s2 where "net_rcv os (sp_rcv2 sp) test sp s = (r, sp1, s2)"
    by (auto simp: stream_rcv_def diskfile_recv_def split: prod.split_asm if_split_asm)
  then show ?thesis by (rule net_rcv_counts)
next
  case False
  with assms have "net_rcv os (sp_rcv sp) test sp s = (r, sp1, s1)"
    by (cases "sp_rcv sp"; simp add: stream_rcv_def)
  then show ?thesis by (rule net_rcv_counts)
qed

lemma iperf_recv_mt_counted:
  assumes "iperf_recv_mt os test sp s = (r, test1, sp1, s1)"
  shows "\<exists>n. received_only sp (if t_state test = TEST_RUNNING then n else 0) sp1 \<and>
      t_bytes_received test1 = t_bytes_received test + n"
    "t_bytes_sent test1 = t_bytes_sent test \<and> same_but_totals test test1"
proof -
  obtain r2 sp2 s2 where rc: "stream_rcv os test sp s = (r2, sp2, s2)" by (metis prod_cases3)
  note c = stream_rcv_counts[OF rc]
  have "received_only sp (if t_state test = TEST_RUNNING then (if r2 > 0 then word_of_int r2 else 0) else 0) sp2"
    using c by (simp split: if_split_asm)
  moreover have "t_bytes_received test1 = t_bytes_received test + (if r2 > 0 then word_of_int r2 else 0)" "sp1 = sp2"
    using assms rc by (auto simp: iperf_recv_mt_def Let_def split: if_split_asm)
  ultimately show "\<exists>n. received_only sp (if t_state test = TEST_RUNNING then n else 0) sp1 \<and>
      t_bytes_received test1 = t_bytes_received test + n" by blast
  show "t_bytes_sent test1 = t_bytes_sent test \<and> same_but_totals test test1"
    using assms rc by (auto simp: iperf_recv_mt_def Let_def split: if_split_asm)
qed

section \<open>All streams of a test\<close>

text \<open>The steps of the worker threads on the streams of a test, and the end of the omit period. A
worker calls \<open>iperf_send_mt\<close> or \<open>iperf_recv_mt\<close> on its own stream; the calls of different threads
come in any order.\<close>

definition put_stream :: "nat \<Rightarrow> iperf_stream \<Rightarrow> iperf_test \<Rightarrow> iperf_test" where
  "put_stream i sp test = test\<lparr>t_streams := (t_streams test)[i := sp]\<rparr>"

inductive data_step :: "'s os \<Rightarrow> iperf_test \<times> 's \<Rightarrow> iperf_test \<times> 's \<Rightarrow> bool" for os where
  Send: "i < length (t_streams test) \<Longrightarrow>
     iperf_send_mt os test (t_streams test ! i) s = Some (r, test1, sp1, s1) \<Longrightarrow>
     data_step os (test, s) (put_stream i sp1 test1, s1)"
| Recv: "i < length (t_streams test) \<Longrightarrow>
     iperf_recv_mt os test (t_streams test ! i) s = (r, test1, sp1, s1) \<Longrightarrow>
     data_step os (test, s) (put_stream i sp1 test1, s1)"
| Omit_over: "data_step os (test, s) (iperf_reset_stats now tcpinfo test, s)"

inductive_cases data_step_cases: "data_step os (test, s) (test1, s1)"

definition sent_since_omit :: "iperf_stream \<Rightarrow> u64" where
  "sent_since_omit sp = rp_bytes_sent (sp_result sp) - rp_bytes_sent_omit (sp_result sp)"

definition received_by :: "iperf_stream \<Rightarrow> u64" where
  "received_by sp = rp_bytes_received (sp_result sp)"

definition totals_agree :: "iperf_test \<Rightarrow> bool" where
  "totals_agree test \<longleftrightarrow> t_bytes_sent test = sum_list (map sent_since_omit (t_streams test))"

lemma sum_list_update_word:
  fixes f :: "'a \<Rightarrow> 'b::ab_group_add"
  assumes "i < length xs"
  shows "sum_list (map f (xs[i := x])) = sum_list (map f xs) - f (xs ! i) + f x"
  using assms
proof (induction xs arbitrary: i)
  case (Cons a xs)
  then show ?case by (cases i) (auto simp: algebra_simps)
qed simp

lemma data_step_totals:
  assumes "data_step os (test, s) (test1, s1)" "totals_agree test"
  shows "totals_agree test1"
  using assms(1)
proof (rule data_step_cases)
  fix i r t2 sp2
  assume Send: "test1 = put_stream i sp2 t2" "i < length (t_streams test)"
    "iperf_send_mt os test (t_streams test ! i) s = Some (r, t2, sp2, s1)"
  note ct = iperf_send_mt_counted[OF Send(3)]
  then obtain n where n: "sent_only (t_streams test ! i) n sp2" "t_bytes_sent t2 = t_bytes_sent test + n"
    by (auto simp: counted_def)
  have "t_streams t2 = t_streams test" using ct same_but_totals_fields(2) by (auto simp: counted_def)
  with Send(1,2) n assms(2) show "totals_agree test1"
    by (simp add: totals_agree_def put_stream_def sum_list_update_word sent_since_omit_def sent_only_def)
next
  fix i r t2 sp2
  assume Recv: "test1 = put_stream i sp2 t2" "i < length (t_streams test)"
    "iperf_recv_mt os test (t_streams test ! i) s = (r, t2, sp2, s1)"
  note c = iperf_recv_mt_counted[OF Recv(3)]
  have "t_streams t2 = t_streams test" using c(2) same_but_totals_fields(2) by blast
  with Recv(1,2) c assms(2) show "totals_agree test1"
    by (auto simp: totals_agree_def put_stream_def sum_list_update_word sent_since_omit_def received_only_def)
next
  fix now tcpinfo
  assume Omit_over: "test1 = iperf_reset_stats now tcpinfo test" "s1 = s"
  have "sent_since_omit (reset_stream_stats a now tcpinfo sp) = 0" for a sp
    by (simp add: sent_since_omit_def reset_stream_stats_def Let_def)
  then have "sum_list (map (sent_since_omit \<circ> reset_stream_stats a now tcpinfo) xs) = 0" for a xs
    by (induction xs) auto
  with Omit_over show "totals_agree test1" by (simp add: totals_agree_def iperf_reset_stats_def)
qed

text \<open>C8: the test's total of bytes sent is the sum over its streams, whatever the threads do: from a
state where it is (in particular a fresh test), every sequence of bursts, receives and ends of the
omit period, on any streams in any order, over TCP, UDP or from a file, leaves
\<open>test->bytes_sent\<close> equal to the sum of the bytes each stream has sent since its omit period.\<close>

theorem totals_of_streams:
  assumes "(data_step os)\<^sup>*\<^sup>* (test, s) (test1, s1)" "totals_agree test"
  shows "t_bytes_sent test1 = sum_list (map sent_since_omit (t_streams test1))"
proof -
  have "totals_agree (fst b)" if "(data_step os)\<^sup>*\<^sup>* a b" "totals_agree (fst a)" for a b
    using that by (induction rule: rtranclp_induct) (auto intro: data_step_totals)
  from this[OF assms(1)] assms(2) show ?thesis by (simp add: totals_agree_def)
qed

subsection \<open>The limit on the amount of data\<close>

text \<open>A system whose \<open>write\<close> never reports more than it was given; nothing else is asked of it.\<close>

lemma nwrite_loop_le: "nwrite_loop wr cnt rest s = (r, s1) \<Longrightarrow> cnt < 2 ^ 31 \<Longrightarrow> r \<le> int cnt"
proof (induction wr cnt rest s rule: nwrite_loop.induct)
  case (1 wr cnt rest s)
  have id: "to_int32 (int n) = int n" if "n \<le> cnt" for n
    using that "1.prems"(2) by (intro to_int32_id) auto
  note e = "1.prems"(1)[unfolded nwrite_loop.simps[of wr cnt rest s]]
  obtain w s2 where w: "wr rest s = (w, s2)" by fastforce
  show ?case
  proof (cases w)
    case (Wrote n)
    then show ?thesis using e w id[of cnt] "1.IH"[OF _ w[symmetric] Wrote] "1.prems"(2)
      by (auto split: if_split_asm)
  next
    case (W_error er)
    with e w id[of cnt] id[of "cnt - length rest"] show ?thesis by (auto split: if_split_asm)
  qed
qed

lemma Nwrite_le: "Nwrite wr buf s = (r, s1) \<Longrightarrow> length buf < 2 ^ 31 \<Longrightarrow> r \<le> int (length buf)"
  unfolding Nwrite_def by (rule nwrite_loop_le)

definition block_stream :: "nat \<Rightarrow> iperf_stream \<Rightarrow> bool" where
  "block_stream b sp \<longleftrightarrow> sp_snd sp \<noteq> Diskfile_io \<and> length (sp_buffer sp) = b \<and> 16 \<le> b \<and> b < 2 ^ 31"

lemma iperf_tcp_send_block:
  assumes "iperf_tcp_send wr test sp s = (r, sp1, s1)" "block_stream b sp"
  shows "block_stream b sp1 \<and> r \<le> int b"
proof -
  define sp0 where "sp0 = (if sp_pending_size sp = 0
    then sp\<lparr>sp_pending_size := s_blksize (t_settings test)\<rparr> else sp)"
  define buf where "buf = take (nat (sp_pending_size sp0)) (sp_buffer sp0)"
  have len: "length buf \<le> b" "b < 2 ^ 31" using assms(2) by (auto simp: buf_def sp0_def block_stream_def)
  obtain r2 s2 where w: "(if c_true (t_zerocopy test) then Nsendfile buf s else Nwrite wr buf s) = (r2, s2)"
    by fastforce
  have "r2 \<le> int b"
  proof (cases "c_true (t_zerocopy test)")
    case True
    with w show ?thesis by (simp add: Nsendfile_def)
  next
    case False
    with w len Nwrite_le[of wr buf s r2 s2] show ?thesis by simp
  qed
  moreover have "r = r2" "sp_snd sp1 = sp_snd sp" "sp_buffer sp1 = sp_buffer sp"
    using assms(1) w by (auto simp: iperf_tcp_send_def Let_def buf_def sp0_def split: if_split_asm)
  ultimately show ?thesis using assms(2) by (simp add: block_stream_def)
qed

lemma iperf_udp_send_block:
  assumes "iperf_udp_send wr t test sp s = (r, sp1, s1)" "block_stream b sp"
  shows "block_stream b sp1 \<and> r \<le> int b"
proof -
  let ?h = "udp_header (c_true (t_udp_counters_64bit test)) t (sp_packet_count sp + 1)"
  define buf where "buf = overwrite ?h (sp_buffer sp)"
  have len: "length buf = b" "b < 2 ^ 31"
    using assms(2) length_udp_header[of "c_true (t_udp_counters_64bit test)" t "sp_packet_count sp + 1"]
    by (simp_all add: buf_def block_stream_def length_overwrite)
  obtain r2 s2 where w: "Nwrite wr (take (nat (s_blksize (t_settings test))) buf) s = (r2, s2)" by fastforce
  have "length (take (nat (s_blksize (t_settings test))) buf) \<le> b" using len by simp
  with Nwrite_le[OF w] len(2) have "r2 \<le> int b" by linarith
  moreover have "r = r2" "sp_snd sp1 = sp_snd sp" "sp_buffer sp1 = buf"
    using assms(1) w by (auto simp: iperf_udp_send_def Let_def buf_def split: if_split_asm)
  ultimately show ?thesis using assms(2) len by (simp add: block_stream_def)
qed

lemma stream_snd_block:
  assumes "stream_snd os test sp s = (r, test1, sp1, s1)" "block_stream b sp"
  shows "block_stream b sp1 \<and> r \<le> int b"
proof -
  have nf: "sp_snd sp \<noteq> Diskfile_io" using assms(2) by (simp add: block_stream_def)
  obtain r2 sp2 s2 where "net_snd os (sp_snd sp) test sp s = (r2, sp2, s2)" by (metis prod_cases3)
  with nf assms(1) have ns: "net_snd os (sp_snd sp) test sp s = (r, sp1, s1)"
    by (cases "sp_snd sp"; simp add: stream_snd_def)+
  show ?thesis
  proof (cases "sp_snd sp = Udp_io")
    case True
    obtain t s0 where "os_now os s = (t, s0)" by fastforce
    with True ns have "iperf_udp_send (os_write os) t test sp s0 = (r, sp1, s1)"
      by (simp add: net_snd_def udp_send_now_def)
    then show ?thesis using assms(2) by (rule iperf_udp_send_block)
  next
    case False
    with ns have "iperf_tcp_send (os_write os) test sp s = (r, sp1, s1)" by (simp add: net_snd_def)
    then show ?thesis using assms(2) by (rule iperf_tcp_send_block)
  qed
qed

lemma block_stream_light: "no_light a = no_light c \<Longrightarrow> block_stream b a = block_stream b c"
  using no_light_fields[of a c] by (simp add: block_stream_def)

lemma add_word_bound:
  fixes w :: u64
  assumes "0 \<le> r" "r \<le> int b" "unat w + b < 2 ^ 64"
  shows "unat (w + word_of_int r) \<le> unat w + b"
proof -
  have "word_of_int r = (of_nat (nat r) :: u64)" using assms(1) by (metis int_nat_eq of_int_of_nat_eq)
  then have "unat (word_of_int r :: u64) = nat r mod 2 ^ 64" by (simp add: unat_of_nat)
  also have "\<dots> \<le> nat r" by simp
  finally have "unat (word_of_int r :: u64) \<le> b" using assms(2) by linarith
  moreover have "unat (w + word_of_int r) \<le> unat w + unat (word_of_int r :: u64)"
    by (simp only: unat_word_ariths mod_less_eq_dividend)
  ultimately show ?thesis by linarith
qed

lemma send_round_bytes:
  assumes "send_round os check ms now test sp s = Some rd" "block_stream b sp"
    and "unat (t_bytes_sent test) + b < 2 ^ 64"
  shows "case rd of
      Leave ret t1 sp1 s1 \<Rightarrow> t_bytes_sent t1 = t_bytes_sent test
    | Go_on now1 t1 sp1 s1 \<Rightarrow> unat (t_bytes_sent t1) \<le> unat (t_bytes_sent test) + b \<and>
        block_stream b sp1 \<and> t_settings t1 = t_settings test"
proof -
  obtain r t1 sp1 s1 where sd: "stream_snd os test sp s = (r, t1, sp1, s1)" by (metis prod_cases4)
  note c = stream_snd_counts[OF sd] and bl = stream_snd_block[OF sd assms(2)]
  show ?thesis
  proof (cases "r < 0")
    case True
    with sd assms(1) c show ?thesis by (auto simp: send_round_def split: if_split_asm)
  next
    case False
    have st: "t_settings (add_sent r sp1 t1) = t_settings test"
      using c same_but_totals_fields(1) by (auto simp: add_sent_def)
    have bd: "unat (t_bytes_sent (add_sent r sp1 t1)) \<le> unat (t_bytes_sent test) + b"
      using False c bl add_word_bound[OF _ _ assms(3), of r] by (simp add: add_sent_def)
    obtain now1 s2 where nw: "(if ms = 0 then os_now os s1 else (now, s1)) = (now1, s2)" by fastforce
    show ?thesis
    proof (cases check)
      case True
      with False sd assms(1) nw obtain sp2 s3 where
        "iperf_check_throttle os now1 (add_sent r sp1 t1) sp1 s2 = Some (sp2, s3)"
        "rd = Go_on now1 (add_sent r sp1 t1) sp2 s3"
        by (auto simp: send_round_def split: option.split_asm)
      moreover from this(1) have "block_stream b sp2 = block_stream b sp1"
        by (intro block_stream_light throttle_frame)
      ultimately show ?thesis using st bd bl by simp
    next
      case nocheck: False
      with False sd assms(1) st bd bl show ?thesis by (auto simp: send_round_def)
    qed
  qed
qed

lemma send_loop_bytes:
  assumes "send_loop os check m ms now test sp s = Some (ret, ms1, test1, sp1, s1)" "block_stream b sp"
    and "s_bytes (t_settings test) = limit" "limit \<noteq> 0" "unat limit + 2 * b < 2 ^ 64"
    and "unat (t_bytes_sent test) < unat limit + b"
  shows "unat (t_bytes_sent test1) < unat limit + 2 * b"
  using assms
proof (induction m arbitrary: ms now test sp s)
  case 0
  then show ?case by simp
next
  case (Suc m)
  show ?case
  proof (cases "sp_green_light sp = 0 \<or> enough_sent (Suc m) test")
    case True
    with Suc.prems show ?thesis by auto
  next
    case False
    with Suc.prems obtain rd where rd: "send_round os check ms now test sp s = Some rd"
      by (cases "send_round os check ms now test sp s") auto
    have "unat (t_bytes_sent test) + b < 2 ^ 64" using Suc.prems(5,6) by linarith
    note rb = send_round_bytes[OF rd Suc.prems(2) this]
    show ?thesis
    proof (cases rd)
      case (Leave ret t1 sp1 s1)
      with False rd rb Suc.prems show ?thesis by simp
    next
      case (Go_on now1 t2 sp2 s2)
      with False rd Suc.prems have lp: "send_loop os check m 1 now1 t2 sp2 s2 = Some (ret, ms1, test1, sp1, s1)"
        by simp
      show ?thesis
      proof (cases m)
        case 0
        with lp rb Go_on Suc.prems(6) show ?thesis by auto
      next
        case (Suc k)
        with False Suc.prems(3,4) have "t_bytes_sent test < limit" by (auto simp: enough_sent_def)
        then have "unat (t_bytes_sent test) < unat limit" by (simp add: word_less_nat_alt)
        with rb Go_on have "unat (t_bytes_sent t2) < unat limit + b" by simp
        with Suc.IH[OF lp] rb Go_on Suc.prems show ?thesis by simp
      qed
    qed
  qed
qed


section \<open>Examples\<close>

text \<open>A system that takes every write whole, and a sender of 16-byte blocks with the limit \<open>-n 40\<close>.\<close>

definition demo_os :: "unit os" where
  "demo_os = \<lparr>os_write = (\<lambda>bs s. (Wrote (length bs), s)), os_read = (\<lambda>n s. (R_error EAGAIN, s)),
     os_now = (\<lambda>s. (zero_time, s)), os_file_read = (\<lambda>n s. (Got [], s)),
     os_file_write = (\<lambda>bs s. (Wrote (length bs), s)), os_nanosleep = (\<lambda>n s. (0, s))\<rparr>"

definition demo_stream :: iperf_stream where
  "demo_stream = zero_stream\<lparr>sp_buffer := replicate 16 0, sp_green_light := 1, sp_id := 1\<rparr>"

definition demo_test :: iperf_test where
  "demo_test = upd_settings (\<lambda>s. s\<lparr>s_blksize := 16, s_bytes := 40\<rparr>)
     (zero_test\<lparr>t_multisend := 10, t_streams := [demo_stream]\<rparr>)"

lemma demo_burst:
  "case iperf_send_mt demo_os demo_test demo_stream () of None \<Rightarrow> False
   | Some (r, test1, sp1, s1) \<Rightarrow> r = 0 \<and> t_bytes_sent test1 = 48 \<and> t_streams test1 = [demo_stream]"
  by code_simp


theorem totals_of_streams_witness:
  "\<exists>test1. (data_step demo_os)\<^sup>*\<^sup>* (demo_test, ()) (test1, ()) \<and> t_bytes_sent test1 = 48 \<and>
    t_bytes_sent test1 = sum_list (map sent_since_omit (t_streams test1))"
proof -
  obtain test1 sp1 where r: "iperf_send_mt demo_os demo_test demo_stream () = Some (0, test1, sp1, ())"
    "t_bytes_sent test1 = 48"
    using demo_burst by (auto split: option.split_asm)
  have "t_streams demo_test = [demo_stream]" by (simp add: demo_test_def upd_settings_def)
  then have "data_step demo_os (demo_test, ()) (put_stream 0 sp1 test1, ())"
    using r(1) by (intro Send) auto
  then have st: "(data_step demo_os)\<^sup>*\<^sup>* (demo_test, ()) (put_stream 0 sp1 test1, ())" by (rule r_into_rtranclp)
  have "totals_agree demo_test"
    by (simp add: totals_agree_def demo_test_def upd_settings_def demo_stream_def zero_test_def zero_stream_def
        zero_result_def sent_since_omit_def)
  from totals_of_streams[OF st this] st r(2) show ?thesis
    by (intro exI[of _ "put_stream 0 sp1 test1"]) (simp add: put_stream_def)
qed

end
