(* ===== verification/Stats.thy ===== *)
theory Stats
  imports Streams
begin

text \<open>
  The statistics of \<open>iperf_api.c\<close>: \<open>iperf_stats_callback\<close>, which makes one interval result per stream
  and starts the next interval, and \<open>iperf_check_total_rate\<close>, which keeps the last intervals of a
  server in a cyclic array. The cyclic array is shown to be the sliding window it stands for.
\<close>

section \<open>Interval results\<close>

text \<open>The list keeps only the last interval.\<close>

definition add_to_interval_list :: "iperf_interval_results \<Rightarrow> iperf_stream_result \<Rightarrow> iperf_stream_result" where
  "add_to_interval_list new rp =
     (let old = rp_interval_results rp;
          kept = (if old = [] then [] else butlast old)
      in rp\<lparr>rp_interval_results := kept @ [new]\<rparr>)"

definition last_interval :: "iperf_stream_result \<Rightarrow> iperf_interval_results option" where
  "last_interval rp =
     (if rp_interval_results rp = [] then None else Some (last (rp_interval_results rp)))"

text \<open>The times of the interval. \<open>interval_duration\<close> is a \<open>float\<close>.\<close>

definition interval_times ::
  "iperf_time \<Rightarrow> iperf_stream_result \<Rightarrow> iperf_interval_results \<Rightarrow> iperf_stream_result \<times> iperf_interval_results" where
  "interval_times now rp temp =
     (let start = (case last_interval rp of Some irp \<Rightarrow> rp_end_time rp | None \<Rightarrow> rp_start_time rp)
      in (rp\<lparr>rp_end_time := now\<rparr>,
          temp\<lparr>irp_interval_start_time := start, irp_interval_end_time := now,
               irp_interval_duration := fl32 (iperf_time_in_secs (snd (iperf_time_diff start now)))\<rparr>))"

text \<open>The TCP part: \<open>sockopt\<close> is what \<open>getsockopt (TCP_INFO)\<close> gives.\<close>

definition tcp_interval ::
  "tcp_info option \<Rightarrow> int \<Rightarrow> iperf_stream_result \<Rightarrow> iperf_interval_results
   \<Rightarrow> iperf_stream_result \<times> iperf_interval_results" where
  "tcp_interval sockopt has_retransmits rp temp0 =
     (let temp = save_tcpinfo sockopt temp0
      in if has_retransmits \<noteq> 1 then (rp, temp)
         else
           (let total_retrans = get_total_retransmits temp;
                retrans = total_retrans - rp_stream_prev_total_retrans rp;
                cwnd = get_snd_cwnd temp; wnd = get_snd_wnd temp; rtt = get_rtt temp
            in (rp\<lparr>rp_stream_retrans := rp_stream_retrans rp + retrans,
                  rp_stream_prev_total_retrans := total_retrans,
                  rp_stream_max_snd_cwnd := max cwnd (rp_stream_max_snd_cwnd rp),
                  rp_stream_max_snd_wnd := max wnd (rp_stream_max_snd_wnd rp),
                  rp_stream_max_rtt := max rtt (rp_stream_max_rtt rp),
                  rp_stream_min_rtt := (if rp_stream_min_rtt rp = 0 \<or> rtt < rp_stream_min_rtt rp
                                        then rtt else rp_stream_min_rtt rp),
                  rp_stream_sum_rtt := rp_stream_sum_rtt rp + rtt,
                  rp_stream_count_rtt := rp_stream_count_rtt rp + 1\<rparr>,
                temp\<lparr>irp_interval_retrans := retrans, irp_snd_cwnd := cwnd, irp_snd_wnd := wnd,
                     irp_rtt := rtt, irp_rttvar := get_rttvar temp, irp_pmtu := get_pmtu temp\<rparr>)))"

text \<open>The UDP part: the differences to the interval before.\<close>

definition udp_interval ::
  "iperf_stream \<Rightarrow> iperf_interval_results option \<Rightarrow> iperf_interval_results \<Rightarrow> iperf_interval_results" where
  "udp_interval sp irp temp =
     (let (p, oo, ce) = (case irp of None \<Rightarrow> (0, 0, 0)
                         | Some i \<Rightarrow> (irp_packet_count i, irp_outoforder_packets i, irp_cnt_error i))
      in temp\<lparr>irp_interval_packet_count := sp_packet_count sp - p,
              irp_interval_outoforder_packets := sp_outoforder_packets sp - oo,
              irp_interval_cnt_error := sp_cnt_error sp - ce,
              irp_packet_count := sp_packet_count sp, irp_jitter := sp_jitter sp,
              irp_outoforder_packets := sp_outoforder_packets sp, irp_cnt_error := sp_cnt_error sp\<rparr>)"

text \<open>One stream: making its interval result, with the variable \<open>temp\<close> the streams share, and
starting the next interval.\<close>

definition record_interval ::
  "iperf_test \<Rightarrow> iperf_time \<Rightarrow> tcp_info option \<Rightarrow> iperf_stream \<Rightarrow> iperf_interval_results
   \<Rightarrow> iperf_stream \<times> iperf_interval_results" where
  "record_interval test now sockopt sp temp0 =
     (let rp = sp_result sp;
          irp = last_interval rp;
          temp1 = temp0\<lparr>irp_bytes_transferred :=
                    (if c_true (sp_sender sp) then rp_bytes_sent_this_interval rp
                     else rp_bytes_received_this_interval rp)\<rparr>;
          (rp1, temp2) = interval_times now rp temp1;
          (rp2, temp3) = (if t_protocol test = Ptcp
                          then (if c_true has_tcpinfo
                                then tcp_interval sockopt (t_sender_has_retransmits test) rp1 temp2
                                else (rp1, temp2))
                          else (rp1, udp_interval sp irp temp2))
      in (sp\<lparr>sp_result := add_to_interval_list temp3 rp2\<rparr>, temp3))"

definition clear_interval :: "iperf_stream \<Rightarrow> iperf_stream" where
  "clear_interval sp =
     sp\<lparr>sp_result := (sp_result sp)\<lparr>rp_bytes_sent_this_interval := 0,
                                   rp_bytes_received_this_interval := 0\<rparr>\<rparr>"

text \<open>The loop over the streams: the new streams and the total of the interval.\<close>

fun stats_loop ::
  "iperf_test \<Rightarrow> (int \<Rightarrow> iperf_time) \<Rightarrow> (int \<Rightarrow> tcp_info option) \<Rightarrow> iperf_stream list
   \<Rightarrow> iperf_interval_results \<Rightarrow> u64 \<Rightarrow> iperf_stream list \<times> u64" where
  "stats_loop test now sockopt [] temp tot = ([], tot)"
| "stats_loop test now sockopt (sp # sps) temp tot =
     (let tot1 = tot + (rp_bytes_sent_this_interval (sp_result sp) +
                            rp_bytes_received_this_interval (sp_result sp));
          (sp1, temp1) = record_interval test (now (sp_id sp)) (sockopt (sp_socket sp)) sp temp;
          (sps1, tot2) = stats_loop test now sockopt sps temp1 tot1
      in (clear_interval sp1 # sps1, tot2))"

section \<open>The limit on the total rate\<close>

text \<open>\<open>iperf_check_total_rate\<close>. \<open>None\<close> where the array is accessed out of its bounds or the average
does not fit its type (in particular after a division by zero).\<close>

definition average_rate :: "iperf_test \<Rightarrow> u64 \<Rightarrow> u64 option" where
  "average_rate test total_bytes =
     (let seconds = dmul (t_stats_interval test)
                      (dbl_of_int (s_bitrate_limit_stats_per_interval (t_settings test)))
      in if seconds = 0 then None else dbl_to_u64 (ddiv (dbl_of_u64 (total_bytes * 8)) seconds))"

definition check_average :: "u64 \<Rightarrow> iperf_test \<Rightarrow> iperf_test option" where
  "check_average total_bytes test =
     (case average_rate test total_bytes of
        None \<Rightarrow> None
      | Some bits_per_second \<Rightarrow>
          Some (if bits_per_second > s_bitrate_limit (t_settings test)
                then test\<lparr>t_bitrate_limit_exceeded := 1\<rparr> else test))"

definition iperf_check_total_rate :: "u64 \<Rightarrow> iperf_test \<Rightarrow> iperf_test option" where
  "iperf_check_total_rate last_interval_bytes_transferred test =
     (let per = s_bitrate_limit_stats_per_interval (t_settings test);
          next_index = t_bitrate_limit_last_interval_index test + 1;
          index = (if next_index \<ge> word_of_int per then 0 else next_index);
          cells = t_bitrate_limit_intervals_traffic_bytes test;
          stats_count = t_bitrate_limit_stats_count test + 1
      in if t_done test \<noteq> 0 \<or> s_bitrate_limit (t_settings test) = 0 then Some test
         else if length cells \<le> unat index then None
         else
           (let cells1 = cells[unat index := last_interval_bytes_transferred];
                test1 = test\<lparr>t_bitrate_limit_last_interval_index := index,
                             t_bitrate_limit_intervals_traffic_bytes := cells1,
                             t_bitrate_limit_stats_count := stats_count\<rparr>
            in if stats_count < word_of_int per then Some test1
               else if length cells < nat per then None
               else check_average (sum_list (take (nat per) cells1)) test1))"

definition iperf_stats_callback ::
  "(int \<Rightarrow> iperf_time) \<Rightarrow> (int \<Rightarrow> tcp_info option) \<Rightarrow> iperf_interval_results \<Rightarrow> iperf_test
   \<Rightarrow> iperf_test option" where
  "iperf_stats_callback now sockopt temp0 test =
     (let temp = temp0\<lparr>irp_omitted := t_omitting test, irp_rtt := 0, irp_rttvar := 0, irp_pmtu := 0\<rparr>;
          (sps, tot) = stats_loop test now sockopt (t_streams test) temp 0;
          test1 = test\<lparr>t_streams := sps\<rparr>
      in if t_role test = CHR ''s'' then iperf_check_total_rate tot test1 else Some test1)"

section \<open>The intervals add up\<close>

definition this_interval :: "iperf_stream \<Rightarrow> u64" where
  "this_interval sp =
     (if c_true (sp_sender sp) then rp_bytes_sent_this_interval (sp_result sp)
      else rp_bytes_received_this_interval (sp_result sp))"

definition all_bytes :: "iperf_stream \<Rightarrow> u64" where
  "all_bytes sp =
     (if c_true (sp_sender sp) then rp_bytes_sent (sp_result sp) else rp_bytes_received (sp_result sp))"

text \<open>The bytes of the interval result at the end of the list.\<close>

definition reported_bytes :: "iperf_stream \<Rightarrow> u64" where
  "reported_bytes sp =
     (case last_interval (sp_result sp) of None \<Rightarrow> 0 | Some irp \<Rightarrow> irp_bytes_transferred irp)"

lemma last_interval_add [simp]: "last_interval (add_to_interval_list new rp) = Some new"
  by (simp add: last_interval_def add_to_interval_list_def Let_def)

lemma add_to_interval_list_frame [simp]:
  "rp_bytes_sent (add_to_interval_list new rp) = rp_bytes_sent rp"
  "rp_bytes_received (add_to_interval_list new rp) = rp_bytes_received rp"
  "rp_bytes_sent_this_interval (add_to_interval_list new rp) = rp_bytes_sent_this_interval rp"
  "rp_bytes_received_this_interval (add_to_interval_list new rp) = rp_bytes_received_this_interval rp"
  "rp_end_time (add_to_interval_list new rp) = rp_end_time rp"
  by (simp_all add: add_to_interval_list_def Let_def)

definition same_bytes :: "iperf_stream_result \<Rightarrow> iperf_stream_result \<Rightarrow> bool" where
  "same_bytes a b \<longleftrightarrow> rp_bytes_sent b = rp_bytes_sent a \<and> rp_bytes_received b = rp_bytes_received a"

lemma interval_times_frame:
  "interval_times now rp temp = (rp1, temp1) \<Longrightarrow>
    same_bytes rp rp1 \<and> irp_bytes_transferred temp1 = irp_bytes_transferred temp"
  by (auto simp: interval_times_def Let_def same_bytes_def)

lemma tcp_interval_frame:
  "tcp_interval so h rp temp = (rp1, temp1) \<Longrightarrow>
    same_bytes rp rp1 \<and> irp_bytes_transferred temp1 = irp_bytes_transferred temp"
  by (cases so) (auto simp: tcp_interval_def Let_def same_bytes_def save_tcpinfo_def split: if_split_asm)

lemma udp_interval_frame: "irp_bytes_transferred (udp_interval sp irp temp) = irp_bytes_transferred temp"
  by (cases irp) (simp_all add: udp_interval_def)

lemma record_interval_frame:
  assumes "record_interval test now sockopt sp temp0 = (sp1, temp1)"
  shows "reported_bytes sp1 = this_interval sp" "all_bytes sp1 = all_bytes sp"
    "sp_sender sp1 = sp_sender sp"
proof -
  let ?t = "temp0\<lparr>irp_bytes_transferred := (if c_true (sp_sender sp) then rp_bytes_sent_this_interval (sp_result sp)
      else rp_bytes_received_this_interval (sp_result sp))\<rparr>"
  obtain rp1 t2 where 1: "interval_times now (sp_result sp) ?t = (rp1, t2)" by fastforce
  obtain rp2 t3 where 2: "(if t_protocol test = Ptcp
      then (if c_true has_tcpinfo then tcp_interval sockopt (t_sender_has_retransmits test) rp1 t2 else (rp1, t2))
      else (rp1, udp_interval sp (last_interval (sp_result sp)) t2)) = (rp2, t3)" by fastforce
  have f2: "same_bytes rp1 rp2 \<and> irp_bytes_transferred t3 = irp_bytes_transferred t2"
  proof (cases "t_protocol test = Ptcp \<and> c_true has_tcpinfo")
    case True
    with 2 show ?thesis by (auto dest: tcp_interval_frame)
  next
    case False
    with 2 show ?thesis by (auto simp: same_bytes_def udp_interval_frame split: if_split_asm)
  qed
  have sp1: "sp1 = sp\<lparr>sp_result := add_to_interval_list t3 rp2\<rparr>"
    using assms unfolding record_interval_def Let_def 1 prod.case 2 by auto
  show "reported_bytes sp1 = this_interval sp" "all_bytes sp1 = all_bytes sp" "sp_sender sp1 = sp_sender sp"
    using f2 interval_times_frame[OF 1] unfolding sp1
    by (simp_all add: reported_bytes_def this_interval_def all_bytes_def same_bytes_def)
qed

lemma clear_interval_frame [simp]:
  "reported_bytes (clear_interval sp) = reported_bytes sp" "all_bytes (clear_interval sp) = all_bytes sp"
  "this_interval (clear_interval sp) = 0" "sp_sender (clear_interval sp) = sp_sender sp"
  by (simp_all add: clear_interval_def reported_bytes_def all_bytes_def this_interval_def last_interval_def)

lemma stats_loop_nth:
  "length (fst (stats_loop test now sockopt sps temp tot)) = length sps \<and>
   (\<forall>i < length sps. reported_bytes (fst (stats_loop test now sockopt sps temp tot) ! i) = this_interval (sps ! i) \<and>
      all_bytes (fst (stats_loop test now sockopt sps temp tot) ! i) = all_bytes (sps ! i) \<and>
      this_interval (fst (stats_loop test now sockopt sps temp tot) ! i) = 0)"
proof (induction sps arbitrary: temp tot)
  case (Cons sp sps)
  obtain sp1 temp1 where r: "record_interval test (now (sp_id sp)) (sockopt (sp_socket sp)) sp temp = (sp1, temp1)"
    by fastforce
  note fr = record_interval_frame[OF r]
  let ?tot1 = "tot + (rp_bytes_sent_this_interval (sp_result sp) + rp_bytes_received_this_interval (sp_result sp))"
  obtain sps1 tot2 where l: "stats_loop test now sockopt sps temp1 ?tot1 = (sps1, tot2)" by fastforce
  have eq: "fst (stats_loop test now sockopt (sp # sps) temp tot) = clear_interval sp1 # sps1"
    by (simp add: r l Let_def)
  note IH = Cons.IH[of temp1 ?tot1, unfolded l fst_conv]
  show ?case unfolding eq
  proof (intro conjI allI impI)
    show "length (clear_interval sp1 # sps1) = length (sp # sps)" using IH by simp
  next
    fix i assume "i < length (sp # sps)"
    then show "reported_bytes ((clear_interval sp1 # sps1) ! i) = this_interval ((sp # sps) ! i)"
      "all_bytes ((clear_interval sp1 # sps1) ! i) = all_bytes ((sp # sps) ! i)"
      "this_interval ((clear_interval sp1 # sps1) ! i) = 0"
      using IH fr by (cases i; simp)+
  qed
qed simp

lemma check_total_rate_streams:
  "iperf_check_total_rate b test = Some test1 \<Longrightarrow> t_streams test1 = t_streams test"
  by (auto simp: iperf_check_total_rate_def check_average_def Let_def split: if_split_asm option.split_asm)

text \<open>The threads and the timer: bursts, receives and interval results, with a ledger of the bytes
the interval results of each stream have reported.\<close>

inductive report_step ::
  "'s os \<Rightarrow> iperf_test \<times> 's \<times> (nat \<Rightarrow> u64) \<Rightarrow> iperf_test \<times> 's \<times> (nat \<Rightarrow> u64) \<Rightarrow> bool" for os where
  Send: "i < length (t_streams test) \<Longrightarrow>
     iperf_send_mt os test (t_streams test ! i) s = Some (r, test1, sp1, s1) \<Longrightarrow>
     report_step os (test, s, ledger) (put_stream i sp1 test1, s1, ledger)"
| Recv: "i < length (t_streams test) \<Longrightarrow>
     iperf_recv_mt os test (t_streams test ! i) s = (r, test1, sp1, s1) \<Longrightarrow>
     report_step os (test, s, ledger) (put_stream i sp1 test1, s1, ledger)"
| Report: "iperf_stats_callback now sockopt temp test = Some test1 \<Longrightarrow>
     report_step os (test, s, ledger) (test1, s, \<lambda>i. ledger i + reported_bytes (t_streams test1 ! i))"

definition ledger_ok :: "iperf_test \<Rightarrow> (nat \<Rightarrow> u64) \<Rightarrow> bool" where
  "ledger_ok test ledger \<longleftrightarrow>
     (\<forall>i < length (t_streams test). ledger i + this_interval (t_streams test ! i) = all_bytes (t_streams test ! i))"

lemma sent_only_bytes:
  assumes "sent_only sp n sp1"
  shows "l + this_interval sp1 = all_bytes sp1 \<longleftrightarrow> l + this_interval sp = all_bytes sp"
  using assms by (auto simp: sent_only_def this_interval_def all_bytes_def add.assoc[symmetric])

lemma received_only_bytes:
  assumes "received_only sp n sp1"
  shows "l + this_interval sp1 = all_bytes sp1 \<longleftrightarrow> l + this_interval sp = all_bytes sp"
  using assms by (auto simp: received_only_def this_interval_def all_bytes_def add.assoc[symmetric])

lemma put_stream_ledger:
  assumes "ledger_ok test ledger" "t_streams test1 = t_streams test" "i < length (t_streams test)"
    and "\<And>l. l + this_interval sp1 = all_bytes sp1 \<longleftrightarrow>
      l + this_interval (t_streams test ! i) = all_bytes (t_streams test ! i)"
  shows "ledger_ok (put_stream i sp1 test1) ledger"
  using assms by (auto simp: ledger_ok_def put_stream_def nth_list_update)

lemma report_step_ledger:
  "report_step os (test, s, ledger) (test1, s1, ledger1) \<Longrightarrow> ledger_ok test ledger \<Longrightarrow> ledger_ok test1 ledger1"
proof (induction "(test, s, ledger)" "(test1, s1, ledger1)" arbitrary: rule: report_step.induct)
  case (Send i r t2 sp2)
  note ct = iperf_send_mt_counted[OF Send(2)]
  then obtain n where n: "sent_only (t_streams test ! i) n sp2" by (auto simp: counted_def)
  have "t_streams t2 = t_streams test" using ct same_but_totals_fields(2) by (auto simp: counted_def)
  then show ?case using put_stream_ledger[OF Send(5) _ Send(1)] sent_only_bytes[OF n] Send(3,4) by auto
next
  case (Recv i r t2 sp2)
  note c = iperf_recv_mt_counted[OF Recv(2)]
  then obtain n where n: "received_only (t_streams test ! i) n sp2" by blast
  have "t_streams t2 = t_streams test" using c(2) same_but_totals_fields(2) by blast
  then show ?case using put_stream_ledger[OF Recv(5) _ Recv(1)] received_only_bytes[OF n] Recv(3,4) by auto
next
  case (Report now sockopt temp)
  define sps where "sps = fst (stats_loop test now sockopt (t_streams test)
      (temp\<lparr>irp_omitted := t_omitting test, irp_rtt := 0, irp_rttvar := 0, irp_pmtu := 0\<rparr>) 0)"
  have "t_streams test1 = sps"
    using Report(1) by (auto simp: iperf_stats_callback_def Let_def sps_def split: prod.split_asm if_split_asm
        dest!: check_total_rate_streams)
  then show ?case
    using stats_loop_nth[of test now sockopt "t_streams test" _ 0] Report(2-) unfolding ledger_ok_def sps_def
    by (auto simp: add.assoc)
qed

text \<open>C11: the interval reports add up. However the worker threads and the interval timer take turns,
for every stream the bytes in its interval results so far and those counted in the current interval
together are all the bytes the stream has sent (a sender) or received (a receiver): no byte is
reported twice or left out. (A turn of a thread is a whole call; a byte counted between the moment
the timer reads a counter and the moment it clears it would be lost, see the findings.)\<close>

theorem intervals_add_up:
  assumes "(report_step os)\<^sup>*\<^sup>* (test, s, \<lambda>i. 0) (test1, s1, ledger)"
    and "\<forall>sp \<in> set (t_streams test). this_interval sp = 0 \<and> all_bytes sp = 0" "i < length (t_streams test1)"
  shows "ledger i + this_interval (t_streams test1 ! i) = all_bytes (t_streams test1 ! i)"
proof -
  have "ledger_ok (fst b) (snd (snd b))"
    if "(report_step os)\<^sup>*\<^sup>* a b" "ledger_ok (fst a) (snd (snd a))" for a b
    using that
  proof (induction rule: rtranclp_induct)
    case (step y z)
    then show ?case by (cases y; cases z) (auto intro: report_step_ledger)
  qed
  from this[OF assms(1)] have "ledger_ok test1 ledger"
    using assms(2) by (auto simp: ledger_ok_def)
  with assms(3) show ?thesis by (simp add: ledger_ok_def)
qed

section \<open>The cyclic array is a sliding window\<close>

fun check_all :: "u64 list \<Rightarrow> iperf_test \<Rightarrow> iperf_test option" where
  "check_all [] test = Some test"
| "check_all (b # bs) test =
     (case iperf_check_total_rate b test of None \<Rightarrow> None | Some test1 \<Rightarrow> check_all bs test1)"

lemma check_all_snoc:
  "check_all (bs @ [b]) test =
    (case check_all bs test of None \<Rightarrow> None | Some test1 \<Rightarrow> iperf_check_total_rate b test1)"
  by (induction bs arbitrary: test) (auto split: option.splits)

text \<open>The last \<open>p\<close> intervals, and the condition the limit stands for.\<close>

definition window :: "nat \<Rightarrow> u64 list \<Rightarrow> u64 list" where
  "window p bs = drop (length bs - p) bs"

definition over_limit :: "iperf_test \<Rightarrow> nat \<Rightarrow> u64 list \<Rightarrow> bool" where
  "over_limit test p bs \<longleftrightarrow>
     (case average_rate test (sum_list (window p bs)) of None \<Rightarrow> False
      | Some v \<Rightarrow> v > s_bitrate_limit (t_settings test))"

lemma mod_window_bij:
  assumes "0 < p" "p \<le> n"
  shows "bij_betw (\<lambda>j. Suc j mod p) {n - p..<n} {..<p}"
proof -
  have inj: "inj_on (\<lambda>j. Suc j mod p) {n - p..<n}"
  proof (rule inj_onI)
    fix i j assume ij: "i \<in> {n - p..<n}" "j \<in> {n - p..<n}" "Suc i mod p = Suc j mod p"
    have eq: "i = j" if "i \<le> j" "j < i + p" "Suc i mod p = Suc j mod p" for i j
    proof -
      have "p dvd Suc j - Suc i" using mod_eq_dvd_iff_nat[of "Suc i" "Suc j" p] that(1) that(3)[symmetric]
        by blast
      then have "p dvd j - i" by simp
      with that(1,2) have "j - i = 0" using nat_dvd_not_less[of "j - i" p] by linarith
      with that(1) show ?thesis by simp
    qed
    have b: "i < n" "j < n" "n \<le> i + p" "n \<le> j + p" using ij(1,2) assms by auto
    show "i = j"
    proof (cases "i \<le> j")
      case True
      have "j < i + p" using b by linarith
      from eq[OF True this ij(3)] show ?thesis .
    next
      case False
      have "j \<le> i" "i < j + p" using b False by linarith+
      from eq[OF this ij(3)[symmetric]] show ?thesis ..
    qed
  qed
  have "(\<lambda>j. Suc j mod p) ` {n - p..<n} \<subseteq> {..<p}" using assms(1) by auto
  moreover have "card ((\<lambda>j. Suc j mod p) ` {n - p..<n}) = card {..<p}"
    using card_image[OF inj] assms(2) by simp
  ultimately have "(\<lambda>j. Suc j mod p) ` {n - p..<n} = {..<p}" by (intro card_subset_eq) auto
  with inj show ?thesis by (simp add: bij_betw_def)
qed

definition window_inv :: "nat \<Rightarrow> u64 list \<Rightarrow> iperf_test \<Rightarrow> bool" where
  "window_inv p bs test \<longleftrightarrow>
     t_bitrate_limit_last_interval_index test = of_nat (length bs mod p) \<and>
     t_bitrate_limit_stats_count test = of_nat (length bs) \<and>
     length (t_bitrate_limit_intervals_traffic_bytes test) = MAX_INTERVAL_CELLS \<and>
     (\<forall>j < length bs. length bs \<le> j + p \<longrightarrow>
        t_bitrate_limit_intervals_traffic_bytes test ! (Suc j mod p) = bs ! j)"

lemma window_sum:
  assumes "window_inv p bs test" "0 < p" "p \<le> MAX_INTERVAL_CELLS" "p \<le> length bs"
  shows "sum_list (take p (t_bitrate_limit_intervals_traffic_bytes test)) = sum_list (window p bs)"
proof -
  let ?c = "t_bitrate_limit_intervals_traffic_bytes test" and ?n = "length bs"
  have len: "length ?c = MAX_INTERVAL_CELLS" using assms(1) by (simp add: window_inv_def)
  have "sum_list (take p ?c) = (\<Sum>i<p. ?c ! i)"
    using len assms(3) by (simp add: sum_list_sum_nth atLeast0LessThan)
  also have "\<dots> = (\<Sum>j\<in>{?n - p..<?n}. ?c ! (Suc j mod p))"
    by (rule sum.reindex_bij_betw[symmetric, OF mod_window_bij]) (use assms in auto)
  also have "\<dots> = (\<Sum>j\<in>{?n - p..<?n}. bs ! j)"
    using assms(1) by (intro sum.cong) (auto simp: window_inv_def)
  also have "\<dots> = (\<Sum>i\<in>{0..<p}. bs ! (?n - p + i))"
    using assms(4) sum.shift_bounds_nat_ivl[of "\<lambda>j. bs ! j" 0 "?n - p" p] by (simp add: add.commute)
  also have "\<dots> = sum_list (window p bs)"
    using assms(4) by (simp add: window_def sum_list_sum_nth)
  finally show ?thesis .
qed

lemma window_step:
  fixes b :: u64
  assumes inv: "window_inv p bs test" and p: "0 < p" "p \<le> MAX_INTERVAL_CELLS"
    and per: "s_bitrate_limit_stats_per_interval (t_settings test) = int p"
    and on: "t_done test = 0" "s_bitrate_limit (t_settings test) \<noteq> 0" and len: "length bs < 2 ^ 63"
  defines "index \<equiv> Suc (length bs) mod p"
  defines "test1 \<equiv> test\<lparr>t_bitrate_limit_last_interval_index := of_nat index,
      t_bitrate_limit_intervals_traffic_bytes := (t_bitrate_limit_intervals_traffic_bytes test)[index := b],
      t_bitrate_limit_stats_count := of_nat (Suc (length bs))\<rparr>"
  shows "window_inv p (bs @ [b]) test1"
    and "iperf_check_total_rate b test =
      (if Suc (length bs) < p then Some test1 else check_average (sum_list (window p (bs @ [b]))) test1)"
proof -
  let ?c = "t_bitrate_limit_intervals_traffic_bytes test" and ?n = "length bs"
  have i: "t_bitrate_limit_last_interval_index test = of_nat (?n mod p)"
    "t_bitrate_limit_stats_count test = of_nat ?n" "length ?c = MAX_INTERVAL_CELLS"
    using inv by (auto simp: window_inv_def)
  have p60: "p \<le> 60" using p(2) by (simp add: MAX_INTERVAL_CELLS_def)
  have ip: "index < p" using p(1) by (simp add: index_def)
  have distinct: "Suc j mod p \<noteq> index" if "j < ?n" "Suc ?n \<le> j + p" for j
  proof
    assume "Suc j mod p = index"
    then have "p dvd Suc ?n - Suc j"
      using that mod_eq_dvd_iff_nat[of "Suc j" "Suc ?n" p] by (simp add: index_def)
    then show False using that by (auto dest!: dvd_imp_le)
  qed
  show w: "window_inv p (bs @ [b]) test1"
    using inv ip p(2) distinct unfolding window_inv_def test1_def
    by (auto simp: nth_append less_Suc_eq nth_list_update index_def[symmetric])
  have small: "unat (of_nat (?n mod p) :: u64) = ?n mod p" "unat (of_nat p :: u64) = p"
    "unat (of_nat (?n mod p) + 1 :: u64) = Suc (?n mod p)"
    using p60 mod_less_divisor[OF p(1), of ?n] by (simp_all add: unat_of_nat unat_word_ariths)
  have cmp: "(word_of_int (int p) \<le> (of_nat (?n mod p) + 1 :: u64)) \<longleftrightarrow> p \<le> Suc (?n mod p)"
    by (simp add: word_le_nat_alt small)
  have ix: "(if word_of_int (int p) \<le> (of_nat (?n mod p) + 1 :: u64) then 0 else of_nat (?n mod p) + 1) = (of_nat index :: u64)"
  proof (cases "Suc (?n mod p) = p")
    case True
    then show ?thesis unfolding cmp by (simp add: index_def mod_Suc)
  next
    case False
    then have "\<not> p \<le> Suc (?n mod p)" using mod_less_divisor[OF p(1), of ?n] by linarith
    with False show ?thesis unfolding cmp by (simp add: index_def mod_Suc add.commute)
  qed
  have ui: "unat (of_nat index :: u64) = index" using ip p60 by (simp add: unat_of_nat)
  have cnt: "(of_nat ?n + 1 :: u64) = of_nat (Suc ?n)" by simp
  have "unat (of_nat (Suc ?n) :: u64) = Suc ?n" using len by (simp add: unat_of_nat del: of_nat_Suc)
  then have cc: "(of_nat (Suc ?n) :: u64) < word_of_int (int p) \<longleftrightarrow> Suc ?n < p"
    by (simp add: word_less_nat_alt small del: of_nat_Suc)
  have sum: "\<not> Suc ?n < p \<Longrightarrow> sum_list (take p (?c[index := b])) = sum_list (window p (bs @ [b]))"
    using window_sum[OF w p(1,2)] by (simp add: test1_def)
  have guard: "(t_done test \<noteq> 0 \<or> s_bitrate_limit (t_settings test) = 0) = False" using on by simp
  have bounds: "(MAX_INTERVAL_CELLS \<le> index) = False" "(MAX_INTERVAL_CELLS < p) = False" using ip p(2) by auto
  show "iperf_check_total_rate b test =
      (if Suc ?n < p then Some test1 else check_average (sum_list (window p (bs @ [b]))) test1)"
    unfolding iperf_check_total_rate_def Let_def per i ix ui cnt cc guard length_list_update bounds if_False nat_int
      test1_def[symmetric]
    using sum by (auto simp: test1_def)
qed

lemma average_rate_upd [simp]:
  "average_rate (test\<lparr>t_bitrate_limit_last_interval_index := a, t_bitrate_limit_intervals_traffic_bytes := c,
     t_bitrate_limit_stats_count := k\<rparr>) tot = average_rate test tot"
  "average_rate (test\<lparr>t_bitrate_limit_exceeded := x\<rparr>) tot = average_rate test tot"
  by (simp_all add: average_rate_def)

text \<open>Everything but the array, its counters and the flag is as in \<open>test0\<close>.\<close>

definition limit_frame :: "iperf_test \<Rightarrow> iperf_test \<Rightarrow> bool" where
  "limit_frame test0 test \<longleftrightarrow> t_done test = t_done test0 \<and> t_settings test = t_settings test0 \<and>
     t_stats_interval test = t_stats_interval test0"

lemma limit_frame_average: "limit_frame test0 test \<Longrightarrow> average_rate test tot = average_rate test0 tot"
  by (simp add: limit_frame_def average_rate_def)

text \<open>A server at the start of a test with a limit averaged over \<open>p\<close> intervals.\<close>

definition limit_start :: "nat \<Rightarrow> iperf_test \<Rightarrow> bool" where
  "limit_start p test \<longleftrightarrow>
     t_done test = 0 \<and> s_bitrate_limit (t_settings test) \<noteq> 0 \<and>
     s_bitrate_limit_stats_per_interval (t_settings test) = int p \<and> 0 < p \<and>
     t_bitrate_limit_last_interval_index test = 0 \<and> t_bitrate_limit_stats_count test = 0 \<and>
     length (t_bitrate_limit_intervals_traffic_bytes test) = MAX_INTERVAL_CELLS \<and>
     t_bitrate_limit_exceeded test = 0"

lemma check_all_window:
  assumes "limit_start p test" "p \<le> MAX_INTERVAL_CELLS" "length bs < 2 ^ 63"
    and "\<forall>n \<le> length bs. p \<le> n \<longrightarrow> average_rate test (sum_list (window p (take n bs))) \<noteq> None"
  shows "\<exists>test1. check_all bs test = Some test1 \<and> window_inv p bs test1 \<and> limit_frame test test1 \<and>
    t_bitrate_limit_exceeded test1 = (if \<exists>n \<le> length bs. p \<le> n \<and> over_limit test p (take n bs) then 1 else 0)"
  using assms(3,4)
proof (induction bs rule: rev_induct)
  case Nil
  have "0 < p" using assms(1) by (simp add: limit_start_def)
  then show ?case using assms(1) by (simp add: limit_start_def window_inv_def limit_frame_def)
next
  case (snoc b bs)
  have "\<forall>n \<le> length bs. p \<le> n \<longrightarrow> average_rate test (sum_list (window p (take n bs))) \<noteq> None"
  proof (intro allI impI)
    fix n assume "n \<le> length bs" "p \<le> n"
    then show "average_rate test (sum_list (window p (take n bs))) \<noteq> None"
      using snoc.prems(2)[rule_format, of n] by simp
  qed
  with snoc obtain t1 where t1: "check_all bs test = Some t1" "window_inv p bs t1" "limit_frame test t1"
    "t_bitrate_limit_exceeded t1 = (if \<exists>n \<le> length bs. p \<le> n \<and> over_limit test p (take n bs) then 1 else 0)"
    by auto
  have st: "0 < p" "s_bitrate_limit_stats_per_interval (t_settings t1) = int p" "t_done t1 = 0"
    "s_bitrate_limit (t_settings t1) \<noteq> 0"
    using assms(1) t1(3) by (auto simp: limit_start_def limit_frame_def)
  have len: "length bs < 2 ^ 63" using snoc.prems(1) by simp
  define t2 where "t2 = t1\<lparr>t_bitrate_limit_last_interval_index := of_nat (Suc (length bs) mod p),
      t_bitrate_limit_intervals_traffic_bytes :=
        (t_bitrate_limit_intervals_traffic_bytes t1)[Suc (length bs) mod p := b],
      t_bitrate_limit_stats_count := of_nat (Suc (length bs))\<rparr>"
  note ws = window_step[OF t1(2) st(1) assms(2) st(2,3,4) len, of b, folded t2_def]
  have t2: "limit_frame test t2" "t_bitrate_limit_exceeded t2 = t_bitrate_limit_exceeded t1"
    using t1(3) by (simp_all add: t2_def limit_frame_def)
  have step: "check_all (bs @ [b]) test = iperf_check_total_rate b t1" using t1(1) by (simp add: check_all_snoc)
  have ex: "(\<exists>n \<le> length (bs @ [b]). p \<le> n \<and> over_limit test p (take n (bs @ [b]))) \<longleftrightarrow>
      (\<exists>n \<le> length bs. p \<le> n \<and> over_limit test p (take n bs)) \<or>
      p \<le> Suc (length bs) \<and> over_limit test p (bs @ [b])" (is "?A \<longleftrightarrow> ?B \<or> ?C")
  proof
    assume ?A
    then obtain n where n: "n \<le> Suc (length bs)" "p \<le> n" "over_limit test p (take n (bs @ [b]))" by auto
    then show "?B \<or> ?C" by (cases "n = Suc (length bs)") (auto simp: le_Suc_eq)
  next
    assume "?B \<or> ?C"
    then show ?A
    proof
      assume ?B
      then obtain n where n: "n \<le> length bs" "p \<le> n" "over_limit test p (take n bs)" by blast
      then show ?A by (intro exI[of _ n]) simp
    next
      assume ?C
      then show ?A by (intro exI[of _ "Suc (length bs)"]) simp
    qed
  qed
  show ?case
  proof (cases "Suc (length bs) < p")
    case True
    then have "check_all (bs @ [b]) test = Some t2" using step ws(2) by simp
    with ws(1) t2 t1(4) True show ?thesis unfolding ex by auto
  next
    case False
    have "average_rate test (sum_list (window p (bs @ [b]))) \<noteq> None"
      using snoc.prems(2)[rule_format, of "Suc (length bs)"] False by simp
    then obtain v where v: "average_rate test (sum_list (window p (bs @ [b]))) = Some v" by blast
    define t3 where "t3 = (if v > s_bitrate_limit (t_settings t2) then t2\<lparr>t_bitrate_limit_exceeded := 1\<rparr> else t2)"
    have "check_all (bs @ [b]) test = Some t3"
      using step ws(2) False v limit_frame_average[OF t2(1)] by (simp add: check_average_def t3_def)
    moreover have "window_inv p (bs @ [b]) t3" "limit_frame test t3"
      using ws(1) t2(1) by (auto simp: t3_def window_inv_def limit_frame_def)
    moreover have "over_limit test p (bs @ [b]) \<longleftrightarrow> v > s_bitrate_limit (t_settings t2)"
      using v t2(1) by (simp add: over_limit_def limit_frame_def)
    then have "t_bitrate_limit_exceeded t3 = (if B \<or> over_limit test p (bs @ [b]) then 1 else 0)"
      if "t_bitrate_limit_exceeded t1 = (if B then 1 else 0)" for B
      using t2(2) that by (simp add: t3_def)
    ultimately show ?thesis unfolding ex using t1(4) False by auto
  qed
qed

text \<open>C20: the limit on the total rate is a sliding window. From the start of a server's test with the
limit averaged over \<open>p\<close> intervals, at most as many as the array has cells, and as long as the
averages fit their type, \<open>iperf_check_total_rate\<close> never leaves the array, and after the intervals
\<open>bs\<close> the flag \<open>bitrate_limit_exceeded\<close> is set exactly if at some interval the average over the last
\<open>p\<close> intervals was above the limit.\<close>

theorem total_rate_sliding_window:
  assumes "limit_start p test" "p \<le> MAX_INTERVAL_CELLS" "length bs < 2 ^ 63"
    and "\<forall>n \<le> length bs. p \<le> n \<longrightarrow> average_rate test (sum_list (window p (take n bs))) \<noteq> None"
  shows "\<exists>test1. check_all bs test = Some test1 \<and>
    t_bitrate_limit_exceeded test1 =
      (if \<exists>n \<le> length bs. p \<le> n \<and> over_limit test p (take n bs) then 1 else 0)"
  using check_all_window[OF assms] by blast

text \<open>C23: with more intervals than cells the array is left. The option checks allow up to 600
intervals (60 seconds of 0.1 second), the array has \<open>MAX_INTERVAL\<close> = 60 cells: the 60th interval of
the test is stored behind its end.\<close>

lemma check_all_short:
  assumes "limit_start p test" "60 < p" "p < 2 ^ 31" "length bs < 60"
  shows "\<exists>test1. check_all bs test = Some test1 \<and> limit_frame test test1 \<and>
    t_bitrate_limit_last_interval_index test1 = of_nat (length bs) \<and>
    t_bitrate_limit_stats_count test1 = of_nat (length bs) \<and>
    length (t_bitrate_limit_intervals_traffic_bytes test1) = MAX_INTERVAL_CELLS"
  using assms(4)
proof (induction bs rule: rev_induct)
  case Nil
  then show ?case using assms(1) by (simp add: limit_start_def limit_frame_def)
next
  case (snoc b bs)
  then obtain t1 where t1: "check_all bs test = Some t1" "limit_frame test t1"
    "t_bitrate_limit_last_interval_index t1 = of_nat (length bs)"
    "t_bitrate_limit_stats_count t1 = of_nat (length bs)"
    "length (t_bitrate_limit_intervals_traffic_bytes t1) = MAX_INTERVAL_CELLS" by auto
  have n: "Suc (length bs) < 60" using snoc.prems by simp
  have st: "s_bitrate_limit_stats_per_interval (t_settings t1) = int p" "t_done t1 = 0"
    "s_bitrate_limit (t_settings t1) \<noteq> 0"
    using assms(1) t1(2) by (auto simp: limit_start_def limit_frame_def)
  have u: "unat (of_nat (Suc (length bs)) :: u64) = Suc (length bs)" "unat (of_nat p :: u64) = p"
    using n assms(3) by (simp_all add: unat_of_nat del: of_nat_Suc)
  have c: "(word_of_int (int p) \<le> (of_nat (Suc (length bs)) :: u64)) = False"
    "((of_nat (Suc (length bs)) :: u64) < word_of_int (int p)) = True"
    using n assms(2) by (simp_all add: word_le_nat_alt word_less_nat_alt u del: of_nat_Suc)
  have e: "(of_nat (length bs) + 1 :: u64) = of_nat (Suc (length bs))" by simp
  have l: "(length (t_bitrate_limit_intervals_traffic_bytes t1) \<le> Suc (length bs)) = False"
    using n t1(5) by (simp add: MAX_INTERVAL_CELLS_def)
  have "iperf_check_total_rate b t1 = Some (t1\<lparr>t_bitrate_limit_last_interval_index := of_nat (Suc (length bs)),
      t_bitrate_limit_intervals_traffic_bytes := (t_bitrate_limit_intervals_traffic_bytes t1)[Suc (length bs) := b],
      t_bitrate_limit_stats_count := of_nat (Suc (length bs))\<rparr>)"
    unfolding iperf_check_total_rate_def Let_def st(1) t1(3,4) e c if_False if_True u l using st(2,3) by simp
  with t1 show ?case by (simp add: check_all_snoc limit_frame_def)
qed

theorem total_rate_out_of_bounds:
  assumes "limit_start p test" "60 < p" "p < 2 ^ 31" "length bs = 60"
  shows "check_all bs test = None"
proof -
  obtain cs b where bs: "bs = cs @ [b]" using assms(4) by (cases bs rule: rev_cases) auto
  then have n: "length cs = 59" using assms(4) by simp
  then obtain t1 where t1: "check_all cs test = Some t1" "limit_frame test t1"
    "t_bitrate_limit_last_interval_index t1 = of_nat 59"
    "length (t_bitrate_limit_intervals_traffic_bytes t1) = MAX_INTERVAL_CELLS"
    using check_all_short[OF assms(1-3), of cs] by auto
  have st: "s_bitrate_limit_stats_per_interval (t_settings t1) = int p" "t_done t1 = 0"
    "s_bitrate_limit (t_settings t1) \<noteq> 0"
    using assms(1) t1(2) by (auto simp: limit_start_def limit_frame_def)
  have u: "unat (of_nat p :: u64) = p" using assms(3) by (simp add: unat_of_nat)
  have c: "(of_nat p \<le> (60 :: u64)) = False" using assms(2) by (simp add: word_le_nat_alt u)
  have "iperf_check_total_rate b t1 = None"
    using st(2,3) t1(4) by (simp add: iperf_check_total_rate_def Let_def st(1) t1(3) c MAX_INTERVAL_CELLS_def)
  then show ?thesis using t1(1) by (simp add: bs check_all_snoc)
qed

definition limited_test :: "int \<Rightarrow> iperf_test" where
  "limited_test per = upd_settings (\<lambda>s. s\<lparr>s_bitrate_limit := 2000, s_bitrate_limit_stats_per_interval := per\<rparr>)
     (zero_test\<lparr>t_role := CHR ''s'', t_stats_interval := 1\<rparr>)"

lemma limited_test_start: "0 < p \<Longrightarrow> limit_start p (limited_test (int p))"
  by (simp add: limit_start_def limited_test_def upd_settings_def zero_test_def zero_settings_def)

theorem total_rate_out_of_bounds_witness: "check_all (replicate 60 0) (limited_test (int 600)) = None"
  by (rule total_rate_out_of_bounds[OF limited_test_start[of 600]]) simp_all

lemma average_one:
  assumes "uint (b * 8) \<le> 2 ^ 53"
  shows "average_rate (limited_test 1) b = Some (b * 8)"
proof -
  have "dmul 1 1 = 1" "dbl_of_int 1 = 1"
    using fl_int[of 1] by (simp_all add: dmul_def dbl_of_int_def)
  moreover have "ddiv (dbl_of_u64 (b * 8)) 1 = of_int (uint (b * 8))"
    unfolding dbl_of_u64_exact[OF assms] ddiv_def div_by_1 using assms by (intro fl_int) simp
  moreover have "dbl_to_u64 (of_int (uint (b * 8))) = Some (b * 8)"
    using dbl_to_u64_of_int[of "uint (b * 8)"] assms by simp
  ultimately show ?thesis by (simp add: average_rate_def limited_test_def upd_settings_def)
qed

theorem total_rate_sliding_window_witness:
  "\<exists>test1. check_all [100, 300, 10] (limited_test (int 1)) = Some test1 \<and> t_bitrate_limit_exceeded test1 = 1"
proof -
  have av: "average_rate (limited_test 1) b = Some (b * 8)" if "b \<in> {100, 300, 10}" for b
    using that by (intro average_one) auto
  have w: "sum_list (window 1 (take n [100, 300, 10 :: u64])) \<in> {100, 300, 10}" if "n \<le> 3" "1 \<le> n" for n
  proof -
    have "n = 1 \<or> n = 2 \<or> n = 3" using that by linarith
    then show ?thesis by (auto simp: window_def)
  qed
  have "over_limit (limited_test 1) 1 (take 2 [100, 300, 10])"
    using av[of 300] by (simp add: over_limit_def window_def limited_test_def upd_settings_def)
  then have "\<exists>n \<le> length [100, 300, 10 :: u64]. 1 \<le> n \<and> over_limit (limited_test (int 1)) 1 (take n [100, 300, 10])"
    by (intro exI[of _ 2]) simp
  moreover have "\<exists>test1. check_all [100, 300, 10] (limited_test (int 1)) = Some test1 \<and>
    t_bitrate_limit_exceeded test1 =
      (if \<exists>n \<le> length [100, 300, 10 :: u64]. 1 \<le> n \<and> over_limit (limited_test (int 1)) 1 (take n [100, 300, 10]) then 1 else 0)"
    by (rule total_rate_sliding_window[OF limited_test_start[of 1]])
      (use av w in \<open>auto simp: MAX_INTERVAL_CELLS_def\<close>)
  ultimately show ?thesis by simp
qed

text \<open>The report of one stream with the race: a worker counts \<open>n\<close> bytes after the timer has read the
counter and before it clears it.\<close>

text \<open>C37: bytes that a sender's thread counts between the moment the interval timer reads the counter
and the moment it clears it are in no interval report: the reports fall behind the total by exactly
these bytes.\<close>

theorem report_race_loses_bytes:
  assumes "record_interval test now sockopt sp temp = (sp1, temp1)" "sent_only sp1 n sp2"
    and "c_true (sp_sender sp)" "l + this_interval sp = all_bytes sp"
  shows "(l + reported_bytes sp1) + this_interval (clear_interval sp2) + n = all_bytes (clear_interval sp2)"
proof -
  note fr = record_interval_frame[OF assms(1)]
  have "all_bytes sp2 = all_bytes sp1 + n" using assms(2,3) fr(3) by (simp add: sent_only_def all_bytes_def)
  then show ?thesis using fr assms(4) by simp
qed

text \<open>Seven bytes counted in between.\<close>

definition race_stream :: iperf_stream where
  "race_stream = fst (record_interval demo_test zero_time None (demo_stream\<lparr>sp_sender := 1\<rparr>) zero_interval)"

definition count_7 :: "iperf_stream \<Rightarrow> iperf_stream" where
  "count_7 sp = sp\<lparr>sp_result := (sp_result sp)
     \<lparr>rp_bytes_sent := rp_bytes_sent (sp_result sp) + 7,
       rp_bytes_sent_this_interval := rp_bytes_sent_this_interval (sp_result sp) + 7\<rparr>\<rparr>"

theorem report_race_loses_bytes_witness:
  "(0 + reported_bytes race_stream) + this_interval (clear_interval (count_7 race_stream)) + 7
     = all_bytes (clear_interval (count_7 race_stream))"
proof -
  let ?sp = "demo_stream\<lparr>sp_sender := 1\<rparr>"
  obtain temp1 where r: "record_interval demo_test zero_time None ?sp zero_interval = (race_stream, temp1)"
    unfolding race_stream_def by (metis prod.collapse)
  have z: "0 + this_interval ?sp = all_bytes ?sp" "c_true (sp_sender ?sp)"
    by (simp_all add: this_interval_def all_bytes_def demo_stream_def zero_stream_def zero_result_def)
  have "sent_only race_stream 7 (count_7 race_stream)" by (simp add: sent_only_def count_7_def)
  from report_race_loses_bytes[OF r this z(2,1)] show ?thesis .
qed

theorem intervals_add_up_witness:
  "\<exists>test1 s1 ledger. (report_step demo_os)\<^sup>*\<^sup>* (demo_test, (), \<lambda>i. 0) (test1, s1, ledger) \<and>
    0 < length (t_streams test1) \<and> ledger 0 + this_interval (t_streams test1 ! 0) = all_bytes (t_streams test1 ! 0)"
proof -
  obtain test1 sp1 where r: "iperf_send_mt demo_os demo_test demo_stream () = Some (0, test1, sp1, ())"
    "t_streams test1 = [demo_stream]"
    using demo_burst by (auto split: option.split_asm)
  have d: "t_streams demo_test = [demo_stream]" "t_role demo_test = CHR 0x00"
    by (simp_all add: demo_test_def upd_settings_def zero_test_def)
  let ?t = "put_stream 0 sp1 test1" and ?l = "\<lambda>i. 0 :: u64"
  have "report_step demo_os (demo_test, (), ?l) (?t, (), ?l)"
    using r(1) d by (intro report_step.Send) auto
  then have st: "(report_step demo_os)\<^sup>*\<^sup>* (demo_test, (), ?l) (?t, (), ?l)" by (rule r_into_rtranclp)
  have "\<forall>sp \<in> set (t_streams demo_test). this_interval sp = 0 \<and> all_bytes sp = 0"
    by (simp add: d this_interval_def all_bytes_def demo_stream_def zero_stream_def zero_result_def)
  moreover have l: "0 < length (t_streams ?t)" by (simp add: put_stream_def r(2))
  ultimately have "?l 0 + this_interval (t_streams ?t ! 0) = all_bytes (t_streams ?t ! 0)"
    by (rule intervals_add_up[OF st])
  with st l show ?thesis by blast
qed

end
