(* ===== verification/Tcp_Conn.thy ===== *)
theory Tcp_Conn
  imports Streams
begin

text \<open>
  \<open>iperf_tcp.c\<close>: accepting, listening and connecting, against the script of system call results of
  theory Net_IO. The sequences of \<open>setsockopt\<close> calls that end the function on the first failure are a
  list: whether the option is set at all, and the error it stands for.
\<close>

section \<open>Options and buffer sizes\<close>

text \<open>The first option that fails gives the error.\<close>

fun try_opts :: "(bool \<times> int) list \<Rightarrow> netsys \<Rightarrow> int option \<times> netsys" where
  "try_opts [] n = (None, n)"
| "try_opts ((wanted, err) # opts) n =
     (if wanted then
        (let (r, n1) = syscall n in if sr_ret r < 0 then (Some err, n1) else try_opts opts n1)
      else try_opts opts n)"

definition tcp_options :: "iperf_test \<Rightarrow> (bool \<times> int) list" where
  "tcp_options test =
     [(c_true (t_no_delay test), IESETNODELAY),
      (s_mss (t_settings test) \<noteq> 0, IESETMSS),
      (s_socket_bufsize (t_settings test) \<noteq> 0, IESETBUF),
      (s_socket_bufsize (t_settings test) \<noteq> 0, IESETBUF)]"

text \<open>Reading back one buffer size.\<close>

definition check_bufsize :: "int \<Rightarrow> netsys \<Rightarrow> int option \<times> netsys" where
  "check_bufsize bufsize n =
     (let (r, n1) = syscall n
      in if sr_ret r < 0 then (Some IESETBUF, n1)
         else if bufsize \<noteq> 0 \<and> bufsize > sr_out r then (Some IESETBUF2, n1)
         else (None, n1))"

definition check_bufsizes :: "int \<Rightarrow> netsys \<Rightarrow> int option \<times> netsys" where
  "check_bufsizes bufsize n =
     (case check_bufsize bufsize n of
        (Some e, n1) \<Rightarrow> (Some e, n1)
      | (None, n1) \<Rightarrow> check_bufsize bufsize n1)"

text \<open>\<open>SO_MAX_PACING_RATE\<close>: a failure is only a warning.\<close>

definition set_pacing :: "iperf_test \<Rightarrow> netsys \<Rightarrow> netsys" where
  "set_pacing test n =
     (if s_fqrate (t_settings test) \<noteq> 0 \<and> s_fqrate (t_settings test) div 8 > 0
      then snd (syscall n) else n)"

text \<open>\<open>iperf_common_sockopts\<close> with its calls: the family, the option, and for a mapped address the
second one, whose result is ignored.\<close>

definition common_sockopts_sys :: "iperf_test \<Rightarrow> netsys \<Rightarrow> int \<times> iperf_test \<times> netsys" where
  "common_sockopts_sys test n =
     (if s_tos (t_settings test) = 0 then (0, test, n)
      else
        (let (fam, n1) = syscall n;
             (so, n2) = syscall n1;
             (rc, test1) = iperf_common_sockopts (sr_out fam = AF_INET6) (sr_ret so) test
         in if rc < 0 then (- 1, test1, n2)
            else (0, test1, if sr_out fam = AF_INET6 \<and> c_true (t_mapped_v4 test) then snd (syscall n2)
                            else n2)))"

section \<open>iperf\_tcp\_listen\<close>

text \<open>The new listener, when an option needs one.\<close>

definition tcp_relisten :: "iperf_test \<Rightarrow> netsys \<Rightarrow> int \<times> iperf_test \<times> netsys" where
  "tcp_relisten test0 n0 =
     (let s0 = t_listener test0;
          test = test0\<lparr>t_read_set := t_read_set test0 - {s0}\<rparr>;
          domain = s_domain (t_settings test);
          n1 = call_close s0 n0;
          (g, n2) = call_getaddrinfo n1;
          fam = sr_out g
      in if sr_ret g \<noteq> 0 then (- 1, test\<lparr>t_i_errno := IESTREAMLISTEN\<rparr>, n2)
         else
           (let (s, n3) = call_socket n2
            in if s < 0 then (- 1, test\<lparr>t_i_errno := IESTREAMLISTEN\<rparr>, freeaddrinfo n3)
               else case try_opts (tcp_options test @
                      [(True, IEREUSEADDR),
                       (fam = AF_INET6 \<and> (domain = AF_UNSPEC \<or> domain = AF_INET), IEV6ONLY),
                       (True, IESTREAMLISTEN)]) n3 of
                 (Some e, n4) \<Rightarrow> (- 1, test\<lparr>t_i_errno := e\<rparr>, freeaddrinfo (call_close s n4))
               | (None, n4) \<Rightarrow>
                   (let (l, n5) = syscall (freeaddrinfo n4)
                    in if sr_ret l < 0 then (- 1, test\<lparr>t_i_errno := IESTREAMLISTEN\<rparr>, call_close s n5)
                       else (s, test\<lparr>t_listener := s\<rparr>, n5))))"

definition needs_relisten :: "iperf_test \<Rightarrow> bool" where
  "needs_relisten test \<longleftrightarrow>
     c_true (t_no_delay test) \<or> s_mss (t_settings test) \<noteq> 0 \<or> s_socket_bufsize (t_settings test) \<noteq> 0"

definition iperf_tcp_listen :: "iperf_test \<Rightarrow> netsys \<Rightarrow> int \<times> iperf_test \<times> netsys" where
  "iperf_tcp_listen test n =
     (let (s, test1, n1) = (if needs_relisten test then tcp_relisten test n else (t_listener test, test, n))
      in if needs_relisten test \<and> s < 0 then (- 1, test1, n1)
         else case check_bufsizes (s_socket_bufsize (t_settings test1)) n1 of
                (Some e, n2) \<Rightarrow> (- 1, test1\<lparr>t_i_errno := e\<rparr>, call_close s n2)
              | (None, n2) \<Rightarrow> (s, test1, n2))"

section \<open>iperf\_tcp\_connect\<close>

text \<open>The result of \<open>Nwrite\<close> of the cookie is the result of a call of the script.\<close>

definition iperf_tcp_connect ::
  "bool \<Rightarrow> bool \<Rightarrow> iperf_test \<Rightarrow> netsys \<Rightarrow> int \<times> iperf_test \<times> netsys" where
  "iperf_tcp_connect has_local has_dev test n0 =
     (let (s, n1) = create_socket has_local has_dev (t_bind_port test) n0
      in if s < 0 then (- 1, test\<lparr>t_i_errno := IESTREAMCONNECT\<rparr>, n1)
         else case try_opts (tcp_options test) n1 of
           (Some e, n2) \<Rightarrow> (- 1, test\<lparr>t_i_errno := e\<rparr>, freeaddrinfo (call_close s n2))
         | (None, n2) \<Rightarrow>
             (case check_bufsizes (s_socket_bufsize (t_settings test)) n2 of
                (Some e, n3) \<Rightarrow> (- 1, test\<lparr>t_i_errno := e\<rparr>, freeaddrinfo (call_close s n3))
              | (None, n3) \<Rightarrow>
                  (let (_, test1, n4) = common_sockopts_sys test (set_pacing test n3);
                       (c, n5) = syscall n4
                   in if sr_ret c < 0 \<and> n_errno n5 \<noteq> EINPROGRESS
                      then (- 1, test1\<lparr>t_i_errno := IESTREAMCONNECT\<rparr>, freeaddrinfo (call_close s n5))
                      else
                        (let (w, n6) = syscall (freeaddrinfo n5)
                         in if sr_ret w < 0
                            then (- 1, test1\<lparr>t_i_errno := IESENDCOOKIE\<rparr>, call_close s n6)
                            else (s, test1, n6)))))"

section \<open>iperf\_tcp\_accept\<close>

text \<open>The cookie that was read, or \<open>None\<close> for a failing \<open>Nread\<close>; a short read leaves the rest of the
zeroed buffer. A wrong cookie is answered with ACCESS_DENIED and the socket is closed, but the
function still returns its descriptor.\<close>

definition cookie_matches :: "string \<Rightarrow> string \<Rightarrow> bool" where
  "cookie_matches a b \<longleftrightarrow> take COOKIE_SIZE (takeWhile (\<lambda>c. c \<noteq> CHR 0x00) a)
     = take COOKIE_SIZE (takeWhile (\<lambda>c. c \<noteq> CHR 0x00) b)"

definition iperf_tcp_accept ::
  "string option \<Rightarrow> iperf_test \<Rightarrow> netsys \<Rightarrow> int \<times> iperf_test \<times> netsys \<times> int list" where
  "iperf_tcp_accept cookie test n =
     (let (s, n1) = call_socket n
      in if s < 0 then (- 1, test\<lparr>t_i_errno := IESTREAMCONNECT\<rparr>, n1, [])
         else
           (let n2 = set_pacing test n1
            in case cookie of
                 None \<Rightarrow> (- 1, test\<lparr>t_i_errno := IERECVCOOKIE\<rparr>, call_close s n2, [])
               | Some ck \<Rightarrow>
                   if \<not> cookie_matches (t_cookie test) ck
                   then (s, test, call_close s (snd (syscall n2)), [ACCESS_DENIED])
                   else (s, test, n2, [])))"

section \<open>What is left open\<close>

lemma try_opts_frame: "try_opts opts n = (e, n') \<Longrightarrow> n_open n' = n_open n \<and> n_ai n' = n_ai n"
proof (induction opts n rule: try_opts.induct)
  case (2 wanted err opts n)
  obtain r n1 where s: "syscall n = (r, n1)" by fastforce
  from 2 s syscall_frame[OF s] show ?case by (auto split: if_split_asm)
qed simp

lemma check_bufsizes_frame: "check_bufsizes b n = (e, n') \<Longrightarrow> n_open n' = n_open n \<and> n_ai n' = n_ai n"
  by (auto simp: check_bufsizes_def check_bufsize_def Let_def dest!: syscall_frame
      split: prod.split_asm option.split_asm if_split_asm)

lemma snd_syscall_frame [simp]: "n_open (snd (syscall n)) = n_open n" "n_ai (snd (syscall n)) = n_ai n"
  using syscall_frame[of n "fst (syscall n)" "snd (syscall n)"] by auto

lemma set_pacing_frame [simp]: "n_open (set_pacing t n) = n_open n" "n_ai (set_pacing t n) = n_ai n"
  by (simp_all add: set_pacing_def)

lemma common_sockopts_frame:
  "common_sockopts_sys t n = (r, t', n') \<Longrightarrow> n_open n' = n_open n \<and> n_ai n' = n_ai n"
  by (auto simp: common_sockopts_sys_def Let_def dest!: syscall_frame split: prod.split_asm if_split_asm)

lemma tcp_connect_clean:
  "clean n (case iperf_tcp_connect l d test n of (r, t, n') \<Rightarrow> (r, n'))"
proof -
  obtain s n1 where 1: "create_socket l d (t_bind_port test) n = (s, n1)" by fastforce
  obtain e2 n2 where 2: "try_opts (tcp_options test) n1 = (e2, n2)" by fastforce
  obtain e3 n3 where 3: "check_bufsizes (s_socket_bufsize (t_settings test)) n2 = (e3, n3)" by fastforce
  obtain r4 t4 n4 where 4: "common_sockopts_sys test (set_pacing test n3) = (r4, t4, n4)" by (metis prod_cases3)
  obtain c n5 where 5: "syscall n4 = (c, n5)" by fastforce
  obtain w n6 where 6: "syscall (freeaddrinfo n5) = (w, n6)" by fastforce
  note f = create_socket_frame[OF 1] try_opts_frame[OF 2] check_bufsizes_frame[OF 3]
    common_sockopts_frame[OF 4] syscall_frame[OF 5] syscall_frame[OF 6]
  show ?thesis
    unfolding iperf_tcp_connect_def 1 Let_def prod.case 2 3 4 5 6
    using f by (cases e2; cases e3) (auto simp: clean_def)
qed

text \<open>A result of \<open>tcp_relisten\<close>: the old listener is gone, a new one is open on success.\<close>

definition relistened :: "iperf_test \<Rightarrow> netsys \<Rightarrow> int \<times> iperf_test \<times> netsys \<Rightarrow> bool" where
  "relistened test n r \<longleftrightarrow>
     (case r of (s, test1, n') \<Rightarrow> n_ai n' = n_ai n \<and>
       (if s < 0 then n_open n' = remove1 (t_listener test) (n_open n) \<and> t_listener test1 = t_listener test
        else n_open n' = s # remove1 (t_listener test) (n_open n) \<and> t_listener test1 = s))"

lemma tcp_relisten_frame: "relistened test n (tcp_relisten test n)"
proof -
  let ?t = "test\<lparr>t_read_set := t_read_set test - {t_listener test}\<rparr>"
  obtain g n2 where 1: "call_getaddrinfo (call_close (t_listener test) n) = (g, n2)" by fastforce
  obtain s3 n3 where 2: "call_socket n2 = (s3, n3)" by fastforce
  obtain e n4 where 3: "try_opts (tcp_options ?t @
      [(True, IEREUSEADDR),
       (sr_out g = AF_INET6 \<and> (s_domain (t_settings ?t) = AF_UNSPEC \<or> s_domain (t_settings ?t) = AF_INET), IEV6ONLY),
       (True, IESTREAMLISTEN)]) n3 = (e, n4)" by fastforce
  obtain l n5 where 4: "syscall (freeaddrinfo n4) = (l, n5)" by fastforce
  note f = getaddrinfo_frame[OF 1] socket_frame[OF 2] try_opts_frame[OF 3] syscall_frame[OF 4]
  show ?thesis
    unfolding tcp_relisten_def Let_def 1 prod.case 2 3 4
    using f by (cases e) (simp_all add: relistened_def)
qed

lemma tcp_listen_frame:
  assumes "iperf_tcp_listen test n = (r, test1, n')" "0 \<le> t_listener test"
  shows "n_ai n' = n_ai n"
    "r < 0 \<Longrightarrow> n_open n' = remove1 (t_listener test) (n_open n) \<and> 0 \<le> t_listener test1"
    "\<not> r < 0 \<Longrightarrow> t_listener test1 = r \<and>
      n_open n' = (if needs_relisten test then r # remove1 (t_listener test) (n_open n) else n_open n)"
proof -
  obtain s t1 n1 where 1: "(if needs_relisten test then tcp_relisten test n else (t_listener test, test, n)) = (s, t1, n1)"
    by (metis prod_cases3)
  obtain e n2 where 2: "check_bufsizes (s_socket_bufsize (t_settings t1)) n1 = (e, n2)" by fastforce
  have r: "if needs_relisten test then relistened test n (s, t1, n1) else s = t_listener test \<and> t1 = test \<and> n1 = n"
    using 1 tcp_relisten_frame[of test n] by (auto split: if_split_asm)
  note f = check_bufsizes_frame[OF 2]
  note d = assms(1)[unfolded iperf_tcp_listen_def Let_def 1 prod.case 2]
  have "n_ai n' = n_ai n \<and> (r < 0 \<longrightarrow> n_open n' = remove1 (t_listener test) (n_open n) \<and> 0 \<le> t_listener test1) \<and>
    (\<not> r < 0 \<longrightarrow> t_listener test1 = r \<and>
      n_open n' = (if needs_relisten test then r # remove1 (t_listener test) (n_open n) else n_open n))"
  proof (cases "needs_relisten test")
    case True
    with r d f assms(2) show ?thesis
      by (cases e) (auto simp: relistened_def split: if_split_asm)
  next
    case False
    with r d f assms(2) show ?thesis by (cases e) auto
  qed
  then show "n_ai n' = n_ai n"
    "r < 0 \<Longrightarrow> n_open n' = remove1 (t_listener test) (n_open n) \<and> 0 \<le> t_listener test1"
    "\<not> r < 0 \<Longrightarrow> t_listener test1 = r \<and>
      n_open n' = (if needs_relisten test then r # remove1 (t_listener test) (n_open n) else n_open n)"
    by blast+
qed

text \<open>C38: \<open>iperf_tcp_connect\<close> leaks nothing whatever the system calls return: on an error its socket
is closed and the address list is freed, on success exactly the returned socket is open.\<close>

theorem tcp_connect_leaks_nothing:
  "case iperf_tcp_connect has_local has_dev test n of (r, test1, n') \<Rightarrow>
     n_ai n' = n_ai n \<and> n_open n' = (if r < 0 then n_open n else r # n_open n)"
  using tcp_connect_clean[of n has_local has_dev test]
  by (auto simp: clean_def split: prod.splits if_split_asm)


definition sys0 :: "sysres list \<Rightarrow> int list \<Rightarrow> netsys" where
  "sys0 script fds = \<lparr>n_script = script, n_open = fds, n_ai = 0, n_errno = 0, n_gerror = 0\<rparr>"


end
