(* ===== verification/Endpoint.thy ===== *)
theory Endpoint
  imports Results Stats Tcp_Conn Udp Util
begin

text \<open>
  One end of the control connection: the test, its timers, and what the system gives it. The
  functions of \<open>iperf_api.c\<close> both ends use on the connection are here: the state message, the
  parameter and the result exchange as a whole, and the protocol's \<open>connect\<close>, \<open>listen\<close> and \<open>accept\<close>.

  A function of the code is an action on an end. It returns the code's result, and is \<open>None\<close> only
  where the C program has no defined behaviour (a timer that is not allocated, an index out of
  bounds), where \<open>readentropy\<close> ends the program, or where a call blocks for ever. What is sent on
  the control connection is a list of messages, and so is what arrives: the items the reads of this
  end will meet, in order; an item of a kind the read does not ask for is a failing read, and at
  the end of the list the peer has closed the connection or its time is over.
\<close>

section \<open>The end of a connection\<close>

datatype ctl_msg = M_state int | M_cookie string | M_json cJSON | M_word int

record udp_calls =
  uc_dialed :: bool
  uc_bc1 :: bufcalls
  uc_bc2 :: bufcalls
  uc_write :: int
  uc_replies :: "(int \<times> u32) list"
  uc_recvfrom :: int
  uc_connect :: int

text \<open>\<open>e_net\<close> is the script of system calls with the open descriptors, \<open>e_mem\<close> what \<open>malloc\<close> of a
timer returns, \<open>e_udp\<close> and \<open>e_calls\<close> the results of the calls of one UDP connection and of one new
stream, \<open>e_cpu\<close> the last and the current sample of the process, \<open>e_algo\<close> the name of the congestion
algorithm a socket reports, \<open>e_conns\<close> the cookies the next data connections bring (\<open>None\<close> for a
failing read), \<open>e_denied\<close> the sockets that were sent \<open>ACCESS_DENIED\<close>, \<open>e_json_top\<close> the JSON report.\<close>

record ep =
  e_test :: iperf_test
  e_tmrs :: tmrs
  e_net :: netsys
  e_in :: "ctl_msg list"
  e_out :: "ctl_msg list"
  e_now :: "iperf_time option"
  e_mem :: "addr option list"
  e_udp :: "udp_calls list"
  e_calls :: "stream_calls list"
  e_info :: "int \<Rightarrow> tcp_info option"
  e_random :: "nat \<Rightarrow> u8 list option"
  e_cpu :: "cpu_sample \<times> cpu_sample"
  e_algo :: string
  e_conns :: "string option list"
  e_denied :: "int list"
  e_json_top :: "cJSON option"

type_synonym act = "ep \<Rightarrow> (int \<times> ep) option"

definition upd_test :: "(iperf_test \<Rightarrow> iperf_test) \<Rightarrow> ep \<Rightarrow> ep" where
  "upd_test f e = e\<lparr>e_test := f (e_test e)\<rparr>"

definition fail :: "int \<Rightarrow> act" where
  "fail err e = Some (- 1, upd_test (\<lambda>t. t\<lparr>t_i_errno := err\<rparr>) e)"

definition ok :: act where "ok e = Some (0, e)"

text \<open>\<open>if (f (test) < 0) return -1;\<close> and then the rest.\<close>

definition and_then :: "act \<Rightarrow> act \<Rightarrow> act" where
  "and_then f g e = do { (r, e1) \<leftarrow> f e; if r < 0 then Some (- 1, e1) else g e1 }"

text \<open>A call for its effect on the test.\<close>

definition pass :: "(iperf_test \<Rightarrow> iperf_test) \<Rightarrow> act" where
  "pass f e = Some (0, upd_test f e)"

definition on_test :: "(iperf_test \<Rightarrow> int \<times> iperf_test) \<Rightarrow> act" where
  "on_test f e = (let (r, t) = f (e_test e) in Some (r, e\<lparr>e_test := t\<rparr>))"

text \<open>A system call whose failure is the error \<open>err\<close>.\<close>

definition call :: "int \<Rightarrow> act" where
  "call err e =
     (let (r, n) = syscall (e_net e); e1 = e\<lparr>e_net := n\<rparr>
      in if sr_ret r \<noteq> 0 then fail err e1 else ok e1)"

definition ep_close :: "int \<Rightarrow> ep \<Rightarrow> ep" where
  "ep_close s e = e\<lparr>e_net := call_close s (e_net e)\<rparr>"

section \<open>The control connection\<close>

definition ctl_write :: "ctl_msg \<Rightarrow> ep \<Rightarrow> int \<times> ep" where
  "ctl_write m e =
     (let (r, n) = syscall (e_net e); e1 = e\<lparr>e_net := n\<rparr>
      in if sr_ret r < 0 then (- 1, e1) else (0, e1\<lparr>e_out := e_out e1 @ [m]\<rparr>))"

definition read_json :: "ep \<Rightarrow> cJSON option \<times> ep" where
  "read_json e =
     (case e_in e of
        M_json j # q \<Rightarrow> (Some j, e\<lparr>e_in := q\<rparr>)
      | m # q \<Rightarrow> (None, e\<lparr>e_in := q\<rparr>)
      | [] \<Rightarrow> (None, e))"

text \<open>Reading one state byte: the value read and the result of the read.\<close>

definition read_state :: "ep \<Rightarrow> int \<times> ep" where
  "read_state e =
     (case e_in e of
        M_state b # q \<Rightarrow> (1, upd_test (\<lambda>t. t\<lparr>t_state := b\<rparr>) (e\<lparr>e_in := q\<rparr>))
      | m # q \<Rightarrow> (- 1, e\<lparr>e_in := q\<rparr>)
      | [] \<Rightarrow> (0, e))"

definition read_word :: "ep \<Rightarrow> int option \<times> ep" where
  "read_word e =
     (case e_in e of
        M_word w # q \<Rightarrow> (Some w, e\<lparr>e_in := q\<rparr>)
      | m # q \<Rightarrow> (None, e\<lparr>e_in := q\<rparr>)
      | [] \<Rightarrow> (Some 0, e))"

definition read_cookie :: "ep \<Rightarrow> string option \<times> ep" where
  "read_cookie e =
     (case e_in e of
        M_cookie c # q \<Rightarrow> (if length c = COOKIE_SIZE then Some c else None, e\<lparr>e_in := q\<rparr>)
      | m # q \<Rightarrow> (None, e\<lparr>e_in := q\<rparr>)
      | [] \<Rightarrow> (None, e))"

definition iperf_set_test_state :: "int \<Rightarrow> iperf_test \<Rightarrow> iperf_test" where
  "iperf_set_test_state st t = t\<lparr>t_state := st\<rparr>"

definition iperf_set_send_state :: "int \<Rightarrow> act" where
  "iperf_set_send_state st e =
     (if t_ctrl_sck (e_test e) \<ge> 0
      then (let (r, e1) = ctl_write (M_state st) (upd_test (iperf_set_test_state st) e)
            in if r < 0 then fail IESENDMESSAGE e1 else ok e1)
      else ok e)"

section \<open>The parameter exchange\<close>

text \<open>\<open>test->protocol->listen\<close>.\<close>

definition proto_listen :: act where
  "proto_listen e =
     (let t = e_test e in
      if t_protocol t = Pudp
      then (let (s, n) = netannounce (s_domain (t_settings t)) Pudp (t_bind_address t \<noteq> None)
                           (t_bind_dev t \<noteq> None) (e_net e);
                (r, t1) = iperf_udp_listen s t
            in Some (r, e\<lparr>e_test := t1, e_net := n\<rparr>))
      else (let (r, t1, n) = iperf_tcp_listen t (e_net e)
            in Some (r, e\<lparr>e_test := t1, e_net := n\<rparr>)))"

text \<open>The answer of a server that cannot listen: the state and two error numbers.\<close>

definition send_error :: act where
  "send_error =
     and_then (iperf_set_send_state SERVER_ERROR)
       (\<lambda>e. let (r, e1) = ctl_write (M_word (t_i_errno (e_test e))) e in
            if r < 0 then fail IECTRLWRITE e1
            else (let (r, e2) = ctl_write (M_word (n_errno (e_net e1))) e1 in
                  if r < 0 then fail IECTRLWRITE e2 else Some (- 1, e2)))"

definition ep_send_parameters :: act where
  "ep_send_parameters e =
     (let (r, e1) = ctl_write (M_json (params_json (e_test e))) e
      in on_test (send_parameters (\<lambda>_. r)) e1)"

definition ep_get_parameters :: act where
  "ep_get_parameters e = (let (jo, e1) = read_json e in on_test (get_parameters jo) e1)"

definition iperf_exchange_parameters :: act where
  "iperf_exchange_parameters e =
     (if t_role (e_test e) = CHR ''c'' then ep_send_parameters e
      else and_then ep_get_parameters
        (\<lambda>e1. do { (s, e2) \<leftarrow> proto_listen e1;
                   if s < 0 then send_error e2
                   else iperf_set_send_state CREATE_STREAMS
                     (upd_test (\<lambda>t. t\<lparr>t_read_set := insert s (t_read_set t),
                                      t_max_fd := max s (t_max_fd t), t_prot_listener := s\<rparr>) e2) }) e)"

section \<open>The result exchange\<close>

definition ep_send_results :: act where
  "ep_send_results e =
     (let (r, e1) = ctl_write (M_json (results_json (e_json_top e) (e_test e))) e
      in on_test (send_results (\<lambda>_. r) (e_json_top e)) e1)"

definition ep_get_results :: act where
  "ep_get_results e = (let (jo, e1) = read_json e in on_test (get_results jo) e1)"

definition ep_exchange_results :: act where
  "ep_exchange_results e =
     (if t_role (e_test e) = CHR ''c''
      then and_then ep_send_results (and_then ep_get_results ok) e
      else and_then ep_get_results (and_then ep_send_results ok) e)"

section \<open>Common steps of a test\<close>

text \<open>\<open>cpu_util (NULL)\<close> stores the sample; \<open>cpu_util (test->cpu_util)\<close> computes the load since then.\<close>

definition cpu_start :: "ep \<Rightarrow> ep" where
  "cpu_start e = e\<lparr>e_cpu := (snd (e_cpu e), snd (e_cpu e))\<rparr>"

definition cpu_stop :: act where
  "cpu_stop e =
     (case cpu_util (fst (e_cpu e)) (snd (e_cpu e)) of
        None \<Rightarrow> None
      | Some u \<Rightarrow> pass (\<lambda>t. t\<lparr>t_cpu_util := u\<rparr>) e)"

definition time_now :: "ep \<Rightarrow> iperf_time" where
  "time_now e = (case e_now e of Some t \<Rightarrow> t | None \<Rightarrow> zero_time)"

definition ep_stats_callback :: act where
  "ep_stats_callback e =
     (case iperf_stats_callback (\<lambda>_. time_now e) (e_info e) zero_interval (e_test e) of
        None \<Rightarrow> None
      | Some t \<Rightarrow> Some (0, e\<lparr>e_test := t\<rparr>))"

definition reset_stats :: "iperf_time \<Rightarrow> ep \<Rightarrow> ep" where
  "reset_stats now e =
     upd_test (iperf_reset_stats now
       (\<lambda>s. case e_info e s of None \<Rightarrow> zero_tcp_info | Some i \<Rightarrow> i)) e"

definition init_test :: act where
  "init_test e =
     on_test (iperf_init_test (if t_protocol (e_test e) = Pudp then iperf_udp_init (e_test e) else 0) (e_now e)) e"

text \<open>One call of \<open>iperf_new_stream\<close> with its results. \<open>n_open\<close> lists sockets, not the files it opens.\<close>

definition new_stream :: "int \<Rightarrow> int \<Rightarrow> act" where
  "new_stream s sender e =
     (case e_calls e of
        [] \<Rightarrow> fail IECREATESTREAM e
      | sc # scs \<Rightarrow>
          (case iperf_new_stream sc s sender (e_test e) of
             None \<Rightarrow> None
           | Some (sp, t, fds) \<Rightarrow>
               Some (if sp = None then - 1 else 0, e\<lparr>e_test := t, e_calls := scs\<rparr>)))"

text \<open>Creating one of the timers of a test. \<open>set\<close> assigns its field.\<close>

definition make_timer ::
  "timer_proc_id \<Rightarrow> int \<Rightarrow> int \<Rightarrow> (addr option \<Rightarrow> iperf_test \<Rightarrow> iperf_test) \<Rightarrow> iperf_time \<Rightarrow> act" where
  "make_timer proc us periodic set_field now e =
     (let (mem, mems) = (case e_mem e of [] \<Rightarrow> (None, []) | m # ms \<Rightarrow> (m, ms)) in
      do { (p, tm) \<leftarrow> tmr_create (Some now) now mem proc us periodic (e_tmrs e);
           let e1 = upd_test (set_field p) (e\<lparr>e_tmrs := tm, e_mem := mems\<rparr>) in
           if p = None then fail IEINITTEST e1 else ok e1 })"

text \<open>\<open>pthread_cancel\<close> and \<open>pthread_join\<close> of a thread: their results, of which only \<open>ESRCH\<close> is no failure.\<close>

abbreviation (input) ESRCH :: int where "ESRCH \<equiv> 3"

definition thread_call :: "ep \<Rightarrow> bool \<times> ep" where
  "thread_call e =
     (let (r, n) = syscall (e_net e) in (sr_ret r = 0 \<or> sr_ret r = ESRCH, e\<lparr>e_net := n\<rparr>))"

definition upd_sp :: "nat \<Rightarrow> (iperf_stream \<Rightarrow> iperf_stream) \<Rightarrow> ep \<Rightarrow> ep" where
  "upd_sp i f = upd_test (\<lambda>t. t\<lparr>t_streams := (t_streams t)[i := f (t_streams t ! i)]\<rparr>)"


text \<open>Starting the threads of the streams with the numbers given.\<close>

fun start_threads :: "nat list \<Rightarrow> act" where
  "start_threads [] e = ok e"
| "start_threads (i # is) e =
     (let (r, n) = syscall (e_net e); e1 = e\<lparr>e_net := n\<rparr>
      in if sr_ret r \<noteq> 0 then fail IEPTHREADCREATE e1
         else start_threads is (upd_sp i (\<lambda>sp. sp\<lparr>sp_thread_created := 1\<rparr>) e1))"

text \<open>\<open>sp->done = 1\<close> and stopping the thread, where a failure ends the run.\<close>

definition stop_thread :: "nat \<Rightarrow> act" where
  "stop_thread i e =
     (let e1 = upd_sp i (\<lambda>sp. sp\<lparr>sp_done := 1\<rparr>) e in
      if sp_thread_created (t_streams (e_test e1) ! i) \<noteq> 1 then ok e1
      else (let (c, e2) = thread_call e1 in
            if \<not> c then fail IEPTHREADCANCEL e2
            else (let (j, e3) = thread_call e2 in
                  if \<not> j then fail IEPTHREADJOIN e3
                  else ok (upd_sp i (\<lambda>sp. sp\<lparr>sp_thread_created := 0\<rparr>) e3))))"

fun stop_threads :: "nat list \<Rightarrow> act" where
  "stop_threads [] e = ok e"
| "stop_threads (i # is) e = and_then (stop_thread i) (stop_threads is) e"

text \<open>The same during clean-up: failures are reported and \<open>i_errno\<close> is restored.\<close>

definition kill_thread :: "nat \<Rightarrow> ep \<Rightarrow> ep" where
  "kill_thread i e =
     (let e1 = upd_sp i (\<lambda>sp. sp\<lparr>sp_done := 1\<rparr>) e in
      if sp_thread_created (t_streams (e_test e1) ! i) \<noteq> 1 then e1
      else upd_sp i (\<lambda>sp. sp\<lparr>sp_thread_created := 0\<rparr>) (snd (thread_call (snd (thread_call e1)))))"

definition stream_numbers :: "(iperf_stream \<Rightarrow> bool) \<Rightarrow> ep \<Rightarrow> nat list" where
  "stream_numbers P e = filter (\<lambda>i. P (t_streams (e_test e) ! i)) [0..<length (t_streams (e_test e))]"

section \<open>Worker threads\<close>

text \<open>The body of a worker thread (the same code in client and server), the results of its system
calls given by \<open>os\<close>. A worker that never stops has no value.\<close>

definition worker_round ::
  "'s os \<Rightarrow> iperf_test \<Rightarrow> iperf_stream \<Rightarrow> 's \<Rightarrow> (int \<times> iperf_test \<times> iperf_stream \<times> 's) option" where
  "worker_round os test sp s =
     (if c_true (sp_sender sp) then iperf_send_mt os test sp s else Some (iperf_recv_mt os test sp s))"

partial_function (option) worker_loop ::
  "'s os \<Rightarrow> iperf_test \<Rightarrow> iperf_stream \<Rightarrow> 's \<Rightarrow> (iperf_test \<times> iperf_stream \<times> 's) option" where [code]:
  "worker_loop os test sp s =
     (if c_true (t_done test) \<or> c_true (sp_done sp) then Some (test, sp, s)
      else do { (r, test1, sp1, s1) \<leftarrow> worker_round os test sp s;
                if r < 0 then Some (test1, sp1, s1) else worker_loop os test1 sp1 s1 })"

definition worker_run ::
  "'s os \<Rightarrow> int \<Rightarrow> iperf_test \<Rightarrow> iperf_stream \<Rightarrow> 's \<Rightarrow> (iperf_test \<times> iperf_stream \<times> 's) option" where
  "worker_run os sigmask_rc test sp s =
     (if sigmask_rc \<noteq> 0 then Some (test\<lparr>t_i_errno := IEPTHREADSIGMASK\<rparr>, sp, s)
      else worker_loop os test sp s)"

section \<open>Waiting\<close>

text \<open>One return of \<open>select\<close>: what the rest of the world (the worker threads, the peer, the clock) did
while it waited, its result, whether an error was \<open>EINTR\<close>, the ready descriptors, and what is left of
the time limit, which Linux writes back.\<close>

record event =
  ev_world :: "ep \<Rightarrow> ep"
  ev_result :: int
  ev_eintr :: bool
  ev_ready :: "int set"
  ev_left :: "int \<times> int"

abbreviation (input) SEC_TO_US :: int where "SEC_TO_US \<equiv> 1000000"

definition time_us :: "iperf_time \<Rightarrow> int" where
  "time_us t = uint (secs t) * SEC_TO_US + uint (usecs t)"

text \<open>The time limit a receiving side gives \<open>select\<close>, from the time to the next timer.\<close>

definition receive_timeout :: "iperf_time \<Rightarrow> (int \<times> int) option \<Rightarrow> int \<times> int" where
  "receive_timeout rcv_timeout timeout =
     (let timeout_us = (case timeout of None \<Rightarrow> - 1 | Some (s, us) \<Rightarrow> s * SEC_TO_US + us);
          capped = (if timeout_us > SEC_TO_US then SEC_TO_US else timeout_us)
      in if capped < 0 \<or> capped > time_us rcv_timeout
         then (uint (secs rcv_timeout), uint (usecs rcv_timeout))
         else (case timeout of Some t \<Rightarrow> t | None \<Rightarrow> (0, 0)))"

text \<open>A receive time-out of a second or more leaves the time to the next timer as it is, however long.\<close>

lemma select_not_capped:
  assumes "SEC_TO_US \<le> time_us rcv_timeout" "0 \<le> s" "0 \<le> us"
  shows "receive_timeout rcv_timeout (Some (s, us)) = (s, us)"
  using assms by (simp add: receive_timeout_def Let_def)

text \<open>The number of microseconds since something was received, when the clock went forward.\<close>

definition idle_usecs :: "iperf_time \<Rightarrow> iperf_time \<Rightarrow> int option" where
  "idle_usecs now last_receive_time =
     (let (c, diff) = iperf_time_diff now last_receive_time
      in if c = 0 then Some (to_int64 (uint (iperf_time_in_usecs diff))) else None)"

datatype 'l run = Waiting 'l ep | Returned int ep

section \<open>Timers of a test\<close>

text \<open>\<open>client_omit_timer_proc\<close> and \<open>server_omit_timer_proc\<close>.\<close>

definition reset_field :: "addr option \<Rightarrow> iperf_time \<Rightarrow> tmrs \<Rightarrow> tmrs option" where
  "reset_field p now tm = (case p of None \<Rightarrow> Some tm | Some a \<Rightarrow> tmr_reset (Some now) now a tm)"

definition omit_timer_proc :: "iperf_time \<Rightarrow> tmrs \<times> ep \<Rightarrow> (tmrs \<times> ep) option" where
  "omit_timer_proc now tw =
     (let (tm, e) = tw;
          e1 = reset_stats now (upd_test (\<lambda>t. t\<lparr>t_omit_timer := None, t_omitting := 0\<rparr>) e)
      in do { tm1 \<leftarrow> reset_field (t_stats_timer (e_test e1)) now tm;
              tm2 \<leftarrow> reset_field (t_reporter_timer (e_test e1)) now tm1;
              Some (tm2, e1) })"

definition stats_timer_proc :: "tmrs \<times> ep \<Rightarrow> (tmrs \<times> ep) option" where
  "stats_timer_proc tw =
     (if c_true (t_done (e_test (snd tw))) then Some tw
      else map_option (\<lambda>(r, e). (fst tw, e)) (ep_stats_callback (snd tw)))"

text \<open>The reporter only prints.\<close>

definition reporter_timer_proc :: "tmrs \<times> ep \<Rightarrow> (tmrs \<times> ep) option" where
  "reporter_timer_proc tw = Some tw"

definition run_timers :: "(timer_proc_id, ep) proc \<Rightarrow> act" where
  "run_timers proc e =
     do { (tm, e1) \<leftarrow> tmr_run proc (Some (time_now e)) (time_now e) (e_tmrs e) e;
          ok (e1\<lparr>e_tmrs := tm\<rparr>) }"

text \<open>The timers of a test; \<open>grace\<close> is the time a server adds.\<close>

definition interval_us :: "dbl \<Rightarrow> int" where
  "interval_us seconds = trunc (dmul seconds 1000000)"

definition create_test_timers :: "int \<Rightarrow> act" where
  "create_test_timers grace e =
     (case e_now e of
        None \<Rightarrow> fail IEINITTEST e
      | Some now \<Rightarrow>
          and_then (pass (\<lambda>t. t\<lparr>t_timer := None, t_stats_timer := None, t_reporter_timer := None\<rparr>))
         (and_then (\<lambda>e. if t_duration (e_test e) \<noteq> 0
                        then make_timer Test_timer_proc
                               (to_int32 (t_duration (e_test e) + t_omit (e_test e) + grace) * SEC_TO_US) 0
                               (\<lambda>p t. t\<lparr>t_timer := p\<rparr>) now (upd_test (\<lambda>t. t\<lparr>t_done := 0\<rparr>) e)
                        else ok e)
         (and_then (\<lambda>e. if t_stats_interval (e_test e) \<noteq> 0
                        then make_timer Stats_timer_proc (interval_us (t_stats_interval (e_test e))) 1
                               (\<lambda>p t. t\<lparr>t_stats_timer := p\<rparr>) now e
                        else ok e)
                   (\<lambda>e. if t_reporter_interval (e_test e) \<noteq> 0
                        then make_timer Reporter_timer_proc (interval_us (t_reporter_interval (e_test e))) 1
                               (\<lambda>p t. t\<lparr>t_reporter_timer := p\<rparr>) now e
                        else ok e))) e)"

definition create_omit_timer :: act where
  "create_omit_timer e =
     (if t_omit (e_test e) = 0
      then pass (\<lambda>t. t\<lparr>t_omit_timer := None, t_omitting := 0\<rparr>) e
      else case e_now e of
        None \<Rightarrow> fail IEINITTEST e
      | Some now \<Rightarrow>
          make_timer Omit_timer_proc (t_omit (e_test e) * SEC_TO_US) 0
            (\<lambda>p t. t\<lparr>t_omit_timer := p\<rparr>) now (upd_test (\<lambda>t. t\<lparr>t_omitting := 1\<rparr>) e))"

section \<open>What an action leaves alone\<close>

text \<open>The part of an end the control protocol is about.\<close>

definition tctl :: "iperf_test \<Rightarrow> int \<times> int \<times> char" where
  "tctl t = (t_state t, t_ctrl_sck t, t_role t)"

definition ctl_of :: "ep \<Rightarrow> ctl_msg list \<times> ctl_msg list \<times> int \<times> int \<times> char" where
  "ctl_of e = (e_in e, e_out e, tctl (e_test e))"

definition keeps_ctl :: "act \<Rightarrow> bool" where
  "keeps_ctl f \<longleftrightarrow> (\<forall>e r e1. f e = Some (r, e1) \<longrightarrow> ctl_of e1 = ctl_of e)"

named_theorems frame_rules

lemma tctl_upd [simp]:
  "tctl (t\<lparr>t_i_errno := i\<rparr>) = tctl t" "tctl (t\<lparr>t_streams := ss\<rparr>) = tctl t"
  "tctl (t\<lparr>t_done := d\<rparr>) = tctl t" "tctl (t\<lparr>t_timer := p\<rparr>) = tctl t"
  "tctl (t\<lparr>t_stats_timer := p\<rparr>) = tctl t" "tctl (t\<lparr>t_reporter_timer := p\<rparr>) = tctl t"
  "tctl (t\<lparr>t_omit_timer := p\<rparr>) = tctl t" "tctl (t\<lparr>t_omitting := d\<rparr>) = tctl t"
  "tctl (t\<lparr>t_cpu_util := u\<rparr>) = tctl t" "tctl (t\<lparr>t_read_set := s\<rparr>) = tctl t"
  "tctl (t\<lparr>t_write_set := s\<rparr>) = tctl t" "tctl (t\<lparr>t_max_fd := d\<rparr>) = tctl t"
  "tctl (t\<lparr>t_prot_listener := d\<rparr>) = tctl t" "tctl (t\<lparr>t_listener := d\<rparr>) = tctl t"
  "tctl (t\<lparr>t_congestion_used := c\<rparr>) = tctl t" "tctl (t\<lparr>t_bind_port := d\<rparr>) = tctl t"
  "tctl (t\<lparr>t_cookie := ck\<rparr>) = tctl t" "tctl (t\<lparr>t_settings := st\<rparr>) = tctl t"
  "tctl (t\<lparr>t_bytes_sent := w\<rparr>) = tctl t" "tctl (t\<lparr>t_blocks_sent := w\<rparr>) = tctl t"
  "tctl (t\<lparr>t_ctrl_sck_mss := d\<rparr>) = tctl t" "tctl (t\<lparr>t_mapped_v4 := d\<rparr>) = tctl t"
  "tctl (t\<lparr>t_bitrate_limit_stats_count := w\<rparr>) = tctl t"
  "tctl (t\<lparr>t_bitrate_limit_intervals_traffic_bytes := ws\<rparr>) = tctl t"
  "tctl (t\<lparr>t_bitrate_limit_last_interval_index := w\<rparr>) = tctl t"
  "tctl (t\<lparr>t_bitrate_limit_exceeded := d\<rparr>) = tctl t"
  by (simp_all add: tctl_def)

lemma ctl_upd [simp]:
  "ctl_of (e\<lparr>e_net := n\<rparr>) = ctl_of e" "ctl_of (e\<lparr>e_tmrs := tm\<rparr>) = ctl_of e"
  "ctl_of (e\<lparr>e_mem := m\<rparr>) = ctl_of e" "ctl_of (e\<lparr>e_udp := u\<rparr>) = ctl_of e"
  "ctl_of (e\<lparr>e_calls := c\<rparr>) = ctl_of e" "ctl_of (e\<lparr>e_cpu := p\<rparr>) = ctl_of e"
  "ctl_of (e\<lparr>e_conns := cs\<rparr>) = ctl_of e" "ctl_of (e\<lparr>e_denied := ds\<rparr>) = ctl_of e"
  "ctl_of (ep_close s e) = ctl_of e" "ctl_of (cpu_start e) = ctl_of e"
  by (simp_all add: ctl_of_def ep_close_def cpu_start_def)

lemma ctl_put_test [simp]: "tctl t = tctl (e_test e) \<Longrightarrow> ctl_of (e\<lparr>e_test := t\<rparr>) = ctl_of e"
  by (simp add: ctl_of_def)

lemma ctl_upd_test [simp]: "tctl (f (e_test e)) = tctl (e_test e) \<Longrightarrow> ctl_of (upd_test f e) = ctl_of e"
  by (simp add: upd_test_def)

lemma keeps_ctlI: "(\<And>e r e1. f e = Some (r, e1) \<Longrightarrow> ctl_of e1 = ctl_of e) \<Longrightarrow> keeps_ctl f"
  by (simp add: keeps_ctl_def)

lemma keeps_ctlD: "keeps_ctl f \<Longrightarrow> f e = Some (r, e1) \<Longrightarrow> ctl_of e1 = ctl_of e"
  by (simp add: keeps_ctl_def)

lemma fail_ctl: "fail err e = Some (r, e1) \<Longrightarrow> ctl_of e1 = ctl_of e"
  by (auto simp: fail_def)

lemma ok_Some [simp]: "ok e = Some (r, e1) \<longleftrightarrow> r = 0 \<and> e1 = e"
  by (auto simp: ok_def)

lemma keeps_and_then [frame_rules]: "keeps_ctl f \<Longrightarrow> keeps_ctl g \<Longrightarrow> keeps_ctl (and_then f g)"
  unfolding keeps_ctl_def and_then_def bind_eq_Some_conv by (auto split: if_split_asm)

lemma keeps_ok [frame_rules]: "keeps_ctl ok"
  by (simp add: keeps_ctl_def)

lemma keeps_fail [frame_rules]: "keeps_ctl (fail err)"
  by (simp add: keeps_ctl_def fail_ctl)

lemma keeps_pass [frame_rules]: "(\<And>t. tctl (f t) = tctl t) \<Longrightarrow> keeps_ctl (pass f)"
  by (auto simp: keeps_ctl_def pass_def)

lemma keeps_on_test [frame_rules]: "(\<And>t. tctl (snd (f t)) = tctl t) \<Longrightarrow> keeps_ctl (on_test f)"
  by (auto simp: keeps_ctl_def on_test_def Let_def split: prod.splits) (metis ctl_put_test snd_conv)

lemma keeps_if [frame_rules]: "keeps_ctl f \<Longrightarrow> keeps_ctl g \<Longrightarrow> keeps_ctl (\<lambda>e. if P e then f e else g e)"
  by (simp add: keeps_ctl_def)

lemma keeps_call [frame_rules]: "keeps_ctl (call err)"
  by (rule keeps_ctlI) (auto simp: call_def Let_def split: prod.splits if_split_asm dest!: fail_ctl)

lemma iperf_init_test_frame: "tctl (snd (iperf_init_test p now t)) = tctl t"
  by (auto simp: iperf_init_test_def split: option.split)

lemma keeps_init_test [frame_rules]: "keeps_ctl init_test"
  by (rule keeps_ctlI) (simp add: init_test_def keeps_ctlD[OF keeps_on_test[OF iperf_init_test_frame]])

lemma keeps_send_timers [frame_rules]: "keeps_ctl (on_test iperf_create_send_timers)"
  by (intro frame_rules) (simp add: iperf_create_send_timers_def)

lemma check_total_rate_frame: "iperf_check_total_rate b t = Some t1 \<Longrightarrow> tctl t1 = tctl t"
  by (auto simp: iperf_check_total_rate_def check_average_def Let_def
      split: if_split_asm option.split_asm)

lemma stats_callback_frame: "iperf_stats_callback now so temp t = Some t1 \<Longrightarrow> tctl t1 = tctl t"
  by (auto simp: iperf_stats_callback_def Let_def
      split: prod.split_asm if_split_asm dest!: check_total_rate_frame)

lemma keeps_stats [frame_rules]: "keeps_ctl ep_stats_callback"
  by (rule keeps_ctlI) (auto simp: ep_stats_callback_def split: option.split_asm dest: stats_callback_frame)

lemma keeps_cpu_stop [frame_rules]: "keeps_ctl cpu_stop"
  by (rule keeps_ctlI) (auto simp: cpu_stop_def pass_def split: option.split_asm)

lemma add_stream_ctl [simp]: "tctl (iperf_add_stream t sp) = tctl t"
  by (simp add: iperf_add_stream_def)

lemma init_stream_ctl: "iperf_init_stream so pe sp t = (r, sp1, t1) \<Longrightarrow> tctl t1 = tctl t"
  by (auto simp: iperf_init_stream_def split: option.split_asm)

lemma iperf_new_stream_frame: "iperf_new_stream sc s sender t = Some (sp, t1, fds) \<Longrightarrow> tctl t1 = tctl t"
  unfolding iperf_new_stream_def Let_def
  by (elim bindE | auto split: if_split_asm prod.split_asm dest: init_stream_ctl)+

lemma keeps_new_stream [frame_rules]: "keeps_ctl (new_stream s sender)"
  by (rule keeps_ctlI)
    (auto simp: new_stream_def split: list.split_asm option.split_asm
      dest: iperf_new_stream_frame dest!: fail_ctl)

lemma make_timer_ctl:
  assumes "make_timer proc us per set_field now e = Some (r, e1)" "\<And>p t. tctl (set_field p t) = tctl t"
  shows "ctl_of e1 = ctl_of e"
proof -
  obtain mem mems where m: "(case e_mem e of [] \<Rightarrow> (None, []) | m # ms \<Rightarrow> (m, ms)) = (mem, mems)" by fastforce
  show ?thesis
    using assms(1) unfolding make_timer_def m Let_def prod.case
    by (auto simp: bind_eq_Some_conv assms(2) split: if_split_asm dest!: fail_ctl)
qed

lemma upd_sp_ctl [simp]: "ctl_of (upd_sp i f e) = ctl_of e"
  by (simp add: upd_sp_def)

lemma thread_call_ctl: "thread_call e = (b, e1) \<Longrightarrow> ctl_of e1 = ctl_of e"
  by (auto simp: thread_call_def Let_def split: prod.split_asm)

lemma keeps_start_threads [frame_rules]: "keeps_ctl (start_threads is)"
proof (induction "is")
  case Nil then show ?case by (rule keeps_ctlI) simp
next
  case (Cons i js)
  show ?case
    by (rule keeps_ctlI)
      (auto simp: Let_def split: prod.split_asm if_split_asm dest!: keeps_ctlD[OF Cons] fail_ctl)
qed

lemma keeps_stop_thread [frame_rules]: "keeps_ctl (stop_thread i)"
  by (rule keeps_ctlI)
    (auto simp: stop_thread_def Let_def split: prod.split_asm if_split_asm dest!: thread_call_ctl fail_ctl)

lemma keeps_stop_threads [frame_rules]: "keeps_ctl (stop_threads is)"
proof (induction "is")
  case Nil then show ?case by (rule keeps_ctlI) simp
next
  case (Cons i js)
  then show ?case using keeps_and_then[OF keeps_stop_thread[of i] Cons] by (simp add: keeps_ctl_def)
qed

lemma kill_thread_ctl [simp]: "ctl_of (kill_thread i e) = ctl_of e"
  using thread_call_ctl[OF prod.collapse[symmetric], of "upd_sp i (\<lambda>sp. sp\<lparr>sp_done := 1\<rparr>) e"]
    thread_call_ctl[OF prod.collapse[symmetric], of "snd (thread_call (upd_sp i (\<lambda>sp. sp\<lparr>sp_done := 1\<rparr>) e))"]
  by (simp add: kill_thread_def Let_def)

lemma fold_ctl: "(\<And>x e. ctl_of (f x e) = ctl_of e) \<Longrightarrow> ctl_of (fold f xs e) = ctl_of e"
  by (induction xs arbitrary: e) simp_all

lemma keeps_test_timers [frame_rules]: "keeps_ctl (create_test_timers grace)"
proof -
  have m: "keeps_ctl (\<lambda>e. make_timer p (f e) per (\<lambda>p t. g p t) now e)"
    if "\<And>p t. tctl (g p t) = tctl t" for p f per g now
    by (rule keeps_ctlI) (rule make_timer_ctl[OF _ that])
  have m1: "keeps_ctl (\<lambda>e. make_timer p (f e) per (\<lambda>p t. g p t) now (upd_test (\<lambda>t. t\<lparr>t_done := 0\<rparr>) e))"
    if "\<And>p t. tctl (g p t) = tctl t" for p f per g now
    by (rule keeps_ctlI) (use make_timer_ctl[OF _ that] in fastforce)
  have seq: "keeps_ctl
      (and_then (pass (\<lambda>t. t\<lparr>t_timer := None, t_stats_timer := None, t_reporter_timer := None\<rparr>))
         (and_then (\<lambda>e. if t_duration (e_test e) \<noteq> 0
                        then make_timer Test_timer_proc
                               (to_int32 (t_duration (e_test e) + t_omit (e_test e) + grace) * SEC_TO_US) 0
                               (\<lambda>p t. t\<lparr>t_timer := p\<rparr>) now (upd_test (\<lambda>t. t\<lparr>t_done := 0\<rparr>) e)
                        else ok e)
         (and_then (\<lambda>e. if t_stats_interval (e_test e) \<noteq> 0
                        then make_timer Stats_timer_proc (interval_us (t_stats_interval (e_test e))) 1
                               (\<lambda>p t. t\<lparr>t_stats_timer := p\<rparr>) now e
                        else ok e)
                   (\<lambda>e. if t_reporter_interval (e_test e) \<noteq> 0
                        then make_timer Reporter_timer_proc (interval_us (t_reporter_interval (e_test e))) 1
                               (\<lambda>p t. t\<lparr>t_reporter_timer := p\<rparr>) now e
                        else ok e))))" for now
    by (intro keeps_and_then keeps_pass keeps_if keeps_ok m m1) simp_all
  show ?thesis
    by (rule keeps_ctlI)
      (auto simp: create_test_timers_def split: option.split_asm dest!: fail_ctl keeps_ctlD[OF seq])
qed

lemma keeps_omit_timer [frame_rules]: "keeps_ctl create_omit_timer"
proof (rule keeps_ctlI)
  fix e r e1 assume c: "create_omit_timer e = Some (r, e1)"
  show "ctl_of e1 = ctl_of e"
  proof (cases "t_omit (e_test e) = 0")
    case True
    with c show ?thesis by (auto simp: create_omit_timer_def pass_def)
  next
    case False
    show ?thesis
    proof (cases "e_now e")
      case None
      with False c show ?thesis by (auto simp: create_omit_timer_def dest!: fail_ctl)
    next
      case (Some now)
      with False c have "make_timer Omit_timer_proc (t_omit (e_test e) * SEC_TO_US) 0
          (\<lambda>p t. t\<lparr>t_omit_timer := p\<rparr>) now (upd_test (\<lambda>t. t\<lparr>t_omitting := 1\<rparr>) e) = Some (r, e1)"
        by (simp add: create_omit_timer_def)
      from make_timer_ctl[OF this] show ?thesis by simp
    qed
  qed
qed

text \<open>The timers run procedures that leave the control connection alone.\<close>

lemma run_from_keeps:
  assumes "run_from proc now t s w = Some (s', w')"
    and p: "\<And>d s w s1 w1. proc d now (s, w) = Some (s1, w1) \<Longrightarrow> ctl_of w1 = ctl_of w"
  shows "ctl_of w' = ctl_of w"
proof -
  let ?P = "\<lambda>(proc :: ('a, ep) proc) now (t :: nat option) (s :: 'a tstate) w y.
    (\<forall>d s w s1 w1. proc d now (s, w) = Some (s1, w1) \<longrightarrow> ctl_of w1 = ctl_of w) \<longrightarrow>
    ctl_of (snd y) = ctl_of w"
  have "?P proc now t s w (s', w')"
  proof (rule run_from.raw_induct[where P = ?P, OF _ assms(1)])
    fix rf proc now t s w y
    assume "\<And>(proc :: ('a, ep) proc) now t s w y. rf proc now t s w = Some y \<Longrightarrow> ?P proc now t s w y"
      and "(case t of None \<Rightarrow> Some (s, w)
            | Some a \<Rightarrow> store s a \<bind> (\<lambda>c.
                if 0 < iperf_time_compare (t_time c) now then Some (s, w)
                else proc (timer_proc c) now (s, w) \<bind> (\<lambda>(s0, w'). store s0 a \<bind> (\<lambda>c0.
                  if c_true (t_periodic c0)
                  then upd a (\<lambda>c. c\<lparr>t_time := iperf_time_add_usecs (t_time c) (word_of_int (t_usecs c))\<rparr>) s0
                    \<bind> (\<lambda>s1. list_resort a s1 \<bind> (\<lambda>s2. rf proc now (t_next c) s2 w'))
                  else tmr_cancel a s0 \<bind> (\<lambda>s1. rf proc now (t_next c) s1 w'))))) = Some y"
    note IH = this(1) and body = this(2)
    show "?P proc now t s w y"
    proof
      assume p: "\<forall>d s w s1 w1. proc d now (s, w) = Some (s1, w1) \<longrightarrow> ctl_of w1 = ctl_of w"
      then have IH': "rf proc now t s w = Some y \<Longrightarrow> ctl_of (snd y) = ctl_of w" for t s w y
        using IH by blast
      show "ctl_of (snd y) = ctl_of w"
      proof (cases t)
        case None
        with body show ?thesis by auto
      next
        case (Some a)
        with body obtain c where c: "store s a = Some c" by (auto simp: bind_eq_Some_conv)
        show ?thesis
        proof (cases "0 < iperf_time_compare (t_time c) now")
          case True
          with body Some c show ?thesis by auto
        next
          case False
          with body Some c obtain s0 w0 where pr: "proc (timer_proc c) now (s, w) = Some (s0, w0)"
            and rest: "\<exists>t s. rf proc now t s w0 = Some y"
            by (auto simp: bind_eq_Some_conv split: if_split_asm)
          from rest IH' p pr show ?thesis by fastforce
        qed
      qed
    qed
  qed
  then show ?thesis using p by simp
qed

lemma omit_timer_proc_ctl: "omit_timer_proc now (s, w) = Some (s1, w1) \<Longrightarrow> ctl_of w1 = ctl_of w"
  by (auto simp: omit_timer_proc_def reset_stats_def bind_eq_Some_conv Let_def iperf_reset_stats_def)

lemma stats_timer_proc_ctl: "stats_timer_proc (s, w) = Some (s1, w1) \<Longrightarrow> ctl_of w1 = ctl_of w"
  by (auto simp: stats_timer_proc_def split: if_split_asm dest: keeps_ctlD[OF keeps_stats])

lemma reporter_timer_proc_ctl: "reporter_timer_proc (s, w) = Some (s1, w1) \<Longrightarrow> ctl_of w1 = ctl_of w"
  by (simp add: reporter_timer_proc_def)

lemma keeps_run_timers:
  assumes "\<And>d now s w s1 w1. proc d now (s, w) = Some (s1, w1) \<Longrightarrow> ctl_of w1 = ctl_of w"
  shows "keeps_ctl (run_timers proc)"
proof (rule keeps_ctlI)
  fix e r e1 assume "run_timers proc e = Some (r, e1)"
  then obtain tm e2 where "run_from proc (time_now e) (timers (e_tmrs e)) (e_tmrs e) e = Some (tm, e2)"
    "e1 = e2\<lparr>e_tmrs := tm\<rparr>"
    by (auto simp: run_timers_def tmr_run_def getnow_def bind_eq_Some_conv)
  with run_from_keeps[OF this(1) assms] show "ctl_of e1 = ctl_of e" by simp
qed

end
