(* ===== verification/Diskfile.thy ===== *)
theory Diskfile
  imports Endpoint
begin

text \<open>
  The option \<open>-F\<close>: what a worker that sends a file puts on the connection. With a socket that takes
  whole blocks the file arrives as it is; with one short write it does not.
\<close>

section \<open>Sending a file\<close>

text \<open>A file and a socket that takes what it is given, except that the next writes are cut to the
sizes in \<open>f_caps\<close> (a size of zero is EAGAIN).\<close>

record fsock =
  f_file :: "u8 list"
  f_out :: "u8 list"
  f_caps :: "nat list"

definition f_write :: "fsock sys_write" where
  "f_write bs f =
     (case f_caps f of
        [] \<Rightarrow> (Wrote (length bs), f\<lparr>f_out := f_out f @ bs\<rparr>)
      | c # cs \<Rightarrow>
          (if c = 0 then (W_error EAGAIN, f\<lparr>f_caps := cs\<rparr>)
           else (Wrote (min c (length bs)), f\<lparr>f_out := f_out f @ take c bs, f_caps := cs\<rparr>)))"

definition f_read :: "fsock sys_read" where
  "f_read n f = (Got (take n (f_file f)), f\<lparr>f_file := drop n (f_file f)\<rparr>)"

definition file_os :: "fsock os" where
  "file_os = \<lparr>os_write = f_write, os_read = (\<lambda>n f. (R_error EAGAIN, f)), os_now = (\<lambda>f. (zero_time, f)),
     os_file_read = f_read, os_file_write = (\<lambda>bs f. (Wrote (length bs), f)), os_nanosleep = (\<lambda>n f. (0, f))\<rparr>"

definition file_ready :: "nat \<Rightarrow> iperf_test \<Rightarrow> iperf_stream \<Rightarrow> bool" where
  "file_ready b test sp \<longleftrightarrow> s_blksize (t_settings test) = int b \<and> 0 < b \<and> b < 2 ^ 31 \<and>
     t_done test = 0 \<and> t_zerocopy test = 0 \<and> length (sp_buffer sp) = b \<and> sp_snd2 sp = Tcp_io \<and>
     sp_diskfile_left sp = 0 \<and> sp_pending_size sp = 0"

text \<open>What a call of \<open>diskfile_send\<close> leaves alone in the stream, and a worker that sends without a limit,
in bursts of \<open>M\<close> calls.\<close>

definition same_worker :: "iperf_stream \<Rightarrow> iperf_stream \<Rightarrow> bool" where
  "same_worker sp sp1 \<longleftrightarrow> sp_snd sp1 = sp_snd sp \<and> sp_green_light sp1 = sp_green_light sp \<and>
     sp_sender sp1 = sp_sender sp \<and> sp_done sp1 = sp_done sp"

definition file_worker :: "nat \<Rightarrow> iperf_test \<Rightarrow> iperf_stream \<Rightarrow> bool" where
  "file_worker M test sp \<longleftrightarrow>
     sp_snd sp = Diskfile_io \<and> sp_green_light sp \<noteq> 0 \<and> sp_sender sp = 1 \<and> sp_done sp = 0 \<and>
     s_rate (t_settings test) = 0 \<and> s_bytes (t_settings test) = 0 \<and> s_blocks (t_settings test) = 0 \<and>
     0 < M \<and>
     int M = (if s_burst (t_settings test) \<noteq> 0 then s_burst (t_settings test) else t_multisend test)"

lemma file_worker_same:
  "file_worker M test sp \<Longrightarrow> same_worker sp sp1 \<Longrightarrow> file_worker M test sp1"
  by (simp add: file_worker_def same_worker_def)

lemma same_worker_trans: "same_worker sp sp1 \<Longrightarrow> same_worker sp1 sp2 \<Longrightarrow> same_worker sp sp2"
  by (simp add: same_worker_def)

lemma Nwrite_file:
  assumes "length bs < 2 ^ 31" "f_caps f = []"
  shows "Nwrite f_write bs f = (int (length bs), f\<lparr>f_out := f_out f @ bs\<rparr>)"
  using assms
  by (cases "bs = []") (simp_all add: Nwrite_def nwrite_loop.simps[of _ _ bs] nwrite_loop.simps[of _ _ "[]"]
      f_write_def to_int32_id)

lemma take_overwrite: "length bs \<le> length buf \<Longrightarrow> take (length bs) (overwrite bs buf) = bs"
  by (simp add: overwrite_def)

lemma diskfile_send_end:
  assumes "file_ready b test sp" "f_file f = []"
  shows "\<exists>sp1. diskfile_send file_os test sp f = (0, test\<lparr>t_done := 1\<rparr>, sp1, f) \<and>
    sp_result sp1 = sp_result sp \<and> same_worker sp sp1 \<and>
    sp_diskfile_left sp1 = 0 \<and> sp_pending_size sp1 = 0"
  using assms
  by (simp add: file_ready_def diskfile_send_def diskfile_read_def file_os_def f_read_def Let_def
      same_worker_def)

lemma diskfile_send_done:
  assumes "t_done test = 1" "sp_diskfile_left sp = 0"
  shows "diskfile_send file_os test sp f = (0, test, sp, f)"
  using assms by (simp add: diskfile_send_def diskfile_read_def Let_def)

lemma diskfile_send_block:
  assumes "file_ready b test sp" "f_file f \<noteq> []" "f_caps f = []"
  defines "k \<equiv> min b (length (f_file f))"
  shows "\<exists>sp1. diskfile_send file_os test sp f =
      (int k, test, sp1, f\<lparr>f_file := drop b (f_file f), f_out := f_out f @ take b (f_file f)\<rparr>) \<and>
    file_ready b test sp1 \<and> same_worker sp sp1 \<and>
    rp_bytes_sent (sp_result sp1) = rp_bytes_sent (sp_result sp) + of_nat k"
proof -
  have r: "s_blksize (t_settings test) = int b" "0 < b" "b < 2 ^ 31" "t_done test = 0" "t_zerocopy test = 0"
    "length (sp_buffer sp) = b" "sp_snd2 sp = Tcp_io" "sp_diskfile_left sp = 0" "sp_pending_size sp = 0"
    using assms(1) by (auto simp: file_ready_def)
  define bs where "bs = take b (f_file f)"
  have k: "0 < k" "k \<le> b" "length (bs) = k" using r assms(2) by (auto simp: k_def bs_def)
  define f1 where "f1 = f\<lparr>f_file := drop b (f_file f)\<rparr>"
  define sp1 where "sp1 = sp\<lparr>sp_buffer := overwrite (bs) (sp_buffer sp)\<rparr>"
  define sp2 where "sp2 = (if k = b then sp1 else sp1\<lparr>sp_pending_size := int k\<rparr>)"
  have fr: "os_file_read file_os b f = (Got bs, f1)"
    by (simp add: file_os_def f_read_def f1_def bs_def)
  have rd: "diskfile_read file_os test sp f = (int k, test, sp2, f1)"
    using k(1,3) r(2) by (simp add: diskfile_read_def Let_def r(1,4,8) fr sp2_def sp1_def)
  have buf: "take k (sp_buffer sp2) = bs"
    using take_overwrite[of "bs" "sp_buffer sp"] k r(6) by (auto simp: sp2_def sp1_def)
  have pend: "(if sp_pending_size sp2 = 0 then sp2\<lparr>sp_pending_size := s_blksize (t_settings test)\<rparr> else sp2)
      = sp2\<lparr>sp_pending_size := int k\<rparr>"
    using r k by (simp add: sp2_def sp1_def)
  have nw: "Nwrite f_write (bs) f1 = (int k, f1\<lparr>f_out := f_out f1 @ bs\<rparr>)"
    using Nwrite_file[of "bs" f1] k r(3) assms(3) by (simp add: f1_def)
  have len: "length (sp_buffer sp2) = b" using k r(6) by (simp add: sp2_def sp1_def length_overwrite)
  define rp where "rp = (sp_result sp2)
    \<lparr>rp_bytes_sent := rp_bytes_sent (sp_result sp2) + of_nat k,
      rp_bytes_sent_this_interval := rp_bytes_sent_this_interval (sp_result sp2) + of_nat k\<rparr>"
  define sp3 where "sp3 = sp2\<lparr>sp_pending_size := 0, sp_result := rp\<rparr>"
  have z: "c_true (t_zerocopy test) = False" using r(5) by (simp add: c_true_def)
  have ts: "iperf_tcp_send f_write test sp2 f1 = (int k, sp3, f1\<lparr>f_out := f_out f1 @ bs\<rparr>)"
    unfolding iperf_tcp_send_def Let_def pend z by (simp add: buf nw sp3_def rp_def)
  have "sp_snd2 sp2 = Tcp_io" using r by (simp add: sp2_def sp1_def)
  then have ns: "net_snd file_os (sp_snd2 sp2) test sp2 f1
      = (int k, sp3, f1\<lparr>f_out := f_out f1 @ bs\<rparr>)"
    using ts by (simp add: net_snd_def file_os_def)
  have ds: "diskfile_send file_os test sp f
      = (int k, test, sp3\<lparr>sp_diskfile_left := 0\<rparr>, f1\<lparr>f_out := f_out f1 @ bs\<rparr>)"
    unfolding diskfile_send_def Let_def rd using r(4) k by (simp add: ns)
  have "file_ready b test (sp3\<lparr>sp_diskfile_left := 0\<rparr>)"
    using r len by (simp add: file_ready_def sp3_def sp2_def sp1_def)
  with ds show ?thesis by (intro exI[of _ "sp3\<lparr>sp_diskfile_left := 0\<rparr>"]) (simp add: f1_def sp3_def rp_def sp2_def sp1_def bs_def same_worker_def)
qed

section \<open>A burst, and the worker\<close>

text \<open>The test after \<open>m\<close> more calls that put \<open>k\<close> bytes on the connection.\<close>

abbreviation counted_sent :: "nat \<Rightarrow> nat \<Rightarrow> iperf_test \<Rightarrow> iperf_test" where
  "counted_sent k m test \<equiv>
     test\<lparr>t_bytes_sent := t_bytes_sent test + of_nat k, t_blocks_sent := t_blocks_sent test + of_nat m\<rparr>"

lemma file_round:
  assumes "file_worker M test sp" "diskfile_send os test sp f = (int k, test1, sp1, f1)"
    "sp_pending_size sp1 = 0"
  shows "send_loop os False (Suc m) ms now test sp f
    = send_loop os False m 1 now (counted_sent k 1 test1) sp1 f1"
  using assms
  by (simp add: file_worker_def send_round_def stream_snd_def enough_sent_def add_sent_def)

lemma burst_after_end:
  assumes "file_worker M test sp" "t_done test = 1" "sp_diskfile_left sp = 0" "sp_pending_size sp = 0"
  shows "\<exists>ms1. send_loop file_os False m ms now test sp f = Some (None, ms1, counted_sent 0 m test, sp, f)"
  using assms
proof (induction m arbitrary: test ms)
  case 0
  then show ?case by simp
next
  case (Suc m)
  have "diskfile_send file_os test sp f = (int 0, test, sp, f)"
    using diskfile_send_done Suc.prems by simp
  note r = file_round[OF Suc.prems(1) this Suc.prems(4), of m ms now]
  have "file_worker M (counted_sent 0 1 test) sp" using Suc.prems(1) by (simp add: file_worker_def)
  from Suc.IH[OF this, of 1] Suc.prems show ?case unfolding r by (simp add: add.assoc)
qed

lemma file_burst:
  assumes "file_worker M test sp" "file_ready b test sp" "f_caps f = []"
  shows "\<exists>ms1 sp1 test1. send_loop file_os False m ms now test sp f
      = Some (None, ms1, test1, sp1,
          f\<lparr>f_file := drop (m * b) (f_file f), f_out := f_out f @ take (m * b) (f_file f)\<rparr>) \<and>
    test1 = (counted_sent (length (take (m * b) (f_file f))) m test)
      \<lparr>t_done := if length (f_file f) + b \<le> m * b then 1 else 0\<rparr> \<and>
    same_worker sp sp1 \<and>
    (t_done test1 = 0 \<longrightarrow> file_ready b test1 sp1) \<and>
    rp_bytes_sent (sp_result sp1)
      = rp_bytes_sent (sp_result sp) + of_nat (length (take (m * b) (f_file f)))"
  using assms
proof (induction m arbitrary: test sp f ms)
  case 0
  then show ?case by (simp add: file_ready_def same_worker_def)
next
  case (Suc m)
  have b: "0 < b" using Suc.prems(2) by (simp add: file_ready_def)
  show ?case
  proof (cases "f_file f = []")
    case True
    obtain sp1 where d: "diskfile_send file_os test sp f = (int 0, test\<lparr>t_done := 1\<rparr>, sp1, f)"
      "sp_result sp1 = sp_result sp" "same_worker sp sp1" "sp_diskfile_left sp1 = 0" "sp_pending_size sp1 = 0"
      using diskfile_send_end[OF Suc.prems(2) True] by auto
    let ?t1 = "counted_sent 0 1 (test\<lparr>t_done := 1\<rparr>)"
    have "file_worker M ?t1 sp1"
      using file_worker_same[OF Suc.prems(1) d(3)] by (simp add: file_worker_def)
    from burst_after_end[OF this _ d(4,5), of m 1 now f] obtain ms1 where
      "send_loop file_os False (Suc m) ms now test sp f = Some (None, ms1, counted_sent 0 m ?t1, sp1, f)"
      unfolding file_round[OF Suc.prems(1) d(1,5)] by auto
    with True d(2,3) show ?thesis by (simp add: add.assoc)
  next
    case False
    define F where "F = f_file f"
    define k where "k = min b (length F)"
    define f2 where "f2 = f\<lparr>f_file := drop b F, f_out := f_out f @ take b F\<rparr>"
    obtain sp2 where d: "diskfile_send file_os test sp f = (int k, test, sp2, f2)"
      "file_ready b test sp2" "same_worker sp sp2"
      "rp_bytes_sent (sp_result sp2) = rp_bytes_sent (sp_result sp) + of_nat k"
      using diskfile_send_block[OF Suc.prems(2) False Suc.prems(3)] unfolding f2_def k_def F_def by auto
    define t2 where "t2 = counted_sent k 1 test"
    have w2: "file_worker M t2 sp2"
      using file_worker_same[OF Suc.prems(1) d(3)] by (simp add: file_worker_def t2_def)
    have r2: "file_ready b t2 sp2" using d(2) by (simp add: file_ready_def t2_def)
    have c2: "f_caps f2 = []" using Suc.prems(3) by (simp add: f2_def)
    have p2: "sp_pending_size sp2 = 0" using d(2) by (simp add: file_ready_def)
    obtain ms1 sp1 test1 where ih: "send_loop file_os False m 1 now t2 sp2 f2
      = Some (None, ms1, test1, sp1,
          f2\<lparr>f_file := drop (m * b) (f_file f2), f_out := f_out f2 @ take (m * b) (f_file f2)\<rparr>)"
      "test1 = (counted_sent (length (take (m * b) (f_file f2))) m t2)
        \<lparr>t_done := if length (f_file f2) + b \<le> m * b then 1 else 0\<rparr>"
      "same_worker sp2 sp1" "t_done test1 = 0 \<longrightarrow> file_ready b test1 sp1"
      "rp_bytes_sent (sp_result sp1)
        = rp_bytes_sent (sp_result sp2) + of_nat (length (take (m * b) (f_file f2)))"
      using Suc.IH[OF w2 r2 c2, of 1] by blast
    have lens: "length (take (Suc m * b) F) = k + length (take (m * b) (f_file f2))"
      by (cases "b \<le> length F") (simp_all add: f2_def k_def min_def, arith)
    have dn: "length (f_file f2) + b \<le> m * b \<longleftrightarrow> length F + b \<le> Suc m * b"
      using b False by (cases m) (auto simp: f2_def F_def)
    have fs: "f2\<lparr>f_file := drop (m * b) (f_file f2), f_out := f_out f2 @ take (m * b) (f_file f2)\<rparr>
        = f\<lparr>f_file := drop (Suc m * b) F, f_out := f_out f @ take (Suc m * b) F\<rparr>"
      by (simp add: f2_def take_add add.commute)
    have t: "test1 = (counted_sent (length (take (Suc m * b) F)) (Suc m) test)
        \<lparr>t_done := if length F + b \<le> Suc m * b then 1 else 0\<rparr>"
      unfolding ih(2) dn lens by (simp add: t2_def add.assoc)
    have rp: "rp_bytes_sent (sp_result sp1)
        = rp_bytes_sent (sp_result sp) + of_nat (length (take (Suc m * b) F))"
      unfolding ih(5) d(4) lens by (simp add: add.assoc)
    show ?thesis
      unfolding file_round[OF Suc.prems(1) d(1) p2] t2_def[symmetric] ih(1) fs F_def[symmetric]
      using t rp ih(4) same_worker_trans[OF d(3) ih(3)] by blast
  qed
qed

text \<open>One call of \<open>iperf_send_mt\<close>, then the loop of the worker.\<close>

lemma file_send_mt:
  assumes "file_worker M test sp" "send_loop file_os False M 0 zero_time test sp f = Some (None, ms, test1, sp1, f1)"
  shows "worker_round file_os test sp f = Some (0, test1, sp1, f1)"
proof -
  have M: "int M = (if s_burst (t_settings test) \<noteq> 0 then s_burst (t_settings test) else t_multisend test)"
    using assms(1) by (simp only: file_worker_def)
  have "nat (if s_burst (t_settings test) \<noteq> 0 then s_burst (t_settings test) else t_multisend test) = M"
    unfolding M[symmetric] by simp
  moreover have "s_rate (t_settings test) = 0" "sp_sender sp = 1"
    using assms(1) by (simp_all only: file_worker_def)
  ultimately show ?thesis
    using assms(2)
    by (cases "s_burst (t_settings test) = 0") (simp_all add: worker_round_def iperf_send_mt_def Let_def c_true_def)
qed

definition file_blocks :: "nat \<Rightarrow> fsock \<Rightarrow> nat" where
  "file_blocks b f = (length (f_file f) + b - 1) div b"

lemma file_worker_all:
  assumes "file_worker M test sp" "file_ready b test sp" "f_caps f = []"
  shows "\<exists>sp1. worker_loop file_os test sp f =
      Some ((counted_sent (length (f_file f)) (M * (file_blocks b f div M + 1)) test)\<lparr>t_done := 1\<rparr>, sp1,
            f\<lparr>f_file := [], f_out := f_out f @ f_file f\<rparr>) \<and>
    rp_bytes_sent (sp_result sp1) = rp_bytes_sent (sp_result sp) + of_nat (length (f_file f))"
  using assms
proof (induction "length (f_file f)" arbitrary: test sp f rule: less_induct)
  case less
  define F where "F = f_file f"
  have M: "0 < M" and b: "0 < b" and run: "\<not> (c_true (t_done test) \<or> c_true (sp_done sp))"
    using less.prems(1,2) by (simp_all add: file_worker_def file_ready_def c_true_def)
  define f2 where "f2 = f\<lparr>f_file := drop (M * b) F, f_out := f_out f @ take (M * b) F\<rparr>"
  obtain ms sp2 t2 where burst: "send_loop file_os False M 0 zero_time test sp f = Some (None, ms, t2, sp2, f2)"
    and t2: "t2 = (counted_sent (length (take (M * b) F)) M test)
        \<lparr>t_done := if length F + b \<le> M * b then 1 else 0\<rparr>"
    and sp2: "same_worker sp sp2" "t_done t2 = 0 \<longrightarrow> file_ready b t2 sp2"
      "rp_bytes_sent (sp_result sp2) = rp_bytes_sent (sp_result sp) + of_nat (length (take (M * b) F))"
    using file_burst[OF less.prems, of M 0 zero_time] unfolding f2_def F_def by blast
  have loop: "worker_loop file_os test sp f = worker_loop file_os t2 sp2 f2"
    using run file_send_mt[OF less.prems(1) burst] by (subst worker_loop.simps) simp
  show ?case
  proof (cases "length F + b \<le> M * b")
    case True
    have "worker_loop file_os t2 sp2 f2 = Some (t2, sp2, f2)"
      using True by (subst worker_loop.simps) (simp add: t2 c_true_def)
    moreover have "length F + b - 1 < M * b" using True b by linarith
    then have "file_blocks b f div M = 0"
      using M b by (simp add: file_blocks_def F_def less_mult_imp_div_less mult.commute)
    moreover have "length F \<le> M * b" using True by simp
    ultimately show ?thesis using True sp2(3) unfolding loop F_def[symmetric] by (simp add: t2 f2_def)
  next
    case False
    have nd: "t_done t2 = 0" using False by (simp add: t2)
    have w2: "file_worker M t2 sp2"
      using file_worker_same[OF less.prems(1) sp2(1)] by (simp add: file_worker_def t2)
    have c2: "f_caps f2 = []" using less.prems(3) by (simp add: f2_def)
    have "F \<noteq> []" using False M b by (cases M) auto
    then have "length (f_file f2) < length (f_file f)" using M b by (simp add: f2_def F_def)
    from less.hyps[OF this w2 mp[OF sp2(2) nd] c2] obtain sp3 where
      ih: "worker_loop file_os t2 sp2 f2 =
        Some ((counted_sent (length (f_file f2)) (M * (file_blocks b f2 div M + 1)) t2)\<lparr>t_done := 1\<rparr>, sp3,
            f2\<lparr>f_file := [], f_out := f_out f2 @ f_file f2\<rparr>)"
      "rp_bytes_sent (sp_result sp3) = rp_bytes_sent (sp_result sp2) + of_nat (length (f_file f2))"
      by blast
    have n: "length (take (M * b) F) + length (f_file f2) = length F"
      by (simp add: f2_def)
    have "file_blocks b f = file_blocks b f2 + M"
    proof (cases "M * b \<le> length F")
      case True
      then have e: "length F + b - 1 = (length (f_file f2) + b - 1) + M * b"
        using b by (simp add: f2_def)
      show ?thesis unfolding file_blocks_def F_def[symmetric] e
        using b by (subst div_mult_self1) simp_all
    next
      case short: False
      then have "M * b \<le> length F + b - 1" "length F + b - 1 < Suc M * b"
        using False b by simp_all
      then have "file_blocks b f = M" unfolding file_blocks_def F_def[symmetric]
        by (intro div_nat_eqI) (simp_all only: mult.commute)
      moreover have "file_blocks b f2 = 0" using short b by (simp add: file_blocks_def f2_def)
      ultimately show ?thesis by simp
    qed
    then have m: "M * (file_blocks b f div M + 1) = M + M * (file_blocks b f2 div M + 1)"
      using M by simp
    show ?thesis
      unfolding loop ih(1) F_def[symmetric] m n[symmetric]
      using ih(2) sp2(3) by (intro exI[of _ sp3]) (simp add: t2 f2_def add.assoc)
  qed
qed

text \<open>C27: a file goes over the connection as it is. While the socket takes whole blocks, a worker that
sends a file without a limit and is stopped by nobody ends by itself: the bytes on the connection are
those of the file, stream and test have counted them all, and the test is marked done at the end of
the file. The worker tests \<open>done\<close> only between the bursts of \<open>M\<close> calls, and the calls after the end
of the file count as blocks too: \<open>blocks_sent\<close> grows by the blocks of the file rounded up to whole
bursts, by a whole burst too many when they fill their bursts.\<close>

theorem file_sent_whole:
  assumes "file_worker M test sp" "file_ready b test sp" "f_caps f = []"
  shows "\<exists>test1 sp1 f1. worker_loop file_os test sp f = Some (test1, sp1, f1) \<and>
    f_out f1 = f_out f @ f_file f \<and> f_file f1 = [] \<and> t_done test1 = 1 \<and>
    rp_bytes_sent (sp_result sp1) = rp_bytes_sent (sp_result sp) + of_nat (length (f_file f)) \<and>
    t_bytes_sent test1 = t_bytes_sent test + of_nat (length (f_file f)) \<and>
    t_blocks_sent test1 = t_blocks_sent test + of_nat (M * (file_blocks b f div M + 1))"
  using file_worker_all[OF assms] by fastforce

text \<open>A test and a stream for the examples: blocks of 4 bytes, bursts of 10.\<close>

definition file_test_4 :: iperf_test where
  "file_test_4 = upd_settings (\<lambda>s. s\<lparr>s_blksize := 4\<rparr>) (zero_test\<lparr>t_multisend := 10\<rparr>)"

definition file_stream_4 :: iperf_stream where
  "file_stream_4 = zero_stream\<lparr>sp_buffer := replicate 4 0, sp_snd := Diskfile_io, sp_green_light := 1, sp_sender := 1\<rparr>"

lemma file_4_ready: "file_ready 4 file_test_4 file_stream_4"
  by (simp add: file_ready_def file_test_4_def file_stream_4_def upd_settings_def zero_test_def zero_stream_def
      zero_settings_def)

lemma file_4_worker: "file_worker 10 file_test_4 file_stream_4"
  by (simp add: file_worker_def file_test_4_def file_stream_4_def upd_settings_def zero_test_def zero_stream_def
      zero_settings_def)

theorem file_sent_whole_witness:
  "\<exists>test1 sp1 f1. worker_loop file_os file_test_4 file_stream_4
        \<lparr>f_file = [1, 2, 3, 4, 5, 6], f_out = [], f_caps = []\<rparr> = Some (test1, sp1, f1) \<and>
      f_out f1 = [1, 2, 3, 4, 5, 6] \<and> t_blocks_sent test1 = 10"
  using file_sent_whole[OF file_4_worker file_4_ready, of "\<lparr>f_file = [1, 2, 3, 4, 5, 6], f_out = [], f_caps = []\<rparr>"]
  by (auto simp: file_blocks_def file_test_4_def upd_settings_def zero_test_def)

section \<open>A short write\<close>

lemma Nwrite_short:
  assumes "0 < c" "c < length bs" "length bs < 2 ^ 31" "f_caps f = c # 0 # cs"
  shows "Nwrite f_write bs f = (int c, f\<lparr>f_out := f_out f @ take c bs, f_caps := cs\<rparr>)"
proof -
  have "bs \<noteq> []" "drop c bs \<noteq> []" using assms by auto
  with assms show ?thesis
    by (simp add: Nwrite_def nwrite_loop.simps[of _ _ bs] nwrite_loop.simps[of _ _ "drop c bs"]
        f_write_def to_int32_id)
qed

text \<open>C28: one short write is enough to garble the file. When a write takes only \<open>c\<close> of the \<open>b\<close> bytes of
a block, at least half of them, and the socket then is full, the next call of \<open>diskfile_send\<close> reads the
bytes of the next block over the rest that was slid to the front of the buffer, and sends them in
its place: the connection carries \<open>c\<close> bytes of the block, then the first \<open>b - c\<close> of the next one.\<close>

theorem file_garbled_by_short_write:
  assumes "file_ready b test sp" "f_caps f = [c, 0]" "0 < c" "c < b" "b \<le> 2 * c"
    and "b + c \<le> length (f_file f)"
  shows "\<exists>sp1 f1 sp2 f2.
    diskfile_send file_os test sp f = (int c, test, sp1, f1) \<and>
    diskfile_send file_os test sp1 f1 = (int (b - c), test, sp2, f2) \<and>
    f_out f2 = f_out f @ take c (f_file f) @ take (b - c) (drop b (f_file f))"
proof -
  have r: "s_blksize (t_settings test) = int b" "0 < b" "b < 2 ^ 31" "t_done test = 0" "t_zerocopy test = 0"
    "length (sp_buffer sp) = b" "sp_snd2 sp = Tcp_io" "sp_diskfile_left sp = 0" "sp_pending_size sp = 0"
    using assms(1) by (auto simp: file_ready_def)
  define F where "F = f_file f"
  have len: "length (take b F) = b" "length (take c (drop b F)) = c"
    using assms(6) by (simp_all add: F_def)
  define f1 where "f1 = f\<lparr>f_file := drop b F, f_out := f_out f @ take c F, f_caps := []\<rparr>"
  define rest where "rest = overwrite (drop c (take b F)) (take b F)"
  have rest: "length rest = b" using len assms(4) by (simp add: rest_def length_overwrite)
  obtain sp1 where d1: "diskfile_send file_os test sp f = (int c, test, sp1, f1)"
    and sp1: "sp_buffer sp1 = rest" "sp_diskfile_left sp1 = int (b - c)" "sp_pending_size sp1 = int (b - c)"
      "sp_snd2 sp1 = Tcp_io"
  proof -
    define sp0 where "sp0 = sp\<lparr>sp_buffer := take b F\<rparr>"
    define f0 where "f0 = f\<lparr>f_file := drop b F\<rparr>"
    have b0: "sp_buffer sp0 = take b F" by (simp add: sp0_def)
    have ow: "overwrite (take b F) (sp_buffer sp) = take b F"
      using len r(6) by (simp add: overwrite_def)
    have "os_file_read file_os b f = (Got (take b F), f0)"
      by (simp add: file_os_def f_read_def f0_def F_def)
    then have rd: "diskfile_read file_os test sp f = (int b, test, sp0, f0)"
      using r(2) len(1) by (simp add: diskfile_read_def Let_def r(1,4,8) sp0_def ow)
    have nw: "Nwrite f_write (take b F) f0 = (int c, f1)"
      using Nwrite_short[of c "take b F" f0 "[]"] assms(2,3,4) r(3) len(1)
      by (simp add: f0_def f1_def min_absorb1)
    obtain rp where ts: "iperf_tcp_send f_write test sp0 f0
        = (int c, sp0\<lparr>sp_pending_size := int (b - c), sp_result := rp\<rparr>, f1)"
      using nw assms(4) r(1,2,5,9) by (simp add: iperf_tcp_send_def Let_def sp0_def c_true_def of_nat_diff)
    then have ns: "net_snd file_os (sp_snd2 sp0) test sp0 f0
        = (int c, sp0\<lparr>sp_pending_size := int (b - c), sp_result := rp\<rparr>, f1)"
      using r(7) by (simp add: net_snd_def file_os_def sp0_def)
    have sl: "overwrite (take (nat (int b - int c)) (drop (nat (int b - (int b - int c))) (take b F))) (take b F) = rest"
      using assms(4) len(1) by (simp add: rest_def nat_diff_distrib)
    have "diskfile_send file_os test sp f = (int c, test, sp0\<lparr>sp_pending_size := int (b - c),
        sp_result := rp, sp_diskfile_left := int (b - c), sp_buffer := rest\<rparr>, f1)"
      using sl r(2,4) assms(3,4) b0 unfolding diskfile_send_def Let_def rd
      by (simp add: ns r(1) of_nat_diff)
    from that[OF this] r(7) show ?thesis by (simp add: sp0_def)
  qed
  obtain sp2 f2 where d2: "diskfile_send file_os test sp1 f1 = (int (b - c), test, sp2, f2)"
    and out: "f_out f2 = f_out f1 @ take (b - c) (drop b F)"
  proof -
    define sp3 where "sp3 = sp1\<lparr>sp_buffer := overwrite (take c (drop b F)) rest\<rparr>"
    define f3 where "f3 = f1\<lparr>f_file := drop c (drop b F)\<rparr>"
    have "os_file_read file_os c f1 = (Got (take c (drop b F)), f3)"
      by (simp add: file_os_def f_read_def f1_def f3_def)
    then have rd: "diskfile_read file_os test sp1 f1 = (int b, test, sp3, f3)"
      using len(2) assms(3,4) by (simp add: diskfile_read_def Let_def r(1,4) sp1 sp3_def of_nat_diff)
    have buf: "take (b - c) (sp_buffer sp3) = take (b - c) (drop b F)"
      using len(2) rest assms(5) by (simp add: sp3_def overwrite_def)
    have l: "length (take (b - c) (drop b F)) = b - c" using assms(5,6) by (simp add: F_def)
    have nw: "Nwrite f_write (take (b - c) (drop b F)) f3
        = (int (b - c), f3\<lparr>f_out := f_out f3 @ take (b - c) (drop b F)\<rparr>)"
      using Nwrite_file[of "take (b - c) (drop b F)" f3] l r(3) by (simp add: f3_def f1_def)
    have p3: "sp_pending_size sp3 \<noteq> 0" "nat (sp_pending_size sp3) = b - c"
      using assms(4) sp1(3) by (simp_all add: sp3_def)
    obtain sp4 f4 where ts: "iperf_tcp_send f_write test sp3 f3 = (int (b - c), sp4, f4)"
      "f_out f4 = f_out f3 @ take (b - c) (drop b F)"
      using p3 r(5) unfolding iperf_tcp_send_def Let_def c_true_def by (simp add: buf nw)
    then have ns: "net_snd file_os (sp_snd2 sp3) test sp3 f3 = (int (b - c), sp4, f4)"
      using sp1(4) by (simp add: net_snd_def file_os_def sp3_def)
    have "\<exists>sp2. diskfile_send file_os test sp1 f1 = (int (b - c), test, sp2, f4)"
      unfolding diskfile_send_def Let_def rd using r(2,4) by (simp add: ns)
    with that ts(2) show ?thesis by (auto simp: f3_def)
  qed
  show ?thesis using d1 d2 out by (auto simp: f1_def F_def)
qed

theorem file_garbled_by_short_write_witness:
  "\<exists>sp1 f1 sp2 f2.
    diskfile_send file_os file_test_4 file_stream_4 \<lparr>f_file = [1, 2, 3, 4, 5, 6, 7, 8], f_out = [], f_caps = [2, 0]\<rparr>
      = (2, file_test_4, sp1, f1) \<and>
    diskfile_send file_os file_test_4 sp1 f1 = (2, file_test_4, sp2, f2) \<and> f_out f2 = [1, 2, 5, 6]"
  using file_garbled_by_short_write[OF file_4_ready,
      of "\<lparr>f_file = [1, 2, 3, 4, 5, 6, 7, 8], f_out = [], f_caps = [2, 0]\<rparr>" 2]
  by simp

end
