(* ===== verification/Client.thy ===== *)
theory Client
  imports Endpoint
begin

text \<open>
  \<open>iperf_client_api.c\<close>: creating the streams, the timers, the handler of the server's state messages,
  connecting, and the main loop. The loop is a function of the returns of \<open>select\<close>.
\<close>

section \<open>Streams\<close>

definition proto_connect :: act where
  "proto_connect e =
     (let t = e_test e; has_local = (t_bind_address t \<noteq> None); has_dev = (t_bind_dev t \<noteq> None) in
      if t_protocol t = Pudp
      then (case e_udp e of
              [] \<Rightarrow> fail IESTREAMCONNECT e
            | uc # ucs \<Rightarrow>
                (let (s, n1) = netdial has_local has_dev (t_bind_port t) (- 1) (e_net e);
                     (o1, n2) = syscall n1
                 in do { (r, t1) \<leftarrow> iperf_udp_connect s (uc_bc1 uc) (uc_bc2 uc)
                                     (iperf_common_sockopts (sr_out o1 = AF_INET6) (sr_ret o1))
                                     (uc_write uc) (uc_replies uc) t;
                         Some (r, e\<lparr>e_test := t1, e_net := n2, e_udp := ucs\<rparr>) }))
      else (let (r, t1, n1) = iperf_tcp_connect has_local has_dev t (e_net e)
            in Some (r, e\<lparr>e_test := t1, e_net := n1\<rparr>)))"

definition stream_port :: "iperf_test \<Rightarrow> int \<Rightarrow> int \<Rightarrow> int \<Rightarrow> int" where
  "stream_port t sender orig_bind_port i =
     (if orig_bind_port \<noteq> 0
      then orig_bind_port + i +
           (if \<not> c_true sender \<and> t_mode t = BIDIRECTIONAL then t_num_streams t else 0)
      else orig_bind_port)"

text \<open>The congestion algorithm of a TCP stream.\<close>

definition client_congestion :: "int \<Rightarrow> act" where
  "client_congestion s e =
     (if t_protocol (e_test e) \<noteq> Ptcp then ok e
      else
        (let set_it = (t_congestion (e_test e) \<noteq> None);
             (rc1, n1) = (if set_it then (let (r, n) = syscall (e_net e) in (sr_ret r, n)) else (0, e_net e));
             e1 = e\<lparr>e_net := n1\<rparr>
         in if rc1 < 0 then fail IESETCONGESTION (ep_close s e1)
            else
              (let (r, n2) = syscall (e_net e1); e2 = e1\<lparr>e_net := n2\<rparr>
               in if sr_ret r < 0 \<and> set_it then fail IESETCONGESTION (ep_close s e2)
                  else pass (\<lambda>t. t\<lparr>t_congestion_used :=
                          Some (if sr_ret r < 0 then ''unknown'' else e_algo e2)\<rparr>) e2)))"

text \<open>One round: connecting (with the port of the round, put back afterwards), the options, the stream.\<close>

definition create_stream :: "int \<Rightarrow> int \<Rightarrow> int \<Rightarrow> act" where
  "create_stream sender orig_bind_port i e =
     do { (s, e1) \<leftarrow> proto_connect (upd_test (\<lambda>t. t\<lparr>t_bind_port := stream_port t sender orig_bind_port i\<rparr>) e);
          let e2 = upd_test (\<lambda>t. t\<lparr>t_bind_port := orig_bind_port\<rparr>) e1 in
          if s < 0 then Some (- 1, e2)
          else and_then (client_congestion s) (new_stream s sender) e2 }"

fun create_streams_from :: "int \<Rightarrow> int \<Rightarrow> nat \<Rightarrow> int \<Rightarrow> act" where
  "create_streams_from sender orig_bind_port 0 i e = ok e"
| "create_streams_from sender orig_bind_port (Suc k) i e =
     and_then (create_stream sender orig_bind_port i)
       (create_streams_from sender orig_bind_port k (i + 1)) e"

definition iperf_create_streams :: "int \<Rightarrow> act" where
  "iperf_create_streams sender e =
     create_streams_from sender (t_bind_port (e_test e)) (nat (t_num_streams (e_test e))) 0 e"

section \<open>Timers\<close>

fun client_timer_proc :: "(timer_proc_id, ep) proc" where
  "client_timer_proc Test_timer_proc now (tm, e) =
     Some (tm, upd_test (\<lambda>t. t\<lparr>t_timer := None, t_done := 1\<rparr>) e)"
| "client_timer_proc Stats_timer_proc now tw = stats_timer_proc tw"
| "client_timer_proc Reporter_timer_proc now tw = reporter_timer_proc tw"
| "client_timer_proc Omit_timer_proc now tw = omit_timer_proc now tw"

definition create_client_timers :: act where
  "create_client_timers = create_test_timers 0"

definition create_client_omit_timer :: act where
  "create_client_omit_timer = create_omit_timer"

section \<open>Messages of the server\<close>

definition iperf_client_end :: act where
  "iperf_client_end e =
     (let e1 = fold (\<lambda>sp. ep_close (sp_socket sp)) (t_streams (e_test e)) e in
      and_then (\<lambda>e. if t_state (e_test e) > 0 then iperf_set_send_state IPERF_DONE e else ok e)
        (\<lambda>e. ok (if t_ctrl_sck (e_test e) \<ge> 0 then ep_close (t_ctrl_sck (e_test e)) e else e)) e1)"

definition mode_sender :: "iperf_mode \<Rightarrow> int" where
  "mode_sender m = (case m of SENDER \<Rightarrow> 1 | RECEIVER \<Rightarrow> 0 | BIDIRECTIONAL \<Rightarrow> - 1)"

definition client_create_streams :: act where
  "client_create_streams e =
     (if t_mode (e_test e) = BIDIRECTIONAL
      then and_then (iperf_create_streams 1) (and_then (iperf_create_streams 0) ok) e
      else and_then (iperf_create_streams (mode_sender (t_mode (e_test e)))) ok e)"

definition client_test_start :: act where
  "client_test_start =
     and_then init_test (and_then create_client_timers (and_then create_client_omit_timer
       (\<lambda>e. if c_true (mode_sender (t_mode (e_test e)))
            then and_then (on_test iperf_create_send_timers) ok e else ok e)))"

text \<open>The error numbers of a server that refused the test; \<open>errno\<close> is set from the second.\<close>

definition client_server_error :: act where
  "client_server_error e =
     (case read_word e of
        (None, e1) \<Rightarrow> fail IECTRLREAD e1
      | (Some w, e1) \<Rightarrow>
          (let e2 = upd_test (\<lambda>t. t\<lparr>t_i_errno := w\<rparr>) e1 in
           case read_word e2 of
             (None, e3) \<Rightarrow> fail IECTRLREAD e3
           | (Some w2, e3) \<Rightarrow> Some (- 1, e3\<lparr>e_net := (e_net e3)\<lparr>n_errno := w2\<rparr>\<rparr>)))"

definition client_on_state :: act where
  "client_on_state e =
     (let st = t_state (e_test e) in
      if st = PARAM_EXCHANGE then and_then iperf_exchange_parameters ok e
      else if st = CREATE_STREAMS then client_create_streams e
      else if st = TEST_START then client_test_start e
      else if st = TEST_RUNNING then ok e
      else if st = EXCHANGE_RESULTS then and_then ep_exchange_results ok e
      else if st = DISPLAY_RESULTS then do { (r, e1) \<leftarrow> iperf_client_end e; ok e1 }
      else if st = IPERF_DONE then ok e
      else if st = SERVER_TERMINATE then and_then cpu_stop (\<lambda>e1. Some (- 1, e1)) (upd_test (\<lambda>t. t\<lparr>t_i_errno := IESERVERTERM\<rparr>) e)
      else if st = ACCESS_DENIED then fail IEACCESSDENIED e
      else if st = SERVER_ERROR then client_server_error e
      else fail IEMESSAGE e)"

definition iperf_handle_message_client :: act where
  "iperf_handle_message_client e =
     (let (rval, e1) = read_state e in
      if rval \<le> 0 then (if rval = 0 then fail IECTRLCLOSE e1 else fail IERECVMESSAGE e1)
      else client_on_state e1)"

section \<open>Connecting\<close>

abbreviation (input) MAX_UDP_BLOCKSIZE :: int where "MAX_UDP_BLOCKSIZE \<equiv> 65507"

text \<open>The maximum segment size the control connection has, and the default block size from it.\<close>

definition connect_mss :: "ep \<Rightarrow> ep" where
  "connect_mss e =
     (let (r, n) = syscall (e_net e); opt = sr_out r
      in upd_test (\<lambda>t. t\<lparr>t_ctrl_sck_mss :=
             (if sr_ret r < 0 then 0 else if opt > 0 \<and> opt \<le> MAX_UDP_BLOCKSIZE then opt else 0)\<rparr>)
           (e\<lparr>e_net := n\<rparr>))"

definition udp_default_blksize :: "iperf_test \<Rightarrow> iperf_test" where
  "udp_default_blksize t =
     (if t_protocol t = Pudp \<and> s_blksize (t_settings t) = 0
      then t\<lparr>t_settings := (t_settings t)\<lparr>s_blksize :=
             (if t_ctrl_sck_mss t \<noteq> 0 then t_ctrl_sck_mss t else DEFAULT_UDP_BLKSIZE)\<rparr>\<rparr>
      else t)"

definition iperf_connect :: act where
  "iperf_connect e0 =
     (case make_cookie (e_random e0) of
        None \<Rightarrow> None
      | Some cookie \<Rightarrow>
          (let e = upd_test (\<lambda>t. t\<lparr>t_read_set := {}, t_write_set := {}, t_cookie := cookie\<rparr>) e0;
               t = e_test e;
               (s, n) = (if t_ctrl_sck t < 0
                         then netdial (t_bind_address t \<noteq> None) (t_bind_dev t \<noteq> None) 0
                                (s_connect_timeout (t_settings t)) (e_net e)
                         else (t_ctrl_sck t, e_net e));
               e1 = upd_test (\<lambda>t. t\<lparr>t_ctrl_sck := s\<rparr>) (e\<lparr>e_net := n\<rparr>)
           in if s < 0 then fail IECONNECT e1
              else
                (let (o1, n2) = syscall (e_net e1); e2 = e1\<lparr>e_net := n2\<rparr>
                 in if sr_ret o1 \<noteq> 0 then fail IESETNODELAY e2
                    else
                      (let (r, e3) = ctl_write (M_cookie cookie) e2
                       in if r < 0 then fail IESENDCOOKIE e3
                          else ok (upd_test udp_default_blksize (connect_mss
                                 (upd_test (\<lambda>t. t\<lparr>t_read_set := insert s (t_read_set t),
                                                  t_max_fd := max s (t_max_fd t)\<rparr>) e3)))))))"

section \<open>The main loop\<close>

record client_loc =
  cl_startup :: bool
  cl_last_receive_time :: iperf_time
  cl_last_receive_blocks :: u64

definition client_rcv_timeout :: "iperf_test \<Rightarrow> int" where
  "client_rcv_timeout t = (if t_mode t \<noteq> SENDER then time_us (s_rcv_timeout (t_settings t)) else 0)"

text \<open>The time limit of \<open>select\<close>.\<close>

definition client_timeout :: "int \<Rightarrow> ep \<Rightarrow> (int \<times> int) option option" where
  "client_timeout rcv_timeout_us e =
     (case tmr_timeout (Some (time_now e)) (time_now e) (e_tmrs e) of
        None \<Rightarrow> None
      | Some timeout \<Rightarrow>
          Some (if t_state (e_test e) = TEST_RUNNING \<and> rcv_timeout_us > 0
                then Some (receive_timeout (s_rcv_timeout (t_settings (e_test e))) timeout)
                else timeout))"

text \<open>The end criteria.\<close>

definition test_finished :: "iperf_test \<Rightarrow> bool" where
  "test_finished t \<longleftrightarrow>
     \<not> c_true (t_omitting t) \<and>
     (c_true (t_done t) \<or>
      (s_bytes (t_settings t) \<noteq> 0 \<and>
        (t_bytes_sent t \<ge> s_bytes (t_settings t) \<or> t_bytes_received t \<ge> s_bytes (t_settings t))) \<or>
      (s_blocks (t_settings t) \<noteq> 0 \<and>
        (t_blocks_sent t \<ge> s_blocks (t_settings t) \<or> t_blocks_received t \<ge> s_blocks (t_settings t))))"

definition client_threads :: act where
  "client_threads e =
     (let (r, n) = syscall (e_net e); e1 = e\<lparr>e_net := n\<rparr>
      in if sr_ret r \<noteq> 0 then fail IEPTHREADATTRINIT e1
         else and_then (\<lambda>e. start_threads (stream_numbers (\<lambda>_. True) e) e)
           (\<lambda>e. let (r, n) = syscall (e_net e); e1 = e\<lparr>e_net := n\<rparr>
                in if sr_ret r \<noteq> 0 then fail IEPTHREADATTRDESTROY e1 else ok e1) e1)"

text \<open>The end of the test: the senders stop, the statistics are closed, TEST_END is sent.\<close>

definition client_finish_test :: act where
  "client_finish_test =
     and_then (\<lambda>e. stop_threads (stream_numbers (\<lambda>sp. c_true (sp_sender sp)) e) e)
    (and_then (pass (\<lambda>t. t\<lparr>t_done := 1\<rparr>))
    (and_then cpu_stop (and_then ep_stats_callback (iperf_set_send_state TEST_END))))"

definition client_running :: "bool \<Rightarrow> act" where
  "client_running startup =
     and_then (\<lambda>e. if startup then client_threads e else ok e)
    (and_then (run_timers client_timer_proc)
       (\<lambda>e. if test_finished (e_test e) then client_finish_test e else ok e))"

text \<open>The check after \<open>select\<close>; \<open>Some\<close> is the time when \<open>iperf_time_now\<close> was called again.\<close>

definition client_idle :: "event \<Rightarrow> int \<Rightarrow> client_loc \<Rightarrow> iperf_test \<Rightarrow> iperf_time \<Rightarrow> bool" where
  "client_idle ev rcv_timeout_us loc t now =
     (case idle_usecs now (cl_last_receive_time loc) of
        None \<Rightarrow> False
      | Some idle_us \<Rightarrow> idle_us > rcv_timeout_us \<and> t_blocks_received t = cl_last_receive_blocks loc)"

definition client_iter :: "event \<Rightarrow> client_loc \<Rightarrow> ep \<Rightarrow> (int \<times> client_loc \<times> ep) option" where
  "client_iter ev loc e0 =
     (let rcv_timeout_us = client_rcv_timeout (e_test e0);
          e = ev_world ev e0;
          waited = (ev_result ev = 0 \<and> t_state (e_test e) = TEST_RUNNING \<and> rcv_timeout_us > 0);
          now = (if waited then time_now e else time_now e0)
      in do {
        _ \<leftarrow> client_timeout rcv_timeout_us e0;
        if ev_result ev < 0 \<and> \<not> ev_eintr ev
        then map_option (\<lambda>(r, e). (r, loc, e)) (fail IESELECT e)
        else if waited \<and> client_idle ev rcv_timeout_us loc (e_test e) now
        then map_option (\<lambda>(r, e). (r, loc, e)) (fail IENOMSG e)
        else
          (let loc1 = (if t_blocks_received (e_test e) > cl_last_receive_blocks loc
                       then loc\<lparr>cl_last_receive_blocks := t_blocks_received (e_test e), cl_last_receive_time := now\<rparr>
                       else loc)
           in do {
             (r, e1) \<leftarrow> (if ev_result ev > 0 \<and> t_ctrl_sck (e_test e) \<in> ev_ready ev
                        then iperf_handle_message_client e else ok e);
             if r < 0 then Some (- 1, loc1, e1)
             else if t_state (e_test e1) = TEST_RUNNING then
               do { (r2, e2) \<leftarrow> client_running (cl_startup loc1) e1;
                    Some (r2, loc1\<lparr>cl_startup := False\<rparr>, e2) }
             else Some (0, loc1, e1) }) })"

definition client_cleanup :: "ep \<Rightarrow> ep option" where
  "client_cleanup e =
     (let e1 = fold kill_thread (stream_numbers (\<lambda>sp. \<not> c_true (sp_done sp)) e) e
      in map_option snd (iperf_client_end e1))"

definition client_leave :: act where
  "client_leave e = stop_threads (stream_numbers (\<lambda>sp. \<not> c_true (sp_sender sp)) e) e"

text \<open>The loop over the returns of \<open>select\<close>, with what follows it.\<close>

fun client_loop :: "event list \<Rightarrow> client_loc \<Rightarrow> ep \<Rightarrow> client_loc run option" where
  "client_loop evs loc e =
     (if t_state (e_test e) = IPERF_DONE then
        do { (r, e1) \<leftarrow> client_leave e;
             if r < 0 then map_option (Returned (- 1)) (client_cleanup e1) else Some (Returned 0 e1) }
      else case evs of
        [] \<Rightarrow> Some (Waiting loc e)
      | ev # evs \<Rightarrow>
          do { (r, loc1, e1) \<leftarrow> client_iter ev loc e;
               if r < 0 then map_option (Returned (- 1)) (client_cleanup e1)
               else client_loop evs loc1 e1 })"

definition iperf_run_client :: "event list \<Rightarrow> ep \<Rightarrow> client_loc run option" where
  "iperf_run_client evs e0 =
     do { (r, e) \<leftarrow> and_then (\<lambda>e. if t_logfile (e_test e) \<noteq> None then and_then (call IELOGFILE) ok e else ok e)
            (\<lambda>e. if t_affinity (e_test e) \<noteq> - 1 then and_then (call IEAFFINITY) ok e else ok e) e0;
          if r < 0 then Some (Returned (- 1) e)
          else do { (r1, e1) \<leftarrow> iperf_connect e;
                    if r1 < 0 then map_option (Returned (- 1)) (client_cleanup e1)
                    else client_loop evs
                      \<lparr>cl_startup = True, cl_last_receive_time = time_now e1, cl_last_receive_blocks = 0\<rparr>
                      (cpu_start e1) } }"

section \<open>What the steps of the client leave alone\<close>

lemma tcp_connect_ctl: "iperf_tcp_connect l d t n = (r, t1, n1) \<Longrightarrow> tctl t1 = tctl t"
proof -
  assume c: "iperf_tcp_connect l d t n = (r, t1, n1)"
  obtain s m1 where 1: "create_socket l d (t_bind_port t) n = (s, m1)" by fastforce
  obtain e2 m2 where 2: "try_opts (tcp_options t) m1 = (e2, m2)" by fastforce
  obtain e3 m3 where 3: "check_bufsizes (s_socket_bufsize (t_settings t)) m2 = (e3, m3)" by fastforce
  obtain r4 t4 m4 where 4: "common_sockopts_sys t (set_pacing t m3) = (r4, t4, m4)" by (metis prod_cases3)
  obtain c5 m5 where 5: "syscall m4 = (c5, m5)" by fastforce
  obtain w m6 where 6: "syscall (freeaddrinfo m5) = (w, m6)" by fastforce
  have "tctl t4 = tctl t"
    using 4 by (auto simp: common_sockopts_sys_def iperf_common_sockopts_def Let_def
        split: prod.split_asm if_split_asm)
  then show ?thesis
    using c unfolding iperf_tcp_connect_def 1 Let_def prod.case 2 3 4 5 6
    by (cases e2; cases e3) (auto split: if_split_asm)
qed

lemma buffercheck_ctl: "iperf_udp_buffercheck bc t = (r, t1) \<Longrightarrow> tctl t1 = tctl t"
  by (auto simp: iperf_udp_buffercheck_def Let_def split: if_split_asm option.split_asm)

lemma udp_fit_ctl: "udp_fit_buffers b1 b2 t = (r, t1) \<Longrightarrow> tctl t1 = tctl t"
  by (auto simp: udp_fit_buffers_def Let_def upd_settings_def split: prod.split_asm if_split_asm
      dest!: buffercheck_ctl)

lemma common_sockopts_ctl: "iperf_common_sockopts i rc t = (r, t1) \<Longrightarrow> tctl t1 = tctl t"
  by (auto simp: iperf_common_sockopts_def split: if_split_asm)

lemma udp_connect_ctl:
  assumes "iperf_udp_connect s b1 b2 (iperf_common_sockopts i rc) w rs t = Some (r, t1)"
  shows "tctl t1 = tctl t"
proof -
  obtain r1 t2 where 1: "udp_fit_buffers b1 b2 t = (r1, t2)" by fastforce
  obtain r2 t3 where 2: "iperf_common_sockopts i rc t2 = (r2, t3)" by fastforce
  show ?thesis
    using assms udp_fit_ctl[OF 1] common_sockopts_ctl[OF 2] unfolding iperf_udp_connect_def 1 Let_def prod.case 2
    by (auto split: if_split_asm option.split_asm prod.split_asm)
qed

lemma keeps_proto_connect [frame_rules]: "keeps_ctl proto_connect"
proof (rule keeps_ctlI)
  fix e r e1 assume c: "proto_connect e = Some (r, e1)"
  show "ctl_of e1 = ctl_of e"
  proof (cases "t_protocol (e_test e) = Pudp")
    case True
    show ?thesis
    proof (cases "e_udp e")
      case Nil
      with True c show ?thesis by (auto simp: proto_connect_def Let_def dest!: fail_ctl)
    next
      case (Cons uc ucs)
      obtain s n1 where 1: "netdial (t_bind_address (e_test e) \<noteq> None) (t_bind_dev (e_test e) \<noteq> None)
          (t_bind_port (e_test e)) (- 1) (e_net e) = (s, n1)" by fastforce
      obtain o1 n2 where 2: "syscall n1 = (o1, n2)" by fastforce
      show ?thesis
        using c True Cons unfolding proto_connect_def Let_def 1 prod.case
        by (auto simp: 2 elim!: bindE dest!: udp_connect_ctl)
    qed
  next
    case False
    with c show ?thesis
      by (auto simp: proto_connect_def Let_def split: prod.split_asm dest!: tcp_connect_ctl)
  qed
qed

lemma keeps_client_congestion [frame_rules]: "keeps_ctl (client_congestion s)"
  by (rule keeps_ctlI)
    (auto simp: client_congestion_def Let_def pass_def split: if_split_asm prod.split_asm dest!: fail_ctl)

lemma keeps_create_stream [frame_rules]: "keeps_ctl (create_stream sender port i)"
  by (rule keeps_ctlI)
    (auto simp: create_stream_def Let_def elim!: bindE split: if_split_asm prod.split_asm
      dest!: keeps_ctlD[OF keeps_proto_connect]
        keeps_ctlD[OF keeps_and_then[OF keeps_client_congestion keeps_new_stream]])

lemma keeps_streams_from [frame_rules]: "keeps_ctl (create_streams_from sender port k i)"
proof (induction k arbitrary: i)
  case 0 then show ?case by (rule keeps_ctlI) simp
next
  case (Suc k)
  show ?case
    by (rule keeps_ctlI)
      (use keeps_ctlD[OF keeps_and_then[OF keeps_create_stream Suc.IH]] in \<open>simp only: create_streams_from.simps\<close>)
qed

lemma keeps_create_streams [frame_rules]: "keeps_ctl (iperf_create_streams sender)"
  by (rule keeps_ctlI) (simp add: iperf_create_streams_def keeps_ctlD[OF keeps_streams_from])

lemma keeps_client_create_streams [frame_rules]: "keeps_ctl client_create_streams"
proof -
  have "keeps_ctl (and_then (iperf_create_streams a) ok)"
    "keeps_ctl (and_then (iperf_create_streams a) (and_then (iperf_create_streams b) ok))" for a b
    by (intro frame_rules)+
  then show ?thesis
    by (auto simp: keeps_ctl_def client_create_streams_def split: if_split_asm)
qed

lemma keeps_client_test_start [frame_rules]: "keeps_ctl client_test_start"
  unfolding client_test_start_def create_client_timers_def create_client_omit_timer_def
  by (intro frame_rules) (simp add: iperf_create_send_timers_def)

lemma client_timer_proc_ctl: "client_timer_proc d now (s, w) = Some (s1, w1) \<Longrightarrow> ctl_of w1 = ctl_of w"
  by (cases d) (auto dest: stats_timer_proc_ctl omit_timer_proc_ctl reporter_timer_proc_ctl)

lemma keeps_client_timers [frame_rules]: "keeps_ctl (run_timers client_timer_proc)"
  by (rule keeps_run_timers) (rule client_timer_proc_ctl)

lemma keeps_start_all: "keeps_ctl (\<lambda>e. start_threads (stream_numbers P e) e)"
  "keeps_ctl (\<lambda>e. stop_threads (stream_numbers P e) e)"
  using keeps_ctlD[OF keeps_start_threads] keeps_ctlD[OF keeps_stop_threads] by (auto simp: keeps_ctl_def)

lemma keeps_client_threads [frame_rules]: "keeps_ctl client_threads"
proof -
  have "keeps_ctl (\<lambda>e. let (r, n) = syscall (e_net e); e1 = e\<lparr>e_net := n\<rparr>
                in if sr_ret r \<noteq> 0 then fail IEPTHREADATTRDESTROY e1 else ok e1)"
    by (rule keeps_ctlI) (auto simp: Let_def split: prod.split_asm if_split_asm dest!: fail_ctl)
  note k = keeps_ctlD[OF keeps_and_then[OF keeps_start_all(1)[of "\<lambda>_. True"] this]]
  show ?thesis
    unfolding client_threads_def
    by (intro keeps_ctlI)
      (auto simp: Let_def split: prod.split_asm if_split_asm dest!: fail_ctl k[unfolded Let_def])
qed

lemma keeps_client_leave: "keeps_ctl client_leave"
  unfolding client_leave_def by (rule keeps_start_all(2))

end
