(* ===== verification/Server.thy ===== *)
theory Server
  imports Endpoint
begin

text \<open>
  \<open>iperf_server_api.c\<close>: listening, accepting a client and its streams, the handler of the client's
  state messages, the timers, the clean-up and the main loop, as a function of the returns of
  \<open>select\<close>. A set of ready descriptors holds descriptors, never -1: \<open>FD_ISSET (-1, ...)\<close>, which the code
  evaluates when there is no client, counts as false.
\<close>

section \<open>Listening\<close>

definition server_announce :: "ep \<Rightarrow> int \<times> ep" where
  "server_announce e =
     (let t = e_test e;
          (s, n) = netannounce (s_domain (t_settings t)) Ptcp (t_bind_address t \<noteq> None)
                     (t_bind_dev t \<noteq> None) (e_net e)
      in (s, e\<lparr>e_net := n\<rparr>))"

definition set_listener :: "int \<Rightarrow> iperf_test \<Rightarrow> iperf_test" where
  "set_listener s t = t\<lparr>t_listener := s, t_read_set := insert s (t_read_set t), t_max_fd := max s (t_max_fd t)\<rparr>"

text \<open>The jump back to \<open>retry\<close> is taken once at most: the domain is \<open>AF_INET\<close> afterwards.\<close>

definition iperf_server_listen :: act where
  "iperf_server_listen e0 =
     (let (s1, e1) = server_announce e0;
          domain = s_domain (t_settings (e_test e0));
          retry = (s1 < 0 \<and> n_errno (e_net e1) = EAFNOSUPPORT \<and> (domain = AF_INET6 \<or> domain = AF_UNSPEC));
          (s, e) = (if retry
                    then server_announce (upd_test (\<lambda>t. t\<lparr>t_settings := (t_settings t)\<lparr>s_domain := AF_INET\<rparr>\<rparr>) e1)
                    else (s1, e1))
      in if s < 0 then fail IELISTEN (upd_test (\<lambda>t. t\<lparr>t_listener := s\<rparr>) e)
         else pass (\<lambda>t.
           set_listener s
             (t\<lparr>t_server_test_number :=
                  (if \<not> c_true (t_json_output t) \<and> t_server_last_run_rc t \<noteq> 2
                   then t_server_test_number t + 1 else t_server_test_number t),
                t_read_set := {}, t_write_set := {}\<rparr>)) e)"

section \<open>Accepting a client\<close>

definition accept_cookie :: "int \<Rightarrow> act" where
  "accept_cookie s e =
     (case read_cookie e of
        (None, e1) \<Rightarrow> fail IERECVCOOKIE e1
      | (Some c, e1) \<Rightarrow>
          iperf_set_send_state PARAM_EXCHANGE
            (upd_test (\<lambda>t. t\<lparr>t_cookie := c, t_read_set := insert s (t_read_set t),
                             t_max_fd := max s (t_max_fd t)\<rparr>) e1))"

definition accept_params :: act where
  "accept_params =
     and_then iperf_exchange_parameters
       (\<lambda>e. if t_server_affinity (e_test e) \<noteq> - 1 then call IEAFFINITY e else ok e)"

text \<open>The error path closes \<open>s\<close> but leaves it in \<open>test->ctrl_sck\<close>.\<close>

definition iperf_accept :: act where
  "iperf_accept e0 =
     (let (s, n) = call_socket (e_net e0); e = e0\<lparr>e_net := n\<rparr>
      in if s < 0 then fail IEACCEPT e
         else if t_ctrl_sck (e_test e) = - 1 then
           do { (r, e1) \<leftarrow> and_then (call IESETNODELAY) (and_then (accept_cookie s) accept_params)
                            (upd_test (\<lambda>t. t\<lparr>t_ctrl_sck := s\<rparr>) e);
                if r < 0 then Some (- 1, ep_close s e1) else ok e1 }
         else ok (ep_close s (e\<lparr>e_net := snd (syscall (e_net e)), e_denied := s # e_denied e\<rparr>)))"

section \<open>Messages of the client\<close>

definition close_streams :: "ep \<Rightarrow> ep" where
  "close_streams e =
     fold (\<lambda>sp e. ep_close (sp_socket sp)
             (upd_test (\<lambda>t. t\<lparr>t_read_set := t_read_set t - {sp_socket sp},
                              t_write_set := t_write_set t - {sp_socket sp}\<rparr>) e))
       (t_streams (e_test e)) e"

text \<open>\<open>TEST_END\<close> up to the wait for the client's results, and from there.\<close>

definition server_test_end :: act where
  "server_test_end =
     and_then (pass (\<lambda>t. t\<lparr>t_done := 1\<rparr>))
    (and_then cpu_stop (and_then ep_stats_callback
       (\<lambda>e. iperf_set_send_state EXCHANGE_RESULTS (close_streams e))))"

definition server_results :: act where
  "server_results = and_then ep_exchange_results (iperf_set_send_state DISPLAY_RESULTS)"

definition server_on_state :: act where
  "server_on_state e =
     (let st = t_state (e_test e) in
      if st = TEST_START then ok e
      else if st = TEST_END then and_then server_test_end server_results e
      else if st = IPERF_DONE then ok e
      else if st = CLIENT_TERMINATE then
        and_then cpu_stop (\<lambda>e1. pass (iperf_set_test_state IPERF_DONE) (close_streams e1))
          (upd_test (\<lambda>t. t\<lparr>t_i_errno := IECLIENTTERM\<rparr>) e)
      else fail IEMESSAGE e)"

definition iperf_handle_message_server :: act where
  "iperf_handle_message_server e =
     (let (rval, e1) = read_state e in
      if rval \<le> 0 then
        (if rval = 0 then pass (\<lambda>t. t\<lparr>t_i_errno := IECTRLCLOSE, t_state := IPERF_DONE\<rparr>) e1
         else fail IERECVMESSAGE e1)
      else server_on_state e1)"

section \<open>Timers\<close>

text \<open>The test timer of the server gives the client up. The worker threads are not stopped.\<close>

definition server_test_timer_proc :: "ep \<Rightarrow> ep" where
  "server_test_timer_proc e =
     (let e1 = upd_test (\<lambda>t. t\<lparr>t_timer := None\<rparr>) e in
      if c_true (t_done (e_test e1)) then e1
      else
        (let e2 = fold (\<lambda>sp. ep_close (sp_socket sp)) (t_streams (e_test e1)) e1
         in upd_test (\<lambda>t. t\<lparr>t_done := 1, t_streams := [], t_ctrl_sck := - 1\<rparr>)
              (ep_close (t_ctrl_sck (e_test e2)) e2)))"

fun server_timer_proc :: "(timer_proc_id, ep) proc" where
  "server_timer_proc Test_timer_proc now (tm, e) = Some (tm, server_test_timer_proc e)"
| "server_timer_proc Stats_timer_proc now tw = stats_timer_proc tw"
| "server_timer_proc Reporter_timer_proc now tw = reporter_timer_proc tw"
| "server_timer_proc Omit_timer_proc now tw = omit_timer_proc now tw"

definition create_server_timers :: act where
  "create_server_timers =
     (let max_rtt = 4; state_transitions = 10; grace_period = max_rtt * state_transitions
      in create_test_timers grace_period)"

definition create_server_omit_timer :: act where
  "create_server_omit_timer = create_omit_timer"

section \<open>Clean-up\<close>

definition close_fd :: "(iperf_test \<Rightarrow> int) \<Rightarrow> (iperf_test \<Rightarrow> iperf_test) \<Rightarrow> ep \<Rightarrow> ep" where
  "close_fd field clear e =
     (if field (e_test e) > - 1 then upd_test clear (ep_close (field (e_test e)) e) else e)"

text \<open>Closing the socket of one stream.\<close>

definition close_stream :: "nat \<Rightarrow> ep \<Rightarrow> ep" where
  "close_stream i e =
     (let s = sp_socket (t_streams (e_test e) ! i) in
      if s > - 1
      then upd_sp i (\<lambda>sp. sp\<lparr>sp_socket := - 1\<rparr>)
             (ep_close s (upd_test (\<lambda>t. t\<lparr>t_read_set := t_read_set t - {s},
                                          t_write_set := t_write_set t - {s}\<rparr>) e))
      else e)"

definition cancel_timers :: "ep \<Rightarrow> ep option" where
  "cancel_timers e =
     (let t = e_test e in
      do { tm1 \<leftarrow> cancel_field (t_stats_timer t) (e_tmrs e);
           tm2 \<leftarrow> cancel_field (t_reporter_timer t) tm1;
           tm3 \<leftarrow> cancel_field (t_omit_timer t) tm2;
           tm4 \<leftarrow> cancel_field (t_timer t) tm3;
           Some (upd_test (\<lambda>t. t\<lparr>t_stats_timer := None, t_reporter_timer := None, t_omit_timer := None,
                                 t_congestion_used := None, t_timer := None\<rparr>) (e\<lparr>e_tmrs := tm4\<rparr>)) })"

definition cleanup_server :: "ep \<Rightarrow> ep option" where
  "cleanup_server e =
     (let all = stream_numbers (\<lambda>_. True) e;
          e1 = fold close_stream all (fold kill_thread all e);
          e2 = close_fd t_ctrl_sck (\<lambda>t. t\<lparr>t_ctrl_sck := - 1\<rparr>) e1;
          e3 = close_fd t_listener (\<lambda>t. t\<lparr>t_listener := - 1\<rparr>) e2;
          e4 = close_fd t_prot_listener (\<lambda>t. t\<lparr>t_prot_listener := - 1\<rparr>) e3
      in cancel_timers e4)"

text \<open>\<open>if (f (test) < 0) { cleanup_server (test); return -1; }\<close>, and an error set after the clean-up.\<close>

definition clean_fail :: act where
  "clean_fail e = do { e1 \<leftarrow> cleanup_server e; Some (- 1, e1) }"

definition clean_error :: "int \<Rightarrow> act" where
  "clean_error err e = do { e1 \<leftarrow> cleanup_server e; fail err e1 }"

definition or_clean :: "act \<Rightarrow> act \<Rightarrow> act" where
  "or_clean f g e = do { (r, e1) \<leftarrow> f e; if r < 0 then clean_fail e1 else g e1 }"

section \<open>Accepting the streams\<close>

text \<open>\<open>test->protocol->accept\<close>.\<close>

definition proto_accept :: act where
  "proto_accept e =
     (if t_protocol (e_test e) = Pudp
      then (case e_udp e of
              [] \<Rightarrow> fail IESTREAMACCEPT e
            | uc # ucs \<Rightarrow>
                (let t = e_test e;
                     (l, n) = netannounce (s_domain (t_settings t)) Pudp (t_bind_address t \<noteq> None)
                                (t_bind_dev t \<noteq> None) (e_net e);
                     (r, t1) = iperf_udp_accept (uc_recvfrom uc) (uc_connect uc) (uc_bc1 uc) (uc_bc2 uc)
                                 l (uc_write uc) t
                 in Some (r, e\<lparr>e_test := t1, e_net := n, e_udp := ucs\<rparr>)))
      else
        (let (cookie, cs) = (case e_conns e of [] \<Rightarrow> (None, []) | c # cs \<Rightarrow> (c, cs));
             (r, t, n, denied) = iperf_tcp_accept cookie (e_test e) (e_net e)
         in Some (r, e\<lparr>e_test := t, e_net := n, e_conns := cs,
                       e_denied := (if denied = [] then e_denied e else r # e_denied e)\<rparr>)))"

abbreviation (input) ENOENT :: int where "ENOENT \<equiv> 2"

definition server_congestion :: "int \<Rightarrow> act" where
  "server_congestion s e =
     (if t_protocol (e_test e) \<noteq> Ptcp then ok e
      else
        (let set_it = (t_congestion (e_test e) \<noteq> None);
             (rc1, n1) = (if set_it then (let (r, n) = syscall (e_net e) in (sr_ret r, n)) else (0, e_net e));
             e1 = e\<lparr>e_net := n1\<rparr>
         in if rc1 < 0 \<and> n_errno n1 \<noteq> ENOENT then clean_error IESETCONGESTION (ep_close s e1)
            else
              (let (r, n2) = syscall (e_net e1); e2 = e1\<lparr>e_net := n2\<rparr>
               in if sr_ret r < 0 \<and> set_it then clean_error IESETCONGESTION (ep_close s e2)
                  else pass (\<lambda>t. t\<lparr>t_congestion_used :=
                          Some (if sr_ret r < 0 then ''unknown'' else e_algo e2)\<rparr>) e2)))"

text \<open>The local variables of the loop; \<open>flag\<close> is \<open>None\<close> before its first assignment.\<close>

record server_loc =
  sl_send_accepted :: int
  sl_rec_accepted :: int
  sl_to_send :: int
  sl_to_rec :: int
  sl_flag :: "int option"
  sl_last_receive_time :: iperf_time
  sl_last_receive_blocks :: u64

text \<open>Which side the next stream belongs to: the receiving streams come first.\<close>

definition next_flag :: "server_loc \<Rightarrow> server_loc" where
  "next_flag loc =
     (if sl_rec_accepted loc \<noteq> sl_to_rec loc
      then loc\<lparr>sl_flag := Some 0, sl_rec_accepted := sl_rec_accepted loc + 1\<rparr>
      else if sl_send_accepted loc \<noteq> sl_to_send loc
      then loc\<lparr>sl_flag := Some 1, sl_send_accepted := sl_send_accepted loc + 1\<rparr>
      else loc)"

text \<open>One connection on the protocol's listener. An undefined \<open>flag\<close> gives \<open>None\<close>.\<close>

definition accept_stream :: "server_loc \<Rightarrow> ep \<Rightarrow> (int \<times> server_loc \<times> ep) option" where
  "accept_stream loc e =
     do { (s, e1) \<leftarrow> proto_accept e;
          if s < 0 then map_option (\<lambda>(r, e). (r, loc, e)) (clean_fail e1)
          else
            (let (rc, t2, n2) = common_sockopts_sys (e_test e1) (e_net e1);
                 e2 = e1\<lparr>e_test := t2, e_net := n2\<rparr>
             in if rc < 0 then map_option (\<lambda>(r, e). (r, loc, e)) (clean_fail e2)
                else if s \<notin> set (n_open (e_net e2)) then Some (0, loc, e2)
                else
                  do { (r3, e3) \<leftarrow> server_congestion s e2;
                       if r3 < 0 then Some (- 1, loc, e3)
                       else
                         (let loc1 = next_flag loc in
                          case sl_flag loc1 of
                            None \<Rightarrow> None
                          | Some flag \<Rightarrow>
                              if flag = - 1 then Some (0, loc1, e3)
                              else do { (r4, e4) \<leftarrow> or_clean (new_stream s flag)
                                          (pass (\<lambda>t. t\<lparr>t_max_fd := max s (t_max_fd t)\<rparr>)) e3;
                                        Some (r4, loc1\<lparr>sl_flag := Some (- 1)\<rparr>, e4) }) }) }"

section \<open>Starting the test\<close>

definition stop_accepting :: act where
  "stop_accepting e =
     (let t = e_test e in
      if t_protocol t \<noteq> Ptcp
      then ok (upd_test (\<lambda>t. t\<lparr>t_prot_listener := - 1\<rparr>)
             (ep_close (t_prot_listener t)
               (upd_test (\<lambda>t. t\<lparr>t_read_set := t_read_set t - {t_prot_listener t}\<rparr>) e)))
      else if needs_relisten t
      then
        (let (s, e1) = server_announce
               (upd_test (\<lambda>t. t\<lparr>t_listener := - 1\<rparr>)
                 (ep_close (t_listener t)
                   (upd_test (\<lambda>t. t\<lparr>t_read_set := t_read_set t - {t_listener t}\<rparr>) e)))
         in if s < 0 then clean_error IELISTEN e1
            else ok (upd_test (\<lambda>t. (set_listener s t)\<lparr>t_prot_listener := - 1\<rparr>) e1))
      else ok (upd_test (\<lambda>t. t\<lparr>t_prot_listener := - 1\<rparr>) e))"

definition total_requested_rate :: "iperf_test \<Rightarrow> u64" where
  "total_requested_rate t =
     word_of_int (t_num_streams t) * s_rate (t_settings t) * (if t_mode t = BIDIRECTIONAL then 2 else 1)"

definition rate_allowed :: "iperf_test \<Rightarrow> bool" where
  "rate_allowed t \<longleftrightarrow>
     \<not> (s_bitrate_limit (t_settings t) > 0 \<and> total_requested_rate t > s_bitrate_limit (t_settings t))"

text \<open>A failing \<open>pthread_attr_init\<close> or \<open>pthread_attr_destroy\<close> cleans up but does not return.\<close>

definition attr_call :: "int \<Rightarrow> act" where
  "attr_call err e =
     (let (r, n) = syscall (e_net e); e1 = e\<lparr>e_net := n\<rparr>
      in if sr_ret r \<noteq> 0
         then map_option (\<lambda>e2. (0, e2)) (cleanup_server (upd_test (\<lambda>t. t\<lparr>t_i_errno := err\<rparr>) e1))
         else ok e1)"

definition server_threads :: act where
  "server_threads =
     and_then (attr_call IEPTHREADATTRINIT)
    (or_clean (\<lambda>e. start_threads (stream_numbers (\<lambda>_. True) e) e)
              (attr_call IEPTHREADATTRDESTROY))"

definition server_send_timers :: act where
  "server_send_timers e =
     (if t_mode (e_test e) \<noteq> RECEIVER then on_test iperf_create_send_timers e else ok e)"

definition server_start_test :: act where
  "server_start_test =
     and_then stop_accepting
       (\<lambda>e. if \<not> rate_allowed (e_test e) then clean_error IETOTALRATE e
            else or_clean (iperf_set_send_state TEST_START)
                (or_clean init_test
                (or_clean create_server_timers
                (or_clean create_server_omit_timer
                (or_clean server_send_timers
                (or_clean (iperf_set_send_state TEST_RUNNING) server_threads)))))
              (cpu_start e))"

definition all_accepted :: "server_loc \<Rightarrow> bool" where
  "all_accepted loc \<longleftrightarrow>
     sl_rec_accepted loc = sl_to_rec loc \<and> sl_send_accepted loc = sl_to_send loc"

definition server_create_streams :: "bool \<Rightarrow> server_loc \<Rightarrow> ep \<Rightarrow> (int \<times> server_loc \<times> ep) option" where
  "server_create_streams ready loc e =
     do { (r, loc1, e1) \<leftarrow> (if ready then accept_stream loc e else Some (0, loc, e));
          if r < 0 then Some (- 1, loc1, e1)
          else if all_accepted loc1
          then map_option (\<lambda>(r, e). (r, loc1, e)) (server_start_test e1)
          else Some (0, loc1, e1) }"

section \<open>The main loop\<close>

definition set_stream_numbers :: "iperf_test \<Rightarrow> server_loc \<Rightarrow> server_loc" where
  "set_stream_numbers t loc =
     (let n = t_num_streams t in
      if t_mode t = BIDIRECTIONAL then loc\<lparr>sl_to_send := n, sl_to_rec := n\<rparr>
      else if t_mode t = RECEIVER then loc\<lparr>sl_to_rec := n, sl_to_send := 0\<rparr>
      else loc\<lparr>sl_to_send := n, sl_to_rec := 0\<rparr>)"

definition server_timeout :: "ep \<Rightarrow> (int \<times> int) option option" where
  "server_timeout e =
     (case tmr_timeout (Some (time_now e)) (time_now e) (e_tmrs e) of
        None \<Rightarrow> None
      | Some timeout \<Rightarrow>
          (let t = e_test e; idle = s_idle_timeout (t_settings t) in
           Some (if t_state t = IPERF_START
                 then (if timeout = None \<and> idle > 0 then Some (idle, 0) else timeout)
                 else if t_mode t \<noteq> SENDER
                 then Some (receive_timeout (s_rcv_timeout (t_settings t)) timeout)
                 else timeout)))"

text \<open>Nothing arrived in time: the result of the run, 2 to start again (where a one-off server ends the
program), -1 when a test is given up.\<close>

definition server_idle :: "server_loc \<Rightarrow> ep \<Rightarrow> (int \<times> ep) option" where
  "server_idle loc e =
     (let t = e_test e; st = t_settings t in
      case idle_usecs (time_now e) (sl_last_receive_time loc) of
        None \<Rightarrow> ok e
      | Some idle_us \<Rightarrow>
          if t_state t = IPERF_START then
            (if s_idle_timeout st > 0 \<and> idle_us \<ge> s_idle_timeout st * SEC_TO_US
             then do { e1 \<leftarrow> cleanup_server (upd_test (\<lambda>t. t\<lparr>t_server_forced_idle_restarts_count :=
                               t_server_forced_idle_restarts_count t + 1\<rparr>) e);
                       Some (2, e1) }
             else ok e)
          else if t_mode t \<noteq> SENDER \<and> idle_us > time_us (s_rcv_timeout st) \<and>
                  t_blocks_received t = sl_last_receive_blocks loc
          then clean_fail (upd_test (\<lambda>t. t\<lparr>t_server_forced_no_msg_restarts_count :=
                               t_server_forced_no_msg_restarts_count t + 1, t_i_errno := IENOMSG\<rparr>) e)
          else ok e)"

text \<open>The descriptors that are ready: first the listener, then the control socket, then the streams.\<close>

definition server_ready :: "int set \<Rightarrow> server_loc \<Rightarrow> ep \<Rightarrow> (int \<times> server_loc \<times> ep) option" where
  "server_ready ready loc e =
     (let new_client = (t_listener (e_test e) \<in> ready \<and> t_state (e_test e) \<noteq> CREATE_STREAMS) in
      do { (r1, e1) \<leftarrow> (if new_client then or_clean iperf_accept ok e else ok e);
           let ready1 = (if new_client then ready - {t_listener (e_test e1)} else ready);
               loc1 = (if new_client then set_stream_numbers (e_test e1) loc else loc);
               message = (t_ctrl_sck (e_test e1) \<in> ready1)
           in if r1 < 0 then Some (- 1, loc, e1)
              else do {
                (r2, e2) \<leftarrow> (if message then or_clean iperf_handle_message_server ok e1 else ok e1);
                let ready2 = (if message then ready1 - {t_ctrl_sck (e_test e2)} else ready1)
                in if r2 < 0 then Some (- 1, loc1, e2)
                   else if t_state (e_test e2) = CREATE_STREAMS
                   then server_create_streams (t_prot_listener (e_test e2) \<in> ready2) loc1 e2
                   else Some (0, loc1, e2) } })"

definition server_iter :: "event \<Rightarrow> server_loc \<Rightarrow> ep \<Rightarrow> (int \<times> server_loc \<times> ep) option" where
  "server_iter ev loc e0 =
     (if c_true (t_bitrate_limit_exceeded (e_test e0))
      then map_option (\<lambda>(r, e). (r, loc, e)) (clean_error IETOTALRATE e0)
      else do {
        timeout \<leftarrow> server_timeout e0;
        let e = ev_world ev e0;
            now = (if ev_result ev = 0 then time_now e else time_now e0)
        in if ev_result ev < 0 \<and> \<not> ev_eintr ev
           then map_option (\<lambda>(r, e). (r, loc, e)) (clean_error IESELECT e)
           else do {
             (r, e1) \<leftarrow> (if ev_result ev = 0 then server_idle loc e else ok e);
             if r \<noteq> 0 then Some (r, loc, e1)
             else
               (let loc1 = (if t_blocks_received (e_test e1) > sl_last_receive_blocks loc
                            then loc\<lparr>sl_last_receive_blocks := t_blocks_received (e_test e1),
                                     sl_last_receive_time := now\<rparr>
                            else loc)
                in do {
                  (r2, loc2, e2) \<leftarrow> (if ev_result ev > 0 then server_ready (ev_ready ev) loc1 e1
                                     else Some (0, loc1, e1));
                  if r2 < 0 then Some (- 1, loc2, e2)
                  else if ev_result ev = 0 \<or> timeout \<noteq> None \<and> ev_left ev = (0, 0)
                  then map_option (\<lambda>(r, e). (0, loc2, e)) (run_timers server_timer_proc e2)
                  else Some (0, loc2, e2) }) } })"

fun server_loop :: "event list \<Rightarrow> server_loc \<Rightarrow> ep \<Rightarrow> server_loc run option" where
  "server_loop evs loc e =
     (if t_state (e_test e) = IPERF_DONE then
        do { e1 \<leftarrow> cleanup_server e;
             if t_server_affinity (e_test e1) \<noteq> - 1
             then map_option (\<lambda>(r, e). Returned r e) (call IEAFFINITY e1)
             else Some (Returned 0 e1) }
      else case evs of
        [] \<Rightarrow> Some (Waiting loc e)
      | ev # evs \<Rightarrow>
          do { (r, loc1, e1) \<leftarrow> server_iter ev loc e;
               if r \<noteq> 0 then Some (Returned r e1) else server_loop evs loc1 e1 })"

definition start_loc :: "iperf_time \<Rightarrow> server_loc" where
  "start_loc now = \<lparr>sl_send_accepted = 0, sl_rec_accepted = 0, sl_to_send = 0, sl_to_rec = 0,
     sl_flag = None, sl_last_receive_time = now, sl_last_receive_blocks = 0\<rparr>"

definition iperf_run_server :: "event list \<Rightarrow> ep \<Rightarrow> server_loc run option" where
  "iperf_run_server evs e0 =
     do { (r, e) \<leftarrow> (if t_logfile (e_test e0) \<noteq> None then call IELOGFILE e0 else ok e0);
          if r < 0 then Some (Returned (- 2) e)
          else do {
            (r1, e1) \<leftarrow> (if t_affinity (e_test e) \<noteq> - 1 then or_clean (call IEAFFINITY) ok e else ok e);
            if r1 < 0 then Some (Returned (- 2) e1)
            else do {
              (r2, e2) \<leftarrow> or_clean iperf_server_listen ok e1;
              if r2 < 0 then Some (Returned (- 2) e2)
              else server_loop evs (start_loc (time_now e2))
                     (upd_test (iperf_set_test_state IPERF_START) e2) } } }"

end
