(* ===== verification/Control.thy ===== *)
theory Control
  imports Client Server "HOL-Library.Sublist"
begin

text \<open>
  The control protocol of the two ends, as an abstract machine: what is on the control connection
  in both directions, and the phase of each end. The phases split a handler of the code where it
  waits for the peer (the client in \<open>get_results\<close>, the server for cookie, parameters and results).
  An end can fail at any moment; then it closes the connection, the client after sending
  \<open>IPERF_DONE\<close> if it can.

  The first part defines the machine and shows that every run ends, that no reachable state is a
  deadlock, and which states are reachable at all while both ends are up. The second part shows
  that the main loop of the client and the handlers of the server are runs of the machine.
\<close>

section \<open>The two local machines\<close>

datatype tok = K_state int | K_cookie | K_json | K_word

fun tok_of :: "ctl_msg \<Rightarrow> tok" where
  "tok_of (M_state st) = K_state st"
| "tok_of (M_cookie c) = K_cookie"
| "tok_of (M_json j) = K_json"
| "tok_of (M_word w) = K_word"

datatype cphase = C_loop int | C_results | C_end
datatype sphase = S_cookie | S_params | S_loop int | S_results | S_end

type_synonym 'p conf = "'p \<times> tok list \<times> tok list"

text \<open>A step without a failure: the phase, what is still to read, what has been written.\<close>

inductive client_ok :: "cphase conf \<Rightarrow> cphase conf \<Rightarrow> bool" where
  c_params: "client_ok (C_loop st, K_state PARAM_EXCHANGE # i, out) (C_loop PARAM_EXCHANGE, i, out @ [K_json])"
| c_streams: "client_ok (C_loop st, K_state CREATE_STREAMS # i, out) (C_loop CREATE_STREAMS, i, out)"
| c_start: "client_ok (C_loop st, K_state TEST_START # i, out) (C_loop TEST_START, i, out)"
| c_running: "client_ok (C_loop st, K_state TEST_RUNNING # i, out) (C_loop TEST_RUNNING, i, out)"
| c_test_end: "client_ok (C_loop TEST_RUNNING, i, out) (C_loop TEST_END, i, out @ [K_state TEST_END])"
| c_send_results: "client_ok (C_loop st, K_state EXCHANGE_RESULTS # i, out) (C_results, i, out @ [K_json])"
| c_got_results: "client_ok (C_results, K_json # i, out) (C_loop EXCHANGE_RESULTS, i, out)"
| c_display: "client_ok (C_loop st, K_state DISPLAY_RESULTS # i, out) (C_end, i, out @ [K_state IPERF_DONE])"
| c_done: "client_ok (C_loop st, K_state IPERF_DONE # i, out) (C_end, i, out)"

inductive client_fail :: "cphase conf \<Rightarrow> cphase conf \<Rightarrow> bool" where
  c_fail: "p \<noteq> C_end \<Longrightarrow> suffix i1 i \<Longrightarrow> m \<in> {[], [K_state IPERF_DONE]} \<Longrightarrow>
    client_fail (p, i, out) (C_end, i1, out @ m)"

inductive server_ok :: "sphase conf \<Rightarrow> sphase conf \<Rightarrow> bool" where
  s_cookie: "server_ok (S_cookie, K_cookie # i, out) (S_params, i, out @ [K_state PARAM_EXCHANGE])"
| s_params: "server_ok (S_params, K_json # i, out) (S_loop CREATE_STREAMS, i, out @ [K_state CREATE_STREAMS])"
| s_streams: "server_ok (S_loop CREATE_STREAMS, i, out)
    (S_loop TEST_RUNNING, i, out @ [K_state TEST_START, K_state TEST_RUNNING])"
| s_start: "server_ok (S_loop st, K_state TEST_START # i, out) (S_loop TEST_START, i, out)"
| s_test_end: "server_ok (S_loop st, K_state TEST_END # i, out) (S_results, i, out @ [K_state EXCHANGE_RESULTS])"
| s_results: "server_ok (S_results, K_json # i, out)
    (S_loop DISPLAY_RESULTS, i, out @ [K_json, K_state DISPLAY_RESULTS])"
| s_done: "server_ok (S_loop st, K_state IPERF_DONE # i, out) (S_end, i, out)"
| s_terminate: "server_ok (S_loop st, K_state CLIENT_TERMINATE # i, out) (S_end, i, out)"

text \<open>What a server may have sent of its answer when it fails.\<close>

fun partial_answers :: "sphase \<Rightarrow> tok list set" where
  "partial_answers S_params =
     {[], [K_state SERVER_ERROR], [K_state SERVER_ERROR, K_word], [K_state SERVER_ERROR, K_word, K_word]}"
| "partial_answers (S_loop st) =
     (if st = CREATE_STREAMS then {[], [K_state TEST_START], [K_state TEST_START, K_state TEST_RUNNING]} else {[]})"
| "partial_answers S_results = {[], [K_json]}"
| "partial_answers p = {[]}"

inductive server_fail :: "sphase conf \<Rightarrow> sphase conf \<Rightarrow> bool" where
  s_fail: "p \<noteq> S_end \<Longrightarrow> suffix i1 i \<Longrightarrow> m \<in> partial_answers p \<Longrightarrow>
    server_fail (p, i, out) (S_end, i1, out @ m)"

section \<open>Both ends\<close>

text \<open>The connection keeps the order: what an end writes is appended to what the other reads.
\<open>j_conn\<close> says that the client has connected all its streams, which the server waits for.\<close>

record joint =
  j_client :: cphase
  j_server :: sphase
  j_c2s :: "tok list"
  j_s2c :: "tok list"
  j_conn :: bool

definition joint_init :: joint where
  "joint_init = \<lparr>j_client = C_loop 0, j_server = S_cookie, j_c2s = [K_cookie], j_s2c = [], j_conn = False\<rparr>"

definition by_client :: "(cphase conf \<Rightarrow> cphase conf \<Rightarrow> bool) \<Rightarrow> joint \<Rightarrow> joint \<Rightarrow> bool" where
  "by_client R a b \<longleftrightarrow>
     R (j_client a, j_s2c a, j_c2s a) (j_client b, j_s2c b, j_c2s b) \<and> j_server b = j_server a \<and>
     j_conn b = (j_conn a \<or> j_client b = C_loop CREATE_STREAMS)"

definition by_server :: "(sphase conf \<Rightarrow> sphase conf \<Rightarrow> bool) \<Rightarrow> joint \<Rightarrow> joint \<Rightarrow> bool" where
  "by_server R a b \<longleftrightarrow>
     R (j_server a, j_c2s a, j_s2c a) (j_server b, j_c2s b, j_s2c b) \<and> j_client b = j_client a \<and>
     j_conn b = j_conn a \<and>
     (j_server a = S_loop CREATE_STREAMS \<and> j_server b = S_loop TEST_RUNNING \<longrightarrow> j_conn a)"

inductive joint_step :: "joint \<Rightarrow> joint \<Rightarrow> bool" where
  client_acts: "by_client client_ok a b \<Longrightarrow> joint_step a b"
| client_fails: "by_client client_fail a b \<Longrightarrow> joint_step a b"
| server_acts: "by_server server_ok a b \<Longrightarrow> joint_step a b"
| server_fails: "by_server server_fail a b \<Longrightarrow> joint_step a b"

inductive reachable :: "joint \<Rightarrow> bool" where
  init: "reachable joint_init"
| step: "reachable a \<Longrightarrow> joint_step a b \<Longrightarrow> reachable b"

definition ended :: "joint \<Rightarrow> bool" where
  "ended j \<longleftrightarrow> j_client j = C_end \<and> j_server j = S_end"

text \<open>An end that must fail: it cannot take the next message, or there is none and the peer is gone.\<close>

fun client_takes :: "cphase \<Rightarrow> tok \<Rightarrow> bool" where
  "client_takes (C_loop st) (K_state x) \<longleftrightarrow>
     x \<in> {PARAM_EXCHANGE, CREATE_STREAMS, TEST_START, TEST_RUNNING, EXCHANGE_RESULTS, DISPLAY_RESULTS, IPERF_DONE}"
| "client_takes C_results K_json \<longleftrightarrow> True"
| "client_takes p t \<longleftrightarrow> False"

fun server_takes :: "sphase \<Rightarrow> tok \<Rightarrow> bool" where
  "server_takes S_cookie K_cookie \<longleftrightarrow> True"
| "server_takes S_params K_json \<longleftrightarrow> True"
| "server_takes (S_loop st) (K_state x) \<longleftrightarrow> x \<in> {TEST_START, TEST_END, IPERF_DONE, CLIENT_TERMINATE}"
| "server_takes S_results K_json \<longleftrightarrow> True"
| "server_takes p t \<longleftrightarrow> False"

definition client_must_fail :: "joint \<Rightarrow> bool" where
  "client_must_fail j \<longleftrightarrow> j_client j \<noteq> C_end \<and>
     (case j_s2c j of [] \<Rightarrow> j_server j = S_end | t # _ \<Rightarrow> \<not> client_takes (j_client j) t)"

definition server_must_fail :: "joint \<Rightarrow> bool" where
  "server_must_fail j \<longleftrightarrow> j_server j \<noteq> S_end \<and>
     (case j_c2s j of [] \<Rightarrow> j_client j = C_end | t # _ \<Rightarrow> \<not> server_takes (j_server j) t)"

section \<open>Every run ends\<close>

text \<open>Messages and phases have weights; every step loses weight.\<close>

fun c2s_weight :: "tok \<Rightarrow> nat" where
  "c2s_weight (K_state x) = (if x = TEST_END then 5 else 1)"
| "c2s_weight t = 1"

fun s2c_weight :: "tok \<Rightarrow> nat" where
  "s2c_weight (K_state x) =
     (if x = TEST_RUNNING then 7 else if x = PARAM_EXCHANGE \<or> x = EXCHANGE_RESULTS then 2 else 1)"
| "s2c_weight t = 1"

fun client_weight :: "cphase \<Rightarrow> nat" where
  "client_weight (C_loop st) = (if st = TEST_RUNNING then 8 else 2)"
| "client_weight C_results = 2"
| "client_weight C_end = 0"

fun server_weight :: "sphase \<Rightarrow> nat" where
  "server_weight S_cookie = 15"
| "server_weight S_params = 12"
| "server_weight (S_loop st) = (if st = CREATE_STREAMS then 10 else 1)"
| "server_weight S_results = 3"
| "server_weight S_end = 0"

definition weight :: "joint \<Rightarrow> nat" where
  "weight j = client_weight (j_client j) + server_weight (j_server j) +
     sum_list (map c2s_weight (j_c2s j)) + sum_list (map s2c_weight (j_s2c j))"

lemma suffix_weight: "suffix a b \<Longrightarrow> sum_list (map f a) \<le> (sum_list (map f b) :: nat)"
  by (auto simp: suffix_def)

lemma client_ok_weight:
  "client_ok (p, i, out) (p1, i1, out1) \<Longrightarrow>
   client_weight p1 + sum_list (map s2c_weight i1) + sum_list (map c2s_weight out1) <
   client_weight p + sum_list (map s2c_weight i) + sum_list (map c2s_weight out)"
  by (cases rule: client_ok.cases) (auto split: if_splits)

lemma client_fail_weight:
  "client_fail (p, i, out) (p1, i1, out1) \<Longrightarrow>
   client_weight p1 + sum_list (map s2c_weight i1) + sum_list (map c2s_weight out1) <
   client_weight p + sum_list (map s2c_weight i) + sum_list (map c2s_weight out)"
  by (erule client_fail.cases; cases p; drule suffix_weight[of _ _ s2c_weight])
    (auto split: if_splits)

lemma server_ok_weight:
  "server_ok (p, i, out) (p1, i1, out1) \<Longrightarrow>
   server_weight p1 + sum_list (map c2s_weight i1) + sum_list (map s2c_weight out1) <
   server_weight p + sum_list (map c2s_weight i) + sum_list (map s2c_weight out)"
  by (cases rule: server_ok.cases) (auto split: if_splits)

lemma server_fail_weight:
  "server_fail (p, i, out) (p1, i1, out1) \<Longrightarrow>
   server_weight p1 + sum_list (map c2s_weight i1) + sum_list (map s2c_weight out1) <
   server_weight p + sum_list (map c2s_weight i) + sum_list (map s2c_weight out)"
  by (erule server_fail.cases; cases p; drule suffix_weight[of _ _ c2s_weight])
    (auto split: if_splits)

lemma joint_step_weight: "joint_step a b \<Longrightarrow> weight b < weight a"
  by (cases rule: joint_step.cases)
    (auto simp: by_client_def by_server_def weight_def
      dest!: client_ok_weight client_fail_weight server_ok_weight server_fail_weight)


inductive run :: "nat \<Rightarrow> joint \<Rightarrow> joint \<Rightarrow> bool" where
  "run 0 a a"
| "run n a b \<Longrightarrow> joint_step b c \<Longrightarrow> run (Suc n) a c"

lemma run_weight: "run n a b \<Longrightarrow> weight b + n \<le> weight a"
  by (induction rule: run.induct) (auto dest!: joint_step_weight)

lemma run_reachable: "run n joint_init b \<Longrightarrow> reachable b"
proof -
  have "run n a b \<Longrightarrow> a = joint_init \<Longrightarrow> reachable b" for n a b
    by (induction rule: run.induct) (auto intro: reachable.intros)
  then show "run n joint_init b \<Longrightarrow> reachable b" by blast
qed

section \<open>The states in which both ends are up\<close>

text \<open>Phases of client and server, what is on the way to the server and to the client, \<open>j_conn\<close>.\<close>

type_synonym jstate = "cphase \<times> sphase \<times> tok list \<times> tok list \<times> bool"

definition in_step :: "jstate list" where
  "in_step =
     [(C_loop 0, S_cookie, [K_cookie], [], False),
      (C_loop 0, S_params, [], [K_state PARAM_EXCHANGE], False),
      (C_loop PARAM_EXCHANGE, S_params, [K_json], [], False),
      (C_loop PARAM_EXCHANGE, S_loop CREATE_STREAMS, [], [K_state CREATE_STREAMS], False),
      (C_loop CREATE_STREAMS, S_loop CREATE_STREAMS, [], [], True),
      (C_loop CREATE_STREAMS, S_loop TEST_RUNNING, [], [K_state TEST_START, K_state TEST_RUNNING], True),
      (C_loop TEST_START, S_loop TEST_RUNNING, [], [K_state TEST_RUNNING], True),
      (C_loop TEST_RUNNING, S_loop TEST_RUNNING, [], [], True),
      (C_loop TEST_END, S_loop TEST_RUNNING, [K_state TEST_END], [], True),
      (C_loop TEST_END, S_results, [], [K_state EXCHANGE_RESULTS], True),
      (C_results, S_results, [K_json], [], True),
      (C_results, S_loop DISPLAY_RESULTS, [], [K_json, K_state DISPLAY_RESULTS], True),
      (C_loop EXCHANGE_RESULTS, S_loop DISPLAY_RESULTS, [], [K_state DISPLAY_RESULTS], True)]"

definition state_of :: "joint \<Rightarrow> jstate" where
  "state_of j = (j_client j, j_server j, j_c2s j, j_s2c j, j_conn j)"

lemma client_ok_in_step:
  "client_ok (c, s2c, c2s) (p, i, out) \<Longrightarrow> (c, s, c2s, s2c, conn) \<in> set in_step \<Longrightarrow> p \<noteq> C_end \<Longrightarrow>
   (p, s, out, i, conn \<or> p = C_loop CREATE_STREAMS) \<in> set in_step"
  by (erule client_ok.cases) (auto simp: in_step_def)

lemma server_ok_in_step:
  "server_ok (s, c2s, s2c) (p, i, out) \<Longrightarrow> (c, s, c2s, s2c, conn) \<in> set in_step \<Longrightarrow> p \<noteq> S_end \<Longrightarrow>
   (s = S_loop CREATE_STREAMS \<and> p = S_loop TEST_RUNNING \<longrightarrow> conn) \<Longrightarrow>
   (c, p, i, out, conn) \<in> set in_step"
  by (erule server_ok.cases) (auto simp: in_step_def)

inductive_simps client_ok_simps: "client_ok (p, i, out) (p1, i1, out1)"
inductive_simps server_ok_simps: "server_ok (p, i, out) (p1, i1, out1)"
inductive_cases client_failE: "client_fail (p, i, out) (p1, i1, out1)"
inductive_cases server_failE: "server_fail (p, i, out) (p1, i1, out1)"

lemma fails_end: "client_fail (p, i, out) (p1, i1, out1) \<Longrightarrow> p1 = C_end"
  "server_fail (q, i, out) (q1, i1, out1) \<Longrightarrow> q1 = S_end"
  by (erule client_failE, simp, erule server_failE, simp)

lemma in_step_preserved:
  assumes "state_of a \<in> set in_step" "joint_step a b" "j_client b \<noteq> C_end" "j_server b \<noteq> S_end"
  shows "state_of b \<in> set in_step"
  using assms(2)
proof cases
  case client_acts
  with assms(1,3) show ?thesis
    using client_ok_in_step by (fastforce simp: by_client_def state_of_def)
next
  case client_fails
  with assms(3) show ?thesis by (auto simp: by_client_def dest: fails_end)
next
  case server_acts
  with assms(1,4) show ?thesis
    using server_ok_in_step by (fastforce simp: by_server_def state_of_def)
next
  case server_fails
  with assms(4) show ?thesis by (auto simp: by_server_def dest: fails_end)
qed

lemma stays_ended: "joint_step a b \<Longrightarrow> j_client a = C_end \<Longrightarrow> j_client b = C_end"
  "joint_step a b \<Longrightarrow> j_server a = S_end \<Longrightarrow> j_server b = S_end"
  by (auto elim!: joint_step.cases client_failE server_failE
      simp: by_client_def by_server_def client_ok_simps server_ok_simps)

lemma reachable_in_step:
  "reachable j \<Longrightarrow> j_client j \<noteq> C_end \<Longrightarrow> j_server j \<noteq> S_end \<Longrightarrow> state_of j \<in> set in_step"
proof (induction rule: reachable.induct)
  case init then show ?case by (simp add: joint_init_def in_step_def state_of_def)
next
  case (step a b)
  then show ?case using in_step_preserved stays_ended by blast
qed

definition can_go_on :: "joint \<Rightarrow> bool" where
  "can_go_on j \<longleftrightarrow>
     (\<exists>j'. by_client client_ok j j' \<or> by_server server_ok j j') \<or> client_must_fail j \<or> server_must_fail j"

lemma client_goes_on:
  "client_ok (j_client j, j_s2c j, j_c2s j) (p, i, out) \<Longrightarrow> can_go_on j"
  unfolding can_go_on_def by_client_def
  by (rule disjI1, rule exI[of _ "\<lparr>j_client = p, j_server = j_server j, j_c2s = out, j_s2c = i,
    j_conn = (j_conn j \<or> p = C_loop CREATE_STREAMS)\<rparr>"]) simp

lemma server_goes_on:
  "server_ok (j_server j, j_c2s j, j_s2c j) (p, i, out) \<Longrightarrow>
   (j_server j = S_loop CREATE_STREAMS \<and> p = S_loop TEST_RUNNING \<longrightarrow> j_conn j) \<Longrightarrow> can_go_on j"
  unfolding can_go_on_def by_server_def
  by (rule disjI1, rule exI[of _ "\<lparr>j_client = j_client j, j_server = p, j_c2s = i, j_s2c = out,
    j_conn = j_conn j\<rparr>"]) auto

lemma client_takes_ok: "client_takes p t \<Longrightarrow> \<exists>q out1. client_ok (p, t # i, out) (q, i, out1)"
  by (cases p; cases t) (auto intro: client_ok.intros)

lemma server_takes_ok:
  assumes "server_takes p t"
  shows "\<exists>q out1. server_ok (p, t # i, out) (q, i, out1) \<and> q \<noteq> S_loop TEST_RUNNING"
proof -
  from assms consider "p = S_cookie" "t = K_cookie" | "p = S_params" "t = K_json" | "p = S_results" "t = K_json"
    | st where "p = S_loop st" "t = K_state TEST_START" | st where "p = S_loop st" "t = K_state TEST_END"
    | st where "p = S_loop st" "t = K_state IPERF_DONE" | st where "p = S_loop st" "t = K_state CLIENT_TERMINATE"
    by (cases "(p, t)" rule: server_takes.cases) auto
  then show ?thesis
    by cases (simp only:, intro exI conjI, rule server_ok.intros, simp)+
qed

text \<open>Somebody has something to do.\<close>

definition can_move :: "jstate \<Rightarrow> bool" where
  "can_move j =
     (case j of (c, s, c2s, s2c, conn) \<Rightarrow>
       (s2c \<noteq> [] \<and> client_takes c (hd s2c)) \<or> (c2s \<noteq> [] \<and> server_takes s (hd c2s)) \<or>
       c = C_loop TEST_RUNNING \<or> (s = S_loop CREATE_STREAMS \<and> conn))"

lemma in_step_can_move: "j \<in> set in_step \<Longrightarrow> can_move j"
proof -
  have "list_all can_move in_step" by (simp add: in_step_def can_move_def)
  then show "j \<in> set in_step \<Longrightarrow> can_move j" by (simp add: list_all_iff)
qed

lemma client_message: "j_s2c j \<noteq> [] \<Longrightarrow> client_takes (j_client j) (hd (j_s2c j)) \<Longrightarrow> can_go_on j"
  using client_takes_ok[of "j_client j" "hd (j_s2c j)" "tl (j_s2c j)" "j_c2s j"]
  by (auto intro: client_goes_on)

lemma server_message: "j_c2s j \<noteq> [] \<Longrightarrow> server_takes (j_server j) (hd (j_c2s j)) \<Longrightarrow> can_go_on j"
  using server_takes_ok[of "j_server j" "hd (j_c2s j)" "tl (j_c2s j)" "j_s2c j"]
  by (auto intro: server_goes_on)

lemma can_move_goes_on:
  assumes "can_move (state_of j)"
  shows "can_go_on j"
proof -
  from assms consider "j_s2c j \<noteq> []" "client_takes (j_client j) (hd (j_s2c j))"
    | "j_c2s j \<noteq> []" "server_takes (j_server j) (hd (j_c2s j))"
    | "j_client j = C_loop TEST_RUNNING" | "j_server j = S_loop CREATE_STREAMS" "j_conn j"
    by (auto simp: can_move_def state_of_def)
  then show ?thesis
  proof cases
    case 1 then show ?thesis by (rule client_message)
  next
    case 2 then show ?thesis by (rule server_message)
  next
    case 3
    have "client_ok (C_loop TEST_RUNNING, j_s2c j, j_c2s j)
        (C_loop TEST_END, j_s2c j, j_c2s j @ [K_state TEST_END])" by (rule c_test_end)
    with 3 show ?thesis by (metis client_goes_on)
  next
    case 4
    have "server_ok (S_loop CREATE_STREAMS, j_c2s j, j_s2c j)
        (S_loop TEST_RUNNING, j_c2s j, j_s2c j @ [K_state TEST_START, K_state TEST_RUNNING])" by (rule s_streams)
    with 4 show ?thesis by (metis server_goes_on)
  qed
qed

lemma survivor_goes_on:
  "j_client j = C_end \<Longrightarrow> j_server j \<noteq> S_end \<Longrightarrow> can_go_on j"
  "j_server j = S_end \<Longrightarrow> j_client j \<noteq> C_end \<Longrightarrow> can_go_on j"
  using client_message[of j] server_message[of j]
  by (auto simp: can_go_on_def client_must_fail_def server_must_fail_def split: list.splits)

section \<open>Properties of the protocol\<close>

text \<open>C14: While both ends are up they are in step: the phases of the two, the messages on the way and
  the streams are one of thirteen combinations, whatever the order of the steps and whatever failed
  before. In particular a side reads a JSON object only when the other has sent or will send one,
  the test runs only after all streams are connected, and results are exchanged only after
  TEST_END.\<close>

theorem control_in_step:
  assumes "reachable j" "j_client j \<noteq> C_end" "j_server j \<noteq> S_end"
  shows "state_of j \<in> set in_step"
  using assms by (rule reachable_in_step)

lemma control_in_step_witness: "state_of joint_init \<in> set in_step"
  by (rule control_in_step[OF reachable.init]) (simp_all add: joint_init_def)

text \<open>C15: There is no deadlock: in every reachable state in which not both ends have ended, one of
  them has a message it can take, can start or finish the test, or has to see that the peer is gone.\<close>

theorem control_no_deadlock:
  assumes "reachable j" "\<not> ended j"
  shows "can_go_on j"
proof (cases "j_client j = C_end \<or> j_server j = S_end")
  case True
  with assms(2) show ?thesis using survivor_goes_on by (auto simp: ended_def)
next
  case False
  with assms(1) have "can_move (state_of j)" by (auto intro: in_step_can_move reachable_in_step)
  then show ?thesis by (rule can_move_goes_on)
qed

lemma control_no_deadlock_witness: "can_go_on joint_init"
  by (rule control_no_deadlock[OF reachable.init]) (simp add: joint_init_def ended_def)

text \<open>A test without failures, from the cookie to IPERF_DONE, takes 14 steps.\<close>

lemma run_client:
  "run n j0 \<lparr>j_client = p, j_server = s, j_c2s = c, j_s2c = i, j_conn = b\<rparr> \<Longrightarrow>
   client_ok (p, i, c) (p1, i1, c1) \<Longrightarrow> b1 = (b \<or> p1 = C_loop CREATE_STREAMS) \<Longrightarrow>
   run (Suc n) j0 \<lparr>j_client = p1, j_server = s, j_c2s = c1, j_s2c = i1, j_conn = b1\<rparr>"
  by (rule run.intros(2), assumption, rule client_acts) (simp add: by_client_def)

lemma run_server:
  "run n j0 \<lparr>j_client = p, j_server = s, j_c2s = c, j_s2c = i, j_conn = b\<rparr> \<Longrightarrow>
   server_ok (s, c, i) (s1, c1, i1) \<Longrightarrow> b \<or> s \<noteq> S_loop CREATE_STREAMS \<Longrightarrow>
   run (Suc n) j0 \<lparr>j_client = p, j_server = s1, j_c2s = c1, j_s2c = i1, j_conn = b\<rparr>"
  by (rule run.intros(2), assumption, rule server_acts) (auto simp: by_server_def)

lemma good_run:
  "\<exists>j. run 14 joint_init j \<and> ended j"
proof -
  let ?j = "\<lambda>p s c i b. \<lparr>j_client = p, j_server = s, j_c2s = c, j_s2c = i, j_conn = b\<rparr>"
  let ?R = "\<lambda>n p s c i b. run n joint_init (?j p s c i b)"
  have 0: "?R 0 (C_loop 0) S_cookie [K_cookie] [] False" unfolding joint_init_def by (rule run.intros)
  have 1: "?R (Suc 0) (C_loop 0) S_params [] [K_state PARAM_EXCHANGE] False"
    using run_server[OF 0 s_cookie] by simp
  have 2: "?R (Suc (Suc 0)) (C_loop PARAM_EXCHANGE) S_params [K_json] [] False"
    using run_client[OF 1 c_params refl] by simp
  have 3: "?R 3 (C_loop PARAM_EXCHANGE) (S_loop CREATE_STREAMS) [] [K_state CREATE_STREAMS] False"
    using run_server[OF 2 s_params] by (simp add: numeral_3_eq_3)
  have 4: "?R 4 (C_loop CREATE_STREAMS) (S_loop CREATE_STREAMS) [] [] True"
    using run_client[OF 3 c_streams refl] by simp
  have 5: "?R 5 (C_loop CREATE_STREAMS) (S_loop TEST_RUNNING) [] [K_state TEST_START, K_state TEST_RUNNING] True"
    using run_server[OF 4 s_streams] by simp
  have 6: "?R 6 (C_loop TEST_START) (S_loop TEST_RUNNING) [] [K_state TEST_RUNNING] True"
    using run_client[OF 5 c_start refl] by simp
  have 7: "?R 7 (C_loop TEST_RUNNING) (S_loop TEST_RUNNING) [] [] True"
    using run_client[OF 6 c_running refl] by simp
  have 8: "?R 8 (C_loop TEST_END) (S_loop TEST_RUNNING) [K_state TEST_END] [] True"
    using run_client[OF 7 c_test_end refl] by simp
  have 9: "?R 9 (C_loop TEST_END) S_results [] [K_state EXCHANGE_RESULTS] True"
    using run_server[OF 8 s_test_end] by simp
  have 10: "?R 10 C_results S_results [K_json] [] True"
    using run_client[OF 9 c_send_results refl] by simp
  have 11: "?R 11 C_results (S_loop DISPLAY_RESULTS) [] [K_json, K_state DISPLAY_RESULTS] True"
    using run_server[OF 10 s_results] by simp
  have 12: "?R 12 (C_loop EXCHANGE_RESULTS) (S_loop DISPLAY_RESULTS) [] [K_state DISPLAY_RESULTS] True"
    using run_client[OF 11 c_got_results refl] by simp
  have 13: "?R 13 C_end (S_loop DISPLAY_RESULTS) [K_state IPERF_DONE] [] True"
    using run_client[OF 12 c_display refl] by simp
  have 14: "?R 14 C_end S_end [] [] True"
    using run_server[OF 13 s_done] by simp
  then show ?thesis by (intro exI[of _ "?j C_end S_end [] [] True"]) (simp add: ended_def)
qed

text \<open>C16: Every run of the two ends, failures included, has at most 18 steps, and where it stands
  an end can act or has to see that the peer failed, unless both have ended.\<close>

theorem control_terminates:
  assumes "run n joint_init j"
  shows "n \<le> 18 \<and> (can_go_on j \<or> ended j)"
proof -
  have "weight joint_init = 18" by (simp add: joint_init_def weight_def)
  moreover have "j_client j = C_end \<or> j_server j = S_end \<or> can_go_on j"
    using in_step_can_move can_move_goes_on reachable_in_step[OF run_reachable[OF assms]] by blast
  ultimately show ?thesis using run_weight[OF assms] survivor_goes_on by (auto simp: ended_def)
qed

lemma control_terminates_witness: "\<exists>j. (14::nat) \<le> 18 \<and> (can_go_on j \<or> ended j) \<and> ended j"
proof -
  obtain j where j: "run 14 joint_init j" "ended j" using good_run by blast
  from control_terminates[OF j(1)] j(2) show ?thesis by blast
qed

end
