(* ===== verification/Refine.thy ===== *)
theory Refine
  imports Control
begin

text \<open>
  The code implements the abstract machine of theory Control: the main loop of the client, for
  every sequence of returns of \<open>select\<close> and all results of the system calls, is a run of the client's
  machine; accepting a client, handling its messages and starting the test are runs of the
  server's machine.
\<close>

section \<open>Views\<close>

abbreviation toks :: "ctl_msg list \<Rightarrow> tok list" where "toks \<equiv> map tok_of"

definition client_phase :: "int \<Rightarrow> cphase" where
  "client_phase st = (if st = IPERF_DONE then C_end else C_loop st)"

definition cview :: "ep \<Rightarrow> cphase conf" where
  "cview e = (client_phase (t_state (e_test e)), toks (e_in e), toks (e_out e))"

definition client_up :: "ep \<Rightarrow> bool" where
  "client_up e \<longleftrightarrow> t_role (e_test e) = CHR ''c'' \<and> 0 \<le> t_ctrl_sck (e_test e)"

text \<open>Messages arrive at any time.\<close>

inductive client_run :: "cphase conf \<Rightarrow> cphase conf \<Rightarrow> bool" where
  cr_refl: "client_run a a"
| cr_ok: "client_run a b \<Longrightarrow> client_ok b c \<Longrightarrow> client_run a c"
| cr_fail: "client_run a b \<Longrightarrow> client_fail b c \<Longrightarrow> client_run a c"
| cr_arrive: "client_run a (p, i, out) \<Longrightarrow> client_run a (p, i @ new, out)"

lemma client_run_trans: "client_run b c \<Longrightarrow> client_run a b \<Longrightarrow> client_run a c"
  by (induction rule: client_run.induct) (auto intro: client_run.intros)

lemma client_run_one: "client_ok a b \<Longrightarrow> client_run a b" "client_fail a b \<Longrightarrow> client_run a b"
  by (auto intro: client_run.intros)

text \<open>The rest of the program leaves the control connection alone while \<open>select\<close> waits, except that
messages arrive.\<close>

definition world_ok :: "event \<Rightarrow> bool" where
  "world_ok ev \<longleftrightarrow>
     (\<forall>e. (\<exists>new. e_in (ev_world ev e) = e_in e @ new) \<and> e_out (ev_world ev e) = e_out e \<and>
          tctl (e_test (ev_world ev e)) = tctl (e_test e))"

section \<open>Steps on the control connection\<close>

lemma ctl_same:
  assumes "ctl_of e1 = ctl_of e"
  shows "cview e1 = cview e" "client_up e1 = client_up e" "t_state (e_test e1) = t_state (e_test e)"
    "e_in e1 = e_in e" "e_out e1 = e_out e" "t_role (e_test e1) = t_role (e_test e)"
    "t_ctrl_sck (e_test e1) = t_ctrl_sck (e_test e)"
  using assms by (auto simp: ctl_of_def tctl_def cview_def client_up_def)

lemma ctl_write_out:
  assumes "ctl_write m e = (r, e1)"
  shows "e_in e1 = e_in e" "e_test e1 = e_test e" "r = 0 \<or> r = - 1"
    "e_out e1 = (if r = 0 then e_out e @ [m] else e_out e)"
  using assms by (auto simp: ctl_write_def Let_def split: prod.split_asm if_split_asm)

lemma fail_Some: "fail err e = Some (r, e1) \<longleftrightarrow> r = - 1 \<and> e1 = upd_test (\<lambda>t. t\<lparr>t_i_errno := err\<rparr>) e"
  by (auto simp: fail_def)

lemma upd_test_sel [simp]:
  "e_in (upd_test f e) = e_in e" "e_out (upd_test f e) = e_out e" "e_test (upd_test f e) = f (e_test e)"
  by (simp_all add: upd_test_def)

lemma tctl_sel: "tctl t1 = tctl t \<longleftrightarrow> t_state t1 = t_state t \<and> t_ctrl_sck t1 = t_ctrl_sck t \<and> t_role t1 = t_role t"
  by (simp add: tctl_def)

lemma send_state_out:
  assumes "iperf_set_send_state st e = Some (r, e1)" "0 \<le> t_ctrl_sck (e_test e)"
  shows "e_in e1 = e_in e" "t_state (e_test e1) = st" "t_ctrl_sck (e_test e1) = t_ctrl_sck (e_test e)"
    "t_role (e_test e1) = t_role (e_test e)" "r = 0 \<or> r = - 1"
    "e_out e1 = (if r = 0 then e_out e @ [M_state st] else e_out e)"
proof -
  obtain w e2 where w: "ctl_write (M_state st) (upd_test (iperf_set_test_state st) e) = (w, e2)" by fastforce
  have o: "e_in e2 = e_in e" "e_test e2 = (e_test e)\<lparr>t_state := st\<rparr>" "w = 0 \<or> w = - 1"
    "e_out e2 = (if w = 0 then e_out e @ [M_state st] else e_out e)"
    using ctl_write_out[OF w] by (simp_all add: iperf_set_test_state_def)
  have d: "(if w < 0 then fail IESENDMESSAGE e2 else ok e2) = Some (r, e1)"
    using assms by (simp add: iperf_set_send_state_def w)
  show "e_in e1 = e_in e" "t_state (e_test e1) = st" "t_ctrl_sck (e_test e1) = t_ctrl_sck (e_test e)"
    "t_role (e_test e1) = t_role (e_test e)" "r = 0 \<or> r = - 1"
    "e_out e1 = (if r = 0 then e_out e @ [M_state st] else e_out e)"
    using o d by (auto simp: fail_Some split: if_split_asm)
qed

lemma read_json_in:
  assumes "read_json e = (jo, e1)"
  shows "e_out e1 = e_out e" "e_test e1 = e_test e" "suffix (e_in e1) (e_in e)"
    "jo = Some j \<Longrightarrow> e_in e = M_json j # e_in e1"
  using assms by (auto simp: read_json_def suffix_def split: list.split_asm ctl_msg.split_asm)

lemma streams_loop_ctl: "streams_loop j i k (r, t) = (r1, t1) \<Longrightarrow> tctl t1 = tctl t"
proof (induction j i k "(r, t)" arbitrary: r t rule: streams_loop.induct)
  case 1 then show ?case by simp
next
  case (2 j i k)
  obtain r2 t2 where o: "one_stream (cJSON_GetArrayItem j i) (r, t) = (r2, t2)" by fastforce
  then have "tctl t2 = tctl t" by (auto simp: one_stream_def Let_def split: option.split_asm)
  with 2 o show ?case by simp
qed

lemma get_results_ctl: "get_results jo t = (r, t1) \<Longrightarrow> tctl t1 = tctl t"
proof -
  have out: "tctl (fst (take_server_output j t)) = tctl t" for j t
    by (simp add: take_server_output_def tctl_def split: option.split prod.split)
  have rem: "tctl (set_remote c h t) = tctl t" for c h t
    by (simp add: set_remote_def Let_def tctl_def)
  have body: "tctl t1 = tctl t" if "results_body j t = (r, t1, j')" for j t r t1 j'
  proof (cases "num_item j ''cpu_util_total'' = None \<or> num_item j ''cpu_util_user'' = None \<or>
      num_item j ''cpu_util_system'' = None \<or> num_item j ''sender_has_retransmits'' = None \<or>
      iperf_cJSON_GetObjectItemType j ''streams'' cJSON_Array = None")
    case True
    with that show ?thesis
      by (auto simp: results_body_def Let_def rem split: option.split_asm prod.split_asm)
  next
    case False
    then obtain a b c h js where n: "num_item j ''cpu_util_total'' = Some a" "num_item j ''cpu_util_user'' = Some b"
      "num_item j ''cpu_util_system'' = Some c" "num_item j ''sender_has_retransmits'' = Some h"
      "iperf_cJSON_GetObjectItemType j ''streams'' cJSON_Array = Some js" by auto
    obtain r2 t2 where l: "streams_loop js 0 (nat (cJSON_GetArraySize js))
        (0, set_remote (a, b, c) (to_int32 (saturate h)) t) = (r2, t2)" by fastforce
    obtain t3 j3 where o: "take_server_output j t2 = (t3, j3)" by fastforce
    show ?thesis
      using that streams_loop_ctl[OF l] out[of j t2] rem n
      by (simp add: results_body_def Let_def l o)
  qed
  show "get_results jo t = (r, t1) \<Longrightarrow> tctl t1 = tctl t"
  proof (cases jo)
    case None then show "get_results jo t = (r, t1) \<Longrightarrow> tctl t1 = tctl t"
      by (auto simp: get_results_def)
  next
    case (Some j)
    obtain r2 t2 j2 where b: "results_body j t = (r2, t2, j2)" by (metis prod_cases3)
    assume "get_results jo t = (r, t1)"
    with Some body[OF b] show ?thesis
      by (auto simp: get_results_def b tctl_def split: option.split_asm)
  qed
qed

lemma get_results_rc: "get_results None t = (r, t1) \<Longrightarrow> r = - 1"
  by (simp add: get_results_def)

lemma ep_get_results_in:
  assumes "ep_get_results e = Some (r, e1)"
  shows "e_out e1 = e_out e" "tctl (e_test e1) = tctl (e_test e)" "suffix (e_in e1) (e_in e)"
    "0 \<le> r \<Longrightarrow> \<exists>j. e_in e = M_json j # e_in e1"
proof -
  obtain jo e2 where j: "read_json e = (jo, e2)" by fastforce
  obtain r3 t3 where g: "get_results jo (e_test e2) = (r3, t3)" by fastforce
  have e1: "r = r3" "e1 = e2\<lparr>e_test := t3\<rparr>"
    using assms by (simp_all add: ep_get_results_def j on_test_def g)
  show "e_out e1 = e_out e" "tctl (e_test e1) = tctl (e_test e)" "suffix (e_in e1) (e_in e)"
    using read_json_in[OF j] get_results_ctl[OF g] e1 by simp_all
  show "\<exists>j. e_in e = M_json j # e_in e1" if "0 \<le> r"
    using that g e1 read_json_in(4)[OF j] by (cases jo) (auto dest: get_results_rc)
qed

lemma ep_send_json_out:
  assumes "ctl_write (M_json j) e = (w, e2)" "on_test f e2 = Some (r, e1)"
    and "\<And>t. tctl (snd (f t)) = tctl t" "\<And>t. fst (f t) = (if w < 0 then - 1 else 0)"
  shows "e_in e1 = e_in e" "tctl (e_test e1) = tctl (e_test e)"
    "e_out e1 = (if r = 0 then e_out e @ [M_json j] else e_out e)" "r = 0 \<or> r = - 1"
  using assms(2) ctl_write_out[OF assms(1)] assms(3)[of "e_test e2"] assms(4)[of "e_test e2"]
  by (auto simp: on_test_def Let_def split: prod.split_asm if_split_asm)

lemma ep_send_parameters_out:
  assumes "ep_send_parameters e = Some (r, e1)"
  shows "e_in e1 = e_in e" "tctl (e_test e1) = tctl (e_test e)" "r = 0 \<or> r = - 1"
    "toks (e_out e1) = (if r = 0 then toks (e_out e) @ [K_json] else toks (e_out e))"
proof -
  obtain w e2 where w: "ctl_write (M_json (params_json (e_test e))) e = (w, e2)" by fastforce
  have o: "on_test (send_parameters (\<lambda>_. w)) e2 = Some (r, e1)"
    using assms by (simp add: ep_send_parameters_def w)
  note s = ep_send_json_out[OF w o]
  show "e_in e1 = e_in e" "tctl (e_test e1) = tctl (e_test e)" "r = 0 \<or> r = - 1"
    "toks (e_out e1) = (if r = 0 then toks (e_out e) @ [K_json] else toks (e_out e))"
    using s by (simp_all add: send_parameters_def)
qed

lemma ep_send_results_out:
  assumes "ep_send_results e = Some (r, e1)"
  shows "e_in e1 = e_in e" "tctl (e_test e1) = tctl (e_test e)" "r = 0 \<or> r = - 1"
    "toks (e_out e1) = (if r = 0 then toks (e_out e) @ [K_json] else toks (e_out e))"
proof -
  obtain w e2 where w: "ctl_write (M_json (results_json (e_json_top e) (e_test e))) e = (w, e2)" by fastforce
  have o: "on_test (send_results (\<lambda>_. w) (e_json_top e)) e2 = Some (r, e1)"
    using assms by (simp add: ep_send_results_def w)
  note s = ep_send_json_out[OF w o]
  show "e_in e1 = e_in e" "tctl (e_test e1) = tctl (e_test e)" "r = 0 \<or> r = - 1"
    "toks (e_out e1) = (if r = 0 then toks (e_out e) @ [K_json] else toks (e_out e))"
    using s by (simp_all add: send_results_def)
qed


section \<open>The handler of the client\<close>

lemma read_state_in:
  assumes "read_state e = (rv, e1)"
  shows "rv \<le> 0 \<Longrightarrow> tctl (e_test e1) = tctl (e_test e) \<and> suffix (toks (e_in e1)) (toks (e_in e))"
    "\<not> rv \<le> 0 \<Longrightarrow> e_in e = M_state (t_state (e_test e1)) # e_in e1 \<and>
       t_ctrl_sck (e_test e1) = t_ctrl_sck (e_test e) \<and> t_role (e_test e1) = t_role (e_test e)"
    "e_out e1 = e_out e"
  using assms by (auto simp: read_state_def suffix_def split: list.split_asm ctl_msg.split_asm)

text \<open>How an action that started in configuration \<open>a\<close> ends: well, or at a point where the client fails.\<close>

definition client_does :: "cphase conf \<Rightarrow> int \<Rightarrow> ep \<Rightarrow> bool" where
  "client_does a r e1 \<longleftrightarrow> client_up e1 \<and>
     (if 0 \<le> r then client_run a (cview e1)
      else (\<exists>p i. p \<noteq> C_end \<and> client_run a (p, i, toks (e_out e1)) \<and> suffix (toks (e_in e1)) i))"

lemma client_does_ok:
  "client_up e1 \<Longrightarrow> 0 \<le> r \<Longrightarrow> client_run a (cview e1) \<Longrightarrow> client_does a r e1"
  by (simp add: client_does_def)

lemma client_does_fail:
  "client_up e1 \<Longrightarrow> r < 0 \<Longrightarrow> client_run a (p, i, toks (e_out e1)) \<Longrightarrow> p \<noteq> C_end \<Longrightarrow>
   suffix (toks (e_in e1)) i \<Longrightarrow> client_does a r e1"
  by (auto simp: client_does_def)

text \<open>An action that leaves the connection alone, after a message that is a step of its own.\<close>

lemma client_does_keeps:
  assumes "ctl_of e1 = ctl_of e" "client_up e" "client_ok (C_loop st, K_state x # toks (e_in e), toks (e_out e)) (cview e)"
  shows "client_does (C_loop st, K_state x # toks (e_in e), toks (e_out e)) r e1"
proof (cases "0 \<le> r")
  case True
  then show ?thesis using assms ctl_same[OF assms(1)]
    by (auto intro!: client_does_ok client_run_one(1))
next
  case False
  then show ?thesis using assms(2) ctl_same[OF assms(1)]
    by (intro client_does_fail[where p = "C_loop st" and i = "K_state x # toks (e_in e)"])
      (auto simp: suffix_def intro: cr_refl)
qed

lemma client_does_bad:
  assumes "r < 0" "tctl (e_test e1) = tctl (e_test e)" "toks (e_out e1) = toks (e_out e)"
    "suffix (toks (e_in e1)) (toks (e_in e))" "client_up e"
  shows "client_does (C_loop st, K_state x # toks (e_in e), toks (e_out e)) r e1"
  using assms
  by (intro client_does_fail[where p = "C_loop st" and i = "K_state x # toks (e_in e)"])
    (auto simp: client_up_def tctl_sel suffix_def intro: cr_refl)

lemma client_end_out:
  assumes "iperf_client_end e = Some (r, e1)" "client_up e"
  shows "e_in e1 = e_in e" "client_up e1"
    "e_out e1 = e_out e \<or> e_out e1 = e_out e @ [M_state IPERF_DONE]"
    "t_state (e_test e) > 0 \<Longrightarrow> t_state (e_test e1) = IPERF_DONE"
proof -
  let ?e = "fold (\<lambda>sp. ep_close (sp_socket sp)) (t_streams (e_test e)) e"
  have c: "ctl_of ?e = ctl_of e" by (rule fold_ctl) simp
  note s = ctl_same[OF c]
  obtain r2 e2 where m: "(if t_state (e_test ?e) > 0 then iperf_set_send_state IPERF_DONE ?e else ok ?e) = Some (r2, e2)"
    and e1: "ctl_of e1 = ctl_of e2"
    using assms(1) unfolding iperf_client_end_def Let_def and_then_def
    by (auto elim!: bindE split: if_split_asm)
  have u: "0 \<le> t_ctrl_sck (e_test ?e)" using assms(2) s by (simp add: client_up_def)
  have "e_in e2 = e_in e \<and> client_up e2 \<and>
    (e_out e2 = e_out e \<or> e_out e2 = e_out e @ [M_state IPERF_DONE]) \<and>
    (t_state (e_test e) > 0 \<longrightarrow> t_state (e_test e2) = IPERF_DONE)"
  proof (cases "t_state (e_test ?e) > 0")
    case True
    with m have "iperf_set_send_state IPERF_DONE ?e = Some (r2, e2)" by simp
    note o = send_state_out[OF this u]
    show ?thesis using o s assms(2) by (auto simp: client_up_def)
  next
    case False
    with m s assms(2) show ?thesis by auto
  qed
  then show "e_in e1 = e_in e" "client_up e1"
    "e_out e1 = e_out e \<or> e_out e1 = e_out e @ [M_state IPERF_DONE]"
    "t_state (e_test e) > 0 \<Longrightarrow> t_state (e_test e1) = IPERF_DONE"
    using ctl_same[OF e1] by simp_all
qed

lemma and_thenE:
  assumes "and_then f g e = Some (r, e1)"
  obtains r0 where "f e = Some (r0, e1)" "r0 < 0" "r = - 1"
  | r0 e0 where "f e = Some (r0, e0)" "\<not> r0 < 0" "g e0 = Some (r, e1)"
proof -
  obtain r0 e0 where f: "f e = Some (r0, e0)" and
    g: "(if r0 < 0 then Some (- 1, e0) else g e0) = Some (r, e1)"
    using assms unfolding and_then_def by (auto elim!: bindE)
  show thesis
  proof (cases "r0 < 0")
    case True
    with f g show thesis by (intro that(1)[of r0]) simp_all
  next
    case False
    with f g show thesis by (intro that(2)[of r0 e0]) simp_all
  qed
qed

lemma and_then_ok:
  assumes "and_then f ok e = Some (r, e1)"
  obtains r0 where "f e = Some (r0, e1)" "r = (if r0 < 0 then - 1 else 0)"
proof (rule and_thenE[OF assms])
  fix r0 assume "f e = Some (r0, e1)" "r0 < 0" "r = - 1"
  then show thesis by (intro that[of r0]) simp_all
next
  fix r0 e0 assume "f e = Some (r0, e0)" "\<not> r0 < 0" "ok e0 = Some (r, e1)"
  then show thesis by (intro that[of r0]) simp_all
qed

lemma client_results:
  assumes "and_then ep_exchange_results ok e = Some (r, e1)" "client_up e" "t_state (e_test e) = EXCHANGE_RESULTS"
  shows "client_does (C_loop st, K_state EXCHANGE_RESULTS # toks (e_in e), toks (e_out e)) r e1"
proof -
  let ?a = "(C_loop st, K_state EXCHANGE_RESULTS # toks (e_in e), toks (e_out e))"
  obtain r0 where x: "ep_exchange_results e = Some (r0, e1)" "r = (if r0 < 0 then - 1 else 0)"
    using assms(1) by (rule and_then_ok)
  then have "and_then ep_send_results (and_then ep_get_results ok) e = Some (r0, e1)"
    using assms(2) by (simp add: ep_exchange_results_def client_up_def)
  then show ?thesis
  proof (rule and_thenE)
    fix r2 assume sd: "ep_send_results e = Some (r2, e1)" "r2 < 0" "r0 = - 1"
    show ?thesis using ep_send_results_out[OF sd(1)] sd x assms(2)
      by (intro client_does_bad) auto
  next
    fix r2 e2 assume sd: "ep_send_results e = Some (r2, e2)" "\<not> r2 < 0"
      and rest: "and_then ep_get_results ok e2 = Some (r0, e1)"
    note o = ep_send_results_out[OF sd(1)]
    with sd have r2: "r2 = 0" by simp
    have run: "client_run ?a (C_results, toks (e_in e2), toks (e_out e2))"
      using c_send_results[of st "toks (e_in e)" "toks (e_out e)"] o r2 by (auto intro: client_run_one(1))
    obtain r3 where g: "ep_get_results e2 = Some (r3, e1)" "r0 = (if r3 < 0 then - 1 else 0)"
      using rest by (rule and_then_ok)
    note gi = ep_get_results_in[OF g(1)]
    have up: "client_up e1" using gi(2) o(2) assms(2) by (simp add: client_up_def tctl_sel)
    show ?thesis
    proof (cases "r3 < 0")
      case True
      then show ?thesis using run up g x gi
        by (intro client_does_fail[where p = C_results and i = "toks (e_in e2)"])
          (auto simp: map_mono_suffix)
    next
      case False
      then obtain j where j: "e_in e2 = M_json j # e_in e1" using gi(4) by auto
      have "client_ok (C_results, toks (e_in e2), toks (e_out e2)) (cview e1)"
        using c_got_results[of "toks (e_in e1)" "toks (e_out e1)"] j gi(1,2) o(2) assms(3)
        by (simp add: cview_def client_phase_def tctl_sel)
      with run have "client_run ?a (cview e1)" by (rule cr_ok)
      with False g x up show ?thesis by (intro client_does_ok) auto
    qed
  qed
qed

lemma client_display:
  assumes "iperf_client_end e = Some (r, e1)" "client_up e" "t_state (e_test e) = DISPLAY_RESULTS"
  shows "client_does (C_loop st, K_state DISPLAY_RESULTS # toks (e_in e), toks (e_out e)) 0 e1"
proof (rule client_does_ok)
  note o = client_end_out[OF assms(1,2)]
  show "client_up e1" by (rule o(2))
  have v: "cview e1 = (C_end, toks (e_in e), toks (e_out e1))"
    using o(1,4) assms(3) by (simp add: cview_def client_phase_def)
  have f: "client_fail (C_loop st, K_state DISPLAY_RESULTS # toks (e_in e), toks (e_out e))
      (C_end, toks (e_in e), toks (e_out e) @ [])"
    by (rule c_fail) (auto simp: suffix_def)
  from o(3) show "client_run (C_loop st, K_state DISPLAY_RESULTS # toks (e_in e), toks (e_out e)) (cview e1)"
  proof
    assume "e_out e1 = e_out e"
    with f v show ?thesis by (auto intro: client_run_one(2))
  next
    assume "e_out e1 = e_out e @ [M_state IPERF_DONE]"
    with v c_display[of st "toks (e_in e)" "toks (e_out e)"] show ?thesis by (auto intro: client_run_one(1))
  qed
qed simp


lemma client_server_error:
  assumes "client_server_error e = Some (r, e1)"
  shows "r = - 1" "tctl (e_test e1) = tctl (e_test e)" "e_out e1 = e_out e"
    "suffix (toks (e_in e1)) (toks (e_in e))"
proof -
  have word: "tctl (e_test b) = tctl (e_test a) \<and> e_out b = e_out a \<and> suffix (toks (e_in b)) (toks (e_in a))"
    if "read_word a = (w, b)" for a w b
    using that by (auto simp: read_word_def suffix_def split: list.split_asm ctl_msg.split_asm)
  obtain w1 e2 where 1: "read_word e = (w1, e2)" by fastforce
  have "r = - 1 \<and> tctl (e_test e1) = tctl (e_test e) \<and> e_out e1 = e_out e \<and>
    suffix (toks (e_in e1)) (toks (e_in e))"
  proof (cases w1)
    case None
    with assms 1 word[OF 1] show ?thesis by (auto simp: client_server_error_def fail_Some)
  next
    case (Some w)
    obtain w2 e3 where 2: "read_word (upd_test (\<lambda>t. t\<lparr>t_i_errno := w\<rparr>) e2) = (w2, e3)" by fastforce
    show ?thesis
      using assms 1 2 Some word[OF 1] word[OF 2] suffix_order.trans[of "toks (e_in e3)" "toks (e_in e2)" "toks (e_in e)"]
      by (cases w2) (auto simp: client_server_error_def fail_Some Let_def)
  qed
  then show "r = - 1" "tctl (e_test e1) = tctl (e_test e)" "e_out e1 = e_out e"
    "suffix (toks (e_in e1)) (toks (e_in e))" by blast+
qed

lemma client_on_state_does:
  assumes "client_on_state e = Some (r, e1)" "client_up e"
  shows "client_does (C_loop st, K_state (t_state (e_test e)) # toks (e_in e), toks (e_out e)) r e1"
proof -
  let ?x = "t_state (e_test e)" and ?i = "toks (e_in e)" and ?o = "toks (e_out e)"
  note bad = client_does_bad[where x = ?x and st = st and e = e, OF _ _ _ _ assms(2)]
  consider "?x = PARAM_EXCHANGE" | "?x = CREATE_STREAMS" | "?x = TEST_START" | "?x = TEST_RUNNING"
    | "?x = EXCHANGE_RESULTS" | "?x = DISPLAY_RESULTS" | "?x = IPERF_DONE" | "?x = SERVER_TERMINATE"
    | "?x = SERVER_ERROR"
    | "?x \<notin> {PARAM_EXCHANGE, CREATE_STREAMS, TEST_START, TEST_RUNNING, EXCHANGE_RESULTS, DISPLAY_RESULTS,
         IPERF_DONE, SERVER_TERMINATE, SERVER_ERROR}" by blast
  then show ?thesis
  proof cases
    case 1
    then have "and_then iperf_exchange_parameters ok e = Some (r, e1)"
      using assms(1) by (simp add: client_on_state_def)
    then obtain r0 where "iperf_exchange_parameters e = Some (r0, e1)" and r: "r = (if r0 < 0 then - 1 else 0)"
      by (rule and_then_ok)
    then have p: "ep_send_parameters e = Some (r0, e1)"
      using assms(2) by (simp add: iperf_exchange_parameters_def client_up_def)
    note o = ep_send_parameters_out[OF p]
    show ?thesis
    proof (cases "r0 < 0")
      case True
      with o r show ?thesis by (intro bad) auto
    next
      case False
      then have "client_ok (C_loop st, K_state ?x # ?i, ?o) (cview e1)"
        using 1 o c_params[of st ?i ?o] by (simp add: cview_def client_phase_def tctl_sel)
      moreover have "client_up e1" using o(2) assms(2) by (simp add: client_up_def tctl_sel)
      ultimately show ?thesis using False r by (intro client_does_ok client_run_one(1)) auto
    qed
  next
    case 2
    then have "client_create_streams e = Some (r, e1)" using assms(1) by (simp add: client_on_state_def)
    from client_does_keeps[OF keeps_ctlD[OF keeps_client_create_streams this] assms(2), of st ?x] show ?thesis
      using 2 by (simp add: cview_def client_phase_def c_streams)
  next
    case 3
    then have "client_test_start e = Some (r, e1)" using assms(1) by (simp add: client_on_state_def)
    from client_does_keeps[OF keeps_ctlD[OF keeps_client_test_start this] assms(2), of st ?x] show ?thesis
      using 3 by (simp add: cview_def client_phase_def c_start)
  next
    case 4
    then have "e1 = e" "r = 0" using assms(1) by (simp_all add: client_on_state_def)
    with client_does_keeps[of e1 e st ?x r] show ?thesis
      using 4 assms(2) by (simp add: cview_def client_phase_def c_running)
  next
    case 5
    then show ?thesis using client_results[of e r e1 st] assms by (simp add: client_on_state_def)
  next
    case 6
    then obtain r0 where "iperf_client_end e = Some (r0, e1)" "r = 0"
      using assms(1) by (auto simp: client_on_state_def elim!: bindE)
    then show ?thesis using client_display[of e r0 e1 st] 6 assms(2) by simp
  next
    case 7
    then have "e1 = e" "r = 0" using assms(1) by (simp_all add: client_on_state_def)
    with client_does_keeps[of e1 e st ?x r] show ?thesis
      using 7 assms(2) by (simp add: cview_def client_phase_def c_done)
  next
    case 8
    then have a: "and_then cpu_stop (\<lambda>e1. Some (- 1, e1)) (upd_test (\<lambda>t. t\<lparr>t_i_errno := IESERVERTERM\<rparr>) e) = Some (r, e1)"
      using assms(1) by (simp add: client_on_state_def)
    then have "r = - 1" "ctl_of e1 = ctl_of e"
      by (rule and_thenE; auto dest!: keeps_ctlD[OF keeps_cpu_stop])+
    then show ?thesis by (intro bad) (auto simp: ctl_of_def)
  next
    case 9
    then have "client_server_error e = Some (r, e1)" using assms(1) by (simp add: client_on_state_def)
    from client_server_error[OF this] show ?thesis by (intro bad) auto
  next
    case 10
    then have "r = - 1" "ctl_of e1 = ctl_of e"
      using assms(1) by (auto simp: client_on_state_def Let_def fail_Some split: if_split_asm)
    then show ?thesis by (intro bad) (auto simp: ctl_of_def)
  qed
qed

lemma handle_client_does:
  assumes "iperf_handle_message_client e = Some (r, e1)" "client_up e" "t_state (e_test e) \<noteq> IPERF_DONE"
  shows "client_does (cview e) r e1"
proof -
  obtain rv e2 where rd: "read_state e = (rv, e2)" by fastforce
  note ri = read_state_in[OF rd]
  have v: "cview e = (C_loop (t_state (e_test e)), toks (e_in e), toks (e_out e))"
    using assms(3) by (simp add: cview_def client_phase_def)
  show ?thesis
  proof (cases "rv \<le> 0")
    case True
    then have "r = - 1" "ctl_of e1 = ctl_of e2"
      using assms(1) rd by (auto simp: iperf_handle_message_client_def fail_Some split: if_split_asm)
    then show ?thesis using ri(1)[OF True] ri(3) assms(2) unfolding v
      by (intro client_does_fail[where p = "C_loop (t_state (e_test e))" and i = "toks (e_in e)"])
        (auto simp: ctl_of_def client_up_def tctl_sel intro: cr_refl)
  next
    case False
    then have c: "client_on_state e2 = Some (r, e1)"
      using assms(1) rd by (simp add: iperf_handle_message_client_def)
    have "client_up e2" using ri(2)[OF False] assms(2) by (simp add: client_up_def)
    from client_on_state_does[OF c this, of "t_state (e_test e)"] show ?thesis
      using ri(2)[OF False] ri(3) unfolding v by simp
  qed
qed


section \<open>The main loop of the client\<close>

lemma client_does_trans:
  "client_does a r e1 \<Longrightarrow> 0 \<le> r \<Longrightarrow> client_does (cview e1) r2 e2 \<Longrightarrow> client_does a r2 e2"
  by (auto simp: client_does_def intro: client_run_trans split: if_split_asm)

lemma client_does_rc: "client_does a r e1 \<Longrightarrow> r < 0 \<longleftrightarrow> r1 < 0 \<Longrightarrow> client_does a r1 e1"
  by (auto simp: client_does_def not_less)

lemma client_does_quiet:
  assumes "keeps_ctl f" "f e = Some (r, e1)" "client_up e" "t_state (e_test e) \<noteq> IPERF_DONE"
  shows "client_does (cview e) r e1" "client_up e1" "t_state (e_test e1) = t_state (e_test e)"
    "cview e1 = cview e"
proof -
  note s = ctl_same[OF keeps_ctlD[OF assms(1,2)]]
  show "client_up e1" "t_state (e_test e1) = t_state (e_test e)" "cview e1 = cview e" using s assms(3) by simp_all
  show "client_does (cview e) r e1"
  proof (cases "0 \<le> r")
    case True
    with s assms(3) show ?thesis by (intro client_does_ok) (auto intro: cr_refl)
  next
    case False
    with s assms(3,4) show ?thesis
      by (intro client_does_fail[where p = "client_phase (t_state (e_test e))" and i = "toks (e_in e)"])
        (auto simp: client_phase_def cview_def intro: cr_refl)
  qed
qed

text \<open>A quiet action of a running test, and then the rest.\<close>

lemma client_quiet_then:
  assumes "and_then f g e0 = Some (r, e1)" "keeps_ctl f" "client_up e0" "t_state (e_test e0) = TEST_RUNNING"
    and g: "\<And>e2. g e2 = Some (r, e1) \<Longrightarrow> client_up e2 \<Longrightarrow> t_state (e_test e2) = TEST_RUNNING \<Longrightarrow>
      client_does (cview e2) r e1"
  shows "client_does (cview e0) r e1"
  using assms(1)
proof (rule and_thenE)
  fix r0 assume "f e0 = Some (r0, e1)" "r0 < 0" "r = - 1"
  with client_does_quiet(1)[OF assms(2) _ assms(3)] assms(4) show ?thesis
    by (auto intro: client_does_rc)
next
  fix r0 e2 assume f: "f e0 = Some (r0, e2)" and g2: "g e2 = Some (r, e1)"
  have "t_state (e_test e0) \<noteq> IPERF_DONE" using assms(4) by simp
  note c = client_does_quiet[OF assms(2) f assms(3) this]
  from g[OF g2 c(2)] c(3,4) assms(4) show ?thesis by simp
qed

lemma client_finish_does:
  assumes "client_finish_test e = Some (r, e1)" "client_up e" "t_state (e_test e) = TEST_RUNNING"
  shows "client_does (cview e) r e1"
proof -
  let ?quiet = "\<lambda>e. stop_threads (stream_numbers (\<lambda>sp. c_true (sp_sender sp)) e) e"
  have q: "keeps_ctl ?quiet" "keeps_ctl (pass (\<lambda>t. t\<lparr>t_done := 1\<rparr>))"
    by (rule keeps_start_all(2)) (rule keeps_pass, simp)
  have nd: "t_state (e_test e) \<noteq> IPERF_DONE" using assms(3) by simp
  have send: "client_does (cview e0) r e1"
    if "iperf_set_send_state TEST_END e0 = Some (r, e1)" "client_up e0" "t_state (e_test e0) = TEST_RUNNING" for e0
  proof -
    note o = send_state_out[OF that(1)]
    have u: "0 \<le> t_ctrl_sck (e_test e0)" using that(2) by (simp add: client_up_def)
    have up: "client_up e1" using o(3,4)[OF u] that(2) by (simp add: client_up_def)
    show ?thesis
    proof (cases "r = 0")
      case True
      have "client_ok (cview e0) (cview e1)"
        using c_test_end[of "toks (e_in e0)" "toks (e_out e0)"] o(1,2,6)[OF u] True that(3)
        by (simp add: cview_def client_phase_def)
      with True up show ?thesis by (intro client_does_ok client_run_one(1)) auto
    next
      case False
      with o(1,5,6)[OF u] up that(3) show ?thesis
        by (intro client_does_fail[where p = "C_loop TEST_RUNNING" and i = "toks (e_in e0)"])
          (auto simp: cview_def client_phase_def intro: cr_refl)
    qed
  qed
  note step = client_quiet_then
  show ?thesis
    using assms unfolding client_finish_test_def
    by (elim step[OF _ q(1)] step[OF _ q(2)] step[OF _ keeps_cpu_stop] step[OF _ keeps_stats] send)
qed


lemma client_running_does:
  assumes "client_running startup e = Some (r, e1)" "client_up e" "t_state (e_test e) = TEST_RUNNING"
  shows "client_does (cview e) r e1"
proof -
  have q: "keeps_ctl (\<lambda>e. if startup then client_threads e else ok e)"
    using keeps_client_threads keeps_ok by (cases startup) simp_all
  have fin: "client_does (cview e0) r e1"
    if "(if test_finished (e_test e0) then client_finish_test e0 else ok e0) = Some (r, e1)"
      "client_up e0" "t_state (e_test e0) = TEST_RUNNING" for e0
    using that client_finish_does[of e0 r e1]
    by (auto split: if_split_asm intro: client_does_ok cr_refl)
  show ?thesis
    using assms unfolding client_running_def
    by (elim client_quiet_then[OF _ q] client_quiet_then[OF _ keeps_client_timers] fin)
qed

lemma client_iter_does:
  assumes "client_iter ev loc e0 = Some (r, loc1, e2)" "client_up e0" "t_state (e_test e0) \<noteq> IPERF_DONE" "world_ok ev"
  shows "client_does (cview e0) r e2"
proof -
  let ?e = "ev_world ev e0"
  obtain new where w: "e_in ?e = e_in e0 @ new" "e_out ?e = e_out e0" "tctl (e_test ?e) = tctl (e_test e0)"
    using assms(4) by (auto simp: world_ok_def)
  have up: "client_up ?e" using w(3) assms(2) by (simp add: client_up_def tctl_sel)
  have nd: "t_state (e_test ?e) \<noteq> IPERF_DONE" using w(3) assms(3) by (simp add: tctl_sel)
  have "cview ?e = (fst (cview e0), fst (snd (cview e0)) @ toks new, snd (snd (cview e0)))"
    using w by (simp add: cview_def tctl_sel)
  then have arr: "client_run (cview e0) (cview ?e)"
    using cr_arrive[of "cview e0" "client_phase (t_state (e_test e0))" "toks (e_in e0)" "toks (e_out e0)" "toks new"]
    by (simp add: cview_def cr_refl)
  have "client_does (cview ?e) r e2"
  proof -
    have lost: "client_does (cview ?e) r e2" if "fail err ?e = Some (r, e2)" for err
      using client_does_quiet(1)[OF keeps_fail that up nd] .
    obtain t where t: "client_timeout (client_rcv_timeout (e_test e0)) e0 = Some t"
      using assms(1) unfolding client_iter_def Let_def by (auto elim!: bindE)
    consider err where "fail err ?e = Some (r, e2)"
      | r1 e1 where "(if ev_result ev > 0 \<and> t_ctrl_sck (e_test ?e) \<in> ev_ready ev
            then iperf_handle_message_client ?e else ok ?e) = Some (r1, e1)" "r1 < 0" "r = - 1" "e2 = e1"
      | r1 e1 s where "(if ev_result ev > 0 \<and> t_ctrl_sck (e_test ?e) \<in> ev_ready ev
            then iperf_handle_message_client ?e else ok ?e) = Some (r1, e1)" "\<not> r1 < 0"
          "t_state (e_test e1) = TEST_RUNNING" "client_running s e1 = Some (r, e2)"
      | r1 where "(if ev_result ev > 0 \<and> t_ctrl_sck (e_test ?e) \<in> ev_ready ev
            then iperf_handle_message_client ?e else ok ?e) = Some (r1, e2)" "\<not> r1 < 0" "r = 0"
    proof -
      note d = assms(1)[unfolded client_iter_def Let_def t bind.simps(2)]
      let ?now = "if ev_result ev = 0 \<and> t_state (e_test ?e) = TEST_RUNNING \<and> client_rcv_timeout (e_test e0) > 0
        then time_now ?e else time_now e0"
      let ?loc = "if t_blocks_received (e_test ?e) > cl_last_receive_blocks loc
        then loc\<lparr>cl_last_receive_blocks := t_blocks_received (e_test ?e), cl_last_receive_time := ?now\<rparr>
        else loc"
      let ?h = "if ev_result ev > 0 \<and> t_ctrl_sck (e_test ?e) \<in> ev_ready ev
        then iperf_handle_message_client ?e else ok ?e"
      show thesis
      proof (cases "ev_result ev < 0 \<and> \<not> ev_eintr ev")
        case True
        from d[unfolded if_P[OF True]] have "fail IESELECT ?e = Some (r, e2)" by (simp add: fail_def)
        then show thesis by (rule that(1))
      next
        case a: False
        show thesis
        proof (cases "(ev_result ev = 0 \<and> t_state (e_test ?e) = TEST_RUNNING \<and> client_rcv_timeout (e_test e0) > 0) \<and>
            client_idle ev (client_rcv_timeout (e_test e0)) loc (e_test ?e) ?now")
          case True
          from d[unfolded if_not_P[OF a] if_P[OF True]] have "fail IENOMSG ?e = Some (r, e2)"
            by (simp add: fail_def)
          then show thesis by (rule that(1))
        next
          case b: False
          from d[unfolded if_not_P[OF a] if_not_P[OF b]] obtain x where x: "?h = Some x"
            and rest: "(case x of (r1, e1) \<Rightarrow> if r1 < 0 then Some (- 1, ?loc, e1)
              else if t_state (e_test e1) = TEST_RUNNING then
                client_running (cl_startup ?loc) e1 \<bind> (\<lambda>(r2, e2). Some (r2, ?loc\<lparr>cl_startup := False\<rparr>, e2))
              else Some (0, ?loc, e1)) = Some (r, loc1, e2)"
            by (rule bindE)
          obtain r1 e1 where x1: "x = (r1, e1)" by (cases x)
          note rest1 = rest[unfolded x1 prod.case]
          note h = x[unfolded x1]
          show thesis
          proof (cases "r1 < 0")
            case True
            with rest1 have "r = - 1" "e2 = e1" by simp_all
            with h True show thesis by (intro that(2)) simp_all
          next
            case n: False
            show thesis
            proof (cases "t_state (e_test e1) = TEST_RUNNING")
              case True
              from rest1[unfolded if_not_P[OF n] if_P[OF True]]
              obtain y where y: "client_running (cl_startup ?loc) e1 = Some y"
                "(case y of (r2, e2) \<Rightarrow> Some (r2, ?loc\<lparr>cl_startup := False\<rparr>, e2)) = Some (r, loc1, e2)"
                by (rule bindE)
              from y(2) have "y = (r, e2)" by (cases y) simp
              from y(1)[unfolded this] have "client_running (cl_startup ?loc) e1 = Some (r, e2)" .
              with h n True show thesis by (rule that(3))
            next
              case False
              with rest1 n have "r = 0" "e2 = e1" by simp_all
              with h n show thesis by (intro that(4)) simp_all
            qed
          qed
        qed
      qed
    qed
    then show ?thesis
    proof cases
      case 1 then show ?thesis by (rule lost)
    next
      case 2
      have "client_does (cview ?e) r1 e1"
        using 2(1) handle_client_does[OF _ up nd] client_does_ok[OF up] cr_refl
        by (auto split: if_split_asm)
      with 2 show ?thesis by (auto intro: client_does_rc)
    next
      case 3
      have c: "client_does (cview ?e) r1 e1"
        using 3(1) handle_client_does[OF _ up nd] client_does_ok[OF up] cr_refl
        by (auto split: if_split_asm)
      then have "client_up e1" by (simp add: client_does_def)
      from client_does_trans[OF c _ client_running_does[OF 3(4) this 3(3)]] 3(2) show ?thesis by simp
    next
      case 4
      have "client_does (cview ?e) r1 e2"
        using 4(1) handle_client_does[OF _ up nd] client_does_ok[OF up] cr_refl
        by (auto split: if_split_asm)
      with 4 show ?thesis by (auto intro: client_does_rc)
    qed
  qed
  with arr show ?thesis by (auto simp: client_does_def intro: client_run_trans split: if_split_asm)
qed


text \<open>What a run of the loop has done: it goes on, or the connection is closed. A run that fails after
\<open>IPERF_DONE\<close> (while it stops the receiving threads) sends \<open>IPERF_DONE\<close> a second time.\<close>

definition client_ran :: "cphase conf \<Rightarrow> client_loc run \<Rightarrow> bool" where
  "client_ran a res \<longleftrightarrow>
     (case res of
        Waiting loc e \<Rightarrow> client_run a (cview e)
      | Returned r e \<Rightarrow>
          (\<exists>i out. client_run a (C_end, i, out) \<and>
             (toks (e_out e) = out \<or> r = - 1 \<and> toks (e_out e) = out @ [K_state IPERF_DONE])))"

lemma client_cleanup_out:
  assumes "client_cleanup e = Some e1" "client_up e"
  shows "e_in e1 = e_in e" "e_out e1 = e_out e \<or> e_out e1 = e_out e @ [M_state IPERF_DONE]"
proof -
  let ?e = "fold kill_thread (stream_numbers (\<lambda>sp. \<not> c_true (sp_done sp)) e) e"
  have c: "ctl_of ?e = ctl_of e" by (rule fold_ctl) simp
  obtain r where r: "iperf_client_end ?e = Some (r, e1)"
    using assms(1) by (auto simp: client_cleanup_def Let_def)
  have "client_up ?e" using ctl_same[OF c] assms(2) by simp
  from client_end_out[OF r this] show "e_in e1 = e_in e"
    "e_out e1 = e_out e \<or> e_out e1 = e_out e @ [M_state IPERF_DONE]"
    using ctl_same[OF c] by simp_all
qed

lemma client_failed_ran:
  assumes "client_does a r e" "r < 0" "client_cleanup e = Some e1"
  shows "client_ran a (Returned (- 1) e1)"
proof -
  from assms(1,2) obtain p i where p: "client_up e" "p \<noteq> C_end" "client_run a (p, i, toks (e_out e))"
    "suffix (toks (e_in e)) i" by (auto simp: client_does_def)
  obtain m where m: "toks (e_out e1) = toks (e_out e) @ m" "m \<in> {[], [K_state IPERF_DONE]}"
    using client_cleanup_out(2)[OF assms(3) p(1)] by (auto simp: map_append)
  have "client_run a (C_end, toks (e_in e), toks (e_out e) @ m)"
    by (rule cr_fail[OF p(3)]) (rule c_fail[OF p(2,4) m(2)])
  then show ?thesis using m(1) by (auto simp: client_ran_def)
qed

lemma client_loop_ran:
  assumes "client_loop evs loc e = Some res" "client_up e" "\<forall>ev\<in>set evs. world_ok ev"
    and "client_run a (cview e)"
  shows "client_ran a res"
  using assms
proof (induction evs loc e rule: client_loop.induct)
  case (1 evs loc e)
  show ?case
  proof (cases "t_state (e_test e) = IPERF_DONE")
    case True
    with "1.prems"(1)[unfolded client_loop.simps[of evs loc e]] obtain r e1 where
      l: "client_leave e = Some (r, e1)" and
      rest: "(if r < 0 then map_option (Returned (- 1)) (client_cleanup e1) else Some (Returned 0 e1)) = Some res"
      by (auto elim!: bindE)
    note c = ctl_same[OF keeps_ctlD[OF keeps_client_leave l]]
    have a: "client_run a (C_end, toks (e_in e), toks (e_out e))"
      using "1.prems"(4) True by (simp add: cview_def client_phase_def)
    show ?thesis
    proof (cases "r < 0")
      case True
      with rest obtain e2 where e2: "client_cleanup e1 = Some e2" "res = Returned (- 1) e2" by auto
      have "client_up e1" using c "1.prems"(2) by simp
      from client_cleanup_out(2)[OF e2(1) this] c have
        "toks (e_out e2) = toks (e_out e) \<or> toks (e_out e2) = toks (e_out e) @ [K_state IPERF_DONE]" by auto
      with a e2(2) show ?thesis by (auto simp: client_ran_def)
    next
      case False
      with rest a c show ?thesis by (auto simp: client_ran_def)
    qed
  next
    case nd: False
    show ?thesis
    proof (cases evs)
      case Nil
      with nd "1.prems" show ?thesis by (subst (asm) client_loop.simps) (auto simp: client_ran_def)
    next
      case (Cons ev evs')
      with nd "1.prems"(1)[unfolded client_loop.simps[of evs loc e]] obtain r loc1 e1 where
        it: "client_iter ev loc e = Some (r, loc1, e1)" and
        rest: "(if r < 0 then map_option (Returned (- 1)) (client_cleanup e1) else client_loop evs' loc1 e1) = Some res"
        by (auto elim!: bindE)
      have "world_ok ev" using Cons "1.prems"(3) by simp
      note d0 = client_iter_does[OF it "1.prems"(2) nd this]
      have d: "client_does a r e1" using d0 "1.prems"(4)
        by (auto simp: client_does_def intro: client_run_trans split: if_split_asm)
      show ?thesis
      proof (cases "r < 0")
        case True
        with rest obtain e2 where "client_cleanup e1 = Some e2" "res = Returned (- 1) e2" by auto
        with client_failed_ran[OF d True] show ?thesis by simp
      next
        case False
        have "client_loop evs' loc1 e1 = Some res" using rest False by simp
        moreover have "client_up e1" "client_run a (cview e1)" using d False by (simp_all add: client_does_def)
        ultimately show ?thesis
          using "1.IH"[OF nd Cons, of "(r, loc1, e1)" r "(loc1, e1)" loc1 e1] False Cons "1.prems"(3) it
          by (simp del: client_loop.simps)
      qed
    qed
  qed
qed

text \<open>C9: The main loop of the client implements the client's machine: whatever the system calls
  return, whatever arrives and in whatever order \<open>select\<close> wakes up, what the loop has read and
  written is a run of the machine, and when the loop has returned, the machine has closed the
  connection.\<close>

theorem client_implements_protocol:
  assumes "t_role (e_test e) = CHR ''c''" "0 \<le> t_ctrl_sck (e_test e)"
    and "\<forall>ev\<in>set evs. world_ok ev" "client_loop evs loc e = Some res"
  shows "client_ran (cview e) res"
  by (rule client_loop_ran[OF assms(4) _ assms(3) cr_refl]) (simp add: client_up_def assms(1,2))

definition demo_ep :: "iperf_test \<Rightarrow> ep" where
  "demo_ep t =
     \<lparr>e_test = t, e_tmrs = tmr_init, e_net = sys0 [] [5], e_in = [], e_out = [],
      e_now = Some (Iperf_Time 1 0), e_mem = [], e_udp = [], e_calls = [], e_info = (\<lambda>_. None),
      e_random = (\<lambda>n. Some (replicate n 0)),
      e_cpu = (\<lparr>cs_now = zero_time, cs_clock = 0, cs_utime = Timeval 0 0, cs_stime = Timeval 0 0\<rparr>,
               \<lparr>cs_now = Iperf_Time 1 0, cs_clock = 9, cs_utime = Timeval 0 0, cs_stime = Timeval 0 0\<rparr>),
      e_algo = ''cubic'', e_conns = [], e_denied = [], e_json_top = None\<rparr>"

definition arrives :: "ctl_msg list \<Rightarrow> int \<Rightarrow> event" where
  "arrives ms s = \<lparr>ev_world = (\<lambda>e. e\<lparr>e_in := e_in e @ ms\<rparr>), ev_result = 1, ev_eintr = False,
     ev_ready = {s}, ev_left = (0, 0)\<rparr>"

lemma arrives_ok: "world_ok (arrives ms s)"
  by (simp add: world_ok_def arrives_def)

definition demo_loc :: client_loc where
  "demo_loc = \<lparr>cl_startup = True, cl_last_receive_time = zero_time, cl_last_receive_blocks = 0\<rparr>"

lemma client_implements_protocol_witness:
  "\<exists>e1. client_loop [arrives [M_state IPERF_DONE] 5] demo_loc (demo_ep (zero_test\<lparr>t_role := CHR ''c'', t_ctrl_sck := 5\<rparr>))
      = Some (Returned 0 e1) \<and>
    client_ran (C_loop 0, [], []) (Returned 0 e1)"
proof -
  let ?e = "demo_ep (zero_test\<lparr>t_role := CHR ''c'', t_ctrl_sck := 5\<rparr>)"
  have "\<exists>e1. client_loop [arrives [M_state IPERF_DONE] 5] demo_loc ?e = Some (Returned 0 e1)"
    by (simp add: client_iter_def client_timeout_def tmr_timeout_def demo_ep_def tmr_init_def arrives_def
        zero_test_def demo_loc_def client_rcv_timeout_def zero_settings_def zero_time_def time_us_def
        iperf_handle_message_client_def read_state_def client_on_state_def upd_test_def ok_def
        client_leave_def stream_numbers_def Let_def)
  then obtain e1 where l: "client_loop [arrives [M_state IPERF_DONE] 5] demo_loc ?e = Some (Returned 0 e1)" by blast
  have "client_ran (cview ?e) (Returned 0 e1)"
    by (rule client_implements_protocol[OF _ _ _ l]) (simp_all add: demo_ep_def arrives_ok)
  moreover have "cview ?e = (C_loop 0, [], [])"
    by (simp add: cview_def client_phase_def demo_ep_def zero_test_def)
  ultimately show ?thesis using l by auto
qed

end
