(* ===== verification/Refine_Server.thy ===== *)
theory Refine_Server
  imports Refine
begin

text \<open>
  The server implements its machine of theory Control: one round of its main loop in which
  descriptors are ready (a new client, a message of the client, the streams of a test) is a run of
  the machine.
\<close>

section \<open>What the steps of the server leave alone\<close>

lemma bufsizes_ctl: "iperf_tcp_listen t n = (r, t1, n1) \<Longrightarrow> tctl t1 = tctl t"
proof -
  assume l: "iperf_tcp_listen t n = (r, t1, n1)"
  obtain s t2 n2 where 1: "(if needs_relisten t then tcp_relisten t n else (t_listener t, t, n)) = (s, t2, n2)"
    by (metis prod_cases3)
  have t2: "tctl t2 = tctl t"
  proof (cases "needs_relisten t")
    case True
    let ?t = "t\<lparr>t_read_set := t_read_set t - {t_listener t}\<rparr>"
    obtain g n3 where a: "call_getaddrinfo (call_close (t_listener t) n) = (g, n3)" by fastforce
    obtain s3 n4 where b: "call_socket n3 = (s3, n4)" by fastforce
    obtain e n5 where c: "try_opts (tcp_options ?t @
      [(True, IEREUSEADDR),
       (sr_out g = AF_INET6 \<and> (s_domain (t_settings ?t) = AF_UNSPEC \<or> s_domain (t_settings ?t) = AF_INET), IEV6ONLY),
       (True, IESTREAMLISTEN)]) n4 = (e, n5)" by fastforce
    obtain l n6 where d: "syscall (freeaddrinfo n5) = (l, n6)" by fastforce
    have "tcp_relisten t n = (s, t2, n2)" using 1 True by simp
    then show ?thesis
      unfolding tcp_relisten_def Let_def a prod.case b c d
      by (cases e) (auto split: if_split_asm)
  next
    case False
    with 1 show ?thesis by simp
  qed
  obtain e n3 where 2: "check_bufsizes (s_socket_bufsize (t_settings t2)) n2 = (e, n3)" by fastforce
  show "tctl t1 = tctl t"
    using l t2 unfolding iperf_tcp_listen_def 1 Let_def prod.case 2
    by (cases e) (auto split: if_split_asm)
qed

lemma keeps_proto_listen: "keeps_ctl proto_listen"
  by (rule keeps_ctlI)
    (auto simp: proto_listen_def Let_def iperf_udp_listen_def split: if_split_asm prod.split_asm dest!: bufsizes_ctl)

lemma get_parameters_ctl: "get_parameters jo t = (r, t1) \<Longrightarrow> tctl t1 = tctl t"
proof -
  have chk: "tctl (check_sender_has_retransmits t) = tctl t" for t
    by (simp add: check_sender_has_retransmits_def tctl_def)
  have prot: "tctl (snd (set_protocol p t)) = tctl t" for p t
    using chk[of "t\<lparr>t_protocol := p\<rparr>"] by (simp add: set_protocol_def tctl_def)
  have rev: "tctl (iperf_set_test_reverse v t) = tctl t" "tctl (iperf_set_test_bidirectional v t) = tctl t" for v t
    by (simp_all add: iperf_set_test_reverse_def iperf_set_test_bidirectional_def tctl_def Let_def
        check_sender_has_retransmits_def)
  have "tctl (apply_params j t) = tctl t" for j t
  proof -
    have 1: "tctl (get_params_protocol j t) = tctl t" for t
      by (simp add: get_params_protocol_def Let_def prot)
    have 2: "tctl (get_params_head j t) = tctl t" for t
      by (simp add: get_params_head_def Let_def tctl_def)
    have 3: "tctl (get_params_direction j t) = tctl t" for t
      by (simp add: get_params_direction_def Let_def rev)
    have 4: "tctl (get_params_tail j t) = tctl t" for t
      by (simp add: get_params_tail_def Let_def tctl_def)
    have 5: "tctl (get_params_retrans t) = tctl t" for t
      by (simp add: get_params_retrans_def tctl_def)
    show ?thesis by (simp add: apply_params_def 1 2 3 4 5)
  qed
  then show "get_parameters jo t = (r, t1) \<Longrightarrow> tctl t1 = tctl t"
    by (auto simp: get_parameters_def split: option.split_asm)
qed

lemma ep_get_parameters_in:
  assumes "ep_get_parameters e = Some (r, e1)"
  shows "e_out e1 = e_out e" "tctl (e_test e1) = tctl (e_test e)" "suffix (e_in e1) (e_in e)"
    "0 \<le> r \<Longrightarrow> \<exists>j. e_in e = M_json j # e_in e1"
proof -
  obtain jo e2 where j: "read_json e = (jo, e2)" by fastforce
  obtain r3 t3 where g: "get_parameters jo (e_test e2) = (r3, t3)" by fastforce
  have e1: "r = r3" "e1 = e2\<lparr>e_test := t3\<rparr>"
    using assms by (simp_all add: ep_get_parameters_def j on_test_def g)
  show "e_out e1 = e_out e" "tctl (e_test e1) = tctl (e_test e)" "suffix (e_in e1) (e_in e)"
    using read_json_in[OF j] get_parameters_ctl[OF g] e1 by simp_all
  show "\<exists>j. e_in e = M_json j # e_in e1" if "0 \<le> r"
    using that g e1 read_json_in(4)[OF j] by (cases jo) (auto simp: get_parameters_def)
qed

text \<open>The clean-up closes the control socket and is silent.\<close>

lemma cleanup_out:
  assumes "cleanup_server e = Some e1"
  shows "e_out e1 = e_out e" "e_in e1 = e_in e" "t_state (e_test e1) = t_state (e_test e)"
proof -
  let ?s = "\<lambda>e. (e_out e, e_in e, t_state (e_test e))"
  have c: "ctl_of a = ctl_of b \<Longrightarrow> ?s a = ?s b" for a b by (auto simp: ctl_of_def tctl_def)
  have cs: "ctl_of (close_stream i e) = ctl_of e" for i e
    by (simp add: close_stream_def Let_def)
  let ?all = "stream_numbers (\<lambda>_. True) e"
  let ?e1 = "fold close_stream ?all (fold kill_thread ?all e)"
  have 1: "ctl_of ?e1 = ctl_of e"
    using fold_ctl[of close_stream ?all, OF cs] fold_ctl[of kill_thread ?all, OF kill_thread_ctl] by simp
  have cf: "?s (close_fd f g e) = ?s e" if "\<And>t. t_state (g t) = t_state t" for f g e
    using that by (simp add: close_fd_def ep_close_def upd_test_def)
  let ?e2 = "close_fd t_ctrl_sck (\<lambda>t. t\<lparr>t_ctrl_sck := - 1\<rparr>) ?e1"
  let ?e3 = "close_fd t_listener (\<lambda>t. t\<lparr>t_listener := - 1\<rparr>) ?e2"
  let ?e4 = "close_fd t_prot_listener (\<lambda>t. t\<lparr>t_prot_listener := - 1\<rparr>) ?e3"
  have 4: "?s ?e4 = ?s e" using c[OF 1] by (simp add: cf)
  have "cancel_timers ?e4 = Some e1" using assms by (simp add: cleanup_server_def Let_def)
  then have "?s e1 = ?s ?e4"
    by (auto simp: cancel_timers_def Let_def elim!: bindE)
  with 4 show "e_out e1 = e_out e" "e_in e1 = e_in e" "t_state (e_test e1) = t_state (e_test e)" by simp_all
qed

lemma clean_fail_out:
  "clean_fail e = Some (r, e1) \<Longrightarrow> r = - 1 \<and> e_out e1 = e_out e"
  "clean_error err e = Some (r, e1) \<Longrightarrow> r = - 1 \<and> e_out e1 = e_out e"
  by (auto simp: clean_fail_def clean_error_def fail_Some elim!: bindE dest: cleanup_out)

lemma or_cleanE:
  assumes "or_clean f g e = Some (r, e1)"
  obtains r0 e0 where "f e = Some (r0, e0)" "r0 < 0" "r = - 1" "e_out e1 = e_out e0"
  | r0 e0 where "f e = Some (r0, e0)" "\<not> r0 < 0" "g e0 = Some (r, e1)"
proof -
  obtain r0 e0 where f: "f e = Some (r0, e0)" and
    g: "(if r0 < 0 then clean_fail e0 else g e0) = Some (r, e1)"
    using assms unfolding or_clean_def by (auto elim!: bindE)
  show thesis
  proof (cases "r0 < 0")
    case True
    with f g show thesis by (intro that(1)[of r0 e0]) (auto dest: clean_fail_out)
  next
    case False
    with f g show thesis by (intro that(2)[of r0 e0]) simp_all
  qed
qed

section \<open>Runs of the server's machine\<close>

definition server_phase :: "int \<Rightarrow> sphase" where
  "server_phase st = (if st = IPERF_DONE then S_end else S_loop st)"

definition sview :: "ep \<Rightarrow> sphase conf" where
  "sview e = (server_phase (t_state (e_test e)), toks (e_in e), toks (e_out e))"

definition server_up :: "ep \<Rightarrow> bool" where
  "server_up e \<longleftrightarrow> t_role (e_test e) = CHR ''s'' \<and> 0 \<le> t_ctrl_sck (e_test e)"

inductive server_run :: "sphase conf \<Rightarrow> sphase conf \<Rightarrow> bool" where
  sr_refl: "server_run a a"
| sr_ok: "server_run a b \<Longrightarrow> server_ok b c \<Longrightarrow> server_run a c"
| sr_fail: "server_run a b \<Longrightarrow> server_fail b c \<Longrightarrow> server_run a c"

lemma server_run_trans: "server_run b c \<Longrightarrow> server_run a b \<Longrightarrow> server_run a c"
  by (induction rule: server_run.induct) (auto intro: server_run.intros)

lemma server_run_ok: "server_ok a b \<Longrightarrow> server_run a b"
  by (auto intro: server_run.intros)

text \<open>How an action ends: well, or the machine has failed with the same messages written.\<close>

definition server_does :: "sphase conf \<Rightarrow> int \<Rightarrow> ep \<Rightarrow> bool" where
  "server_does a r e1 \<longleftrightarrow>
     (if 0 \<le> r then server_run a (sview e1) else (\<exists>i. server_run a (S_end, i, toks (e_out e1))))"

lemma server_does_fail:
  "r < 0 \<Longrightarrow> server_run a (p, i, out) \<Longrightarrow> p \<noteq> S_end \<Longrightarrow> m \<in> partial_answers p \<Longrightarrow>
   toks (e_out e1) = out @ m \<Longrightarrow> server_does a r e1"
  unfolding server_does_def
  using sr_fail[of a "(p, i, out)" "(S_end, i, out @ m)"] s_fail[of p i i m out] by auto

lemma server_does_ok: "0 \<le> r \<Longrightarrow> server_run a (sview e1) \<Longrightarrow> server_does a r e1"
  by (simp add: server_does_def)

lemma no_answer [simp]: "[] \<in> partial_answers p"
  by (cases p) simp_all

lemma sctl_same:
  assumes "ctl_of e1 = ctl_of e"
  shows "sview e1 = sview e" "server_up e1 = server_up e"
  using ctl_same[OF assms] by (simp_all add: sview_def server_up_def)


section \<open>Accepting a client\<close>

lemma read_cookie_in:
  assumes "read_cookie e = (co, e1)"
  shows "e_out e1 = e_out e" "e_test e1 = e_test e" "co = Some c \<Longrightarrow> e_in e = M_cookie c # e_in e1"
  using assms by (auto simp: read_cookie_def split: list.split_asm ctl_msg.split_asm if_split_asm)

text \<open>The messages of a server that refuses: the state and the two numbers, as far as they were sent.\<close>

lemma send_error_out:
  assumes "send_error e = Some (r, e1)" "0 \<le> t_ctrl_sck (e_test e)"
  shows "r = - 1" "\<exists>m \<in> partial_answers S_params. toks (e_out e1) = toks (e_out e) @ m"
proof -
  have "r = - 1 \<and> (\<exists>m \<in> partial_answers S_params. toks (e_out e1) = toks (e_out e) @ m)"
    using assms(1) unfolding send_error_def
  proof (rule and_thenE)
    fix r0 assume "iperf_set_send_state SERVER_ERROR e = Some (r0, e1)" "r0 < 0" "r = - 1"
    with send_state_out[OF this(1) assms(2)] show ?thesis by auto
  next
    fix r0 e0 assume s: "iperf_set_send_state SERVER_ERROR e = Some (r0, e0)" "\<not> r0 < 0"
      and rest: "(let (r, e1) = ctl_write (M_word (t_i_errno (e_test e0))) e0 in
            if r < 0 then fail IECTRLWRITE e1
            else (let (r, e2) = ctl_write (M_word (n_errno (e_net e1))) e1 in
                  if r < 0 then fail IECTRLWRITE e2 else Some (- 1, e2))) = Some (r, e1)"
    have o: "toks (e_out e0) = toks (e_out e) @ [K_state SERVER_ERROR]"
      using send_state_out[OF s(1) assms(2)] s(2) by auto
    obtain w1 e2 where w1: "ctl_write (M_word (t_i_errno (e_test e0))) e0 = (w1, e2)" by fastforce
    obtain w2 e3 where w2: "ctl_write (M_word (n_errno (e_net e2))) e2 = (w2, e3)" by fastforce
    show ?thesis
      using rest o ctl_write_out[OF w1] ctl_write_out[OF w2]
      by (auto simp: w1 w2 Let_def fail_Some split: if_split_asm)
  qed
  then show "r = - 1" "\<exists>m \<in> partial_answers S_params. toks (e_out e1) = toks (e_out e) @ m" by blast+
qed

lemma accept_cookie_does:
  assumes "accept_cookie s e = Some (r, e1)" "server_up e"
  shows "if r < 0 then toks (e_out e1) = toks (e_out e)
    else server_ok (S_cookie, toks (e_in e), toks (e_out e)) (S_params, toks (e_in e1), toks (e_out e1)) \<and> server_up e1"
proof -
  obtain co e2 where rd: "read_cookie e = (co, e2)" by fastforce
  note ri = read_cookie_in[OF rd]
  show ?thesis
  proof (cases co)
    case None
    with assms rd ri show ?thesis by (simp add: accept_cookie_def fail_Some)
  next
    case (Some c)
    let ?e = "upd_test (\<lambda>t. t\<lparr>t_cookie := c, t_read_set := insert s (t_read_set t), t_max_fd := max s (t_max_fd t)\<rparr>) e2"
    have st: "iperf_set_send_state PARAM_EXCHANGE ?e = Some (r, e1)"
      using assms rd Some by (simp add: accept_cookie_def)
    have up: "0 \<le> t_ctrl_sck (e_test ?e)" using assms(2) ri(2) by (simp add: server_up_def)
    note o = send_state_out[OF st up]
    show ?thesis
      using o ri(1,2) ri(3)[OF Some] assms(2) s_cookie[of "toks (e_in e2)" "toks (e_out e)"]
      by (auto simp: server_up_def)
  qed
qed

lemma exchange_parameters_does:
  assumes "iperf_exchange_parameters e = Some (r, e1)" "server_up e"
  shows "if r < 0 then \<exists>m \<in> partial_answers S_params. toks (e_out e1) = toks (e_out e) @ m
    else server_ok (S_params, toks (e_in e), toks (e_out e)) (sview e1) \<and> server_up e1 \<and>
         t_state (e_test e1) = CREATE_STREAMS"
proof -
  have nc: "t_role (e_test e) \<noteq> CHR ''c''" using assms(2) by (simp add: server_up_def)
  from assms(1) nc have "and_then ep_get_parameters
      (\<lambda>e1. do { (s, e2) \<leftarrow> proto_listen e1;
                   if s < 0 then send_error e2
                   else iperf_set_send_state CREATE_STREAMS
                     (upd_test (\<lambda>t. t\<lparr>t_read_set := insert s (t_read_set t),
                                      t_max_fd := max s (t_max_fd t), t_prot_listener := s\<rparr>) e2) }) e = Some (r, e1)"
    by (simp add: iperf_exchange_parameters_def)
  then show ?thesis
  proof (rule and_thenE)
    fix r0 assume g: "ep_get_parameters e = Some (r0, e1)" "r0 < 0" "r = - 1"
    show ?thesis using ep_get_parameters_in(1)[OF g(1)] g(3) by (simp add: bexI[of _ "[]"])
  next
    fix r0 e0 assume g: "ep_get_parameters e = Some (r0, e0)" "\<not> r0 < 0"
      and rest: "do { (s, e2) \<leftarrow> proto_listen e0;
                   if s < 0 then send_error e2
                   else iperf_set_send_state CREATE_STREAMS
                     (upd_test (\<lambda>t. t\<lparr>t_read_set := insert s (t_read_set t),
                                      t_max_fd := max s (t_max_fd t), t_prot_listener := s\<rparr>) e2) } = Some (r, e1)"
    note gi = ep_get_parameters_in[OF g(1)]
    obtain j where j: "e_in e = M_json j # e_in e0" using gi(4) g(2) by auto
    obtain s e2 where l: "proto_listen e0 = Some (s, e2)"
      and rest2: "(if s < 0 then send_error e2 else iperf_set_send_state CREATE_STREAMS
        (upd_test (\<lambda>t. t\<lparr>t_read_set := insert s (t_read_set t), t_max_fd := max s (t_max_fd t), t_prot_listener := s\<rparr>) e2))
        = Some (r, e1)"
      using rest by (auto elim!: bindE)
    note c = ctl_same[OF keeps_ctlD[OF keeps_proto_listen l]]
    have up: "0 \<le> t_ctrl_sck (e_test e2)" "t_role (e_test e2) = CHR ''s''"
      using c gi(2) assms(2) by (simp_all add: server_up_def tctl_sel)
    show ?thesis
    proof (cases "s < 0")
      case True
      with rest2 have "send_error e2 = Some (r, e1)" by simp
      from send_error_out[OF this up(1)] show ?thesis using c gi(1) by simp
    next
      case False
      let ?e = "upd_test (\<lambda>t. t\<lparr>t_read_set := insert s (t_read_set t), t_max_fd := max s (t_max_fd t), t_prot_listener := s\<rparr>) e2"
      have st: "iperf_set_send_state CREATE_STREAMS ?e = Some (r, e1)" using False rest2 by simp
      have "0 \<le> t_ctrl_sck (e_test ?e)" using up by simp
      note o = send_state_out[OF st this]
      show ?thesis
        using o c gi(1) j up s_params[of "toks (e_in e0)" "toks (e_out e)"]
        by (auto simp: sview_def server_phase_def server_up_def)
    qed
  qed
qed

lemma accept_params_does:
  assumes "accept_params e = Some (r, e1)" "server_up e" "server_run a (S_params, toks (e_in e), toks (e_out e))"
  shows "server_does a r e1" "0 \<le> r \<Longrightarrow> server_up e1 \<and> t_state (e_test e1) = CREATE_STREAMS"
proof -
  have "server_does a r e1 \<and> (0 \<le> r \<longrightarrow> server_up e1 \<and> t_state (e_test e1) = CREATE_STREAMS)"
    using assms(1) unfolding accept_params_def
  proof (rule and_thenE)
    fix r0 assume x: "iperf_exchange_parameters e = Some (r0, e1)" "r0 < 0" "r = - 1"
    from exchange_parameters_does[OF x(1) assms(2), unfolded if_P[OF x(2)]] obtain m where
      m: "m \<in> partial_answers S_params" "toks (e_out e1) = toks (e_out e) @ m" by blast
    have "server_does a r e1" by (rule server_does_fail[OF _ assms(3) _ m]) (simp_all add: x(3))
    with x(3) show ?thesis by simp
  next
    fix r0 e0 assume x: "iperf_exchange_parameters e = Some (r0, e0)" "\<not> r0 < 0"
      and af: "(if t_server_affinity (e_test e0) \<noteq> - 1 then call IEAFFINITY e0 else ok e0) = Some (r, e1)"
    from exchange_parameters_does[OF x(1) assms(2), unfolded if_not_P[OF x(2)]] have o:
      "server_ok (S_params, toks (e_in e), toks (e_out e)) (sview e0)" "server_up e0"
      "t_state (e_test e0) = CREATE_STREAMS" by blast+
    have c: "ctl_of e1 = ctl_of e0"
    proof (cases "t_server_affinity (e_test e0) = - 1")
      case True
      with af show ?thesis by simp
    next
      case False
      with af have "call IEAFFINITY e0 = Some (r, e1)" by simp
      then show ?thesis by (rule keeps_ctlD[OF keeps_call])
    qed
    have run: "server_run a (sview e0)" by (rule sr_ok[OF assms(3) o(1)])
    show ?thesis
    proof (cases "0 \<le> r")
      case True
      with run o sctl_same[OF c] ctl_same[OF c] show ?thesis by (auto intro: server_does_ok)
    next
      case False
      with run o(3) ctl_same[OF c] show ?thesis
        by (auto simp: sview_def server_phase_def intro!: server_does_fail[where p = "S_loop CREATE_STREAMS" and m = "[]"])
    qed
  qed
  then show "server_does a r e1" "0 \<le> r \<Longrightarrow> server_up e1 \<and> t_state (e_test e1) = CREATE_STREAMS" by blast+
qed

lemma iperf_accept_does:
  assumes "iperf_accept e = Some (r, e1)" "t_role (e_test e) = CHR ''s''" "t_ctrl_sck (e_test e) = - 1"
  shows "server_does (S_cookie, toks (e_in e), toks (e_out e)) r e1"
    "0 \<le> r \<Longrightarrow> server_up e1 \<and> t_state (e_test e1) = CREATE_STREAMS"
proof -
  let ?a = "(S_cookie, toks (e_in e), toks (e_out e))"
  let ?goal = "server_does ?a r e1 \<and> (0 \<le> r \<longrightarrow> server_up e1 \<and> t_state (e_test e1) = CREATE_STREAMS)"
  have lost: "server_does ?a r0 e0" if "r0 < 0" "toks (e_out e0) = toks (e_out e)" for r0 e0
    using that by (intro server_does_fail[where p = S_cookie and m = "[]"]) (auto intro: sr_refl)
  obtain s n where sk: "call_socket (e_net e) = (s, n)" by fastforce
  have ?goal
  proof (cases "s < 0")
    case True
    with assms(1) sk show ?thesis by (auto simp: iperf_accept_def fail_Some intro: lost)
  next
    case s: False
    let ?e = "upd_test (\<lambda>t. t\<lparr>t_ctrl_sck := s\<rparr>) (e\<lparr>e_net := n\<rparr>)"
    obtain r2 e2 where b: "and_then (call IESETNODELAY) (and_then (accept_cookie s) accept_params) ?e = Some (r2, e2)"
      and r: "if r2 < 0 then r = - 1 \<and> e1 = ep_close s e2 else r = 0 \<and> e1 = e2"
      using assms(1,3) sk s by (auto simp: iperf_accept_def elim!: bindE split: if_split_asm)
    have main: "server_does ?a r2 e2 \<and> (0 \<le> r2 \<longrightarrow> server_up e2 \<and> t_state (e_test e2) = CREATE_STREAMS)"
      using b
    proof (rule and_thenE)
      fix r3 assume c: "call IESETNODELAY ?e = Some (r3, e2)" "r3 < 0" "r2 = - 1"
      then show ?thesis using ctl_same[OF keeps_ctlD[OF keeps_call c(1)]] by (auto intro: lost)
    next
      fix r3 e3 assume c: "call IESETNODELAY ?e = Some (r3, e3)"
        and rest: "and_then (accept_cookie s) accept_params e3 = Some (r2, e2)"
      note k = ctl_same[OF keeps_ctlD[OF keeps_call c]]
      have up: "server_up e3" using k s assms(2) by (simp add: server_up_def)
      from rest show ?thesis
      proof (rule and_thenE)
        fix r4 assume x: "accept_cookie s e3 = Some (r4, e2)" "r4 < 0" "r2 = - 1"
        from accept_cookie_does[OF x(1) up] x k show ?thesis by (auto intro: lost)
      next
        fix r4 e4 assume x: "accept_cookie s e3 = Some (r4, e4)" "\<not> r4 < 0" "accept_params e4 = Some (r2, e2)"
        from accept_cookie_does[OF x(1) up] x(2) k have o: "server_ok ?a (S_params, toks (e_in e4), toks (e_out e4))"
          "server_up e4" by simp_all
        from accept_params_does[OF x(3) o(2) server_run_ok[OF o(1)]] show ?thesis by blast
      qed
    qed
    show ?thesis
    proof (cases "r2 < 0")
      case True
      with main r show ?thesis by (auto simp: server_does_def ep_close_def)
    next
      case False
      with main r show ?thesis by (auto simp: server_does_def)
    qed
  qed
  then show "server_does ?a r e1" "0 \<le> r \<Longrightarrow> server_up e1 \<and> t_state (e_test e1) = CREATE_STREAMS" by blast+
qed


section \<open>Messages of the client\<close>

lemma close_streams_ctl: "ctl_of (close_streams e) = ctl_of e"
  unfolding close_streams_def by (rule fold_ctl) simp

lemma server_does_silent:
  assumes "server_run a (sview e)" "r < 0" "toks (e_out e1) = toks (e_out e)" "t_state (e_test e) \<noteq> IPERF_DONE"
  shows "server_does a r e1"
  using assms by (intro server_does_fail[where p = "server_phase (t_state (e_test e))" and m = "[]"])
    (auto simp: sview_def server_phase_def)

lemma server_test_end_does:
  assumes "server_test_end e = Some (r, e1)" "server_up e"
  shows "if r < 0 then e_out e1 = e_out e
    else e_in e1 = e_in e \<and> toks (e_out e1) = toks (e_out e) @ [K_state EXCHANGE_RESULTS] \<and> server_up e1"
proof -
  have pass: "keeps_ctl (pass (\<lambda>t. t\<lparr>t_done := 1\<rparr>))" by (rule keeps_pass) simp
  have quiet: "if r < 0 then e_out e1 = e_out e0
      else e_in e1 = e_in e0 \<and> toks (e_out e1) = toks (e_out e0) @ [K_state EXCHANGE_RESULTS] \<and> server_up e1"
    if "and_then f g e0 = Some (r, e1)" "keeps_ctl f" "server_up e0"
      "\<And>e2. g e2 = Some (r, e1) \<Longrightarrow> server_up e2 \<Longrightarrow> if r < 0 then e_out e1 = e_out e2
         else e_in e1 = e_in e2 \<and> toks (e_out e1) = toks (e_out e2) @ [K_state EXCHANGE_RESULTS] \<and> server_up e1"
    for f g e0
    using that(1)
  proof (rule and_thenE)
    fix r0 assume f: "f e0 = Some (r0, e1)" "r0 < 0" "r = - 1"
    show ?thesis using ctl_same(5)[OF keeps_ctlD[OF that(2) f(1)]] f(3) by simp
  next
    fix r0 e2 assume f: "f e0 = Some (r0, e2)" and g: "g e2 = Some (r, e1)"
    note c = keeps_ctlD[OF that(2) f]
    have "server_up e2" using that(3) sctl_same[OF c] by simp
    from that(4)[OF g this] ctl_same[OF c] show ?thesis by simp
  qed
  have send: "if r < 0 then e_out e1 = e_out e2
      else e_in e1 = e_in e2 \<and> toks (e_out e1) = toks (e_out e2) @ [K_state EXCHANGE_RESULTS] \<and> server_up e1"
    if "iperf_set_send_state EXCHANGE_RESULTS (close_streams e2) = Some (r, e1)" "server_up e2" for e2
  proof -
    note c = ctl_same[OF close_streams_ctl[of e2]]
    have "0 \<le> t_ctrl_sck (e_test (close_streams e2))" using that(2) c by (simp add: server_up_def)
    from send_state_out[OF that(1) this] show ?thesis
      using c that(2) by (auto simp: server_up_def)
  qed
  show ?thesis
    using assms unfolding server_test_end_def
    by (elim quiet[OF _ pass] quiet[OF _ keeps_cpu_stop] quiet[OF _ keeps_stats] send)
qed

lemma server_results_does:
  assumes "server_results e = Some (r, e1)" "server_up e" "server_run a (S_results, toks (e_in e), toks (e_out e))"
  shows "server_does a r e1" "0 \<le> r \<Longrightarrow> t_state (e_test e1) = DISPLAY_RESULTS \<and> server_up e1"
proof -
  let ?goal = "server_does a r e1 \<and> (0 \<le> r \<longrightarrow> t_state (e_test e1) = DISPLAY_RESULTS \<and> server_up e1)"
  have lost: ?goal if "r < 0" "toks (e_out e1) = toks (e_out e) @ m" "m \<in> partial_answers S_results" for m
    using server_does_fail[OF that(1) assms(3) _ that(3,2)] that(1) by simp
  have ?goal using assms(1) unfolding server_results_def
  proof (rule and_thenE)
    fix r0 assume x: "ep_exchange_results e = Some (r0, e1)" "r0 < 0" "r = - 1"
    then have "and_then ep_get_results (and_then ep_send_results ok) e = Some (r0, e1)"
      using assms(2) by (simp add: ep_exchange_results_def server_up_def)
    then show ?thesis
    proof (rule and_thenE)
      fix r2 assume g: "ep_get_results e = Some (r2, e1)" "r2 < 0" "r0 = - 1"
      show ?thesis using ep_get_results_in(1)[OF g(1)] x(3) by (intro lost[of "[]"]) simp_all
    next
      fix r2 e2 assume g: "ep_get_results e = Some (r2, e2)" "and_then ep_send_results ok e2 = Some (r0, e1)"
      from g(2) obtain r3 where sd: "ep_send_results e2 = Some (r3, e1)" "r0 = (if r3 < 0 then - 1 else 0)"
        by (rule and_then_ok)
      show ?thesis
        using ep_get_results_in(1)[OF g(1)] ep_send_results_out(3,4)[OF sd(1)] sd(2) x(2,3)
        by (intro lost[of "[]"]) (auto split: if_split_asm)
    qed
  next
    fix r0 e0 assume x: "ep_exchange_results e = Some (r0, e0)" "\<not> r0 < 0"
      and st: "iperf_set_send_state DISPLAY_RESULTS e0 = Some (r, e1)"
    then have "and_then ep_get_results (and_then ep_send_results ok) e = Some (r0, e0)"
      using assms(2) by (simp add: ep_exchange_results_def server_up_def)
    then obtain j e2 where g: "e_in e = M_json j # e_in e2" "e_out e2 = e_out e" "tctl (e_test e2) = tctl (e_test e)"
      and sd: "and_then ep_send_results ok e2 = Some (r0, e0)"
    proof (rule and_thenE)
      fix r2 e2 assume g: "ep_get_results e = Some (r2, e2)" "\<not> r2 < 0" "and_then ep_send_results ok e2 = Some (r0, e0)"
      from g(2) ep_get_results_in(4)[OF g(1)] obtain j where "e_in e = M_json j # e_in e2" by auto
      with ep_get_results_in(1,2)[OF g(1)] g(3) that show thesis by blast
    qed (use x(2) in simp)
    from sd obtain r3 where "ep_send_results e2 = Some (r3, e0)" "r0 = (if r3 < 0 then - 1 else 0)"
      by (rule and_then_ok)
    with x(2) have s3: "ep_send_results e2 = Some (r3, e0)" "r3 = 0"
      using ep_send_results_out(3)[of e2 r3 e0] by (auto split: if_split_asm)
    note o3 = ep_send_results_out[OF s3(1)]
    have up: "server_up e0" using assms(2) g(3) o3(2) by (simp add: server_up_def tctl_sel)
    then have u: "0 \<le> t_ctrl_sck (e_test e0)" by (simp add: server_up_def)
    note o = send_state_out[OF st u]
    show ?thesis
    proof (cases "r = 0")
      case True
      have "server_ok (S_results, toks (e_in e), toks (e_out e)) (sview e1)"
        using s_results[of "toks (e_in e2)" "toks (e_out e)"] g(1,2) o3(1,4) s3(2) o(1,2,6) True
        by (simp add: sview_def server_phase_def)
      then have "server_run a (sview e1)" by (rule sr_ok[OF assms(3)])
      with True o up show ?thesis by (auto simp: server_up_def intro: server_does_ok)
    next
      case False
      with o(5,6) o3(4) s3(2) g(2) show ?thesis by (intro lost[of "[K_json]"]) auto
    qed
  qed
  then show "server_does a r e1" "0 \<le> r \<Longrightarrow> t_state (e_test e1) = DISPLAY_RESULTS \<and> server_up e1" by blast+
qed

lemma server_on_state_does:
  assumes "server_on_state e = Some (r, e1)" "server_up e"
  shows "server_does (S_loop st, K_state (t_state (e_test e)) # toks (e_in e), toks (e_out e)) r e1 \<and>
    (0 \<le> r \<longrightarrow> server_up e1 \<and> t_state (e_test e1) \<noteq> CREATE_STREAMS)"
    (is "server_does ?a r e1 \<and> ?up")
proof -
  let ?x = "t_state (e_test e)" and ?i = "toks (e_in e)" and ?o = "toks (e_out e)"
  have lost: ?thesis if "r < 0" "e_out e1 = e_out e"
    using that by (auto intro!: server_does_fail[where p = "S_loop st" and m = "[]"] sr_refl)
  have go: ?thesis if "0 \<le> r" "server_ok ?a (sview e1)" "server_up e1" "t_state (e_test e1) \<noteq> CREATE_STREAMS"
    using that by (auto intro: server_does_ok server_run_ok)
  consider "?x = TEST_START" | "?x = TEST_END" | "?x = IPERF_DONE" | "?x = CLIENT_TERMINATE"
    | "?x \<notin> {TEST_START, TEST_END, IPERF_DONE, CLIENT_TERMINATE}" by blast
  then show ?thesis
  proof cases
    case 1
    then have "e1 = e" "r = 0" using assms(1) by (simp_all add: server_on_state_def)
    with 1 assms(2) show ?thesis
      by (intro go) (auto simp: sview_def server_phase_def s_start)
  next
    case 2
    then have "and_then server_test_end server_results e = Some (r, e1)"
      using assms(1) by (simp add: server_on_state_def)
    then show ?thesis
    proof (rule and_thenE)
      fix r0 assume x: "server_test_end e = Some (r0, e1)" "r0 < 0" "r = - 1"
      from server_test_end_does[OF x(1) assms(2)] x(2,3) show ?thesis by (intro lost) auto
    next
      fix r0 e0 assume x: "server_test_end e = Some (r0, e0)" "\<not> r0 < 0" "server_results e0 = Some (r, e1)"
      from server_test_end_does[OF x(1) assms(2), unfolded if_not_P[OF x(2)]] have o:
        "server_ok ?a (S_results, toks (e_in e0), toks (e_out e0))" "server_up e0"
        using 2 s_test_end[of st ?i ?o] by simp_all
      from server_results_does[OF x(3) o(2) server_run_ok[OF o(1)]] show ?thesis by auto
    qed
  next
    case 3
    then have "e1 = e" "r = 0" using assms(1) by (simp_all add: server_on_state_def)
    with 3 assms(2) show ?thesis
      by (intro go) (auto simp: sview_def server_phase_def s_done)
  next
    case 4
    let ?e = "upd_test (\<lambda>t. t\<lparr>t_i_errno := IECLIENTTERM\<rparr>) e"
    have a: "and_then cpu_stop (\<lambda>e1. pass (iperf_set_test_state IPERF_DONE) (close_streams e1)) ?e = Some (r, e1)"
      using 4 assms(1) by (simp add: server_on_state_def)
    then show ?thesis
    proof (rule and_thenE)
      fix r0 assume x: "cpu_stop ?e = Some (r0, e1)" "r0 < 0" "r = - 1"
      from ctl_same[OF keeps_ctlD[OF keeps_cpu_stop x(1)]] x(3) show ?thesis by (intro lost) auto
    next
      fix r0 e0 assume x: "cpu_stop ?e = Some (r0, e0)"
        and p: "pass (iperf_set_test_state IPERF_DONE) (close_streams e0) = Some (r, e1)"
      note c = ctl_same[OF keeps_ctlD[OF keeps_cpu_stop x]]
      note c2 = ctl_same[OF close_streams_ctl[of e0]]
      from p have e1: "r = 0" "e1 = upd_test (iperf_set_test_state IPERF_DONE) (close_streams e0)"
        by (simp_all add: pass_def)
      show ?thesis
        using e1 c c2 assms(2) 4 s_terminate[of st ?i ?o]
        by (intro go) (auto simp: sview_def server_phase_def server_up_def iperf_set_test_state_def)
    qed
  next
    case 5
    then have "r < 0" "e_out e1 = e_out e"
      using assms(1) by (auto simp: server_on_state_def Let_def fail_Some split: if_split_asm)
    then show ?thesis by (rule lost)
  qed
qed

lemma handle_server_does:
  assumes "iperf_handle_message_server e = Some (r, e1)" "server_up e" "t_state (e_test e) \<noteq> IPERF_DONE"
  shows "server_does (sview e) r e1" "0 \<le> r \<Longrightarrow> server_up e1 \<and> t_state (e_test e1) \<noteq> CREATE_STREAMS"
proof -
  have v: "sview e = (S_loop (t_state (e_test e)), toks (e_in e), toks (e_out e))"
    using assms(3) by (simp add: sview_def server_phase_def)
  obtain rv e2 where rd: "read_state e = (rv, e2)" by fastforce
  note ri = read_state_in[OF rd]
  have "server_does (sview e) r e1 \<and> (0 \<le> r \<longrightarrow> server_up e1 \<and> t_state (e_test e1) \<noteq> CREATE_STREAMS)"
  proof (cases "rv \<le> 0")
    case True
    show ?thesis
    proof (cases "rv = 0")
      case True
      then have e1: "r = 0" "e1 = upd_test (\<lambda>t. t\<lparr>t_i_errno := IECTRLCLOSE, t_state := IPERF_DONE\<rparr>) e2"
        using assms(1) rd by (simp_all add: iperf_handle_message_server_def pass_def)
      have "server_fail (sview e) (S_end, toks (e_in e2), toks (e_out e) @ [])"
        unfolding v using ri(1) True by (intro s_fail) auto
      then have "server_run (sview e) (sview e1)"
        using e1 ri(3) by (auto simp: sview_def server_phase_def intro: server_run.intros)
      with e1 ri(1) True assms(2) show ?thesis
        by (auto simp: server_up_def tctl_sel intro: server_does_ok)
    next
      case False
      with True have "r = - 1" "e_out e1 = e_out e"
        using assms(1) rd ri(3) by (auto simp: iperf_handle_message_server_def fail_Some)
      with assms(3) show ?thesis by (auto intro: server_does_silent[OF sr_refl])
    qed
  next
    case False
    then have c: "server_on_state e2 = Some (r, e1)"
      using assms(1) rd by (simp add: iperf_handle_message_server_def)
    have "server_up e2" using ri(2)[OF False] assms(2) by (simp add: server_up_def)
    from server_on_state_does[OF c this, of "t_state (e_test e)"] show ?thesis
      using ri(2)[OF False] ri(3) unfolding v by simp
  qed
  then show "server_does (sview e) r e1" "0 \<le> r \<Longrightarrow> server_up e1 \<and> t_state (e_test e1) \<noteq> CREATE_STREAMS"
    by blast+
qed


section \<open>The streams and the start of the test\<close>

text \<open>Actions that write nothing: on success the connection is as before.\<close>

definition silent :: "act \<Rightarrow> bool" where
  "silent f \<longleftrightarrow> (\<forall>e r e1. f e = Some (r, e1) \<longrightarrow> e_out e1 = e_out e \<and> (0 \<le> r \<longrightarrow> ctl_of e1 = ctl_of e))"

lemma silentD: "silent f \<Longrightarrow> f e = Some (r, e1) \<Longrightarrow> e_out e1 = e_out e \<and> (0 \<le> r \<longrightarrow> ctl_of e1 = ctl_of e)"
  by (auto simp: silent_def)

lemma keeps_silent: "keeps_ctl f \<Longrightarrow> silent f"
  by (auto simp: silent_def ctl_of_def dest!: keeps_ctlD)

lemma silentI: "(\<And>e r e1. f e = Some (r, e1) \<Longrightarrow> e_out e1 = e_out e \<and> (0 \<le> r \<longrightarrow> ctl_of e1 = ctl_of e)) \<Longrightarrow> silent f"
  by (simp add: silent_def)

lemma server_announce_ctl: "server_announce e = (s, e1) \<Longrightarrow> ctl_of e1 = ctl_of e"
  by (auto simp: server_announce_def Let_def split: prod.split_asm)

lemma silent_stop_accepting: "silent stop_accepting"
proof (rule silentI)
  fix e r e1 assume c: "stop_accepting e = Some (r, e1)"
  let ?t = "e_test e"
  show "e_out e1 = e_out e \<and> (0 \<le> r \<longrightarrow> ctl_of e1 = ctl_of e)"
  proof (cases "t_protocol ?t = Ptcp \<and> needs_relisten ?t")
    case False
    with c have "ctl_of e1 = ctl_of e" by (auto simp: stop_accepting_def Let_def split: if_split_asm)
    then show ?thesis by (simp add: ctl_of_def)
  next
    case True
    let ?e = "upd_test (\<lambda>t. t\<lparr>t_listener := - 1\<rparr>) (ep_close (t_listener ?t)
      (upd_test (\<lambda>t. t\<lparr>t_read_set := t_read_set t - {t_listener t}\<rparr>) e))"
    obtain s e2 where a: "server_announce ?e = (s, e2)" by fastforce
    have c2: "ctl_of e2 = ctl_of e" using server_announce_ctl[OF a] by simp
    show ?thesis
    proof (cases "s < 0")
      case True
      with c \<open>t_protocol ?t = Ptcp \<and> needs_relisten ?t\<close> a have "clean_error IELISTEN e2 = Some (r, e1)"
        by (simp add: stop_accepting_def)
      from clean_fail_out(2)[OF this] c2 show ?thesis by (simp add: ctl_of_def)
    next
      case False
      with c True a have "e1 = upd_test (\<lambda>t. (set_listener s t)\<lparr>t_prot_listener := - 1\<rparr>) e2"
        by (simp add: stop_accepting_def)
      with c2 have "ctl_of e1 = ctl_of e" by (simp add: set_listener_def)
      then show ?thesis by (simp add: ctl_of_def)
    qed
  qed
qed

lemma udp_accept_ctl: "iperf_udp_accept a b c d l w t = (r, t1) \<Longrightarrow> tctl t1 = tctl t"
proof -
  assume u: "iperf_udp_accept a b c d l w t = (r, t1)"
  obtain rc t2 where f: "udp_fit_buffers c d t = (rc, t2)" by fastforce
  show ?thesis using u udp_fit_ctl[OF f] unfolding iperf_udp_accept_def Let_def f prod.case
    by (auto split: if_split_asm)
qed

lemma tcp_accept_ctl: "iperf_tcp_accept c t n = (r, t1, n1, ds) \<Longrightarrow> tctl t1 = tctl t"
  by (auto simp: iperf_tcp_accept_def Let_def split: prod.split_asm if_split_asm option.split_asm)

lemma keeps_proto_accept: "keeps_ctl proto_accept"
proof (rule keeps_ctlI)
  fix e r e1 assume c: "proto_accept e = Some (r, e1)"
  show "ctl_of e1 = ctl_of e"
  proof (cases "t_protocol (e_test e) = Pudp")
    case True
    with c show ?thesis
      by (cases "e_udp e")
        (auto simp: proto_accept_def fail_Some Let_def split: prod.split_asm dest!: udp_accept_ctl)
  next
    case False
    obtain co cs where k: "(case e_conns e of [] \<Rightarrow> (None, []) | c # cs \<Rightarrow> (c, cs)) = (co, cs)" by fastforce
    obtain r2 t n ds where a: "iperf_tcp_accept co (e_test e) (e_net e) = (r2, t, n, ds)" by (metis prod_cases4)
    from c False tcp_accept_ctl[OF a] show ?thesis
      unfolding proto_accept_def k Let_def prod.case a by auto
  qed
qed

lemma silent_server_congestion: "silent (server_congestion s)"
proof (rule silentI)
  fix e r e1 assume c: "server_congestion s e = Some (r, e1)"
  obtain rc1 n1 where 1: "(if t_congestion (e_test e) \<noteq> None then (let (r, n) = syscall (e_net e) in (sr_ret r, n))
      else (0, e_net e)) = (rc1, n1)" by fastforce
  obtain r2 n2 where 2: "syscall n1 = (r2, n2)" by fastforce
  have cl: "e_out e1 = e_out e \<and> r = - 1" if "clean_error IESETCONGESTION (ep_close s (e\<lparr>e_net := n\<rparr>)) = Some (r, e1)" for n
    using clean_fail_out(2)[OF that] by (simp add: ep_close_def)
  show "e_out e1 = e_out e \<and> (0 \<le> r \<longrightarrow> ctl_of e1 = ctl_of e)"
  proof (cases "t_protocol (e_test e) = Ptcp")
    case False
    with c show ?thesis by (simp add: server_congestion_def)
  next
    case True
    note d = c[unfolded server_congestion_def Let_def 1[unfolded Let_def] prod.case]
    consider n where "clean_error IESETCONGESTION (ep_close s (e\<lparr>e_net := n\<rparr>)) = Some (r, e1)"
      | f n where "pass (\<lambda>t. t\<lparr>t_congestion_used := f\<rparr>) (e\<lparr>e_net := n\<rparr>) = Some (r, e1)"
      using d True by (auto simp: 2 split: if_split_asm)
    then show ?thesis
      by cases (use cl in auto, auto simp: pass_def)
  qed
qed

lemma accept_stream_silent:
  assumes "accept_stream loc e = Some (r, loc1, e1)"
  shows "e_out e1 = e_out e \<and> (0 \<le> r \<longrightarrow> ctl_of e1 = ctl_of e)"
proof -
  obtain s e2 where a: "proto_accept e = Some (s, e2)"
    using assms by (auto simp: accept_stream_def elim!: bindE)
  note c2 = keeps_ctlD[OF keeps_proto_accept a]
  obtain rc t3 n3 where so: "common_sockopts_sys (e_test e2) (e_net e2) = (rc, t3, n3)" by (metis prod_cases3)
  have t3: "tctl t3 = tctl (e_test e2)"
    using so by (auto simp: common_sockopts_sys_def Let_def split: prod.split_asm if_split_asm
        dest!: common_sockopts_ctl)
  let ?e3 = "e2\<lparr>e_test := t3, e_net := n3\<rparr>"
  have c3: "ctl_of ?e3 = ctl_of e" using c2 t3 by simp
  have out: "ctl_of a = ctl_of e \<Longrightarrow> e_out a = e_out e" for a by (simp add: ctl_of_def)
  note d = assms[unfolded accept_stream_def a bind.simps(2) prod.case so Let_def]
  have cl: ?thesis if "clean_fail a = Some (r, e1)" "ctl_of a = ctl_of e" for a
    using clean_fail_out(1)[OF that(1)] out[OF that(2)] by simp
  show ?thesis
  proof (cases "s < 0 \<or> rc < 0 \<or> s \<notin> set (n_open n3)")
    case True
    consider "clean_fail e2 = Some (r, e1)" | "clean_fail ?e3 = Some (r, e1)" | "e1 = ?e3"
      using d True by (auto split: if_split_asm)
    then show ?thesis using cl c2 c3 out[OF c3] by cases auto
  next
    case False
    then obtain r4 e4 where g: "server_congestion s ?e3 = Some (r4, e4)"
      and rest: "(if r4 < 0 then Some (- 1, loc, e4)
         else case sl_flag (next_flag loc) of None \<Rightarrow> None
           | Some flag \<Rightarrow> if flag = - 1 then Some (0, next_flag loc, e4)
               else or_clean (new_stream s flag) (pass (\<lambda>t. t\<lparr>t_max_fd := max s (t_max_fd t)\<rparr>)) e4 \<bind>
                 (\<lambda>(r4, e4). Some (r4, (next_flag loc)\<lparr>sl_flag := Some (- 1)\<rparr>, e4))) = Some (r, loc1, e1)"
      using d by (auto elim!: bindE)
    note g4 = silentD[OF silent_server_congestion g]
    show ?thesis
    proof (cases "r4 < 0")
      case True
      with rest g4 out[OF c3] show ?thesis by auto
    next
      case r4: False
      then have c4: "ctl_of e4 = ctl_of e" using g4 c3 by simp
      from rest r4 obtain flag where fl: "sl_flag (next_flag loc) = Some flag" by (cases "sl_flag (next_flag loc)") auto
      show ?thesis
      proof (cases "flag = - 1")
        case True
        with rest r4 fl c4 out[OF c4] show ?thesis by auto
      next
        case False
        with rest r4 fl have "or_clean (new_stream s flag) (pass (\<lambda>t. t\<lparr>t_max_fd := max s (t_max_fd t)\<rparr>)) e4 = Some (r, e1)"
          by (auto elim!: bindE)
        then show ?thesis
        proof (rule or_cleanE)
          fix r0 e0 assume n: "new_stream s flag e4 = Some (r0, e0)" "r = - 1" "e_out e1 = e_out e0"
          from ctl_same(5)[OF keeps_ctlD[OF keeps_new_stream n(1)]] n out[OF c4] show ?thesis by simp
        next
          fix r0 e0 assume n: "new_stream s flag e4 = Some (r0, e0)"
            "pass (\<lambda>t. t\<lparr>t_max_fd := max s (t_max_fd t)\<rparr>) e0 = Some (r, e1)"
          have e1: "e1 = upd_test (\<lambda>t. t\<lparr>t_max_fd := max s (t_max_fd t)\<rparr>) e0"
            using n(2) by (simp add: pass_def)
          have "ctl_of e1 = ctl_of e0" unfolding e1 by simp
          also have "ctl_of e0 = ctl_of e4" by (rule keeps_ctlD[OF keeps_new_stream n(1)])
          finally have "ctl_of e1 = ctl_of e" using c4 by (rule trans)
          with out[OF this] show ?thesis by blast
        qed
      qed
    qed
  qed
qed

text \<open>\<open>says keep ms st f\<close>: \<open>f\<close> writes the messages \<open>ms\<close>, or the first of them when it fails, and
moves the state by \<open>st\<close>; with \<open>keep\<close> the control socket stays open.\<close>

definition says :: "bool \<Rightarrow> tok list \<Rightarrow> (int \<Rightarrow> int) \<Rightarrow> act \<Rightarrow> bool" where
  "says keep ms st f \<longleftrightarrow> (\<forall>e r e1. f e = Some (r, e1) \<and> 0 \<le> t_ctrl_sck (e_test e) \<longrightarrow>
     (\<exists>k. toks (e_out e1) = toks (e_out e) @ take k ms) \<and>
     (0 \<le> r \<longrightarrow> toks (e_out e1) = toks (e_out e) @ ms \<and> e_in e1 = e_in e \<and>
        t_state (e_test e1) = st (t_state (e_test e)) \<and> (keep \<longrightarrow> 0 \<le> t_ctrl_sck (e_test e1))))"

lemma saysI:
  assumes "\<And>e r e1. f e = Some (r, e1) \<Longrightarrow> 0 \<le> t_ctrl_sck (e_test e) \<Longrightarrow>
     (\<exists>k. toks (e_out e1) = toks (e_out e) @ take k ms) \<and>
     (0 \<le> r \<longrightarrow> toks (e_out e1) = toks (e_out e) @ ms \<and> e_in e1 = e_in e \<and>
        t_state (e_test e1) = st (t_state (e_test e)) \<and> (keep \<longrightarrow> 0 \<le> t_ctrl_sck (e_test e1)))"
  shows "says keep ms st f"
  using assms by (auto simp: says_def)

lemma saysD:
  assumes "says keep ms st f" "f e = Some (r, e1)" "0 \<le> t_ctrl_sck (e_test e)"
  shows "\<exists>k. toks (e_out e1) = toks (e_out e) @ take k ms"
    "0 \<le> r \<Longrightarrow> toks (e_out e1) = toks (e_out e) @ ms \<and> e_in e1 = e_in e \<and>
        t_state (e_test e1) = st (t_state (e_test e)) \<and> (keep \<longrightarrow> 0 \<le> t_ctrl_sck (e_test e1))"
  using assms unfolding says_def by blast+

lemma says_silent: "silent f \<Longrightarrow> says True [] id f"
proof (rule saysI)
  fix e r e1 assume "silent f" "f e = Some (r, e1)" "0 \<le> t_ctrl_sck (e_test e)"
  with silentD[OF this(1,2)] show "(\<exists>k. toks (e_out e1) = toks (e_out e) @ take k []) \<and>
     (0 \<le> r \<longrightarrow> toks (e_out e1) = toks (e_out e) @ [] \<and> e_in e1 = e_in e \<and>
        t_state (e_test e1) = id (t_state (e_test e)) \<and> (True \<longrightarrow> 0 \<le> t_ctrl_sck (e_test e1)))"
    using ctl_same[of e1 e] by auto
qed

lemma says_keeps: "keeps_ctl f \<Longrightarrow> says True [] id f"
  by (intro says_silent keeps_silent)

lemma says_state: "says True [K_state st] (\<lambda>_. st) (iperf_set_send_state st)"
proof (rule saysI)
  fix e r e1 assume c: "iperf_set_send_state st e = Some (r, e1)" "0 \<le> t_ctrl_sck (e_test e)"
  note o = send_state_out[OF c]
  show "(\<exists>k. toks (e_out e1) = toks (e_out e) @ take k [K_state st]) \<and>
     (0 \<le> r \<longrightarrow> toks (e_out e1) = toks (e_out e) @ [K_state st] \<and> e_in e1 = e_in e \<and>
        t_state (e_test e1) = st \<and> (True \<longrightarrow> 0 \<le> t_ctrl_sck (e_test e1)))"
  proof (cases "r = 0")
    case True
    then show ?thesis using o c(2) by (auto intro!: exI[of _ 1])
  next
    case False
    then show ?thesis using o by (auto intro!: exI[of _ 0])
  qed
qed

lemma says_take: "(\<exists>k. a = b @ take k ms) \<Longrightarrow> (\<exists>k. a = b @ take k (ms @ ms1))"
proof -
  assume "\<exists>k. a = b @ take k ms"
  then obtain k where "a = b @ take k ms" by blast
  moreover have "take k ms = take (min k (length ms)) (ms @ ms1)" by (simp add: take_all min_def)
  ultimately show "\<exists>k. a = b @ take k (ms @ ms1)" by metis
qed

lemma says_then:
  assumes f: "says True ms st f" and g: "says keep ms1 st1 g"
  shows "says keep (ms @ ms1) (st1 \<circ> st) (or_clean f g)"
proof (rule saysI)
  fix e r e1 assume c: "or_clean f g e = Some (r, e1)" and s: "0 \<le> t_ctrl_sck (e_test e)"
  let ?goal = "(\<exists>k. toks (e_out e1) = toks (e_out e) @ take k (ms @ ms1)) \<and>
     (0 \<le> r \<longrightarrow> toks (e_out e1) = toks (e_out e) @ ms @ ms1 \<and> e_in e1 = e_in e \<and>
        t_state (e_test e1) = (st1 \<circ> st) (t_state (e_test e)) \<and> (keep \<longrightarrow> 0 \<le> t_ctrl_sck (e_test e1)))"
  from c show ?goal
  proof (rule or_cleanE)
    fix r0 e0 assume 1: "f e = Some (r0, e0)" "r = - 1" "e_out e1 = e_out e0"
    show ?goal using says_take[OF saysD(1)[OF f 1(1) s]] 1(2,3) by simp
  next
    fix r0 e0 assume 1: "f e = Some (r0, e0)" "\<not> r0 < 0" and 2: "g e0 = Some (r, e1)"
    have o: "toks (e_out e0) = toks (e_out e) @ ms" "e_in e0 = e_in e" "t_state (e_test e0) = st (t_state (e_test e))"
      "0 \<le> t_ctrl_sck (e_test e0)"
      using saysD(2)[OF f 1(1) s] 1(2) by auto
    obtain k where k: "toks (e_out e1) = toks (e_out e0) @ take k ms1" using saysD(1)[OF g 2 o(4)] by blast
    have "toks (e_out e1) = toks (e_out e) @ take (length ms + k) (ms @ ms1)" using k o(1) by simp
    then have "\<exists>k. toks (e_out e1) = toks (e_out e) @ take k (ms @ ms1)" by (rule exI)
    with saysD(2)[OF g 2 o(4)] o show ?goal by simp
  qed
qed

text \<open>The threads start after the last message; what they do does not reach the control connection,
even after the clean-up of a failing \<open>pthread_attr_init\<close>.\<close>

definition mute :: "act \<Rightarrow> bool" where
  "mute f \<longleftrightarrow> (\<forall>e r e1. f e = Some (r, e1) \<longrightarrow> e_out e1 = e_out e \<and>
     (0 \<le> r \<longrightarrow> e_in e1 = e_in e \<and> t_state (e_test e1) = t_state (e_test e)))"

lemma muteD:
  assumes "mute f" "f e = Some (r, e1)"
  shows "e_out e1 = e_out e" "0 \<le> r \<Longrightarrow> e_in e1 = e_in e \<and> t_state (e_test e1) = t_state (e_test e)"
  using assms by (auto simp: mute_def)

lemma mute_keeps: "keeps_ctl f \<Longrightarrow> mute f"
  unfolding mute_def using ctl_same keeps_ctlD by metis

lemma mute_attr_call: "mute (attr_call err)"
proof -
  have "e_out e1 = e_out e \<and> e_in e1 = e_in e \<and> t_state (e_test e1) = t_state (e_test e)"
    if c: "attr_call err e = Some (r, e1)" for e r e1
  proof -
    obtain rs n where s: "syscall (e_net e) = (rs, n)" by fastforce
    show ?thesis
    proof (cases "sr_ret rs = 0")
      case True
      with c show ?thesis by (simp add: attr_call_def s)
    next
      case False
      with c s have "cleanup_server (upd_test (\<lambda>t. t\<lparr>t_i_errno := err\<rparr>) (e\<lparr>e_net := n\<rparr>)) = Some e1"
        by (auto simp: attr_call_def)
      from cleanup_out[OF this] show ?thesis by simp
    qed
  qed
  then show ?thesis by (auto simp: mute_def)
qed

lemma muteI:
  assumes "\<And>e r e1. f e = Some (r, e1) \<Longrightarrow> e_out e1 = e_out e \<and>
     (0 \<le> r \<longrightarrow> e_in e1 = e_in e \<and> t_state (e_test e1) = t_state (e_test e))"
  shows "mute f"
  unfolding mute_def using assms by blast

lemma mute_or_clean:
  assumes "mute f" "mute g"
  shows "mute (or_clean f g)"
proof (rule muteI, erule or_cleanE)
  fix e r0 e0 e1 and r :: int assume "f e = Some (r0, e0)" "r = - 1" "e_out e1 = e_out e0"
  with muteD(1)[OF assms(1) this(1)] show "e_out e1 = e_out e \<and>
     (0 \<le> r \<longrightarrow> e_in e1 = e_in e \<and> t_state (e_test e1) = t_state (e_test e))" by simp
next
  fix e r e1 r0 e0 assume 1: "f e = Some (r0, e0)" "\<not> r0 < 0" and 2: "g e0 = Some (r, e1)"
  then have "0 \<le> r0" by simp
  with muteD(1)[OF assms(1) 1(1)] muteD(2)[OF assms(1) 1(1)] muteD(1)[OF assms(2) 2] muteD(2)[OF assms(2) 2]
  show "e_out e1 = e_out e \<and> (0 \<le> r \<longrightarrow> e_in e1 = e_in e \<and> t_state (e_test e1) = t_state (e_test e))"
    by presburger
qed

lemma mute_and_then:
  assumes "mute f" "mute g"
  shows "mute (and_then f g)"
proof (rule muteI, erule and_thenE)
  fix e r0 e1 and r :: int assume "f e = Some (r0, e1)" "r = - 1"
  with muteD(1)[OF assms(1) this(1)] show "e_out e1 = e_out e \<and>
     (0 \<le> r \<longrightarrow> e_in e1 = e_in e \<and> t_state (e_test e1) = t_state (e_test e))" by simp
next
  fix e r e1 r0 e0 assume 1: "f e = Some (r0, e0)" "\<not> r0 < 0" and 2: "g e0 = Some (r, e1)"
  then have "0 \<le> r0" by simp
  with muteD(1)[OF assms(1) 1(1)] muteD(2)[OF assms(1) 1(1)] muteD(1)[OF assms(2) 2] muteD(2)[OF assms(2) 2]
  show "e_out e1 = e_out e \<and> (0 \<le> r \<longrightarrow> e_in e1 = e_in e \<and> t_state (e_test e1) = t_state (e_test e))"
    by presburger
qed

lemma says_mute: "mute f \<Longrightarrow> says False [] id f"
  by (rule saysI) (auto dest: muteD)

lemma mute_server_threads: "mute server_threads"
  unfolding server_threads_def
  by (intro mute_and_then mute_or_clean mute_attr_call mute_keeps keeps_start_all)

lemma keeps_server_timers: "keeps_ctl create_server_timers" "keeps_ctl create_server_omit_timer"
  by (simp_all add: create_server_timers_def create_server_omit_timer_def Let_def keeps_test_timers keeps_omit_timer)

lemma keeps_server_send_timers: "keeps_ctl server_send_timers"
  unfolding server_send_timers_def by (intro keeps_if keeps_send_timers keeps_ok)

lemma start_test_says:
  "says False [K_state TEST_START, K_state TEST_RUNNING] (\<lambda>_. TEST_RUNNING)
     (or_clean (iperf_set_send_state TEST_START)
       (or_clean init_test
       (or_clean create_server_timers
       (or_clean create_server_omit_timer
       (or_clean server_send_timers
       (or_clean (iperf_set_send_state TEST_RUNNING) server_threads))))))"
proof -
  note k = says_then[OF says_keeps]
  have "says False ([K_state TEST_RUNNING] @ []) (id \<circ> (\<lambda>_. TEST_RUNNING))
     (or_clean (iperf_set_send_state TEST_RUNNING) server_threads)"
    by (rule says_then[OF says_state says_mute[OF mute_server_threads]])
  from says_then[OF says_state k[OF keeps_init_test k[OF keeps_server_timers(1) k[OF keeps_server_timers(2)
    k[OF keeps_server_send_timers this]]]], of TEST_START]
  show ?thesis by (simp add: comp_def)
qed

lemma server_start_test_does:
  assumes "server_start_test e = Some (r, e1)" "server_up e" "t_state (e_test e) = CREATE_STREAMS"
  shows "server_does (sview e) r e1"
proof -
  have v: "sview e = (S_loop CREATE_STREAMS, toks (e_in e), toks (e_out e))"
    using assms(3) by (simp add: sview_def server_phase_def)
  have quiet: "server_does (sview e) r e1" if "r < 0" "e_out e1 = e_out e"
    by (rule server_does_silent[OF sr_refl that(1)]) (simp_all add: that(2) assms(3))
  from assms(1)[unfolded server_start_test_def] show ?thesis
  proof (rule and_thenE)
    fix r0 assume "stop_accepting e = Some (r0, e1)" "r0 < 0" "r = - 1"
    with silentD[OF silent_stop_accepting this(1)] quiet show ?thesis by simp
  next
    fix r0 e0 assume 1: "stop_accepting e = Some (r0, e0)" "\<not> r0 < 0"
      and 2: "(if \<not> rate_allowed (e_test e0) then clean_error IETOTALRATE e0
            else or_clean (iperf_set_send_state TEST_START)
                (or_clean init_test
                (or_clean create_server_timers
                (or_clean create_server_omit_timer
                (or_clean server_send_timers
                (or_clean (iperf_set_send_state TEST_RUNNING) server_threads)))))
              (cpu_start e0)) = Some (r, e1)"
    have c0: "ctl_of e0 = ctl_of e" using silentD[OF silent_stop_accepting 1(1)] 1(2) by simp
    show ?thesis
    proof (cases "rate_allowed (e_test e0)")
      case False
      with 2 have "clean_error IETOTALRATE e0 = Some (r, e1)" by simp
      from clean_fail_out(2)[OF this] ctl_same(5)[OF c0] quiet show ?thesis by simp
    next
      case True
      have c2: "ctl_of (cpu_start e0) = ctl_of e" using c0 by (simp add: cpu_start_def)
      note u = ctl_same[OF c2]
      have sck: "0 \<le> t_ctrl_sck (e_test (cpu_start e0))" using u(7) assms(2) by (simp add: server_up_def)
      have 3: "or_clean (iperf_set_send_state TEST_START)
                (or_clean init_test
                (or_clean create_server_timers
                (or_clean create_server_omit_timer
                (or_clean server_send_timers
                (or_clean (iperf_set_send_state TEST_RUNNING) server_threads)))))
              (cpu_start e0) = Some (r, e1)" using 2 True by simp
      note d = saysD[OF start_test_says 3 sck]
      show ?thesis
      proof (cases "0 \<le> r")
        case r: True
        with d(2)[OF r] u have "sview e1 = (S_loop TEST_RUNNING, toks (e_in e), toks (e_out e) @ [K_state TEST_START, K_state TEST_RUNNING])"
          by (simp add: sview_def server_phase_def)
        then have "server_ok (sview e) (sview e1)" unfolding v by (simp add: s_streams)
        with r show ?thesis by (intro server_does_ok server_run_ok)
      next
        case False
        obtain k where k: "toks (e_out e1) = toks (e_out e) @ take k [K_state TEST_START, K_state TEST_RUNNING]"
          using d(1) u(5) by auto
        have mem: "take k [K_state TEST_START, K_state TEST_RUNNING] \<in> partial_answers (S_loop CREATE_STREAMS)"
          by (cases k; cases "k - 1") auto
        have run: "server_run (sview e) (S_loop CREATE_STREAMS, toks (e_in e), toks (e_out e))"
          unfolding v by (rule sr_refl)
        show ?thesis using False by (intro server_does_fail[OF _ run _ mem k]) simp_all
      qed
    qed
  qed
qed

lemma server_create_streams_does:
  assumes "server_create_streams ready loc e = Some (r, loc1, e1)" "server_up e" "t_state (e_test e) = CREATE_STREAMS"
  shows "server_does (sview e) r e1"
proof -
  obtain r0 loc0 e0 where a: "(if ready then accept_stream loc e else Some (0, loc, e)) = Some (r0, loc0, e0)"
    using assms(1) unfolding server_create_streams_def by (auto elim!: bindE)
  have o: "e_out e0 = e_out e" "0 \<le> r0 \<Longrightarrow> ctl_of e0 = ctl_of e"
    using a accept_stream_silent[of loc e r0 loc0 e0] by (auto split: if_split_asm)
  note d = assms(1)[unfolded server_create_streams_def a bind.simps(2) prod.case]
  show ?thesis
  proof (cases "r0 < 0")
    case True
    with d have "r < 0" "e1 = e0" by simp_all
    then show ?thesis using assms(3) o(1) by (intro server_does_silent[OF sr_refl]) simp_all
  next
    case False
    then have c: "ctl_of e0 = ctl_of e" using o(2) by simp
    show ?thesis
    proof (cases "all_accepted loc0")
      case True
      with d False obtain r2 where "server_start_test e0 = Some (r2, e1)" "r2 = r" by auto
      then have "server_does (sview e0) r e1"
        using ctl_same[OF c] sctl_same[OF c] assms(2,3) by (intro server_start_test_does) simp_all
      then show ?thesis using sctl_same(1)[OF c] by simp
    next
      case no: False
      with d False have "r = 0" "e1 = e0" by simp_all
      then show ?thesis using sctl_same(1)[OF c] by (auto intro!: server_does_ok sr_refl)
    qed
  qed
qed

section \<open>One round of the main loop\<close>

lemma iperf_accept_busy:
  assumes "iperf_accept e = Some (r, e1)" "t_ctrl_sck (e_test e) \<noteq> - 1"
  shows "e_in e1 = e_in e" "e_out e1 = e_out e" "0 \<le> r \<Longrightarrow> e_test e1 = e_test e"
  using assms by (auto simp: iperf_accept_def Let_def fail_Some ep_close_def split: prod.split_asm if_split_asm)

lemma or_clean_ok:
  assumes "or_clean f ok e = Some (r, e1)"
  obtains "0 \<le> r" "r = 0" "\<exists>r0\<ge>0. f e = Some (r0, e1)"
  | r0 e0 where "r < 0" "f e = Some (r0, e0)" "r0 < 0" "e_out e1 = e_out e0"
  using assms
proof (rule or_cleanE)
  fix r0 e0 assume "f e = Some (r0, e0)" "r0 < 0" "r = - 1" "e_out e1 = e_out e0"
  then show thesis by (intro that(2)[of r0 e0]) simp_all
next
  fix r0 e0 assume "f e = Some (r0, e0)" "\<not> r0 < 0" "ok e0 = Some (r, e1)"
  then show thesis by (intro that(1)) (auto simp: ok_def)
qed

text \<open>Where the server stands between two rounds: waiting for a client, or with one.\<close>

definition server_conf :: "ep \<Rightarrow> sphase conf" where
  "server_conf e = (if t_ctrl_sck (e_test e) = - 1 then (S_cookie, toks (e_in e), toks (e_out e)) else sview e)"

definition server_stands :: "int set \<Rightarrow> ep \<Rightarrow> bool" where
  "server_stands ready e \<longleftrightarrow> t_role (e_test e) = CHR ''s'' \<and> t_state (e_test e) \<noteq> IPERF_DONE \<and>
     (t_ctrl_sck (e_test e) = - 1 \<and> t_listener (e_test e) \<in> ready \<and> t_state (e_test e) \<noteq> CREATE_STREAMS \<or>
      0 \<le> t_ctrl_sck (e_test e))"

lemma new_client_does:
  assumes "or_clean iperf_accept ok e = Some (r, e1)" "server_stands ready e"
  shows "server_does (server_conf e) r e1" "0 \<le> r \<Longrightarrow> server_up e1 \<and> t_state (e_test e1) \<noteq> IPERF_DONE"
proof -
  have "server_does (server_conf e) r e1 \<and> (0 \<le> r \<longrightarrow> server_up e1 \<and> t_state (e_test e1) \<noteq> IPERF_DONE)"
  proof (cases "t_ctrl_sck (e_test e) = - 1")
    case True
    have role: "t_role (e_test e) = CHR ''s''" using assms(2) by (simp add: server_stands_def)
    from assms(1) show ?thesis
    proof (cases rule: or_clean_ok)
      case 1
      then obtain r0 where a: "0 \<le> r0" "iperf_accept e = Some (r0, e1)" by blast
      from iperf_accept_does[OF a(2) role True] a(1) 1(1) show ?thesis
        by (simp add: server_conf_def True server_does_def)
    next
      case (2 r0 e0)
      from iperf_accept_does(1)[OF 2(2) role True] 2 show ?thesis
        by (simp add: server_conf_def True server_does_def)
    qed
  next
    case False
    then have up: "server_up e" "server_conf e = sview e" "t_state (e_test e) \<noteq> IPERF_DONE"
      using assms(2) by (simp_all add: server_stands_def server_up_def server_conf_def)
    from assms(1) show ?thesis
    proof (cases rule: or_clean_ok)
      case 1
      then obtain r0 where a: "0 \<le> r0" "iperf_accept e = Some (r0, e1)" by blast
      note b = iperf_accept_busy[OF a(2) False]
      have "sview e1 = sview e" using b a(1) by (simp add: sview_def)
      with b a(1) up 1(1) show ?thesis by (auto simp: server_up_def intro!: server_does_ok sr_refl)
    next
      case (2 r0 e0)
      with iperf_accept_busy(2)[OF 2(2) False] up show ?thesis
        by (auto intro!: server_does_silent[OF sr_refl])
    qed
  qed
  then show "server_does (server_conf e) r e1" "0 \<le> r \<Longrightarrow> server_up e1 \<and> t_state (e_test e1) \<noteq> IPERF_DONE" by blast+
qed

lemma message_does:
  assumes "or_clean iperf_handle_message_server ok e = Some (r, e1)" "server_up e" "t_state (e_test e) \<noteq> IPERF_DONE"
  shows "server_does (sview e) r e1" "0 \<le> r \<Longrightarrow> server_up e1 \<and> t_state (e_test e1) \<noteq> CREATE_STREAMS"
proof -
  have "server_does (sview e) r e1 \<and> (0 \<le> r \<longrightarrow> server_up e1 \<and> t_state (e_test e1) \<noteq> CREATE_STREAMS)"
    using assms(1)
  proof (cases rule: or_clean_ok)
    case 1
    then obtain r0 where a: "0 \<le> r0" "iperf_handle_message_server e = Some (r0, e1)" by blast
    from handle_server_does[OF a(2) assms(2,3)] a(1) 1(1) show ?thesis by (simp add: server_does_def)
  next
    case (2 r0 e0)
    from handle_server_does(1)[OF 2(2) assms(2,3)] 2 show ?thesis by (simp add: server_does_def)
  qed
  then show "server_does (sview e) r e1" "0 \<le> r \<Longrightarrow> server_up e1 \<and> t_state (e_test e1) \<noteq> CREATE_STREAMS" by blast+
qed

lemma server_does_trans: "server_does b r e1 \<Longrightarrow> server_run a b \<Longrightarrow> server_does a r e1"
  unfolding server_does_def by (metis server_run_trans)

lemma server_stage_two:
  assumes "server_up e" "t_state (e_test e) \<noteq> IPERF_DONE"
    and "(if message then or_clean iperf_handle_message_server ok e else ok e) = Some (r2, e2)"
    and "(if r2 < 0 then Some (- 1, loc, e2)
          else if t_state (e_test e2) = CREATE_STREAMS then server_create_streams (p e2) loc e2
          else Some (0, loc, e2)) = Some (r, loc1, e1)"
  shows "server_does (sview e) r e1"
proof -
  have m: "server_does (sview e) r2 e2 \<and> (0 \<le> r2 \<longrightarrow> server_up e2)"
    using assms(1-3) message_does[of e r2 e2] by (auto simp: ok_def intro: server_does_ok sr_refl split: if_split_asm)
  show ?thesis
  proof (cases "r2 < 0")
    case True
    with assms(4) m show ?thesis by (simp add: server_does_def)
  next
    case False
    then have run: "server_run (sview e) (sview e2)" and up: "server_up e2"
      using m by (simp_all add: server_does_def)
    show ?thesis
    proof (cases "t_state (e_test e2) = CREATE_STREAMS")
      case True
      with assms(4) False have "server_create_streams (p e2) loc e2 = Some (r, loc1, e1)" by simp
      from server_does_trans[OF server_create_streams_does[OF this up True] run] show ?thesis .
    next
      case no: False
      with assms(4) False run show ?thesis by (auto intro: server_does_ok)
    qed
  qed
qed

text \<open>C10: One round of the server's main loop implements the server's machine: whatever the system
  calls return and whichever descriptors are ready, what the round reads and writes on the control
  connection is a run of the machine, from the wait for a client or from the phase of the test; when
  the round gives up the test, the machine has closed the connection.\<close>

theorem server_implements_protocol:
  assumes "server_stands ready e" "server_ready ready loc e = Some (r, loc1, e1)"
  shows "server_does (server_conf e) r e1"
proof -
  let ?new = "t_listener (e_test e) \<in> ready \<and> t_state (e_test e) \<noteq> CREATE_STREAMS"
  obtain ra ea where a: "(if ?new then or_clean iperf_accept ok e else ok e) = Some (ra, ea)"
    using assms(2) unfolding server_ready_def Let_def by (auto elim!: bindE)
  have one: "server_does (server_conf e) ra ea \<and>
    (0 \<le> ra \<longrightarrow> server_up ea \<and> t_state (e_test ea) \<noteq> IPERF_DONE)"
  proof (cases ?new)
    case True
    then show ?thesis using a new_client_does[OF _ assms(1)] by simp
  next
    case False
    with assms(1) have "server_up e" "server_conf e = sview e" "t_state (e_test e) \<noteq> IPERF_DONE"
      by (auto simp: server_stands_def server_up_def server_conf_def)
    moreover have "ra = 0" "ea = e" using a False by (simp_all add: ok_def)
    ultimately show ?thesis by (simp add: server_does_ok sr_refl)
  qed
  note d = assms(2)[unfolded server_ready_def Let_def a bind.simps(2) prod.case]
  show ?thesis
  proof (cases "ra < 0")
    case True
    with d one show ?thesis by (simp add: server_does_def)
  next
    case False
    then have run: "server_run (server_conf e) (sview ea)" and up: "server_up ea" "t_state (e_test ea) \<noteq> IPERF_DONE"
      using one by (simp_all add: server_does_def)
    from d[unfolded if_not_P[OF False]] show ?thesis
      by (rule bindE) (auto intro!: server_does_trans[OF server_stage_two[OF up] run])
  qed
qed

lemma server_implements_protocol_witness:
  "\<exists>e1. server_ready {5} (start_loc zero_time) ((demo_ep (zero_test\<lparr>t_role := CHR ''s'', t_ctrl_sck := 5,
        t_state := TEST_RUNNING, t_listener := 3\<rparr>))\<lparr>e_in := [M_state IPERF_DONE]\<rparr>)
      = Some (0, start_loc zero_time, e1) \<and>
    server_does (S_loop TEST_RUNNING, [K_state IPERF_DONE], []) 0 e1"
proof -
  let ?e = "(demo_ep (zero_test\<lparr>t_role := CHR ''s'', t_ctrl_sck := 5, t_state := TEST_RUNNING,
    t_listener := 3\<rparr>))\<lparr>e_in := [M_state IPERF_DONE]\<rparr>"
  have "\<exists>e1. server_ready {5} (start_loc zero_time) ?e = Some (0, start_loc zero_time, e1)"
    by (simp add: server_ready_def demo_ep_def zero_test_def or_clean_def iperf_handle_message_server_def
        read_state_def server_on_state_def upd_test_def ok_def Let_def)
  then obtain e1 where r: "server_ready {5} (start_loc zero_time) ?e = Some (0, start_loc zero_time, e1)" by blast
  have "server_does (server_conf ?e) 0 e1"
    by (rule server_implements_protocol[OF _ r]) (simp add: server_stands_def demo_ep_def zero_test_def)
  moreover have "server_conf ?e = (S_loop TEST_RUNNING, [K_state IPERF_DONE], [])"
    by (simp add: server_conf_def sview_def server_phase_def demo_ep_def zero_test_def)
  ultimately show ?thesis using r by auto
qed

end
