(* ===== verification/Json_Number.thy ===== *)
theory Json_Number
  imports Json Units
begin

text \<open>
  Numbers in JSON text (\<open>print_number\<close> and \<open>parse_number\<close> of \<open>cjson.c\<close>). \<open>fmt_g\<close> is the directive
  \<open>"%1.<P>g"\<close> of \<open>printf\<close>, exact and rounding ties to even like the C library; \<open>strtod\<close> is
  \<open>scan_double\<close> of theory Units, the characters \<open>parse_number\<close> lets through being those of decimal
  numbers. A number is printed as an integer, with 15 digits, or with 17 digits; the lemmas show
  that 17 digits always give the double back.
\<close>

section \<open>The directive %g\<close>

text \<open>The exponent of the first decimal digit of a positive number.\<close>

definition dec_exponent :: "rat \<Rightarrow> int" where
  "dec_exponent x =
     (let (n, m) = quotient_of x;
          e = int (length (dec_of_nat (nat n))) - int (length (dec_of_nat (nat m)))
      in if pow10 e \<le> x then e else e - 1)"

text \<open>The significant digits (as a number of \<open>prec\<close> digits) and the exponent after rounding.\<close>

definition significant :: "nat \<Rightarrow> rat \<Rightarrow> nat \<times> int" where
  "significant prec x =
     (let e = dec_exponent x; v = nat (rne (x * pow10 (int prec - 1 - e)))
      in if v = 10 ^ prec then (10 ^ (prec - 1), e + 1) else (v, e))"

definition strip_zeros :: "string \<Rightarrow> string" where
  "strip_zeros s = rev (dropWhile (\<lambda>c. c = CHR ''0'') (rev s))"

definition with_fraction :: "string \<Rightarrow> string \<Rightarrow> string" where
  "with_fraction ip fp = (let f = strip_zeros fp in if f = [] then ip else ip @ CHR ''.'' # f)"

definition fmt_exponent :: "int \<Rightarrow> string" where
  "fmt_exponent e =
     CHR ''e'' # (if e < 0 then CHR ''-'' else CHR ''+'') #
       pad_left (CHR ''0'') 2 (dec_of_nat (nat \<bar>e\<bar>))"

definition fmt_g :: "nat \<Rightarrow> dbl \<Rightarrow> string" where
  "fmt_g prec x =
     (if x = 0 then ''0''
      else
        (let (v, e) = significant prec \<bar>x\<bar>; ds = dec_of_nat v;
             body = (if - 4 \<le> e \<and> e < int prec
                     then if 0 \<le> e then with_fraction (take (nat e + 1) ds) (drop (nat e + 1) ds)
                          else with_fraction ''0'' (replicate (nat (- e) - 1) (CHR ''0'') @ ds)
                     else with_fraction (take 1 ds) (drop 1 ds) @ fmt_exponent e)
         in if x < 0 then CHR ''-'' # body else body))"

section \<open>print_number and parse_number\<close>

definition DBL_EPSILON :: dbl where "DBL_EPSILON = 1 / 2 ^ 52"

definition compare_double :: "dbl \<Rightarrow> dbl \<Rightarrow> bool" where
  "compare_double a b \<longleftrightarrow>
     (let maxVal = (if \<bar>a\<bar> > \<bar>b\<bar> then \<bar>a\<bar> else \<bar>b\<bar>) in \<bar>dsub a b\<bar> \<le> dmul maxVal DBL_EPSILON)"

text \<open>\<open>None\<close> when the text does not fit \<open>number_buffer\<close>.\<close>

definition print_number :: "dbl \<Rightarrow> string option" where
  "print_number d =
     (let number_buffer =
        (if d = dbl_of_int (saturate d) then dec_of_int (saturate d)
         else
           (case scan_double (fmt_g 15 d) of
              None \<Rightarrow> fmt_g 17 d
            | Some (test, _) \<Rightarrow> if compare_double test d then fmt_g 15 d else fmt_g 17 d))
      in if length number_buffer > 25 then None else Some number_buffer)"

definition number_char :: "char \<Rightarrow> bool" where
  "number_char c \<longleftrightarrow> c_isdigit c \<or> c \<in> set ''+-eE.''"

definition parse_number :: "string \<Rightarrow> (dbl \<times> string) option" where
  "parse_number s =
     (let number_c_string = take 63 (takeWhile number_char s)
      in case scan_double number_c_string of
           None \<Rightarrow> None
         | Some (number, after_end) \<Rightarrow>
             Some (number, drop (length number_c_string - length after_end) s))"

section \<open>Powers of ten and decimal digits\<close>

lemma pow10_pos [simp]: "0 < pow10 k"
  by (simp add: pow10_def)

lemma pow10_0 [simp]: "pow10 0 = 1"
  by (simp add: pow10_def)

lemma pow10_nat: "pow10 (int n) = 10 ^ n"
  by (simp add: pow10_def)

lemma pow10_diff: "pow10 (int a - int b) = 10 ^ a / 10 ^ b"
proof (cases "b \<le> a")
  case True
  then have "int a - int b = int (a - b)" by simp
  with True show ?thesis by (simp only: pow10_nat power_diff)
next
  case False
  then have "nat (- (int a - int b)) = b - a" by simp
  with False show ?thesis by (simp add: pow10_def power_diff)
qed

lemma pow10_add: "pow10 (i + j) = pow10 i * pow10 j"
proof -
  define a b c d where "a = nat i" and "b = nat (- i)" and "c = nat j" and "d = nat (- j)"
  have i: "i = int a - int b" and j: "j = int c - int d" by (simp_all add: a_def b_def c_def d_def)
  have "i + j = int (a + c) - int (b + d)" by (simp add: i j)
  then show ?thesis unfolding i j by (simp only: pow10_diff power_add) simp
qed

lemma pow10_mono: "i \<le> j \<Longrightarrow> pow10 i \<le> pow10 j"
proof -
  assume "i \<le> j"
  then have "pow10 j = pow10 i * 10 ^ nat (j - i)" using pow10_add[of i "j - i"] by (simp add: pow10_def)
  moreover have "pow10 i * 1 \<le> pow10 i * 10 ^ nat (j - i)" by (intro mult_left_mono) (simp_all add: less_imp_le)
  ultimately show ?thesis by simp
qed

lemma length_dec: "0 < n \<Longrightarrow> 10 ^ (length (dec_of_nat n) - 1) \<le> n \<and> n < 10 ^ length (dec_of_nat n)"
  unfolding dec_of_nat_def
proof (induction n rule: less_induct)
  case (less n)
  show ?case
  proof (cases "n < 10")
    case True
    with less.prems show ?thesis by (subst (1 2) print_base.simps) simp
  next
    case False
    let ?l = "length (print_base 10 (n div 10))"
    have ih: "10 ^ (?l - 1) \<le> n div 10" "n div 10 < 10 ^ ?l" using less.IH[of "n div 10"] False by simp_all
    have l: "0 < ?l" by (subst print_base.simps) simp
    have len: "length (print_base 10 n) = Suc ?l" using False by (subst print_base.simps) simp
    have "(10::nat) ^ ?l = 10 * 10 ^ (?l - 1)" using l by (simp flip: power_Suc)
    then have "10 ^ ?l \<le> n" using ih(1) by linarith
    moreover have "n < 10 ^ Suc ?l" using ih(2) by (simp add: less_mult_imp_div_less div_less_iff_less_mult mult.commute)
    ultimately show ?thesis unfolding len by simp
  qed
qed

lemma length_dec_eq: "10 ^ (k - 1) \<le> n \<Longrightarrow> n < 10 ^ k \<Longrightarrow> 0 < k \<Longrightarrow> length (dec_of_nat n) = k"
proof -
  assume a: "10 ^ (k - 1) \<le> n" "n < 10 ^ k" "0 < k"
  let ?l = "length (dec_of_nat n)"
  have n: "0 < n" using a(1) by (cases n) simp_all
  note b = length_dec[OF n]
  have "(10::nat) ^ (k - 1) < 10 ^ ?l" "(10::nat) ^ (?l - 1) < 10 ^ k" using a b by linarith+
  then have "k - 1 < ?l" "?l - 1 < k" by (simp_all add: power_strict_increasing_iff)
  with a(3) show ?thesis by linarith
qed

text \<open>The value of digits with \<open>fp\<close> behind the decimal point.\<close>

definition dec_value :: "string \<Rightarrow> string \<Rightarrow> rat" where
  "dec_value ip fp = of_nat (digits_value 10 0 (ip @ fp)) * pow10 (- int (length fp))"

lemma digits_value_zeros: "digits_value b a (replicate k (CHR ''0'')) = a * b ^ k"
proof (induction k arbitrary: a)
  case (Suc k)
  have "digit_val (CHR ''0'') = Some 0" by code_simp
  then show ?case by (simp add: Suc)
qed simp

lemma strip_zeros: "\<exists>k. s = strip_zeros s @ replicate k (CHR ''0'')"
proof -
  let ?z = "takeWhile (\<lambda>c. c = CHR ''0'') (rev s)"
  have "rev s = ?z @ dropWhile (\<lambda>c. c = CHR ''0'') (rev s)" by simp
  then have "s = strip_zeros s @ rev ?z" unfolding strip_zeros_def by (metis rev_append rev_rev_ident)
  moreover have "?z = replicate (length ?z) (CHR ''0'')"
    by (intro replicate_length_same[symmetric]) (auto dest: set_takeWhileD)
  then have "rev ?z = replicate (length ?z) (CHR ''0'')" by (metis rev_replicate)
  ultimately show ?thesis by metis
qed

lemma dec_value_strip: "dec_value ip (strip_zeros fp) = dec_value ip fp"
proof -
  obtain k where k: "fp = strip_zeros fp @ replicate k (CHR ''0'')" using strip_zeros by blast
  let ?f = "strip_zeros fp"
  have "- int (length ?f) = int k + (- int (length ?f) - int k)" by simp
  then have "pow10 (- int (length ?f)) = 10 ^ k * pow10 (- int (length ?f) - int k)"
    by (metis pow10_add pow10_nat)
  then have "dec_value ip (?f @ replicate k (CHR ''0'')) = dec_value ip ?f"
    by (simp add: dec_value_def digits_value_append[of _ _ "ip @ ?f", simplified] digits_value_zeros pow10_nat
        mult_ac)
  with k show ?thesis by simp
qed

section \<open>Scanning a decimal number\<close>

definition sign_text :: "bool \<Rightarrow> string" where
  "sign_text neg = (if neg then ''-'' else [])"

definition exponent_text :: "int \<Rightarrow> string \<Rightarrow> bool" where
  "exponent_text e s \<longleftrightarrow> (s = [] \<and> e = 0) \<or> s = fmt_exponent e"

lemma pad_left_digits: "\<forall>c\<in>set s. c_isdigit c \<Longrightarrow> \<forall>c\<in>set (pad_left (CHR ''0'') w s). c_isdigit c"
proof -
  have "c_isdigit (CHR ''0'')" by code_simp
  then show "\<forall>c\<in>set s. c_isdigit c \<Longrightarrow> \<forall>c\<in>set (pad_left (CHR ''0'') w s). c_isdigit c"
    by (auto simp: pad_left_def)
qed

lemma pad_left_value: "digits_value 10 0 (pad_left (CHR ''0'') w s) = digits_value 10 0 s"
  by (simp add: pad_left_def digits_value_append digits_value_zeros)

lemma takeWhile_digits:
  assumes "\<forall>c\<in>set ds. c_isdigit c" "r = [] \<or> \<not> c_isdigit (hd r)"
  shows "takeWhile c_isdigit (ds @ r) = ds" "dropWhile c_isdigit (ds @ r) = r"
  using assms by (cases r; simp add: takeWhile_append)+

lemma exp_part_text: "exponent_text e s \<Longrightarrow> exp_part s = (e, [])"
proof -
  assume a: "exponent_text e s"
  show ?thesis
  proof (cases "s = []")
    case True
    with a show ?thesis by (auto simp: exponent_text_def exp_part_def fmt_exponent_def)
  next
    case False
    define ds where "ds = pad_left (CHR ''0'') 2 (dec_of_nat (nat \<bar>e\<bar>))"
    have s: "s = CHR ''e'' # (if e < 0 then CHR ''-'' else CHR ''+'') # ds"
      using a False by (simp add: exponent_text_def fmt_exponent_def ds_def)
    have d: "\<forall>c\<in>set ds. c_isdigit c" unfolding ds_def by (intro pad_left_digits dec_of_nat_digits)
    have ne: "ds \<noteq> []" by (simp add: ds_def pad_left_def)
    have v: "digits_value 10 0 ds = nat \<bar>e\<bar>" by (simp add: ds_def pad_left_value dec_of_nat_value)
    have t: "takeWhile c_isdigit ds = ds" "dropWhile c_isdigit ds = []"
      using takeWhile_digits[OF d, of "[]"] by simp_all
    show ?thesis by (simp add: s exp_part_def t ne v)
  qed
qed

lemma exponent_text_head:
  "exponent_text e s \<Longrightarrow> s = [] \<or> (\<not> c_isdigit (hd s) \<and> hd s \<noteq> CHR ''.'')"
proof -
  have "\<not> c_isdigit (CHR ''e'')" by code_simp
  then show "exponent_text e s \<Longrightarrow> s = [] \<or> (\<not> c_isdigit (hd s) \<and> hd s \<noteq> CHR ''.'')"
    by (auto simp: exponent_text_def fmt_exponent_def)
qed

lemma frac_part_text:
  assumes "\<forall>c\<in>set f. c_isdigit c" "exponent_text e s"
  shows "frac_part ((if f = [] then [] else CHR ''.'' # f) @ s) = (f, s)"
  using exponent_text_head[OF assms(2)] takeWhile_digits[OF assms(1), of s]
  by (cases s) (auto simp: frac_part_def)

lemma strip_zeros_subset: "set (strip_zeros s) \<subseteq> set s"
  unfolding strip_zeros_def by (auto dest: set_dropWhileD)

lemma number_chars:
  "c_isdigit c \<Longrightarrow> number_char c" "number_char (CHR ''-'')" "number_char (CHR ''+'')"
  "number_char (CHR ''e'')" "number_char (CHR ''.'')"
  by (simp_all add: number_char_def)

lemma exponent_chars: "exponent_text e s \<Longrightarrow> \<forall>c\<in>set s. number_char c"
  using pad_left_digits[OF dec_of_nat_digits, of 2 "nat \<bar>e\<bar>"]
  by (auto simp: exponent_text_def fmt_exponent_def number_chars)

definition number_text :: "bool \<Rightarrow> rat \<Rightarrow> string \<Rightarrow> bool" where
  "number_text neg x s \<longleftrightarrow>
     (\<exists>ip f t e. s = sign_text neg @ with_fraction ip f @ t \<and> ip \<noteq> [] \<and>
        (\<forall>c\<in>set (ip @ f). c_isdigit c) \<and> exponent_text e t \<and> x = dec_value ip f * pow10 e)"

lemma number_text_chars: "number_text neg x s \<Longrightarrow> \<forall>c\<in>set s. number_char c"
proof -
  assume "number_text neg x s"
  then obtain ip f t e where s: "s = sign_text neg @ with_fraction ip f @ t"
    and d: "\<forall>c\<in>set (ip @ f). c_isdigit c" and t: "exponent_text e t"
    unfolding number_text_def by blast
  have "set (strip_zeros f) \<subseteq> set f" by (rule strip_zeros_subset)
  then have "\<forall>c\<in>set (with_fraction ip f). number_char c"
    using d by (auto simp: with_fraction_def Let_def number_chars)
  then show ?thesis using exponent_chars[OF t] by (auto simp: s sign_text_def number_chars)
qed

lemma number_text_head: "number_text neg x s \<Longrightarrow> s \<noteq> [] \<and> (hd s = CHR ''-'' \<or> c_isdigit (hd s))"
proof -
  assume "number_text neg x s"
  then obtain ip f t e where s: "s = sign_text neg @ with_fraction ip f @ t" and ip: "ip \<noteq> []"
    and d: "\<forall>c\<in>set (ip @ f). c_isdigit c" unfolding number_text_def by blast
  have "with_fraction ip f = ip @ (if strip_zeros f = [] then [] else CHR ''.'' # strip_zeros f)"
    by (simp add: with_fraction_def Let_def)
  then show ?thesis using ip d by (cases ip) (auto simp: s sign_text_def)
qed

lemma no_x_not_hex: "CHR ''x'' \<notin> set s \<Longrightarrow> CHR ''X'' \<notin> set s \<Longrightarrow> \<not> hex_form s"
  by (auto simp: hex_form_def split: list.split)

lemma scan_number_text:
  assumes "number_text neg x s"
  shows "scan_double s = Some (fl ((if neg then - 1 else 1) * x), [])"
proof -
  from assms obtain ip f t e where s: "s = sign_text neg @ with_fraction ip f @ t" and ip: "ip \<noteq> []"
    and d: "\<forall>c\<in>set (ip @ f). c_isdigit c" and t: "exponent_text e t" and x: "x = dec_value ip f * pow10 e"
    unfolding number_text_def by blast
  define g where "g = strip_zeros f"
  define u where "u = (if g = [] then [] else CHR ''.'' # g) @ t"
  have dg: "\<forall>c\<in>set g. c_isdigit c" and di: "\<forall>c\<in>set ip. c_isdigit c"
    using d strip_zeros_subset[of f] by (auto simp: g_def)
  have s1: "s = sign_text neg @ ip @ u" by (simp add: s with_fraction_def u_def g_def)
  have nd: "\<not> c_isdigit (CHR ''.'')" by code_simp
  have u: "u = [] \<or> \<not> c_isdigit (hd u)" using exponent_text_head[OF t] nd by (auto simp: u_def)
  have sp: "dropWhile c_isspace s = s"
  proof -
    have "\<not> c_isspace (CHR ''-'')" by code_simp
    then show ?thesis
      using dropWhile_space_digits[OF di ip, of u] by (simp add: s1 sign_text_def)
  qed
  have sg: "take_sign s = (neg, ip @ u)"
    using take_sign_digits[OF di ip, of u] by (simp add: s1 sign_text_def)
  have "\<forall>c\<in>set s. number_char c" using assms by (rule number_text_chars)
  moreover have "\<not> number_char (CHR ''x'')" "\<not> number_char (CHR ''X'')" by code_simp+
  ultimately have hx: "\<not> hex_form (ip @ u)" by (intro no_x_not_hex) (auto simp: s1)
  have fr: "frac_part u = (g, t)" unfolding u_def by (rule frac_part_text[OF dg t])
  have "x = of_nat (digits_value 10 0 (ip @ g)) * pow10 (- int (length g)) * pow10 e"
    using dec_value_strip[of ip f] by (simp add: x dec_value_def g_def)
  then have "x = of_nat (digits_value 10 0 (ip @ g)) * pow10 (e - int (length g))"
    using pow10_add[of "- int (length g)" e] by simp
  then show ?thesis
    by (simp add: scan_double_def sp sg takeWhile_digits[OF di u] fr exp_part_text[OF t] hx ip)
qed

section \<open>The digits %g prints\<close>

lemma dec_exponent_bounds:
  assumes "0 < x"
  shows "pow10 (dec_exponent x) \<le> x" "x < pow10 (dec_exponent x + 1)"
proof -
  obtain n m where q: "quotient_of x = (n, m)" by fastforce
  have m: "0 < m" using quotient_of_denom_pos[OF q] .
  have x: "x = of_int n / of_int m" using quotient_of_div[OF q] .
  have n: "0 < n" using assms m by (simp add: x zero_less_divide_iff)
  define a b where "a = length (dec_of_nat (nat n))" and "b = length (dec_of_nat (nat m))"
  define e where "e = int a - int b"
  have de: "dec_exponent x = (if pow10 e \<le> x then e else e - 1)"
    by (simp add: dec_exponent_def q e_def a_def b_def)
  have ab: "0 < a" "0 < b" by (simp_all add: a_def b_def)
  have bn: "10 ^ (a - 1) \<le> nat n" "nat n < 10 ^ a" and bm: "10 ^ (b - 1) \<le> nat m" "nat m < 10 ^ b"
    using length_dec[of "nat n"] length_dec[of "nat m"] n m by (simp_all add: a_def b_def)
  have "of_nat (10 ^ (a - 1)) \<le> (of_nat (nat n) :: rat)" "of_nat (nat n) < (of_nat (10 ^ a) :: rat)"
    "of_nat (10 ^ (b - 1)) \<le> (of_nat (nat m) :: rat)" "of_nat (nat m) < (of_nat (10 ^ b) :: rat)"
    using bn bm by (simp_all only: of_nat_le_iff of_nat_less_iff)
  then have r: "10 ^ (a - 1) \<le> (of_int n :: rat)" "of_int n < (10 ^ a :: rat)"
    "10 ^ (b - 1) \<le> (of_int m :: rat)" "of_int m < (10 ^ b :: rat)"
    using n m by simp_all
  have mp: "(0::rat) < of_int m" using m by simp
  have "of_int n / of_int m < (10 ^ a / 10 ^ (b - 1) :: rat)"
    using r mp n by (intro frac_less) simp_all
  moreover have "e + 1 = int a - int (b - 1)" using ab by (simp add: e_def)
  ultimately have up: "x < pow10 (e + 1)" by (simp only: pow10_diff x)
  have "(10 ^ (a - 1) / 10 ^ b :: rat) < of_int n / of_int m"
    using r mp by (intro frac_less2) simp_all
  moreover have "e - 1 = int (a - 1) - int b" using ab by (simp add: e_def)
  ultimately have lo: "pow10 (e - 1) < x" by (simp only: pow10_diff x)
  show "pow10 (dec_exponent x) \<le> x" "x < pow10 (dec_exponent x + 1)" using up lo by (auto simp: de)
qed

lemma significant_bounds:
  assumes "0 < x" "0 < prec" "significant prec x = (v, e)"
  shows "10 ^ (prec - 1) \<le> v" "v < 10 ^ prec"
    "\<bar>of_nat v * pow10 (e - int prec + 1) - x\<bar> \<le> x * pow10 (1 - int prec) / 2"
    "e = dec_exponent x \<or> e = dec_exponent x + 1"
proof -
  define d where "d = dec_exponent x"
  define y where "y = x * pow10 (int prec - 1 - d)"
  define w where "w = nat (rne y)"
  have ve: "(v, e) = (if w = 10 ^ prec then (10 ^ (prec - 1), d + 1) else (w, d))"
    unfolding assms(3)[symmetric] significant_def Let_def w_def y_def d_def by (rule refl)
  have b: "pow10 d \<le> x" "x < pow10 (d + 1)" using dec_exponent_bounds[OF assms(1)] by (simp_all add: d_def)
  have pp: "pow10 (int prec - 1) = 10 ^ (prec - 1)" using pow10_nat[of "prec - 1"] assms(2) by (simp add: of_nat_diff)
  have sp: "pow10 d * pow10 (int prec - 1 - d) = 10 ^ (prec - 1)"
    using pow10_add[of d "int prec - 1 - d"] pp by simp
  have sp1: "pow10 (d + 1) * pow10 (int prec - 1 - d) = 10 ^ prec"
    using pow10_add[of "d + 1" "int prec - 1 - d"] pow10_nat[of prec] by simp
  have "10 ^ (prec - 1) \<le> y" using b(1) unfolding y_def sp[symmetric] by simp
  then have y: "of_int (10 ^ (prec - 1)) \<le> y" by simp
  have "y < 10 ^ prec" using b(2) unfolding y_def sp1[symmetric] by simp
  then have y': "y < of_int (10 ^ prec)" by simp
  have "(10::int) ^ (prec - 1) \<le> \<lfloor>y\<rfloor>" using y by (simp only: le_floor_iff)
  moreover have "\<lfloor>y\<rfloor> < (10::int) ^ prec" using y' by (simp only: floor_less_iff)
  ultimately have rb: "10 ^ (prec - 1) \<le> rne y" "rne y \<le> 10 ^ prec"
    unfolding rne_def Let_def by (simp_all split: if_split)
  have ten: "(0::int) \<le> 10 ^ (prec - 1)" by simp
  have wr: "int w = rne y" using rb ten unfolding w_def by linarith
  have wb: "10 ^ (prec - 1) \<le> w" "w \<le> 10 ^ prec"
    using rb unfolding wr[symmetric] by (simp_all flip: of_nat_power_eq_of_nat_cancel_iff add: of_nat_power[symmetric] del: of_nat_power)
  have p10: "(10::nat) ^ (prec - 1) < 10 ^ prec" using assms(2) by (intro power_strict_increasing) simp_all
  show "10 ^ (prec - 1) \<le> v" "v < 10 ^ prec" "e = dec_exponent x \<or> e = dec_exponent x + 1"
    using ve wb p10 by (auto simp: d_def split: if_splits)
  have ten': "(10::rat) ^ prec = 10 * 10 ^ (prec - 1)" using assms(2) by (cases prec) simp_all
  have sc: "of_nat v * pow10 (e - int prec + 1) = of_int (rne y) * pow10 (d - int prec + 1)"
  proof (cases "w = 10 ^ prec")
    case True
    then have "pow10 (e - int prec + 1) = 10 * pow10 (d - int prec + 1)"
      using ve pow10_add[of 1 "d - int prec + 1"] pow10_nat[of 1] by (simp add: algebra_simps)
    moreover have "of_int (rne y) = (10 ^ prec :: rat)" using True wr by (metis of_int_of_nat_eq of_nat_numeral of_nat_power)
    ultimately show ?thesis using True ve ten' by simp
  next
    case False
    then show ?thesis using ve wr by (metis of_int_of_nat_eq prod.inject)
  qed
  have un: "pow10 (int prec - 1 - d) * pow10 (d - int prec + 1) = 1"
    using pow10_add[of "int prec - 1 - d" "d - int prec + 1"] by simp
  have "x = y * pow10 (d - int prec + 1)" by (simp add: y_def mult.assoc un)
  then have "of_nat v * pow10 (e - int prec + 1) - x = (of_int (rne y) - y) * pow10 (d - int prec + 1)"
    using sc by (simp add: left_diff_distrib)
  then have "\<bar>of_nat v * pow10 (e - int prec + 1) - x\<bar> = \<bar>of_int (rne y) - y\<bar> * pow10 (d - int prec + 1)"
    by (simp add: abs_mult abs_of_pos)
  also have "\<dots> \<le> 1 / 2 * pow10 (d - int prec + 1)"
    using rne_error[of y] by (intro mult_right_mono) (simp_all add: less_imp_le)
  also have "\<dots> = pow10 d * pow10 (1 - int prec) / 2" using pow10_add[of d "1 - int prec"] by (simp add: algebra_simps)
  also have "\<dots> \<le> x * pow10 (1 - int prec) / 2" using b(1) by (simp add: mult_right_mono less_imp_le)
  finally show "\<bar>of_nat v * pow10 (e - int prec + 1) - x\<bar> \<le> x * pow10 (1 - int prec) / 2" .
qed

lemma fmt_g_text:
  assumes "x \<noteq> 0" "0 < prec" "significant prec \<bar>x\<bar> = (v, e)"
  shows "number_text (x < 0) (of_nat v * pow10 (e - int prec + 1)) (fmt_g prec x)"
proof -
  define ds where "ds = dec_of_nat v"
  have b: "10 ^ (prec - 1) \<le> v" "v < 10 ^ prec" using significant_bounds(1,2)[OF _ assms(2,3)] assms(1) by simp_all
  have l: "length ds = prec" unfolding ds_def by (rule length_dec_eq[OF b assms(2)])
  have d: "\<forall>c\<in>set ds. c_isdigit c" by (simp add: ds_def dec_of_nat_digits)
  have v: "digits_value 10 0 ds = v" by (simp add: ds_def dec_of_nat_value)
  have f: "fmt_g prec x =
    sign_text (x < 0) @
      (if - 4 \<le> e \<and> e < int prec
       then if 0 \<le> e then with_fraction (take (nat e + 1) ds) (drop (nat e + 1) ds)
            else with_fraction ''0'' (replicate (nat (- e) - 1) (CHR ''0'') @ ds)
       else with_fraction (take 1 ds) (drop 1 ds) @ fmt_exponent e)"
    using assms(1) by (simp add: fmt_g_def assms(3) ds_def sign_text_def Let_def)
  have z: "c_isdigit (CHR ''0'')" "digit_val (CHR ''0'') = Some 0" by code_simp+
  consider (fixed) "0 \<le> e" "e < int prec" | (small) "- 4 \<le> e" "e < 0" | (large) "\<not> (- 4 \<le> e \<and> e < int prec)"
    by linarith
  then show ?thesis
  proof cases
    case fixed
    let ?ip = "take (nat e + 1) ds" and ?fp = "drop (nat e + 1) ds"
    have "dec_value ?ip ?fp = of_nat v * pow10 (e - int prec + 1)"
      using fixed by (simp add: dec_value_def v l of_nat_diff algebra_simps)
    moreover have "?ip \<noteq> []" "\<forall>c\<in>set (?ip @ ?fp). c_isdigit c" using l assms(2) d by auto
    moreover have "exponent_text 0 []" by (simp add: exponent_text_def)
    moreover have "fmt_g prec x = sign_text (x < 0) @ with_fraction ?ip ?fp @ []" using fixed by (simp add: f)
    ultimately show ?thesis unfolding number_text_def by (metis mult.right_neutral pow10_0)
  next
    case small
    let ?fp = "replicate (nat (- e) - 1) (CHR ''0'') @ ds"
    have "dec_value ''0'' ?fp = of_nat v * pow10 (e - int prec + 1)"
      using small by (simp add: dec_value_def z v l digits_value_append digits_value_zeros of_nat_diff algebra_simps)
    moreover have "\<forall>c\<in>set (''0'' @ ?fp). c_isdigit c" using d z by auto
    moreover have "exponent_text 0 []" by (simp add: exponent_text_def)
    moreover have "fmt_g prec x = sign_text (x < 0) @ with_fraction ''0'' ?fp @ []" using small by (simp add: f)
    ultimately show ?thesis unfolding number_text_def by (metis list.distinct(1) mult.right_neutral pow10_0)
  next
    case large
    let ?ip = "take 1 ds" and ?fp = "drop 1 ds"
    have "pow10 (1 - int prec) * pow10 e = pow10 (e - int prec + 1)"
      using pow10_add[of "1 - int prec" e] by (simp add: algebra_simps)
    moreover have "dec_value ?ip ?fp = of_nat v * pow10 (1 - int prec)"
      using assms(2) by (simp add: dec_value_def v l of_nat_diff del: drop_Suc)
    ultimately have "of_nat v * pow10 (e - int prec + 1) = dec_value ?ip ?fp * pow10 e" by (simp add: mult.assoc)
    moreover have "?ip \<noteq> []" "\<forall>c\<in>set (?ip @ ?fp). c_isdigit c" using l assms(2) d by auto
    moreover have "exponent_text e (fmt_exponent e)" by (simp add: exponent_text_def)
    moreover have "fmt_g prec x = sign_text (x < 0) @ with_fraction ?ip ?fp @ fmt_exponent e"
      by (simp only: f if_not_P[OF large])
    ultimately show ?thesis unfolding number_text_def by blast
  qed
qed

text \<open>The double \<open>strtod\<close> reads from a number printed with \<open>prec\<close> digits.\<close>

definition printed :: "nat \<Rightarrow> dbl \<Rightarrow> rat" where
  "printed prec x = (let (v, e) = significant prec \<bar>x\<bar>
                     in (if x < 0 then - 1 else 1) * (of_nat v * pow10 (e - int prec + 1)))"

lemma scan_fmt_g:
  assumes "x \<noteq> 0" "0 < prec"
  shows "scan_double (fmt_g prec x) = Some (fl (printed prec x), [])"
    "\<forall>c\<in>set (fmt_g prec x). number_char c"
    "fmt_g prec x \<noteq> [] \<and> (hd (fmt_g prec x) = CHR ''-'' \<or> c_isdigit (hd (fmt_g prec x)))"
    "\<bar>printed prec x - x\<bar> \<le> \<bar>x\<bar> * pow10 (1 - int prec) / 2"
proof -
  obtain v e where s: "significant prec \<bar>x\<bar> = (v, e)" by fastforce
  note t = fmt_g_text[OF assms s]
  show "scan_double (fmt_g prec x) = Some (fl (printed prec x), [])"
    using scan_number_text[OF t] by (simp add: printed_def s)
  show "\<forall>c\<in>set (fmt_g prec x). number_char c" using t by (rule number_text_chars)
  show "fmt_g prec x \<noteq> [] \<and> (hd (fmt_g prec x) = CHR ''-'' \<or> c_isdigit (hd (fmt_g prec x)))"
    using t by (rule number_text_head)
  have "\<bar>of_nat v * pow10 (e - int prec + 1) - \<bar>x\<bar>\<bar> \<le> \<bar>x\<bar> * pow10 (1 - int prec) / 2"
    using significant_bounds(3)[OF _ assms(2) s] assms(1) by simp
  then show "\<bar>printed prec x - x\<bar> \<le> \<bar>x\<bar> * pow10 (1 - int prec) / 2"
    unfolding printed_def s Let_def prod.case by (cases "x < 0") (simp_all add: abs_minus_commute)
qed

text \<open>Seventeen digits are enough: the text reads back as the very double it was printed from.\<close>

lemma seventeen_digits:
  assumes "is_dbl d" "d \<noteq> 0"
  shows "fl (printed 17 d) = d"
proof -
  define p where "p = (if d < 0 then - printed 17 d else printed 17 d)"
  have "\<bar>printed 17 d - d\<bar> \<le> \<bar>d\<bar> * pow10 (- 16) / 2" using scan_fmt_g(4)[OF assms(2), of 17] by simp
  moreover have "pow10 (- 16) = 1 / 10 ^ 16" by (simp add: pow10_def)
  ultimately have "\<bar>printed 17 d - d\<bar> \<le> \<bar>d\<bar> / (2 * 10 ^ 16)" by simp
  moreover have "\<bar>d\<bar> / (2 * 10 ^ 16) < \<bar>d\<bar> / 2 ^ 54" using assms(2) by simp
  ultimately have "\<bar>p - \<bar>d\<bar>\<bar> < \<bar>d\<bar> / 2 ^ 54" by (auto simp: p_def abs_if split: if_splits)
  moreover have "is_dbl \<bar>d\<bar>"
  proof -
    from assms(1) obtain m e where "d = of_int m * pow2 e" "\<bar>m\<bar> \<le> 2 ^ 53" by (auto simp: is_dbl_def)
    then show ?thesis unfolding is_dbl_def by (intro exI[of _ "\<bar>m\<bar>"] exI[of _ e]) (simp add: abs_mult abs_of_pos)
  qed
  ultimately have "fl p = \<bar>d\<bar>" using assms(2) by (intro fl_near) simp_all
  then show ?thesis using fl_neg[of "printed 17 d"] by (auto simp: p_def split: if_splits)
qed

section \<open>Printing and reading a number\<close>

text \<open>The doubles of the code that are zero or normal, whose exponent has three digits.\<close>

definition normal_double :: "dbl \<Rightarrow> bool" where
  "normal_double d \<longleftrightarrow> is_dbl d \<and> (d = 0 \<or> 1 / 2 ^ 1022 \<le> \<bar>d\<bar> \<and> \<bar>d\<bar> < 2 ^ 1024)"

lemma normal_exponent:
  assumes "normal_double d" "d \<noteq> 0"
  shows "\<bar>dec_exponent \<bar>d\<bar>\<bar> \<le> 308"
proof -
  have x: "0 < \<bar>d\<bar>" using assms(2) by simp
  note b = dec_exponent_bounds[OF x]
  let ?e = "dec_exponent \<bar>d\<bar>"
  have r: "1 / 2 ^ 1022 \<le> \<bar>d\<bar>" "\<bar>d\<bar> < 2 ^ 1024" using assms by (simp_all add: normal_double_def)
  have p: "pow10 (- 308) = 1 / 10 ^ 308" "pow10 309 = 10 ^ 309" by (simp_all add: pow10_def)
  have "(1 / 10 ^ 308 :: rat) \<le> 1 / 2 ^ 1022" "(2 ^ 1024 :: rat) \<le> 10 ^ 309" by simp_all
  then have "pow10 (- 308) < pow10 (?e + 1)" "pow10 ?e < pow10 309" using b r p by linarith+
  then have "\<not> ?e + 1 \<le> - 308" "\<not> 309 \<le> ?e" using pow10_mono by (meson not_less)+
  then show ?thesis by linarith
qed

lemma length_strip: "length (strip_zeros f) \<le> length f"
  using length_dropWhile_le[of "\<lambda>c. c = CHR ''0''" "rev f"] by (simp add: strip_zeros_def)

lemma length_fraction: "length (with_fraction ip f) \<le> length ip + 1 + length f"
  using length_strip[of f] by (simp add: with_fraction_def Let_def)

lemma length_dec_le: "n < 10 ^ k \<Longrightarrow> 0 < k \<Longrightarrow> length (dec_of_nat n) \<le> k"
proof (cases "n = 0")
  case True
  have "dec_of_nat 0 = ''0''" unfolding dec_of_nat_def by (subst print_base.simps) simp
  then show "0 < k \<Longrightarrow> length (dec_of_nat n) \<le> k" unfolding True by simp
next
  case False
  assume a: "n < 10 ^ k" "0 < k"
  have "(10::nat) ^ (length (dec_of_nat n) - 1) < 10 ^ k" using length_dec[of n] False a by linarith
  then have "length (dec_of_nat n) - 1 < k" by (simp only: power_strict_increasing_iff[of "10::nat"])
  with a(2) show "length (dec_of_nat n) \<le> k" by linarith
qed

lemma length_exponent: "\<bar>e\<bar> < 1000 \<Longrightarrow> length (fmt_exponent e) \<le> 5"
  using length_dec_le[of "nat \<bar>e\<bar>" 3] by (simp add: fmt_exponent_def pad_left_def nat_less_iff)

lemma length_fmt_g:
  assumes "normal_double d" "d \<noteq> 0" "4 < prec" "prec \<le> 17"
  shows "length (fmt_g prec d) \<le> 25"
proof -
  obtain v e where s: "significant prec \<bar>d\<bar> = (v, e)" by fastforce
  define ds where "ds = dec_of_nat v"
  have b: "10 ^ (prec - 1) \<le> v" "v < 10 ^ prec" and e: "\<bar>e\<bar> \<le> 309"
    using significant_bounds(1,2,4)[OF _ _ s] normal_exponent[OF assms(1,2)] assms(2,3) by auto
  have l: "length ds = prec" unfolding ds_def using assms(3) by (intro length_dec_eq[OF b]) simp
  define body where "body = (if - 4 \<le> e \<and> e < int prec
       then if 0 \<le> e then with_fraction (take (nat e + 1) ds) (drop (nat e + 1) ds)
            else with_fraction ''0'' (replicate (nat (- e) - 1) (CHR ''0'') @ ds)
       else with_fraction (take 1 ds) (drop 1 ds) @ fmt_exponent e)"
  have "length body \<le> 24"
  proof -
    have 1: "length (with_fraction (take n ds) (drop n ds)) \<le> 18" for n
      using length_fraction[of "take n ds" "drop n ds"] l assms(4) by simp
    have 2: "length (with_fraction ''0'' (replicate (nat (- e) - 1) (CHR ''0'') @ ds)) \<le> 22" if "- 4 \<le> e"
      using length_fraction[of "''0''" "replicate (nat (- e) - 1) (CHR ''0'') @ ds"] l assms(4) that by simp
    have 3: "length (fmt_exponent e) \<le> 5" using e by (intro length_exponent) simp
    show ?thesis using 1[of "nat e + 1"] 2 1[of 1] 3 by (auto simp: body_def l simp del: One_nat_def)
  qed
  moreover have "fmt_g prec d = sign_text (d < 0) @ body"
    using assms(2) by (simp add: fmt_g_def s ds_def sign_text_def body_def Let_def)
  ultimately show ?thesis by (simp add: sign_text_def)
qed

lemma dec_of_int_text: "number_text (i < 0) (of_int \<bar>i\<bar>) (dec_of_int i)"
proof -
  have "dec_value (dec_of_nat n) [] = of_nat n" for n by (simp add: dec_value_def dec_of_nat_value)
  then have "dec_value (dec_of_nat (nat \<bar>i\<bar>)) [] * pow10 0 = of_int \<bar>i\<bar>" by simp
  moreover have "dec_of_int i = sign_text (i < 0) @ with_fraction (dec_of_nat (nat \<bar>i\<bar>)) [] @ []"
    by (simp add: dec_of_int_def sign_text_def with_fraction_def strip_zeros_def)
  moreover have "exponent_text 0 []" by (simp add: exponent_text_def)
  ultimately show ?thesis unfolding number_text_def using dec_of_nat_digits dec_of_nat_nonempty
    by (metis append_Nil2)
qed

lemma scan_dec_of_int:
  "scan_double (dec_of_int i) = Some (dbl_of_int i, [])" "\<forall>c\<in>set (dec_of_int i). number_char c"
  "dec_of_int i \<noteq> [] \<and> (hd (dec_of_int i) = CHR ''-'' \<or> c_isdigit (hd (dec_of_int i)))"
  using scan_number_text[OF dec_of_int_text[of i]] number_text_chars[OF dec_of_int_text[of i]]
    number_text_head[OF dec_of_int_text[of i]]
  by (auto simp: dbl_of_int_def)

lemma length_dec_int: "\<bar>i\<bar> < 10 ^ 19 \<Longrightarrow> length (dec_of_int i) \<le> 20"
  using length_dec_le[of "nat \<bar>i\<bar>" 19] by (simp add: dec_of_int_def nat_less_iff abs_if split: if_splits)

text \<open>What a number reads back as: itself, or what its 15 digits denote if that is close enough.\<close>

definition reread :: "dbl \<Rightarrow> dbl" where
  "reread d = (if d = dbl_of_int (saturate d) then d
               else if compare_double (fl (printed 15 d)) d then fl (printed 15 d) else d)"

lemma print_number_reread:
  assumes "normal_double d"
  obtains s where "print_number d = Some s" "\<forall>c\<in>set s. number_char c" "length s \<le> 25"
    "scan_double s = Some (reread d, [])"
    "s \<noteq> [] \<and> (hd s = CHR ''-'' \<or> c_isdigit (hd s))"
proof (cases "d = dbl_of_int (saturate d)")
  case True
  have "\<bar>saturate d\<bar> < 10 ^ 19" using saturate_range[of d] by (simp add: LLONG_MIN_def LLONG_MAX_def abs_if)
  then have "length (dec_of_int (saturate d)) \<le> 20" by (rule length_dec_int)
  then show ?thesis using True scan_dec_of_int[of "saturate d"]
    by (intro that[of "dec_of_int (saturate d)"]) (simp_all add: print_number_def reread_def Let_def)
next
  case False
  have d0: "d \<noteq> 0"
  proof
    assume "d = 0"
    with False show False by (simp add: saturate_def trunc_def dbl_of_int_def)
  qed
  have dd: "is_dbl d" using assms by (simp add: normal_double_def)
  define n :: nat where "n = (if compare_double (fl (printed 15 d)) d then 15 else 17)"
  have "print_number d = Some (fmt_g n d)"
    using False length_fmt_g[OF assms d0, of 15] length_fmt_g[OF assms d0, of 17] scan_fmt_g(1)[OF d0, of 15]
    by (simp add: print_number_def Let_def n_def)
  moreover have "scan_double (fmt_g n d) = Some (reread d, [])"
    using False scan_fmt_g(1)[OF d0, of n] seventeen_digits[OF dd d0] by (simp add: reread_def n_def)
  ultimately show ?thesis
    using scan_fmt_g(2,3)[OF d0, of n] length_fmt_g[OF assms d0, of n]
    by (intro that[of "fmt_g n d"]) (simp_all add: n_def)
qed

lemma parse_number_text:
  assumes "\<forall>c\<in>set s. number_char c" "length s \<le> 63" "scan_double s = Some (x, [])"
    "r = [] \<or> \<not> number_char (hd r)"
  shows "parse_number (s @ r) = Some (x, r)"
proof -
  have "takeWhile number_char (s @ r) = s" using assms(1,4) by (cases r) (simp_all add: takeWhile_append)
  then show ?thesis using assms(2,3) by (simp add: parse_number_def)
qed

lemma reread_integer: "\<bar>i\<bar> \<le> 2 ^ 53 \<Longrightarrow> reread (of_int i) = of_int i"
  using saturate_int[of i] dbl_of_int_exact[of i] by (simp add: reread_def)

end
