(* ===== verification/Json_Text.thy ===== *)
theory Json_Text
  imports Json_Number
begin

text \<open>
  JSON text: the printer and the parser of \<open>cjson.c\<close>. The parser works on the input that is left,
  whose last character is the terminating NUL the code counts in the buffer's length; the printer
  returns what it has written. The printer returns \<open>None\<close> where the code does (a number too long for
  its buffer), the parser where it fails; allocation always succeeds. A string of a tree is what its
  users see of it, the characters before the first NUL. The lemmas show that the parser accepts
  what the printer writes, and that both stay within the space they allocate.
\<close>

unbundle bit_operations_syntax

abbreviation (input) QUOTE :: char where "QUOTE \<equiv> CHR 0x22"
abbreviation (input) BACKSLASH :: char where "BACKSLASH \<equiv> CHR 0x5C"
abbreviation (input) NUL :: char where "NUL \<equiv> CHR 0x00"

definition CJSON_NESTING_LIMIT :: nat where "CJSON_NESTING_LIMIT = 1000"

section \<open>Printing\<close>

definition one_char_escapes :: "(char \<times> char) list" where
  "one_char_escapes =
     [(BACKSLASH, BACKSLASH), (QUOTE, QUOTE), (CHR 0x08, CHR ''b''), (CHR 0x0C, CHR ''f''),
      (CHR 0x0A, CHR ''n''), (CHR 0x0D, CHR ''r''), (CHR 0x09, CHR ''t'')]"

text \<open>The number of additional characters needed for escaping, and the escaped form.\<close>

fun escape_characters :: "string \<Rightarrow> nat" where
  "escape_characters [] = 0"
| "escape_characters (c # cs) =
     (if map_of one_char_escapes c \<noteq> None then 1 else if ascii c < 32 then 5 else 0)
     + escape_characters cs"

definition escape :: "char \<Rightarrow> string" where
  "escape c =
     (if ascii c > 31 \<and> c \<noteq> QUOTE \<and> c \<noteq> BACKSLASH then [c]
      else
        (case map_of one_char_escapes c of
           Some e \<Rightarrow> [BACKSLASH, e]
         | None \<Rightarrow> BACKSLASH # CHR ''u'' # pad_left (CHR ''0'') 4 (print_base 16 (ascii c))))"

definition print_string_ptr :: "string \<Rightarrow> string" where
  "print_string_ptr input =
     (if escape_characters input = 0 then QUOTE # input @ [QUOTE]
      else QUOTE # concat (map escape input) @ [QUOTE])"

text \<open>With \<open>format\<close>, members stand on lines of their own, indented by the depth.\<close>

fun print_value :: "bool \<Rightarrow> nat \<Rightarrow> cJSON \<Rightarrow> string option"
and print_elements :: "bool \<Rightarrow> nat \<Rightarrow> cJSON list \<Rightarrow> string option"
and print_members :: "bool \<Rightarrow> nat \<Rightarrow> (string \<times> cJSON) list \<Rightarrow> string option" where
  "print_value format depth J_Null = Some ''null''"
| "print_value format depth (J_Bool b) = Some (if b then ''true'' else ''false'')"
| "print_value format depth (J_Number d) = print_number d"
| "print_value format depth (J_String s) = Some (print_string_ptr s)"
| "print_value format depth (J_Array xs) =
     (case print_elements format (depth + 1) xs of
        None \<Rightarrow> None
      | Some s \<Rightarrow> Some (''['' @ s @ '']''))"
| "print_value format depth (J_Object kvs) =
     (case print_members format (depth + 1) kvs of
        None \<Rightarrow> None
      | Some s \<Rightarrow> Some (''{'' @ (if format then [CHR 0x0A] else []) @ s @
                        (if format then replicate depth (CHR 0x09) else []) @ ''}''))"
| "print_elements format depth [] = Some []"
| "print_elements format depth (x # xs) =
     (case print_value format depth x of
        None \<Rightarrow> None
      | Some s \<Rightarrow>
          (case print_elements format depth xs of
             None \<Rightarrow> None
           | Some t \<Rightarrow> Some (s @ (if xs = [] then [] else if format then '', '' else '','') @ t)))"
| "print_members format depth [] = Some []"
| "print_members format depth ((k, x) # kvs) =
     (case print_value format depth x of
        None \<Rightarrow> None
      | Some s \<Rightarrow>
          (case print_members format depth kvs of
             None \<Rightarrow> None
           | Some t \<Rightarrow>
               Some ((if format then replicate depth (CHR 0x09) else []) @ print_string_ptr k @
                     '':'' @ (if format then [CHR 0x09] else []) @ s @
                     (if kvs = [] then [] else '','') @ (if format then [CHR 0x0A] else []) @ t)))"

definition cJSON_Print :: "cJSON \<Rightarrow> string option" where
  "cJSON_Print item = print_value True 0 item"

definition cJSON_PrintUnformatted :: "cJSON \<Rightarrow> string option" where
  "cJSON_PrintUnformatted item = print_value False 0 item"

section \<open>Parsing\<close>

text \<open>\<open>buffer_skip_whitespace\<close>: at the end of the buffer it steps back onto the last character.\<close>

definition skip_ws :: "string \<Rightarrow> string" where
  "skip_ws s =
     (if s = [] then []
      else (let r = dropWhile (\<lambda>c. ascii c \<le> 32) s in if r = [] then [last s] else r))"

definition skip_utf8_bom :: "string \<Rightarrow> string" where
  "skip_utf8_bom s =
     (if 4 < length s \<and> take 3 s = [CHR 0xEF, CHR 0xBB, CHR 0xBF] then drop 3 s else s)"

definition parse_hex4 :: "string \<Rightarrow> nat" where
  "parse_hex4 s =
     (if list_all (is_digit_of 16) (take 4 s) then digits_value 16 0 (take 4 s) else 0)"

text \<open>The loop that writes the last bytes of a UTF-8 sequence, from the end.\<close>

fun utf8_tail :: "nat \<Rightarrow> nat \<Rightarrow> string \<Rightarrow> nat \<times> string" where
  "utf8_tail 0 codepoint out = (codepoint, out)"
| "utf8_tail (Suc n) codepoint out =
     utf8_tail n (drop_bit 6 codepoint) (char_of ((codepoint OR 0x80) AND 0xBF) # out)"

definition utf8_encode :: "nat \<Rightarrow> string option" where
  "utf8_encode codepoint =
     (if codepoint < 0x80 then Some [char_of (codepoint AND 0x7F)]
      else
        (case (if codepoint < 0x800 then Some (2, 0xC0)
               else if codepoint < 0x10000 then Some (3, 0xE0)
               else if codepoint \<le> 0x10FFFF then Some (4, 0xF0)
               else None) of
           None \<Rightarrow> None
         | Some (utf8_length, first_byte_mark) \<Rightarrow>
             (let (cp, out) = utf8_tail (utf8_length - 1) codepoint []
              in Some (char_of ((cp OR first_byte_mark) AND 0xFF) # out))))"

text \<open>The length of the escape sequence and the bytes it stands for.\<close>

definition utf16_literal_to_utf8 :: "string \<Rightarrow> (nat \<times> string) option" where
  "utf16_literal_to_utf8 s =
     (if length s < 6 then None
      else
        (let first_code = parse_hex4 (drop 2 s)
         in if 0xDC00 \<le> first_code \<and> first_code \<le> 0xDFFF then None
            else if 0xD800 \<le> first_code \<and> first_code \<le> 0xDBFF then
              (let second_sequence = drop 6 s
               in if length second_sequence < 6 then None
                  else if take 2 second_sequence \<noteq> [BACKSLASH, CHR ''u''] then None
                  else
                    (let second_code = parse_hex4 (drop 2 second_sequence)
                     in if second_code < 0xDC00 \<or> second_code > 0xDFFF then None
                        else map_option (Pair 12)
                               (utf8_encode (0x10000 + (push_bit 10 (first_code AND 0x3FF)
                                                        OR (second_code AND 0x3FF))))))
            else map_option (Pair 6) (utf8_encode first_code)))"

text \<open>The characters of a string literal up to its closing quote, and the input after that.\<close>

fun scan_literal :: "string \<Rightarrow> (string \<times> string) option" where
  "scan_literal [] = None"
| "scan_literal (c # r) =
     (if c = QUOTE then Some ([], r)
      else if c = BACKSLASH then
        (case r of
           [] \<Rightarrow> None
         | d # r' \<Rightarrow> map_option (\<lambda>(t, q). (c # d # t, q)) (scan_literal r'))
      else map_option (\<lambda>(t, q). (c # t, q)) (scan_literal r))"

fun skipped_bytes :: "string \<Rightarrow> nat" where
  "skipped_bytes [] = 0"
| "skipped_bytes (c # r) =
     (if c = BACKSLASH then 1 + (case r of [] \<Rightarrow> 0 | _ # r' \<Rightarrow> skipped_bytes r')
      else skipped_bytes r)"

definition allocation_length :: "string \<Rightarrow> nat" where
  "allocation_length literal = length literal + 1 - skipped_bytes literal"

definition simple_escapes :: "(char \<times> char) list" where
  "simple_escapes =
     [(CHR ''b'', CHR 0x08), (CHR ''f'', CHR 0x0C), (CHR ''n'', CHR 0x0A), (CHR ''r'', CHR 0x0D),
      (CHR ''t'', CHR 0x09), (QUOTE, QUOTE), (BACKSLASH, BACKSLASH), (CHR ''/'', CHR ''/'')]"

text \<open>A backslash that is the last character reads the closing quote as the character it escapes.\<close>

fun unescape :: "string \<Rightarrow> string option" where
  "unescape [] = Some []"
| "unescape (c # r) =
     (if c \<noteq> BACKSLASH then map_option ((#) c) (unescape r)
      else
        (case r of
           [] \<Rightarrow> Some [QUOTE]
         | d # r' \<Rightarrow>
             (case map_of simple_escapes d of
                Some e \<Rightarrow> map_option ((#) e) (unescape r')
              | None \<Rightarrow>
                  if d = CHR ''u'' then
                    (case utf16_literal_to_utf8 (c # r) of
                       None \<Rightarrow> None
                     | Some (sequence_length, bytes) \<Rightarrow>
                         map_option ((@) bytes) (unescape (drop (sequence_length - 1) r)))
                  else None)))"

text \<open>What the loop has put into the buffer when it ends, at the end of the literal or at an escape
sequence that is none; a sequence is checked before its bytes are written.\<close>

fun unescaped_bytes :: "string \<Rightarrow> string" where
  "unescaped_bytes [] = []"
| "unescaped_bytes (c # r) =
     (if c \<noteq> BACKSLASH then c # unescaped_bytes r
      else
        (case r of
           [] \<Rightarrow> [QUOTE]
         | d # r' \<Rightarrow>
             (case map_of simple_escapes d of
                Some e \<Rightarrow> e # unescaped_bytes r'
              | None \<Rightarrow>
                  if d = CHR ''u'' then
                    (case utf16_literal_to_utf8 (c # r) of
                       None \<Rightarrow> []
                     | Some (sequence_length, bytes) \<Rightarrow>
                         bytes @ unescaped_bytes (drop (sequence_length - 1) r))
                  else [])))"

definition c_text :: "string \<Rightarrow> string" where
  "c_text s = takeWhile (\<lambda>c. c \<noteq> NUL) s"

definition parse_string :: "string \<Rightarrow> (string \<times> string) option" where
  "parse_string s =
     (case s of
        [] \<Rightarrow> None
      | c # r \<Rightarrow>
          if c \<noteq> QUOTE then None
          else
            (case scan_literal r of
               None \<Rightarrow> None
             | Some (literal, rest) \<Rightarrow> map_option (\<lambda>out. (c_text out, rest)) (unescape literal)))"

text \<open>The loops over the elements and the members, with the parser of a value as argument. A value
takes at least one character, so the comparison of lengths never fails; it makes the loops total.\<close>

function parse_elements ::
  "(string \<Rightarrow> (cJSON \<times> string) option) \<Rightarrow> string \<Rightarrow> (cJSON list \<times> string) option" where
  "parse_elements value s =
     (case value (skip_ws s) of
        None \<Rightarrow> None
      | Some (x, s1) \<Rightarrow>
          (case skip_ws s1 of
             [] \<Rightarrow> None
           | c # s2 \<Rightarrow>
               if c = CHR '','' then
                 (if length s2 < length s
                  then map_option (\<lambda>(xs, r). (x # xs, r)) (parse_elements value s2) else None)
               else if c = CHR '']'' then Some ([x], s2)
               else None))"
  by pat_completeness auto
termination by (relation "measure (\<lambda>(_, s). length s)") auto

function parse_members ::
  "(string \<Rightarrow> (cJSON \<times> string) option) \<Rightarrow> string \<Rightarrow> ((string \<times> cJSON) list \<times> string) option" where
  "parse_members value s =
     (case parse_string (skip_ws s) of
        None \<Rightarrow> None
      | Some (k, s1) \<Rightarrow>
          (case skip_ws s1 of
             [] \<Rightarrow> None
           | c # s2 \<Rightarrow>
               if c \<noteq> CHR '':'' then None
               else
                 (case value (skip_ws s2) of
                    None \<Rightarrow> None
                  | Some (x, s3) \<Rightarrow>
                      (case skip_ws s3 of
                         [] \<Rightarrow> None
                       | e # s4 \<Rightarrow>
                           if e = CHR '','' then
                             (if length s4 < length s
                              then map_option (\<lambda>(kvs, r). ((k, x) # kvs, r)) (parse_members value s4)
                              else None)
                           else if e = CHR ''}'' then Some ([(k, x)], s4)
                           else None))))"
  by pat_completeness auto
termination by (relation "measure (\<lambda>(_, s). length s)") auto

declare parse_elements.simps [simp del] parse_members.simps [simp del]

definition parse_array ::
  "(string \<Rightarrow> (cJSON \<times> string) option) \<Rightarrow> string \<Rightarrow> (cJSON \<times> string) option" where
  "parse_array value s =
     (case skip_ws s of
        [] \<Rightarrow> None
      | c # r \<Rightarrow>
          if c = CHR '']'' then Some (J_Array [], r)
          else map_option (\<lambda>(xs, q). (J_Array xs, q)) (parse_elements value (c # r)))"

definition parse_object ::
  "(string \<Rightarrow> (cJSON \<times> string) option) \<Rightarrow> string \<Rightarrow> (cJSON \<times> string) option" where
  "parse_object value s =
     (case skip_ws s of
        [] \<Rightarrow> None
      | c # r \<Rightarrow>
          if c = CHR ''}'' then Some (J_Object [], r)
          else map_option (\<lambda>(kvs, q). (J_Object kvs, q)) (parse_members value (c # r)))"

text \<open>\<open>parse_value\<close>, with the parser one level deeper, \<open>None\<close> at the nesting limit.\<close>

definition parse_with ::
  "(string \<Rightarrow> (cJSON \<times> string) option) option \<Rightarrow> string \<Rightarrow> (cJSON \<times> string) option" where
  "parse_with deeper s =
     (if take 4 s = ''null'' then Some (J_Null, drop 4 s)
      else if take 5 s = ''false'' then Some (J_Bool False, drop 5 s)
      else if take 4 s = ''true'' then Some (J_Bool True, drop 4 s)
      else
        (case s of
           [] \<Rightarrow> None
         | c # r \<Rightarrow>
             if c = QUOTE then map_option (\<lambda>(str, q). (J_String str, q)) (parse_string s)
             else if c = CHR ''-'' \<or> c_isdigit c then
               map_option (\<lambda>(d, q). (J_Number d, q)) (parse_number s)
             else if c = CHR ''['' then
               (case deeper of None \<Rightarrow> None | Some value \<Rightarrow> parse_array value r)
             else if c = CHR ''{'' then
               (case deeper of None \<Rightarrow> None | Some value \<Rightarrow> parse_object value r)
             else None))"

primrec parse_value :: "nat \<Rightarrow> string \<Rightarrow> (cJSON \<times> string) option" where
  "parse_value 0 = parse_with None"
| "parse_value (Suc levels) = parse_with (Some (parse_value levels))"

definition cJSON_Parse :: "string \<Rightarrow> cJSON option" where
  "cJSON_Parse text =
     map_option fst
       (parse_value CJSON_NESTING_LIMIT (skip_ws (skip_utf8_bom (c_text text @ [NUL]))))"

section \<open>Strings\<close>

lemma escape_short:
  "ascii c > 31 \<Longrightarrow> c \<noteq> QUOTE \<Longrightarrow> c \<noteq> BACKSLASH \<Longrightarrow> escape c = [c]"
  by (simp add: escape_def)

lemma one_char_escapes_inverse:
  "map_of one_char_escapes c = Some e \<Longrightarrow> map_of simple_escapes e = Some c"
  by (auto simp: one_char_escapes_def simple_escapes_def split: if_splits)

lemma one_char_escapes_cases:
  "map_of one_char_escapes c = Some e \<Longrightarrow> ascii c \<le> 31 \<or> c = QUOTE \<or> c = BACKSLASH"
  "map_of one_char_escapes c = None \<Longrightarrow> c \<noteq> QUOTE \<and> c \<noteq> BACKSLASH"
  by (auto simp: one_char_escapes_def ascii_def split: if_splits)

lemma hex_digit:
  assumes "d < 16"
  shows "digit_val (digit_char d) = Some d" "is_digit_of 16 (digit_char d)" "digit_char d \<noteq> QUOTE"
    "digit_char d \<noteq> BACKSLASH" "digit_char d \<noteq> NUL"
proof -
  have a: "ascii (digit_char d) = (if d < 10 then 48 + d else 87 + d)"
    using assms by (simp add: digit_char_def ascii_def)
  then show "digit_val (digit_char d) = Some d"
    using assms by (simp add: digit_val_def c_isdigit_def c_isupper_def c_islower_def)
  then show "is_digit_of 16 (digit_char d)" using assms by (simp add: is_digit_of_def)
  have "ascii (digit_char d) \<notin> {34, 92, 0}" using assms a by auto
  moreover have "ascii QUOTE = 34" "ascii BACKSLASH = 92" "ascii NUL = 0" by (simp_all add: ascii_def)
  ultimately show "digit_char d \<noteq> QUOTE" "digit_char d \<noteq> BACKSLASH" "digit_char d \<noteq> NUL" by auto
qed

lemma control_hex:
  assumes "ascii c \<le> 31"
  obtains h where "pad_left (CHR ''0'') 4 (print_base 16 (ascii c)) = h" "length h = 4" "parse_hex4 h = ascii c"
    "QUOTE \<notin> set h" "BACKSLASH \<notin> set h" "NUL \<notin> set h"
proof -
  define n where "n = ascii c"
  define h where "h = [digit_char 0, digit_char 0, digit_char (n div 16), digit_char (n mod 16)]"
  have n: "n div 16 < 16" "n mod 16 < 16" using assms by (simp_all add: n_def)
  have "pad_left (CHR ''0'') 4 (print_base 16 n) = h"
  proof (cases "n < 16")
    case True
    then show ?thesis by (subst print_base.simps) (simp add: pad_left_def h_def numeral_3_eq_3)
  next
    case False
    then show ?thesis using n(1)
      by (subst print_base.simps, subst print_base.simps) (simp add: pad_left_def h_def numeral_2_eq_2)
  qed
  moreover have "parse_hex4 h = n"
    using hex_digit(1,2)[OF n(1)] hex_digit(1,2)[OF n(2)] hex_digit(1,2)[of 0]
    by (simp add: parse_hex4_def h_def del: digit_char_simps)
  moreover have "QUOTE \<notin> set h" "BACKSLASH \<notin> set h" "NUL \<notin> set h"
    using hex_digit(3-5)[OF n(1)] hex_digit(3-5)[OF n(2)] by (auto simp: h_def)
  ultimately show thesis by (intro that[of h]) (simp_all add: n_def h_def)
qed

text \<open>The forms an escaped character has.\<close>

lemma escape_cases:
  obtains (plain) "escape c = [c]" "c \<noteq> QUOTE" "c \<noteq> BACKSLASH"
  | (letter) e where "escape c = [BACKSLASH, e]" "map_of simple_escapes e = Some c" "map_of one_char_escapes c = Some e"
  | (control) h where "escape c = BACKSLASH # CHR ''u'' # h" "length h = 4" "parse_hex4 h = ascii c" "ascii c \<le> 31"
      "QUOTE \<notin> set h" "BACKSLASH \<notin> set h" "NUL \<notin> set h"
proof (cases "map_of one_char_escapes c")
  case (Some e)
  then have "escape c = [BACKSLASH, e]" using one_char_escapes_cases(1)[OF Some] by (auto simp: escape_def)
  with Some one_char_escapes_inverse show thesis by (intro letter) auto
next
  case None
  note nq = one_char_escapes_cases(2)[OF None]
  show thesis
  proof (cases "ascii c \<le> 31")
    case True
    show thesis by (rule control_hex[OF True]) (rule control, insert True None, auto simp: escape_def)
  next
    case False
    with nq show thesis by (intro plain) (auto simp: escape_def)
  qed
qed

lemma escaped_length: "length (concat (map escape s)) = length s + escape_characters s"
proof (induction s)
  case (Cons c s)
  have "length (escape c) = 1 + (if map_of one_char_escapes c \<noteq> None then 1 else if ascii c < 32 then 5 else 0)"
  proof (cases "map_of one_char_escapes c")
    case None
    then have n: "c \<noteq> QUOTE \<and> c \<noteq> BACKSLASH" by (rule one_char_escapes_cases)
    show ?thesis
    proof (cases "ascii c \<le> 31")
      case True
      then obtain h where "pad_left (CHR ''0'') 4 (print_base 16 (ascii c)) = h" "length h = 4"
        by (rule control_hex)
      then show ?thesis using True None by (simp add: escape_def)
    qed (use n None in \<open>simp add: escape_def\<close>)
  next
    case (Some e)
    then show ?thesis using one_char_escapes_cases(1)[OF Some] by (auto simp: escape_def)
  qed
  with Cons show ?case by simp
qed simp

text \<open>The two paths of \<open>print_string_ptr\<close> agree.\<close>

lemma print_string_escaped: "print_string_ptr s = QUOTE # concat (map escape s) @ [QUOTE]"
proof -
  have "concat (map escape s) = s" if "escape_characters s = 0"
    using that
  proof (induction s)
    case (Cons c s)
    then have "map_of one_char_escapes c = None" "\<not> ascii c < 32" "escape_characters s = 0"
      by (auto split: if_splits)
    then show ?case using Cons.IH one_char_escapes_cases(2)[of c] by (simp add: escape_def)
  qed simp
  then show ?thesis by (simp add: print_string_ptr_def)
qed

lemma scan_literal_plain: "QUOTE \<notin> set h \<Longrightarrow> BACKSLASH \<notin> set h \<Longrightarrow>
    scan_literal (h @ r) = map_option (\<lambda>(t, q). (h @ t, q)) (scan_literal r)"
  by (induction h) (cases "scan_literal r"; auto)+

lemma scan_escaped: "scan_literal (concat (map escape s) @ QUOTE # r) = Some (concat (map escape s), r)"
proof (induction s)
  case (Cons c s)
  show ?case
  proof (cases c rule: escape_cases)
    case (control h)
    then show ?thesis using Cons scan_literal_plain[of h "concat (map escape s) @ QUOTE # r"] by simp
  qed (use Cons in simp_all)
qed simp

lemma ascii_lt: "ascii c < 256"
  using of_char_mod_256[of c] by (simp add: ascii_def)

lemma utf16_control:
  assumes "length h = 4" "parse_hex4 h = n" "n < 128"
  shows "utf16_literal_to_utf8 (BACKSLASH # CHR ''u'' # h @ r) = Some (6, [char_of n])"
proof -
  have "parse_hex4 (h @ r) = parse_hex4 h" using assms(1) by (simp add: parse_hex4_def)
  moreover have "0x7F = (mask 7 :: nat)" by (simp add: mask_eq_exp_minus_1)
  then have "n AND 0x7F = n" using assms(3) by (simp only: take_bit_eq_mask[symmetric]) (simp add: take_bit_nat_eq_self)
  ultimately show ?thesis using assms by (simp add: utf16_literal_to_utf8_def utf8_encode_def Let_def numeral_2_eq_2)
qed

lemma unescape_escaped: "unescape (concat (map escape s)) = Some s"
proof (induction s)
  case (Cons c s)
  show ?case
  proof (cases c rule: escape_cases)
    case (control h)
    have u: "utf16_literal_to_utf8 (BACKSLASH # CHR ''u'' # h @ r) = Some (6, [c])" for r
      using utf16_control[OF control(2,3)] control(4) by (simp add: ascii_def)
    have m: "map_of simple_escapes (CHR ''u'') = None" by code_simp
    show ?thesis using Cons control(1,2) by (simp add: u m)
  qed (use Cons in simp_all)
qed simp

lemma unescape_no_nul: "NUL \<notin> set s \<Longrightarrow> c_text s = s"
  by (auto simp: c_text_def takeWhile_eq_all_conv)

lemma parse_print_string:
  "NUL \<notin> set s \<Longrightarrow> parse_string (print_string_ptr s @ r) = Some (s, r)"
  by (simp add: print_string_escaped parse_string_def scan_escaped unescape_escaped unescape_no_nul)

section \<open>The space a string takes\<close>

lemma skipped_append:
  "\<exists>k. 2 * k \<le> length h + 1 \<and>
       (skipped_bytes (h @ q) = k + skipped_bytes q \<or> skipped_bytes (h @ q) = k + skipped_bytes (tl q))"
proof (induction h rule: skipped_bytes.induct)
  case (2 c r)
  show ?case
  proof (cases "c = BACKSLASH")
    case True
    show ?thesis
    proof (cases r)
      case Nil
      with True show ?thesis by (intro exI[of _ 1]) (cases q; simp)
    next
      case (Cons d r')
      with 2(1)[OF True Cons] obtain k where "2 * k \<le> length r' + 1"
        "skipped_bytes (r' @ q) = k + skipped_bytes q \<or> skipped_bytes (r' @ q) = k + skipped_bytes (tl q)" by blast
      with True Cons show ?thesis by (intro exI[of _ "Suc k"]) auto
    qed
  next
    case False
    with 2(2) obtain k where "2 * k \<le> length r + 1"
      "skipped_bytes (r @ q) = k + skipped_bytes q \<or> skipped_bytes (r @ q) = k + skipped_bytes (tl q)" by blast
    with False show ?thesis by (intro exI[of _ k]) auto
  qed
qed (intro exI[of _ 0], simp)

lemma skipped_hex: "list_all (is_digit_of 16) h \<Longrightarrow> skipped_bytes (h @ q) = skipped_bytes q"
proof (induction h)
  case (Cons c h)
  have "\<not> is_digit_of 16 BACKSLASH" by code_simp
  with Cons show ?case by auto
qed simp

lemma utf8_tail_length: "length (snd (utf8_tail n cp s)) = n + length s"
  by (induction n cp s rule: utf8_tail.induct) simp_all

lemma utf8_encode_length: "utf8_encode cp = Some s \<Longrightarrow> length s \<le> 4"
proof -
  have n: "length (snd (utf8_tail n cp [])) = n" for n using utf8_tail_length[of n cp "[]"] by simp
  show "utf8_encode cp = Some s \<Longrightarrow> length s \<le> 4"
    using n[of 1] n[of 2] n[of 3]
    by (auto simp: utf8_encode_def Let_def case_prod_unfold split: if_splits)
qed

lemma parse_hex4_nonzero: "parse_hex4 s \<noteq> 0 \<Longrightarrow> list_all (is_digit_of 16) (take 4 s)"
  by (simp add: parse_hex4_def split: if_splits)

text \<open>A \<open>\u\<close> sequence: what it is worth to the scan, which may see other pairs in it.\<close>

lemma utf16_space:
  assumes "utf16_literal_to_utf8 (BACKSLASH # CHR ''u'' # r) = Some (n, bytes)"
  obtains q k where "drop (n - 1) (CHR ''u'' # r) = q" "n \<le> 1 + length (CHR ''u'' # r)" "0 < n"
    "skipped_bytes r = k + skipped_bytes q \<or> skipped_bytes r = k + skipped_bytes (tl q)"
    "length bytes + k + 1 + length q \<le> 2 + length r"
proof -
  let ?t = "BACKSLASH # CHR ''u'' # r"
  from assms have l: "4 \<le> length r" by (simp add: utf16_literal_to_utf8_def split: if_splits)
  define h q where "h = take 4 r" and "q = drop 4 r"
  have r: "r = h @ q" "length h = 4" using l by (simp_all add: h_def q_def)
  let ?f = "parse_hex4 r"
  have fh: "list_all (is_digit_of 16) h" if "?f \<noteq> 0" using parse_hex4_nonzero[OF that] by (simp add: h_def)
  consider (bmp) "n = 6" "utf8_encode ?f = Some bytes"
    | (pair) cp where "n = 12" "utf8_encode cp = Some bytes" "0xD800 \<le> ?f" "6 \<le> length q"
        "take 2 q = [BACKSLASH, CHR ''u'']" "0xDC00 \<le> parse_hex4 (drop 2 q)"
    using assms by (auto simp: utf16_literal_to_utf8_def Let_def q_def l not_less split: if_splits)
  then show thesis
  proof cases
    case bmp
    have d: "drop (n - 1) (CHR ''u'' # r) = q" by (simp add: bmp q_def numeral_eq_Suc)
    show thesis
    proof (cases "?f = 0")
      case True
      have "utf8_encode 0 = Some [NUL]" by code_simp
      then have b: "length bytes = 1" using bmp True by auto
      obtain k where "2 * k \<le> 5" "skipped_bytes r = k + skipped_bytes q \<or> skipped_bytes r = k + skipped_bytes (tl q)"
        using skipped_append[of h q] r by auto
      then show thesis using d b bmp l r by (intro that[of q k]) auto
    next
      case False
      have "skipped_bytes r = skipped_bytes q" using skipped_hex[OF fh[OF False]] r(1) by simp
      then show thesis using d bmp l r utf8_encode_length[OF bmp(2)] by (intro that[of q 0]) auto
    qed
  next
    case pair
    define q' where "q' = drop 6 q"
    have f0: "?f \<noteq> 0" and g0: "parse_hex4 (drop 2 q) \<noteq> 0" using pair by linarith+
    note g = parse_hex4_nonzero[OF g0]
    obtain h2 where h2: "q = BACKSLASH # CHR ''u'' # h2 @ q'" "length h2 = 4" "list_all (is_digit_of 16) h2"
    proof (rule that[of "take 4 (drop 2 q)"])
      have "drop 4 (drop 2 q) = drop 6 q" by simp
      then have "q = take 2 q @ take 4 (drop 2 q) @ drop 6 q"
        using append_take_drop_id[of 2 q] append_take_drop_id[of 4 "drop 2 q"] by argo
      then show "q = BACKSLASH # CHR ''u'' # take 4 (drop 2 q) @ q'" using pair(5) by (simp add: q'_def)
    qed (use pair(4) g in auto)
    have u: "CHR ''u'' \<noteq> BACKSLASH" by simp
    have "skipped_bytes r = skipped_bytes q" using skipped_hex[OF fh[OF f0]] r(1) by simp
    also have "\<dots> = 1 + skipped_bytes q'" using h2(1) skipped_hex[OF h2(3)] by simp
    finally have s: "skipped_bytes r = 1 + skipped_bytes q'" .
    have d: "drop (n - 1) (CHR ''u'' # r) = q'" using pair(1) by (simp add: q'_def q_def numeral_eq_Suc)
    show thesis using d s pair l r h2 utf8_encode_length[OF pair(2)] by (intro that[of q' 1]) auto
  qed
qed

lemma skipped_space: "skipped_bytes t \<le> length t"
proof (induction t rule: skipped_bytes.induct)
  case (2 c r)
  then show ?case by (cases r; cases "c = BACKSLASH") (simp_all add: le_SucI)
qed simp

lemma skipped_tl: "skipped_bytes (tl t) \<le> length t"
  using skipped_space[of "tl t"] by simp

text \<open>The bytes fit whether the literal is accepted or not.\<close>

lemma unescape_space:
  "length (unescaped_bytes t) + skipped_bytes t \<le> length t + 1 \<and>
   length (unescaped_bytes t) + skipped_bytes (tl t) \<le> length t + 1"
proof (induction t rule: length_induct)
  case (1 t)
  have ih: "length (unescaped_bytes u) + skipped_bytes u \<le> length u + 1 \<and>
    length (unescaped_bytes u) + skipped_bytes (tl u) \<le> length u + 1"
    if "length u < length t" for u
    using 1 that by blast
  show ?case
  proof (cases t)
    case Nil
    then show ?thesis by simp
  next
    case t: (Cons c r)
    show ?thesis
    proof (cases "c = BACKSLASH")
      case False
      with ih[of r] t show ?thesis by simp
    next
      case True
      show ?thesis
      proof (cases r)
        case Nil
        with t True show ?thesis by auto
      next
        case (Cons d r')
        show ?thesis
        proof (cases "map_of simple_escapes d")
          case (Some e)
          with ih[of r'] show ?thesis using t True Cons by (cases r') auto
        next
          case None
          show ?thesis
          proof (cases "d = CHR ''u'' \<and> utf16_literal_to_utf8 (c # r) \<noteq> None")
            case False
            then have "unescaped_bytes t = []" using t True Cons None by (auto split: option.splits)
            then show ?thesis using skipped_space[of t] skipped_tl[of t] by simp
          next
            case valid: True
            then obtain n bytes where d: "d = CHR ''u''" and u: "utf16_literal_to_utf8 (c # r) = Some (n, bytes)"
              by auto
            let ?o = "unescaped_bytes (drop (n - 1) r)"
            have o: "unescaped_bytes t = bytes @ ?o" using t True Cons None d u by auto
            have u': "utf16_literal_to_utf8 (BACKSLASH # CHR ''u'' # r') = Some (n, bytes)"
              using u True Cons d by simp
            obtain q k where q: "drop (n - 1) (CHR ''u'' # r') = q"
              "skipped_bytes r' = k + skipped_bytes q \<or> skipped_bytes r' = k + skipped_bytes (tl q)"
              "length bytes + k + 1 + length q \<le> 2 + length r'"
              by (rule utf16_space[OF u'])
            have "length q < length t" unfolding q(1)[symmetric] using t Cons by simp
            then have "length ?o + skipped_bytes q \<le> length q + 1 \<and> length ?o + skipped_bytes (tl q) \<le> length q + 1"
              using ih[of q] q(1) Cons d by simp
            moreover have "skipped_bytes t = 1 + skipped_bytes r'" "skipped_bytes (tl t) = skipped_bytes r'"
              using t True Cons d by simp_all
            ultimately show ?thesis using q(2,3) t Cons unfolding o by auto
          qed
        qed
      qed
    qed
  qed
qed

lemma unescape_bytes: "unescape t = Some out \<Longrightarrow> unescaped_bytes t = out"
  by (induction t arbitrary: out rule: unescape.induct)
    (auto split: if_splits list.splits option.splits)

section \<open>The parsers make progress\<close>

text \<open>Every parser takes at least one character of its input, so the comparison of lengths in the two
loops holds whenever they come to it: \<open>elements_loop\<close> and \<open>members_loop\<close> are the loops without it.\<close>

definition progress :: "(string \<Rightarrow> ('a \<times> string) option) \<Rightarrow> bool" where
  "progress f \<longleftrightarrow> (\<forall>s x r. f s = Some (x, r) \<longrightarrow> length r < length s)"

lemma skip_ws_length: "length (skip_ws s) \<le> length s"
  using length_dropWhile_le[of "\<lambda>c. ascii c \<le> 32" s] by (auto simp: skip_ws_def Let_def Suc_le_eq)

lemma skip_ws_Cons: "skip_ws s = c # r \<Longrightarrow> length r < length s"
  using skip_ws_length[of s] by simp

lemma scan_literal_length: "scan_literal s = Some (t, r) \<Longrightarrow> length r < length s"
  by (induction s arbitrary: t r rule: scan_literal.induct) (fastforce split: if_splits list.splits)+

lemma parse_string_progress: "progress parse_string"
  unfolding progress_def parse_string_def
  by (auto split: list.splits if_splits option.splits dest!: scan_literal_length)

lemma frac_part_length: "frac_part s = (g, r) \<Longrightarrow> length r \<le> length s \<and> (g \<noteq> [] \<longrightarrow> length r < length s)"
  using length_dropWhile_le[of c_isdigit "tl s"] by (auto simp: frac_part_def split: list.splits if_splits)

lemma exp_part_length: "exp_part s = (e, r) \<Longrightarrow> length r \<le> length s"
proof -
  have t: "length (snd (take_sign u)) \<le> length u" for u by (cases u) simp_all
  have d: "length (dropWhile c_isdigit (snd (take_sign u))) \<le> length u" for u
    using length_dropWhile_le[of c_isdigit "snd (take_sign u)"] t[of u] by linarith
  show "exp_part s = (e, r) \<Longrightarrow> length r \<le> length s"
    using d by (auto simp: exp_part_def Let_def case_prod_unfold le_SucI split: list.splits if_splits)
qed

lemma scan_double_progress: "progress scan_double"
  unfolding progress_def
proof (intro allI impI)
  fix s x r
  assume a: "scan_double s = Some (x, r)"
  obtain neg s1 where s1: "take_sign (dropWhile c_isspace s) = (neg, s1)" by fastforce
  obtain f r1 where r1: "frac_part (dropWhile c_isdigit s1) = (f, r1)" by fastforce
  obtain e r2 where r2: "exp_part r1 = (e, r2)" by fastforce
  have ne: "takeWhile c_isdigit s1 \<noteq> [] \<or> f \<noteq> []" and r: "r = r2"
    using a unfolding scan_double_def s1 Let_def prod.case r1 r2 by (auto split: if_splits)
  have "length (snd (take_sign u)) \<le> length u" for u by (cases u) simp_all
  from this[of "dropWhile c_isspace s"] have "length s1 \<le> length (dropWhile c_isspace s)" using s1 by simp
  then have l1: "length s1 \<le> length s" using length_dropWhile_le[of c_isspace s] by linarith
  have "length (takeWhile c_isdigit s1) + length (dropWhile c_isdigit s1) = length s1"
    by (metis length_append takeWhile_dropWhile_id)
  then show "length r < length s"
    using ne l1 frac_part_length[OF r1] exp_part_length[OF r2] unfolding r
    by (cases "f = []") (auto simp flip: length_greater_0_conv)
qed

lemma parse_number_progress: "progress parse_number"
  unfolding progress_def
proof (intro allI impI)
  fix s x r
  assume a: "parse_number s = Some (x, r)"
  let ?n = "take 63 (takeWhile number_char s)"
  obtain q where q: "scan_double ?n = Some (x, q)" "r = drop (length ?n - length q) s"
    using a by (auto simp: parse_number_def Let_def split: option.splits)
  have "length q < length ?n" using scan_double_progress q(1) unfolding progress_def by blast
  moreover have "length ?n \<le> length s" using length_takeWhile_le[of number_char s] by simp
  ultimately show "length r < length s" using q(2) by auto
qed

lemma elements_progress: "progress f \<Longrightarrow> parse_elements f s = Some (xs, r) \<Longrightarrow> length r < length s"
proof (induction f s arbitrary: xs r rule: parse_elements.induct)
  case (1 f s)
  from 1(3) obtain x s1 c s2 where v: "f (skip_ws s) = Some (x, s1)" "skip_ws s1 = c # s2"
    and d: "c = CHR '','' \<and> length s2 < length s \<and> (\<exists>ys. parse_elements f s2 = Some (ys, r)) \<or> s2 = r"
    by (subst (asm) parse_elements.simps) (auto split: option.splits list.splits if_splits)
  have "length s1 < length s"
    using 1(2) v(1) skip_ws_length[of s] unfolding progress_def by (meson less_le_trans)
  then have "length s2 < length s" using skip_ws_Cons[OF v(2)] by simp
  with d 1(1)[OF v(1) refl v(2)] 1(2) show ?case by (fastforce intro: less_trans)
qed

lemma members_progress: "progress f \<Longrightarrow> parse_members f s = Some (xs, r) \<Longrightarrow> length r < length s"
proof (induction f s arbitrary: xs r rule: parse_members.induct)
  case (1 f s)
  from 1(3) obtain k s1 c s2 x s3 e s4 where
    v: "parse_string (skip_ws s) = Some (k, s1)" "skip_ws s1 = c # s2" "c = CHR '':''"
      "f (skip_ws s2) = Some (x, s3)" "skip_ws s3 = e # s4"
    and d: "e = CHR '','' \<and> length s4 < length s \<and> (\<exists>ys. parse_members f s4 = Some (ys, r)) \<or> s4 = r"
    by (subst (asm) parse_members.simps) (auto split: option.splits list.splits if_splits)
  have "length s1 < length s"
    using parse_string_progress v(1) skip_ws_length[of s] unfolding progress_def by (meson less_le_trans)
  moreover have "length s3 < length s2"
    using 1(2) v(4) skip_ws_length[of s2] unfolding progress_def by (meson less_le_trans)
  ultimately have "length s4 < length s" using skip_ws_Cons[OF v(2)] skip_ws_Cons[OF v(5)] by linarith
  with d 1(1)[OF v(1) refl v(2) _ v(4) refl v(5)] v(3) 1(2) show ?case by (fastforce intro: less_trans)
qed

lemma parse_with_progress:
  assumes "\<And>f. deeper = Some f \<Longrightarrow> progress f"
  shows "progress (parse_with deeper)"
  unfolding progress_def
proof (intro allI impI)
  fix s j r
  assume a: "parse_with deeper s = Some (j, r)"
  have ps: "length q < length s" if "parse_string s = Some (t, q)" for t q
    using that parse_string_progress by (auto simp: progress_def)
  have pn: "length q < length s" if "parse_number s = Some (t, q)" for t q
    using that parse_number_progress by (auto simp: progress_def)
  have pa: "length r < length t" if "deeper = Some f" "parse_array f t = Some (j, r)" for f t
    using that(2) elements_progress[OF assms[OF that(1)]] skip_ws_length[of t]
    by (fastforce simp: parse_array_def split: list.splits if_splits)
  have po: "length r < length t" if "deeper = Some f" "parse_object f t = Some (j, r)" for f t
    using that(2) members_progress[OF assms[OF that(1)]] skip_ws_length[of t]
    by (fastforce simp: parse_object_def split: list.splits if_splits)
  show "length r < length s"
  proof (cases "take 4 s = ''null'' \<or> take 5 s = ''false'' \<or> take 4 s = ''true''")
    case True
    then have "s \<noteq> []" "r = drop 4 s \<or> r = drop 5 s" using a by (auto simp: parse_with_def split: if_splits)
    then show ?thesis by auto
  next
    case False
    obtain c t where s: "s = c # t" using a by (cases s) (auto simp: parse_with_def)
    from False have "take 4 s \<noteq> ''null''" "take 5 s \<noteq> ''false''" "take 4 s \<noteq> ''true''" by simp_all
    note d = a[unfolded parse_with_def if_not_P[OF this(1)] if_not_P[OF this(2)] if_not_P[OF this(3)]]
    consider x where "parse_string s = Some (x, r)" | x where "parse_number s = Some (x, r)"
      | f where "deeper = Some f" "parse_array f t = Some (j, r)" | f where "deeper = Some f" "parse_object f t = Some (j, r)"
      using d unfolding s list.case by (auto split: if_splits option.splits)
    then show ?thesis using ps pn pa po s by cases (auto intro: less_SucI)
  qed
qed

lemma parse_value_progress: "progress (parse_value n)"
  by (induction n) (auto intro!: parse_with_progress)

lemma elements_loop:
  assumes "progress f"
  shows "parse_elements f s =
     (case f (skip_ws s) of
        None \<Rightarrow> None
      | Some (x, s1) \<Rightarrow>
          (case skip_ws s1 of
             [] \<Rightarrow> None
           | c # s2 \<Rightarrow>
               if c = CHR '','' then map_option (\<lambda>(xs, r). (x # xs, r)) (parse_elements f s2)
               else if c = CHR '']'' then Some ([x], s2)
               else None))"
proof -
  have "length s2 < length s" if "f (skip_ws s) = Some (x, s1)" "skip_ws s1 = c # s2" for x s1 c s2
    using assms that(1) skip_ws_length[of s] skip_ws_Cons[OF that(2)] unfolding progress_def
    by (meson less_le_trans less_trans)
  then show ?thesis by (subst parse_elements.simps) (auto split: option.split list.split)
qed

lemma members_loop:
  assumes "progress f"
  shows "parse_members f s =
     (case parse_string (skip_ws s) of
        None \<Rightarrow> None
      | Some (k, s1) \<Rightarrow>
          (case skip_ws s1 of
             [] \<Rightarrow> None
           | c # s2 \<Rightarrow>
               if c \<noteq> CHR '':'' then None
               else
                 (case f (skip_ws s2) of
                    None \<Rightarrow> None
                  | Some (x, s3) \<Rightarrow>
                      (case skip_ws s3 of
                         [] \<Rightarrow> None
                       | e # s4 \<Rightarrow>
                           if e = CHR '','' then
                             map_option (\<lambda>(kvs, r). ((k, x) # kvs, r)) (parse_members f s4)
                           else if e = CHR ''}'' then Some ([(k, x)], s4)
                           else None))))"
proof -
  have "length s4 < length s" if v: "parse_string (skip_ws s) = Some (k, s1)" "skip_ws s1 = c # s2"
    "f (skip_ws s2) = Some (x, s3)" "skip_ws s3 = e # s4" for k s1 c s2 x s3 e s4
  proof -
    have "length s1 < length s"
      using parse_string_progress v(1) skip_ws_length[of s] unfolding progress_def by (meson less_le_trans)
    moreover have "length s3 < length s2"
      using assms v(3) skip_ws_length[of s2] unfolding progress_def by (meson less_le_trans)
    ultimately show ?thesis using skip_ws_Cons[OF v(2)] skip_ws_Cons[OF v(4)] by linarith
  qed
  then show ?thesis by (subst parse_members.simps) (auto split: option.split list.split)
qed

end
