(* ===== verification/Json_Roundtrip.thy ===== *)
theory Json_Roundtrip
  imports Json_Text
begin

text \<open>
  The parser of \<open>cjson.c\<close> reads what its printer writes. The trees it holds for have strings without
  NUL, numbers that are zero or normal doubles and at most the nesting the parser accepts; the tree
  that comes back has the same shape, names and strings, and each number as \<open>reread\<close> of theory
  Json_Number says.
\<close>

section \<open>What comes back\<close>

fun printable :: "nat \<Rightarrow> cJSON \<Rightarrow> bool" where
  "printable levels (J_Number d) \<longleftrightarrow> normal_double d"
| "printable levels (J_String s) \<longleftrightarrow> NUL \<notin> set s"
| "printable 0 (J_Array xs) \<longleftrightarrow> False"
| "printable (Suc levels) (J_Array xs) \<longleftrightarrow> (\<forall>x\<in>set xs. printable levels x)"
| "printable 0 (J_Object kvs) \<longleftrightarrow> False"
| "printable (Suc levels) (J_Object kvs) \<longleftrightarrow> (\<forall>(k, x)\<in>set kvs. NUL \<notin> set k \<and> printable levels x)"
| "printable levels _ \<longleftrightarrow> True"

fun reread_tree :: "cJSON \<Rightarrow> cJSON" where
  "reread_tree (J_Number d) = J_Number (reread d)"
| "reread_tree (J_Array xs) = J_Array (map reread_tree xs)"
| "reread_tree (J_Object kvs) = J_Object (map (\<lambda>(k, x). (k, reread_tree x)) kvs)"
| "reread_tree j = j"

definition blank :: "string \<Rightarrow> bool" where
  "blank w \<longleftrightarrow> (\<forall>c\<in>set w. ascii c \<le> 32)"

definition delimited :: "string \<Rightarrow> bool" where
  "delimited r \<longleftrightarrow> r = [] \<or> \<not> number_char (hd r)"

definition value_text :: "string \<Rightarrow> bool" where
  "value_text s \<longleftrightarrow> s \<noteq> [] \<and> 32 < ascii (hd s) \<and> ascii (hd s) < 128 \<and> hd s \<noteq> CHR '']'' \<and> NUL \<notin> set s"

definition reads_back :: "(string \<Rightarrow> (cJSON \<times> string) option) \<Rightarrow> bool \<Rightarrow> cJSON \<Rightarrow> bool" where
  "reads_back value format j \<longleftrightarrow>
     (\<forall>depth. \<exists>s. print_value format depth j = Some s \<and> value_text s \<and>
        (\<forall>r. delimited r \<longrightarrow> value (s @ r) = Some (reread_tree j, r)))"

section \<open>White space\<close>

lemma blank_simps [simp]:
  "blank []" "blank (c # w) \<longleftrightarrow> ascii c \<le> 32 \<and> blank w" "blank (v @ w) \<longleftrightarrow> blank v \<and> blank w"
  "blank (replicate n (CHR 0x09))"
  by (auto simp: blank_def ascii_def)

lemma skip_ws_text: "blank w \<Longrightarrow> s \<noteq> [] \<Longrightarrow> 32 < ascii (hd s) \<Longrightarrow> skip_ws (w @ s) = s"
proof -
  assume a: "blank w" "s \<noteq> []" "32 < ascii (hd s)"
  have "dropWhile (\<lambda>c. ascii c \<le> 32) s = s" using a(2,3) by (cases s) simp_all
  moreover have "dropWhile (\<lambda>c. ascii c \<le> 32) (w @ s) = dropWhile (\<lambda>c. ascii c \<le> 32) s"
    using a(1) by (intro dropWhile_append2) (auto simp: blank_def)
  ultimately show "skip_ws (w @ s) = s" using a(2) by (simp add: skip_ws_def)
qed

lemma skip_ws_char: "blank w \<Longrightarrow> 32 < ascii c \<Longrightarrow> skip_ws (w @ c # s) = c # s"
  using skip_ws_text[of w "c # s"] by simp

lemma skip_ws_char0: "32 < ascii c \<Longrightarrow> skip_ws (c # s) = c # s"
  using skip_ws_text[of "[]" "c # s"] by simp

lemma char_codes:
  "ascii (CHR '','') = 44" "ascii (CHR '']'') = 93" "ascii (CHR ''}'') = 125" "ascii (CHR '':'') = 58"
  "ascii QUOTE = 34" "ascii (CHR ''['') = 91" "ascii (CHR ''{'') = 123" "ascii (CHR '' '') = 32"
  "ascii (CHR 0x09) = 9" "ascii (CHR 0x0A) = 10" "ascii (CHR ''n'') = 110" "ascii (CHR ''t'') = 116"
  "ascii (CHR ''f'') = 102" "ascii (CHR ''-'') = 45"
  by (simp_all add: ascii_def)

lemma delimited_chars:
  "delimited []" "delimited (CHR '','' # r)" "delimited (CHR '']'' # r)" "delimited (CHR ''}'' # r)"
  "delimited (CHR 0x09 # r)" "delimited (CHR 0x0A # r)" "delimited (NUL # r)"
proof -
  have "\<not> number_char (CHR '','')" "\<not> number_char (CHR '']'')" "\<not> number_char (CHR ''}'')"
    "\<not> number_char (CHR 0x09)" "\<not> number_char (CHR 0x0A)" "\<not> number_char NUL" by code_simp+
  then show "delimited []" "delimited (CHR '','' # r)" "delimited (CHR '']'' # r)" "delimited (CHR ''}'' # r)"
    "delimited (CHR 0x09 # r)" "delimited (CHR 0x0A # r)" "delimited (NUL # r)"
    by (simp_all add: delimited_def)
qed

lemma value_text_skip: "value_text s \<Longrightarrow> blank w \<Longrightarrow> skip_ws (w @ s @ r) = s @ r"
  using skip_ws_text[of w "s @ r"] by (simp add: value_text_def)

section \<open>Scalars\<close>

lemma escape_no_nul: "c \<noteq> NUL \<Longrightarrow> NUL \<notin> set (escape c)"
proof (cases c rule: escape_cases)
  case (letter e)
  have "map_of simple_escapes NUL = None" by (simp add: simple_escapes_def)
  with letter show ?thesis by auto
qed auto

lemma print_string_no_nul: "NUL \<notin> set s \<Longrightarrow> NUL \<notin> set (print_string_ptr s)"
proof -
  assume "NUL \<notin> set s"
  then have "\<forall>c\<in>set s. NUL \<notin> set (escape c)" using escape_no_nul by metis
  then show ?thesis by (simp add: print_string_escaped)
qed

lemma string_reads_back: "NUL \<notin> set s \<Longrightarrow> reads_back (parse_value n) format (J_String s)"
proof -
  assume s: "NUL \<notin> set s"
  have "parse_with w (print_string_ptr s @ r) = Some (J_String s, r)" for w r
    using parse_print_string[OF s, of r] by (simp add: parse_with_def print_string_escaped)
  then have "parse_value n (print_string_ptr s @ r) = Some (J_String s, r)" for r by (cases n) simp_all
  moreover have "value_text (print_string_ptr s)"
    using print_string_no_nul[OF s] by (simp add: value_text_def print_string_escaped char_codes)
  ultimately show ?thesis by (simp add: reads_back_def)
qed

lemma digit_head: "c = CHR ''-'' \<or> c_isdigit c \<Longrightarrow>
    32 < ascii c \<and> ascii c < 128 \<and> c \<notin> {CHR '']'', QUOTE, CHR ''n'', CHR ''t'', CHR ''f''}"
  by (auto simp: c_isdigit_def char_codes)

lemma number_reads_back:
  assumes "normal_double d"
  shows "reads_back (parse_value n) format (J_Number d)"
proof -
  obtain s where s: "print_number d = Some s" "\<forall>c\<in>set s. number_char c" "length s \<le> 25"
    "scan_double s = Some (reread d, [])" "s \<noteq> [] \<and> (hd s = CHR ''-'' \<or> c_isdigit (hd s))"
    by (rule print_number_reread[OF assms])
  have h: "32 < ascii (hd s) \<and> ascii (hd s) < 128 \<and> hd s \<notin> {CHR '']'', QUOTE, CHR ''n'', CHR ''t'', CHR ''f''}"
    using s(5) by (intro digit_head) simp
  obtain c t where ct: "s = c # t" using s(5) by (cases s) auto
  have "parse_with w (s @ r) = Some (J_Number (reread d), r)" if "delimited r" for w r
  proof -
    have "parse_number (s @ r) = Some (reread d, r)"
      using s that by (intro parse_number_text) (auto simp: delimited_def)
    then show ?thesis using h s(5) by (auto simp: parse_with_def ct)
  qed
  then have "delimited r \<Longrightarrow> parse_value n (s @ r) = Some (J_Number (reread d), r)" for r by (cases n) simp_all
  moreover have "\<not> number_char NUL" by code_simp
  then have "value_text s" using s(2,5) h by (auto simp: value_text_def)
  ultimately show ?thesis using s(1) by (simp add: reads_back_def)
qed

lemma literal_reads_back:
  "reads_back (parse_value n) format J_Null" "reads_back (parse_value n) format (J_Bool b)"
proof -
  have "parse_with w (''null'' @ r) = Some (J_Null, r)" for w r by (simp add: parse_with_def)
  then have "parse_value n (''null'' @ r) = Some (J_Null, r)" for r by (cases n) (simp_all only: parse_value.simps)
  then show "reads_back (parse_value n) format J_Null"
    by (simp add: reads_back_def value_text_def char_codes)
  have "parse_with w ((if b then ''true'' else ''false'') @ r) = Some (J_Bool b, r)" for w r
    by (simp add: parse_with_def)
  then have "parse_value n ((if b then ''true'' else ''false'') @ r) = Some (J_Bool b, r)" for r
    by (cases n) (simp_all only: parse_value.simps)
  then show "reads_back (parse_value n) format (J_Bool b)"
    by (auto simp add: reads_back_def value_text_def char_codes)
qed

section \<open>Arrays and objects\<close>

lemma bracket_not_digit [simp]: "\<not> c_isdigit (CHR ''['')" "\<not> c_isdigit (CHR ''{'')"
  by code_simp+

lemma reads_backD:
  assumes "reads_back value format j"
  obtains s where "print_value format depth j = Some s" "value_text s"
    "\<And>r. delimited r \<Longrightarrow> value (s @ r) = Some (reread_tree j, r)"
  using assms by (auto simp: reads_back_def)

lemma elements_read_back:
  assumes "\<forall>x\<in>set xs. reads_back value format x" "xs \<noteq> []"
  shows "\<exists>s. print_elements format depth xs = Some s \<and> value_text s \<and>
    (\<forall>w r. blank w \<longrightarrow> parse_elements value (w @ s @ CHR '']'' # r) = Some (map reread_tree xs, r))"
  using assms
proof (induction xs)
  case (Cons x xs)
  from Cons.prems have "reads_back value format x" by simp
  then obtain s where s: "print_value format depth x = Some s" "value_text s"
    "\<And>r. delimited r \<Longrightarrow> value (s @ r) = Some (reread_tree x, r)" by (rule reads_backD) blast
  show ?case
  proof (cases "xs = []")
    case True
    have "parse_elements value (w @ s @ CHR '']'' # r) = Some ([reread_tree x], r)" if "blank w" for w r
      using that s(3)[OF delimited_chars(3), of r]
      by (subst parse_elements.simps) (simp add: value_text_skip[OF s(2)] skip_ws_char0 char_codes)
    then show ?thesis using True s by simp
  next
    case False
    with Cons obtain t where t: "print_elements format depth xs = Some t" "value_text t"
      "\<And>w r. blank w \<Longrightarrow> parse_elements value (w @ t @ CHR '']'' # r) = Some (map reread_tree xs, r)"
      by auto
    define v :: string where "v = (if format then '' '' else [])"
    have v: "blank v" "(if format then '', '' else '','') = CHR '','' # v" by (simp_all add: v_def char_codes)
    have "parse_elements value (w @ (s @ CHR '','' # v @ t) @ CHR '']'' # r) = Some (map reread_tree (x # xs), r)"
      if "blank w" for w r
      using that s(3)[OF delimited_chars(2), of "v @ t @ CHR '']'' # r"] t(3)[OF v(1), of r]
      by (subst parse_elements.simps) (simp add: value_text_skip[OF s(2)] skip_ws_char0 char_codes)
    moreover have "value_text (s @ CHR '','' # v @ t)" using s(2) t(2) by (auto simp: value_text_def v_def)
    moreover have "print_elements format depth (x # xs) = Some (s @ CHR '','' # v @ t)"
      using False by (simp add: s t v(2))
    ultimately show ?thesis by blast
  qed
qed simp

lemma array_reads_back:
  assumes "\<forall>x\<in>set xs. reads_back (parse_value n) format x"
  shows "reads_back (parse_value (Suc n)) format (J_Array xs)"
  unfolding reads_back_def
proof (rule allI)
  fix depth
  have pw: "parse_value (Suc n) (''['' @ t) = parse_array (parse_value n) t" for t by (simp add: parse_with_def)
  show "\<exists>s. print_value format depth (J_Array xs) = Some s \<and> value_text s \<and>
     (\<forall>r. delimited r \<longrightarrow> parse_value (Suc n) (s @ r) = Some (reread_tree (J_Array xs), r))"
  proof (cases "xs = []")
    case True
    have "parse_value (Suc n) (''[]'' @ r) = Some (J_Array [], r)" for r
      using pw[of "CHR '']'' # r"] by (simp add: parse_array_def skip_ws_char0 char_codes)
    then show ?thesis using True by (simp add: value_text_def char_codes)
  next
    case False
    obtain s where s: "print_elements format (depth + 1) xs = Some s" "value_text s"
      "\<And>w r. blank w \<Longrightarrow> parse_elements (parse_value n) (w @ s @ CHR '']'' # r) = Some (map reread_tree xs, r)"
      using elements_read_back[OF assms False] by blast
    obtain c t where ct: "s = c # t" "c \<noteq> CHR '']''" using s(2) by (cases s) (auto simp: value_text_def)
    have "parse_value (Suc n) ((''['' @ s @ '']'') @ r) = Some (J_Array (map reread_tree xs), r)" for r
      using pw[of "s @ CHR '']'' # r"] s(3)[of "[]" r] value_text_skip[OF s(2), of "[]" "CHR '']'' # r"] ct
      by (simp add: parse_array_def)
    then show ?thesis using s by (simp add: value_text_def char_codes)
  qed
qed

lemma members_read_back:
  assumes "\<forall>(k, x)\<in>set kvs. NUL \<notin> set k \<and> reads_back value format x" "kvs \<noteq> []"
  shows "\<exists>u t. print_members format depth kvs = Some (u @ QUOTE # t) \<and> blank u \<and> NUL \<notin> set (u @ t) \<and>
    (\<forall>w v r. blank w \<longrightarrow> blank v \<longrightarrow>
       parse_members value (w @ QUOTE # t @ v @ CHR ''}'' # r) = Some (map (\<lambda>(k, x). (k, reread_tree x)) kvs, r))"
  using assms
proof (induction kvs)
  case (Cons kx kvs)
  obtain k x where kx: "kx = (k, x)" by (cases kx)
  from Cons.prems kx have k: "NUL \<notin> set k" and "reads_back value format x" by auto
  then obtain s where s: "print_value format depth x = Some s" "value_text s"
    "\<And>r. delimited r \<Longrightarrow> value (s @ r) = Some (reread_tree x, r)" by (auto elim!: reads_backD)
  define u where "u = (if format then replicate depth (CHR 0x09) else [])"
  define tb where "tb = (if format then [CHR 0x09] else [])"
  define nl where "nl = (if format then [CHR 0x0A] else [])"
  have bl: "blank u" "blank tb" "blank nl" by (simp_all add: u_def tb_def nl_def char_codes)
  have nz: "NUL \<notin> set u" "NUL \<notin> set tb" "NUL \<notin> set nl" by (simp_all add: u_def tb_def nl_def)
  obtain q where q: "print_string_ptr k = QUOTE # q" by (simp add: print_string_escaped)
  have qz: "NUL \<notin> set q" using print_string_no_nul[OF k] q by simp
  have ps: "parse_string (QUOTE # q @ r) = Some (k, r)" for r using parse_print_string[OF k, of r] q by simp
  have key: "parse_string (skip_ws (w @ QUOTE # q @ r)) = Some (k, r)" if "blank w" for w r
    using that by (simp add: skip_ws_char char_codes ps)
  have val: "value (skip_ws (tb @ s @ r)) = Some (reread_tree x, r)" if "delimited r" for r
    using s(3)[OF that] value_text_skip[OF s(2) bl(2)] by simp
  show ?case
  proof (cases "kvs = []")
    case True
    define t where "t = q @ CHR '':'' # tb @ s @ nl"
    have "parse_members value (w @ QUOTE # t @ v @ CHR ''}'' # r) = Some ([(k, reread_tree x)], r)"
      if w: "blank w" and v: "blank v" for w v r
    proof -
      have d: "delimited (nl @ v @ CHR ''}'' # r)"
      proof (cases "nl @ v")
        case (Cons c y)
        then have "ascii c \<le> 32" using bl(3) v by (metis blank_simps(2,3))
        moreover have "number_char c \<Longrightarrow> 32 < ascii c"
          by (auto simp: number_char_def c_isdigit_def ascii_def)
        ultimately show ?thesis using Cons by (cases nl) (auto simp: delimited_def)
      qed (simp add: delimited_chars)
      have e: "skip_ws (nl @ v @ CHR ''}'' # r) = CHR ''}'' # r"
        using skip_ws_char[of "nl @ v"] bl(3) v by (simp add: char_codes)
      show ?thesis
        using key[OF w, of "CHR '':'' # tb @ s @ nl @ v @ CHR ''}'' # r"] val[OF d]
        by (subst parse_members.simps) (simp add: t_def skip_ws_char0 char_codes e)
    qed
    moreover have "print_members format depth (kx # kvs) = Some (u @ QUOTE # t)"
      using True by (simp add: kx s q t_def u_def tb_def nl_def)
    moreover have "NUL \<notin> set (u @ t)" using nz qz s(2) by (auto simp: t_def value_text_def)
    ultimately show ?thesis using bl(1) True kx by (intro exI[of _ u] exI[of _ t]) simp
  next
    case False
    with Cons obtain u' t' where t': "print_members format depth kvs = Some (u' @ QUOTE # t')" "blank u'"
      "NUL \<notin> set (u' @ t')"
      "\<And>w v r. blank w \<Longrightarrow> blank v \<Longrightarrow>
         parse_members value (w @ QUOTE # t' @ v @ CHR ''}'' # r) = Some (map (\<lambda>(k, x). (k, reread_tree x)) kvs, r)"
      by auto
    define t where "t = q @ CHR '':'' # tb @ s @ CHR '','' # nl @ u' @ QUOTE # t'"
    have "parse_members value (w @ QUOTE # t @ v @ CHR ''}'' # r)
        = Some (map (\<lambda>(k, x). (k, reread_tree x)) (kx # kvs), r)"
      if w: "blank w" and v: "blank v" for w v r
    proof -
      have rec: "parse_members value (nl @ u' @ QUOTE # t' @ v @ CHR ''}'' # r)
          = Some (map (\<lambda>(k, x). (k, reread_tree x)) kvs, r)"
        using t'(4)[of "nl @ u'" v r] bl(3) t'(2) v by simp
      show ?thesis
        using key[OF w, of "CHR '':'' # tb @ s @ CHR '','' # nl @ u' @ QUOTE # t' @ v @ CHR ''}'' # r"]
          val[OF delimited_chars(2), of "nl @ u' @ QUOTE # t' @ v @ CHR ''}'' # r"] rec
        by (subst parse_members.simps) (simp add: t_def skip_ws_char0 char_codes kx)
    qed
    moreover have "print_members format depth (kx # kvs) = Some (u @ QUOTE # t)"
      using False by (simp add: kx s q t_def u_def tb_def nl_def t')
    moreover have "NUL \<notin> set (u @ t)" using nz qz s(2) t'(3) by (auto simp: t_def value_text_def)
    ultimately show ?thesis using bl(1) by (intro exI[of _ u] exI[of _ t]) simp
  qed
qed simp

lemma object_reads_back:
  assumes "\<forall>(k, x)\<in>set kvs. NUL \<notin> set k \<and> reads_back (parse_value n) format x"
  shows "reads_back (parse_value (Suc n)) format (J_Object kvs)"
  unfolding reads_back_def
proof (rule allI)
  fix depth
  define nl where "nl = (if format then [CHR 0x0A] else [])"
  define tb where "tb = (if format then replicate depth (CHR 0x09) else [])"
  have bl: "blank nl" "blank tb" "NUL \<notin> set (nl @ tb)" by (auto simp: nl_def tb_def char_codes)
  have pw: "parse_value (Suc n) (''{'' @ t) = parse_object (parse_value n) t" for t by (simp add: parse_with_def)
  show "\<exists>s. print_value format depth (J_Object kvs) = Some s \<and> value_text s \<and>
     (\<forall>r. delimited r \<longrightarrow> parse_value (Suc n) (s @ r) = Some (reread_tree (J_Object kvs), r))"
  proof (cases "kvs = []")
    case True
    have "parse_value (Suc n) (''{'' @ nl @ tb @ CHR ''}'' # r) = Some (J_Object [], r)" for r
      using pw[of "nl @ tb @ CHR ''}'' # r"] skip_ws_char[of "nl @ tb" "CHR ''}''" r] bl
      by (simp add: parse_object_def char_codes)
    moreover have p: "print_value format depth (J_Object kvs) = Some (''{'' @ nl @ tb @ ''}'')"
      using True by (simp add: nl_def tb_def)
    moreover have "value_text (''{'' @ nl @ tb @ ''}'')" using bl by (simp add: value_text_def char_codes)
    ultimately show ?thesis unfolding p using True by (simp del: parse_value.simps)
  next
    case False
    obtain u t where t: "print_members format (depth + 1) kvs = Some (u @ QUOTE # t)" "blank u" "NUL \<notin> set (u @ t)"
      "\<And>w v r. blank w \<Longrightarrow> blank v \<Longrightarrow>
         parse_members (parse_value n) (w @ QUOTE # t @ v @ CHR ''}'' # r)
           = Some (map (\<lambda>(k, x). (k, reread_tree x)) kvs, r)"
      using members_read_back[OF assms False, of "depth + 1"] by blast
    have "parse_value (Suc n) (''{'' @ nl @ u @ QUOTE # t @ tb @ CHR ''}'' # r)
        = Some (J_Object (map (\<lambda>(k, x). (k, reread_tree x)) kvs), r)" for r
      using pw[of "nl @ u @ QUOTE # t @ tb @ CHR ''}'' # r"] t(4)[of "[]" tb r]
        skip_ws_char[of "nl @ u" QUOTE "t @ tb @ CHR ''}'' # r"] bl t(2)
      by (simp add: parse_object_def char_codes)
    moreover have "print_value format depth (J_Object kvs) = Some (''{'' @ nl @ u @ QUOTE # t @ tb @ ''}'')"
      using t(1) by (simp add: nl_def tb_def)
    ultimately show ?thesis using bl t(3) by (auto simp: value_text_def char_codes)
  qed
qed

lemma printable_reads_back: "printable levels j \<Longrightarrow> reads_back (parse_value levels) format j"
proof (induction levels arbitrary: j)
  case 0
  then show ?case
    by (cases j) (simp_all add: literal_reads_back number_reads_back string_reads_back del: parse_value.simps)
next
  case (Suc n)
  show ?case
  proof (cases j)
    case (J_Array xs)
    then show ?thesis using Suc by (auto intro!: array_reads_back simp del: parse_value.simps)
  next
    case (J_Object kvs)
    then show ?thesis using Suc by (auto intro!: object_reads_back simp del: parse_value.simps)
  qed (use Suc in \<open>simp_all add: literal_reads_back number_reads_back string_reads_back
        del: parse_value.simps\<close>)
qed

section \<open>The text as a whole\<close>

lemma printed_parses:
  assumes "printable CJSON_NESTING_LIMIT j"
  obtains s where "print_value format 0 j = Some s" "NUL \<notin> set s" "cJSON_Parse s = Some (reread_tree j)"
proof -
  obtain s where s: "print_value format 0 j = Some s" "value_text s"
    "\<And>r. delimited r \<Longrightarrow> parse_value CJSON_NESTING_LIMIT (s @ r) = Some (reread_tree j, r)"
    by (rule reads_backD[OF printable_reads_back[OF assms]]) blast
  have nz: "NUL \<notin> set s" using s(2) by (simp add: value_text_def)
  have "skip_utf8_bom (s @ [NUL]) = s @ [NUL]"
  proof -
    have "ascii (CHR 0xEF) = 239" by (simp add: ascii_def)
    then have "hd s \<noteq> CHR 0xEF" using s(2) by (auto simp: value_text_def)
    then show ?thesis using s(2) by (cases s) (auto simp: skip_utf8_bom_def value_text_def)
  qed
  then have "cJSON_Parse s = Some (reread_tree j)"
    using s(3)[OF delimited_chars(7)] value_text_skip[OF s(2), of "[]" "[NUL]"] unescape_no_nul[OF nz]
    by (simp add: cJSON_Parse_def)
  with s(1) nz show thesis by (rule that)
qed

section \<open>Numbers\<close>

lemma compare_double_refl: "compare_double d d"
  by (simp add: compare_double_def dsub_def dmul_def DBL_EPSILON_def fl_nonneg)

lemma reread_close: "compare_double (reread d) d"
  by (simp add: reread_def compare_double_refl)

text \<open>A number printed and read again is within the relative precision of a double of the
  number it was, and every integer up to \<open>2^53\<close> in magnitude is exactly itself: the text fits the
  printer's buffer and the parser takes all of it.\<close>

theorem number_reread:
  assumes "normal_double d"
  shows "\<exists>s. print_number d = Some s \<and> length s \<le> 25 \<and> parse_number (s @ [NUL]) = Some (reread d, [NUL]) \<and>
    compare_double (reread d) d \<and> (\<forall>i. d = of_int i \<and> \<bar>i\<bar> \<le> 2 ^ 53 \<longrightarrow> reread d = d)"
proof -
  obtain s where s: "print_number d = Some s" "\<forall>c\<in>set s. number_char c" "length s \<le> 25"
    "scan_double s = Some (reread d, [])"
    by (rule print_number_reread[OF assms])
  have "parse_number (s @ [NUL]) = Some (reread d, [NUL])"
    using s delimited_chars(7)[of "[]"] by (intro parse_number_text) (auto simp: delimited_def)
  with s show ?thesis using reread_close reread_integer by blast
qed

lemma number_reread_witness:
  "\<exists>s. print_number (- 42) = Some s \<and> length s \<le> 25 \<and> parse_number (s @ [NUL]) = Some (- 42, [NUL])"
proof -
  have "is_dbl (of_int (- 42))" by (intro is_dbl_int) simp
  then have "normal_double (- 42)" by (simp add: normal_double_def divide_le_eq_1)
  moreover have "reread (of_int (- 42)) = of_int (- 42)" by (intro reread_integer) simp
  ultimately show ?thesis using number_reread[of "- 42"] by auto
qed

text \<open>A double next to one is printed as \<open>1\<close>: with 15 digits it is close enough for \<open>compare_double\<close>.\<close>

lemma number_not_recovered: "is_dbl (1 + 1 / 2 ^ 52) \<and> reread (1 + 1 / 2 ^ 52) = 1"
proof -
  let ?d = "1 + 1 / 2 ^ 52 :: rat"
  have "?d = of_int (2 ^ 52 + 1) * pow2 (- 52)" by (simp add: pow2_def)
  then have dd: "is_dbl ?d" unfolding is_dbl_def by (intro exI[of _ "2 ^ 52 + 1"] exI[of _ "- 52"]) simp
  have e: "dec_exponent ?d = 0"
  proof -
    note b = dec_exponent_bounds[of ?d]
    have "pow10 (dec_exponent ?d) < pow10 1" "pow10 0 < pow10 (dec_exponent ?d + 1)"
      using b by (simp_all add: pow10_def)
    then have "\<not> 1 \<le> dec_exponent ?d" "\<not> dec_exponent ?d + 1 \<le> 0" using pow10_mono by (meson not_less)+
    then show ?thesis by simp
  qed
  have "rne (?d * 10 ^ 14) = 10 ^ 14" by (rule rne_near) simp
  then have "significant 15 ?d = (10 ^ 14, 0)" unfolding significant_def Let_def e by (simp add: pow10_def)
  then have p: "printed 15 ?d = 1" by (simp add: printed_def pow10_def)
  have one: "fl 1 = 1" using fl_int[of 1] by simp
  have "trunc ?d = 1" by (simp add: trunc_def floor_eq_iff)
  then have "saturate ?d = 1" by (simp add: saturate_def)
  then have ni: "?d \<noteq> dbl_of_int (saturate ?d)" by (simp add: dbl_of_int_def one)
  have "is_dbl (of_int (- 1) * pow2 (- 52))" by (rule is_dbl_scaled) simp
  then have sub: "dsub 1 ?d = - (1 / 2 ^ 52)" unfolding dsub_def by (subst fl_exact) (simp_all add: pow2_def)
  have "?d * (1 / 2 ^ 52) = of_int (2 ^ 52 + 1) * pow2 (- 104)" by (simp add: pow2_def)
  then have "is_dbl (?d * (1 / 2 ^ 52))" unfolding is_dbl_def by (intro exI[of _ "2 ^ 52 + 1"] exI[of _ "- 104"]) simp
  then have "dmul ?d DBL_EPSILON = ?d * (1 / 2 ^ 52)" unfolding dmul_def DBL_EPSILON_def by (rule fl_exact)
  then have "compare_double 1 ?d" unfolding compare_double_def sub Let_def by simp
  then have "reread ?d = 1" unfolding reread_def p one if_not_P[OF ni] by (rule if_P)
  with dd show ?thesis by blast
qed

section \<open>The properties\<close>

text \<open>C21: The parser accepts every text the printer writes, formatted or not, and gives the tree
  back: the same shape, member names and strings, and every number as it reads again. The trees
  are those with strings without NUL, normal doubles and no more levels than the parser allows.\<close>

theorem json_text_roundtrip:
  assumes "printable CJSON_NESTING_LIMIT j"
  shows "\<exists>s. (if format then cJSON_Print j else cJSON_PrintUnformatted j) = Some s \<and> NUL \<notin> set s \<and>
    cJSON_Parse s = Some (reread_tree j)"
  by (rule printed_parses[OF assms, of format]) (auto simp: cJSON_Print_def cJSON_PrintUnformatted_def)

lemma json_text_roundtrip_witness:
  "\<exists>s. cJSON_Print (J_Object [(''a'', J_Array [J_Number 1, J_Null]), (''b'', J_String [QUOTE, CHR 0x0A])]) = Some s \<and>
    cJSON_Parse s = Some (J_Object [(''a'', J_Array [J_Number 1, J_Null]), (''b'', J_String [QUOTE, CHR 0x0A])])"
proof -
  let ?j = "J_Object [(''a'', J_Array [J_Number 1, J_Null]), (''b'', J_String [QUOTE, CHR 0x0A])]"
  have "is_dbl (of_int 1)" by (rule is_dbl_int) simp
  then have "normal_double 1" by (simp add: normal_double_def)
  then have "printable (Suc (Suc n)) ?j" for n by simp
  from this[of 998] have "printable CJSON_NESTING_LIMIT ?j" by (simp only: CJSON_NESTING_LIMIT_def) simp
  moreover have "reread (of_int 1) = of_int 1" by (rule reread_integer) simp
  then have "reread_tree ?j = ?j" by simp
  ultimately show ?thesis using json_text_roundtrip[of ?j True] by auto
qed

text \<open>C22: Neither direction writes past the space it allocates for a string. Whatever escape sequences
  a literal has, also if the parser stops at one that is malformed, the bytes written until then are at
  most \<open>allocation_length\<close>, so they and a terminating NUL fit the buffer; if it does not stop, they
  are the text. A printed string has exactly the computed length.\<close>

theorem string_within_allocation:
  "length (unescaped_bytes literal) \<le> allocation_length literal \<and>
   unescape literal \<in> {None, Some (unescaped_bytes literal)} \<and>
   length (print_string_ptr str) = length str + escape_characters str + 2"
  using unescape_space[of literal] unescape_bytes[of literal]
  by (cases "unescape literal") (auto simp: allocation_length_def print_string_escaped escaped_length)

end
