(* ===== verification/Wire.thy ===== *)
theory Wire
  imports Params Net_IO Json_Roundtrip
begin

text \<open>
  The parameter exchange over the wire: the client's object is printed by \<open>cJSON_PrintUnformatted\<close>,
  framed and written by \<open>JSON_write\<close>, read by \<open>JSON_read\<close>, parsed by \<open>cJSON_Parse\<close> and taken over by
  \<open>get_parameters\<close>. The members of the object are integers, flags and strings, which come back as they
  are, so the theorems about the text, the frame and the parameters compose.
\<close>

definition MAX_PARAMS_JSON_STRING :: int where "MAX_PARAMS_JSON_STRING = 8 * 1024"

section \<open>What the text of the parameters brings back\<close>

definition plain :: "string \<times> cJSON \<Rightarrow> bool" where
  "plain m \<longleftrightarrow> NUL \<notin> set (fst m) \<and> (\<forall>n. printable n (snd m)) \<and> reread_tree (snd m) = snd m"

definition no_nul :: "string option \<Rightarrow> bool" where
  "no_nul so \<longleftrightarrow> (case so of None \<Rightarrow> True | Some s \<Rightarrow> NUL \<notin> set s)"

definition texts_ok :: "iperf_test \<Rightarrow> bool" where
  "texts_ok c \<longleftrightarrow>
     no_nul (t_title c) \<and> no_nul (t_extra_data c) \<and> no_nul (t_congestion c) \<and> no_nul (t_congestion_used c) \<and>
     list_all int32 [t_get_server_output c, t_udp_counters_64bit c, t_repeating_payload c]"

lemma plain_number: "\<bar>i\<bar> \<le> 2 ^ 53 \<Longrightarrow> NUL \<notin> set k \<Longrightarrow> plain (k, J_Number (dbl_of_int i))"
proof -
  assume i: "\<bar>i\<bar> \<le> 2 ^ 53" and k: "NUL \<notin> set k"
  have "normal_double (of_int i)"
  proof (cases "i = 0")
    case False
    then have "of_int 1 \<le> (of_int \<bar>i\<bar> :: rat)" "(of_int \<bar>i\<bar> :: rat) \<le> of_int (2 ^ 53)"
      using i by (simp_all only: of_int_le_iff)
    moreover have "(1 :: rat) / 2 ^ 1022 \<le> 1" "(2 ^ 53 :: rat) < 2 ^ 1024" by simp_all
    ultimately show ?thesis using is_dbl_int[OF i] by (simp add: normal_double_def)
  qed (use is_dbl_int[OF i] in \<open>simp add: normal_double_def\<close>)
  then show ?thesis using k reread_integer[OF i] dbl_of_int_exact[OF i] by (simp add: plain_def)
qed

lemma int32_small: "int32 i \<Longrightarrow> \<bar>i\<bar> \<le> 2 ^ 53"
  by (simp add: int32_def abs_if)

definition all_plain :: "(string \<times> cJSON) list \<Rightarrow> bool" where
  "all_plain ms \<longleftrightarrow> list_all plain ms"

lemma all_plain_simps [simp]:
  "all_plain []" "all_plain (m # ms) \<longleftrightarrow> plain m \<and> all_plain ms" "all_plain (xs @ ys) \<longleftrightarrow> all_plain xs \<and> all_plain ys"
  by (simp_all add: all_plain_def)

lemma plain_members:
  "int32 i \<Longrightarrow> NUL \<notin> set k \<Longrightarrow> all_plain (num_member k i)"
  "int32 i \<Longrightarrow> NUL \<notin> set k \<Longrightarrow> all_plain (num_unless0 k i)"
  "uint (w :: u64) \<le> 2 ^ 53 \<Longrightarrow> NUL \<notin> set k \<Longrightarrow> all_plain (num_member k (uint w))"
  "uint (w :: u64) \<le> 2 ^ 53 \<Longrightarrow> NUL \<notin> set k \<Longrightarrow> all_plain (num_unless0 k (uint w))"
  "NUL \<notin> set k \<Longrightarrow> all_plain (true_member k)"
  "NUL \<notin> set k \<Longrightarrow> all_plain (true_unless0 k i)"
  "no_nul so \<Longrightarrow> NUL \<notin> set k \<Longrightarrow> all_plain (str_member k so)"
  using plain_number[of i k] plain_number[of "uint w" k] int32_small[of i]
  by (auto simp: num_member_def num_unless0_def true_member_def true_unless0_def str_member_def no_nul_def
      plain_def split: option.splits)

lemma params_plain:
  assumes "params_fit c" "texts_ok c"
  shows "all_plain (params_members c)"
proof -
  have fits: "int32 (t_omit c)" "int32 (t_server_affinity c)" "int32 (t_duration c)"
    "int32 (t_num_streams c)" "int32 (s_mss (t_settings c))" "int32 (s_socket_bufsize (t_settings c))"
    "int32 (s_blksize (t_settings c))" "int32 (s_burst (t_settings c))" "int32 (s_tos (t_settings c))"
    "int32 (s_skip_rx_copy (t_settings c))" "int32 (t_zerocopy c)" "int32 (s_pacing_timer (t_settings c))"
    "int32 (s_flowlabel (t_settings c))"
    "uint (s_bytes (t_settings c)) \<le> 2 ^ 53" "uint (s_blocks (t_settings c)) \<le> 2 ^ 53"
    "uint (s_rate (t_settings c)) \<le> 2 ^ 53" "uint (s_fqrate (t_settings c)) \<le> 2 ^ 53"
    using assms(1) by (simp_all add: params_fit_def Let_def)
  have t: "no_nul (t_title c)" "no_nul (t_extra_data c)" "no_nul (t_congestion c)" "no_nul (t_congestion_used c)"
    "int32 (t_get_server_output c)" "int32 (t_udp_counters_64bit c)" "int32 (t_repeating_payload c)"
    using assms(2) by (simp_all add: texts_ok_def)
  have v: "plain (''client_version'', J_String IPERF_VERSION)" by (simp add: plain_def IPERF_VERSION_def)
  show ?thesis
    using fits unfolding params_members_def Let_def by (simp add: plain_members t v)
qed

lemma params_printed:
  assumes "params_fit c" "texts_ok c"
  obtains str where "cJSON_PrintUnformatted (params_json c) = Some str" "NUL \<notin> set str" "str \<noteq> []"
    "cJSON_Parse str = Some (params_json c)"
proof -
  have p: "\<forall>(k, x)\<in>set (params_members c). NUL \<notin> set k \<and> printable n x" for n
    using params_plain[OF assms] by (auto simp: plain_def all_plain_def list_all_iff)
  then have "printable (Suc n) (params_json c)" for n by (simp add: params_json_def)
  from this[of 999] have pr: "printable CJSON_NESTING_LIMIT (params_json c)"
    by (simp only: CJSON_NESTING_LIMIT_def) simp
  have "map (\<lambda>(k, x). (k, reread_tree x)) (params_members c) = params_members c"
    using params_plain[OF assms] by (intro map_idI) (auto simp: plain_def all_plain_def list_all_iff)
  then have rr: "reread_tree (params_json c) = params_json c" by (simp add: params_json_def)
  obtain str where str: "print_value False 0 (params_json c) = Some str" "NUL \<notin> set str"
    "cJSON_Parse str = Some (reread_tree (params_json c))"
    by (rule printed_parses[OF pr])
  have "str \<noteq> []" using str(1) by (auto simp: params_json_def split: option.splits)
  with str rr show thesis by (intro that[of str]) (simp_all add: cJSON_PrintUnformatted_def)
qed

section \<open>The exchange\<close>

text \<open>C2: The parameters cross the wire: what \<open>JSON_write\<close> puts on the control connection for the
  client's test, however the connection splits it, is read by \<open>JSON_read\<close> and the parser as the same
  object, and \<open>get_parameters\<close> gives the server a test that agrees with the client's as in the exchange
  of the objects. The connection makes progress, the client's numbers fit, and the text, whose strings
  have no NUL, is not longer than the server accepts.\<close>

theorem parameters_cross_the_wire:
  assumes "t_role c = CHR ''c''" "mode_ok c" "params_fit c" "texts_ok c" "t_protocol c \<in> {Ptcp, Pudp}"
    and "s_blksize (t_settings c) \<noteq> 0" "set [Ptcp, Pudp] \<subseteq> set (t_protocols s)"
    and "cJSON_PrintUnformatted (params_json c) = Some str" "int (length str) \<le> MAX_PARAMS_JSON_STRING"
    and "flowing (k_script w) (4 + length str)" "flowing (k_script k) (4 + length str)"
    and "k_in k = frame str @ tail" "in_time (Iperf_Time 0 0) k"
  shows "(\<exists>w'. JSON_write sock_write cJSON_PrintUnformatted (params_json c) w = (0, w') \<and>
      k_out w' = k_out w @ frame str) \<and>
    (\<exists>j k' t. JSON_read sock_read sock_select sock_clock cJSON_Parse True MAX_PARAMS_JSON_STRING k = (j, k') \<and>
      j = Some (params_json c) \<and> k_in k' = tail \<and> get_parameters j (reset_fields s) = (0, t) \<and> agreed c s t)"
proof -
  have str: "NUL \<notin> set str" "str \<noteq> []" "cJSON_Parse str = Some (params_json c)"
    using params_printed[OF assms(3,4)] assms(8) by force+
  have len: "length str < 2 ^ 31"
    "MAX_PARAMS_JSON_STRING = 0 \<or> int (length str) \<le> MAX_PARAMS_JSON_STRING \<and> MAX_PARAMS_JSON_STRING < 2 ^ 31"
    using assms(9) by (simp_all add: MAX_PARAMS_JSON_STRING_def)
  note msg = json_message_passes[where print = cJSON_PrintUnformatted and j = "params_json c" and parse = cJSON_Parse,
      OF assms(8) str(1,2) len assms(10-13)]
  then show ?thesis
    using params_transfer[OF assms(1-3,5-7)] unfolding str(3) by blast
qed

section \<open>A concrete exchange\<close>

text \<open>A bound on the text of an object whose members are numbers, flags and strings.\<close>

fun scalar_bound :: "cJSON \<Rightarrow> nat option" where
  "scalar_bound (J_Number d) = Some 25"
| "scalar_bound (J_String s) = Some (6 * length s + 2)"
| "scalar_bound (J_Bool b) = Some 5"
| "scalar_bound _ = None"

fun members_bound :: "(string \<times> cJSON) list \<Rightarrow> nat option" where
  "members_bound [] = Some 0"
| "members_bound ((k, x) # kvs) =
     (case (scalar_bound x, members_bound kvs) of
        (Some m, Some n) \<Rightarrow> Some (6 * length k + 4 + m + n)
      | _ \<Rightarrow> None)"

lemma print_string_bound: "length (print_string_ptr s) \<le> 6 * length s + 2"
proof -
  have "escape_characters s \<le> 5 * length s" by (induction s) auto
  then show ?thesis by (simp add: print_string_escaped escaped_length)
qed

lemma scalar_text: "scalar_bound x = Some m \<Longrightarrow> print_value format d x = Some s \<Longrightarrow> length s \<le> m"
  using print_string_bound by (cases x) (auto simp: print_number_def Let_def split: if_splits)

lemma members_text:
  "members_bound kvs = Some n \<Longrightarrow> print_members False d kvs = Some s \<Longrightarrow> length s \<le> n"
proof (induction kvs arbitrary: n s)
  case (Cons kx kvs)
  obtain k x where kx: "kx = (k, x)" by (cases kx)
  obtain m n' where b: "scalar_bound x = Some m" "members_bound kvs = Some n'" "n = 6 * length k + 4 + m + n'"
    using Cons.prems(1) by (auto simp: kx split: option.splits)
  obtain t u where p: "print_value False d x = Some t" "print_members False d kvs = Some u"
    "s = print_string_ptr k @ '':'' @ t @ (if kvs = [] then [] else '','') @ u"
    using Cons.prems(2) by (auto simp: kx split: option.splits)
  show ?case using scalar_text[OF b(1) p(1)] Cons.IH[OF b(2) p(2)] print_string_bound[of k] b(3) p(3) by simp
qed simp

lemma default_members_bound: "members_bound (params_members default_client) = Some 608"
  by (simp add: params_members_def Let_def default_client_def iperf_set_test_role_def iperf_defaults_def
      set_protocol_def zero_test_def check_sender_has_retransmits_def has_tcpinfo_retransmits_def c_true_def
      default_settings_def zero_settings_def num_member_def num_unless0_def true_member_def
      true_unless0_def str_member_def IPERF_VERSION_def)

lemma parameters_cross_the_wire_witness:
  "\<exists>str j k' t. cJSON_PrintUnformatted (params_json default_client) = Some str \<and>
     JSON_read sock_read sock_select sock_clock cJSON_Parse True MAX_PARAMS_JSON_STRING
       \<lparr>k_in = frame str @ [7], k_out = [], k_script = replicate (4 + length str) (Move 1),
         k_clock = Iperf_Time 5 0\<rparr> = (j, k') \<and>
     k_in k' = [7] \<and> get_parameters j (reset_fields default_server) = (0, t) \<and> t_duration t = 10"
proof -
  have t: "texts_ok default_client"
    by (simp add: texts_ok_def no_nul_def int32_def default_client_def iperf_set_test_role_def iperf_defaults_def
        set_protocol_def zero_test_def check_sender_has_retransmits_def has_tcpinfo_retransmits_def Let_def)
  obtain str where str: "cJSON_PrintUnformatted (params_json default_client) = Some str"
    by (rule params_printed[OF conjunct2[OF default_client_ok] t])
  then obtain u where "print_members False 1 (params_members default_client) = Some u" "str = ''{'' @ u @ ''}''"
    by (auto simp: cJSON_PrintUnformatted_def params_json_def split: option.splits)
  then have l: "int (length str) \<le> MAX_PARAMS_JSON_STRING"
    using members_text[OF default_members_bound] by (fastforce simp: MAX_PARAMS_JSON_STRING_def)
  let ?k = "\<lparr>k_in = frame str @ [7], k_out = [], k_script = replicate (4 + length str) (Move 1),
    k_clock = Iperf_Time 5 0\<rparr>"
  have f: "flowing (k_script ?k) (4 + length str)" by (auto simp: flowing_def)
  have it: "in_time (Iperf_Time 0 0) ?k"
    by (simp add: in_time_def less_eq_iperf_time_def iperf_time_compare_def iperf_time_add_usecs_def)
  have "s_blksize (t_settings default_client) \<noteq> 0" by (simp add: default_client_fields default_settings_def)
  then obtain j k' t where
    "JSON_read sock_read sock_select sock_clock cJSON_Parse True MAX_PARAMS_JSON_STRING ?k = (j, k')"
    "k_in k' = [7]" "get_parameters j (reset_fields default_server) = (0, t)" "same_params default_client t"
    using parameters_cross_the_wire[of default_client default_server str ?k ?k "[7]"] t default_client_ok str l f it
    by (auto simp: default_client_fields default_server_fields agreed_def)
  then show ?thesis using str by (fastforce simp: same_params_def default_client_fields)
qed

end
