(* ===== verification/Args.thy ===== *)
theory Args
  imports Test_State Units Dscp
begin

text \<open>
  The command line (\<open>iperf_parse_hostname\<close> and \<open>iperf_parse_arguments\<close> of \<open>iperf_api.c\<close>), as the
  Android build compiles it: without SSL, SCTP, MPTCP, \<open>sendfile\<close>, flow labels, device binding, keep
  alive and user time-outs. What \<open>getopt_long\<close> returns is the list of its results, an option and its
  argument; the options the build leaves out of the \<open>switch\<close> take the \<open>default\<close> case. Whether a
  string is a link-local IPv6 literal and the size of a file are parameters. The outcome is
  \<open>Undefined\<close> where C leaves the behaviour undefined, and on numbers outside the model of doubles.
\<close>

section \<open>Constants\<close>

abbreviation (input) DEFAULT_SCTP_BLKSIZE :: int where "DEFAULT_SCTP_BLKSIZE \<equiv> 64 * 1024"
abbreviation (input) UDP_RATE :: u64 where "UDP_RATE \<equiv> 1024 * 1024"
abbreviation (input) MIN_NO_MSG_RCVD_TIMEOUT :: int where "MIN_NO_MSG_RCVD_TIMEOUT \<equiv> 100"
abbreviation (input) DEBUG_LEVEL_MAX :: int where "DEBUG_LEVEL_MAX \<equiv> 4"

definition MIN_INTERVAL :: dbl where "MIN_INTERVAL = fl (1 / 10)"
definition MAX_INTERVAL :: dbl where "MAX_INTERVAL = 60"

section \<open>The state of the parser\<close>

text \<open>The option flags \<open>getopt_long\<close> returns: a character, or one of the codes of \<open>iperf_api.h\<close>.\<close>

datatype opt_flag =
    Opt char
  | OPT_SCTP | OPT_LOGFILE | OPT_GET_SERVER_OUTPUT | OPT_UDP_COUNTERS_64BIT | OPT_CLIENT_PORT
  | OPT_FORCEFLUSH | OPT_NO_FQ_SOCKET_PACING | OPT_FQ_RATE | OPT_DSCP | OPT_PACING_TIMER
  | OPT_CONNECT_TIMEOUT | OPT_REPEATING_PAYLOAD | OPT_EXTRA_DATA | OPT_BIDIRECTIONAL
  | OPT_SERVER_BITRATE_LIMIT | OPT_TIMESTAMPS | OPT_IDLE_TIMEOUT | OPT_RCV_TIMEOUT
  | OPT_JSON_STREAM | OPT_SND_TIMEOUT

text \<open>The test and the local variables of \<open>iperf_parse_arguments\<close>.\<close>

record args =
  a_test :: iperf_test
  a_blksize :: int
  a_server_flag :: bool
  a_client_flag :: bool
  a_rate_flag :: bool
  a_duration_flag :: bool
  a_rcv_timeout_flag :: bool

text \<open>The outcomes: going on, \<open>return -1\<close> with \<open>i_errno\<close> set, \<open>exit\<close>, undefined behaviour.\<close>

datatype parsing = Parsing args | Failed iperf_test | Exited int | Undefined

definition and_parse :: "(args \<Rightarrow> parsing) \<Rightarrow> parsing \<Rightarrow> parsing" where
  "and_parse f r = (case r of Parsing a \<Rightarrow> f a | Failed t \<Rightarrow> Failed t | Exited n \<Rightarrow> Exited n | Undefined \<Rightarrow> Undefined)"

definition reject :: "int \<Rightarrow> args \<Rightarrow> parsing" where
  "reject e a = Failed ((a_test a)\<lparr>t_i_errno := e\<rparr>)"

definition set_test :: "(iperf_test \<Rightarrow> iperf_test) \<Rightarrow> args \<Rightarrow> args" where
  "set_test f a = a\<lparr>a_test := f (a_test a)\<rparr>"

definition set_settings :: "(iperf_settings \<Rightarrow> iperf_settings) \<Rightarrow> args \<Rightarrow> args" where
  "set_settings f a = set_test (upd_settings f) a"

definition client_option :: "args \<Rightarrow> args" where "client_option a = a\<lparr>a_client_flag := True\<rparr>"
definition server_option :: "args \<Rightarrow> args" where "server_option a = a\<lparr>a_server_flag := True\<rparr>"

section \<open>Numbers\<close>

text \<open>\<open>atof\<close>: 0 if there is no number; the forms the model of doubles does not have give \<open>None\<close>.\<close>

definition special_form :: "string \<Rightarrow> bool" where
  "special_form s =
     (let s1 = snd (take_sign (dropWhile c_isspace s)); w = map c_tolower (take 3 s1)
      in hex_form s1 \<or> w = ''inf'' \<or> w = ''nan'')"

definition atof :: "string \<Rightarrow> dbl option" where
  "atof s =
     (case scan_double s of
        Some (n, _) \<Rightarrow> Some n
      | None \<Rightarrow> if special_form s then None else Some 0)"

section \<open>Host names\<close>

text \<open>\<open>strtok (s, "%")\<close>: the first token, if there is one, and what is left for the next call.\<close>

definition strtok :: "string \<Rightarrow> (string \<times> string) option" where
  "strtok s =
     (let s1 = dropWhile (\<lambda>c. c = CHR ''%'') s
      in if s1 = [] then None
         else Some (takeWhile (\<lambda>c. c \<noteq> CHR ''%'') s1, tl (dropWhile (\<lambda>c. c \<noteq> CHR ''%'') s1)))"

definition iperf_parse_hostname :: "(string \<Rightarrow> bool) \<Rightarrow> string \<Rightarrow> int" where
  "iperf_parse_hostname link_local spec =
     (case strtok spec of
        None \<Rightarrow> 0
      | Some (p, rest) \<Rightarrow>
          (case strtok rest of
             None \<Rightarrow> 0
           | Some (p1, _) \<Rightarrow> if link_local p then 0 else 1))"

section \<open>The options\<close>

definition opt_port :: "string \<Rightarrow> args \<Rightarrow> parsing" where
  "opt_port optarg a =
     (let portno = atoi optarg
      in if portno < 1 \<or> portno > 65535 then reject IEBADPORT a
         else Parsing (set_test (\<lambda>t. t\<lparr>t_server_port := portno\<rparr>) a))"

definition opt_format :: "string option \<Rightarrow> args \<Rightarrow> parsing" where
  "opt_format optarg a =
     (case optarg of
        None \<Rightarrow> reject IEBADFORMAT a
      | Some s \<Rightarrow>
          (let c = (case s of [] \<Rightarrow> CHR 0x00 | x # _ \<Rightarrow> x);
               a1 = set_settings (\<lambda>st. st\<lparr>s_unit_format := c\<rparr>) a
           in if c \<in> set ''kKmMgGtT'' then Parsing a1 else reject IEBADFORMAT a1))"

text \<open>The C check of the interval rejects infinities, but accepts \<open>-i nan\<close>, since every comparison with a
NaN is false, and stores it. A NaN is not a number of the model: for \<open>nan\<close>, as for infinities and
hexadecimal numbers, the parser has the outcome \<open>Undefined\<close>, and statements on accepted options do not
cover them.\<close>

definition opt_interval :: "string \<Rightarrow> args \<Rightarrow> parsing" where
  "opt_interval optarg a =
     (case atof optarg of
        None \<Rightarrow> Undefined
      | Some x \<Rightarrow>
          (let a1 = set_test (\<lambda>t. t\<lparr>t_stats_interval := x, t_reporter_interval := x\<rparr>) a
           in if (x < MIN_INTERVAL \<or> x > MAX_INTERVAL) \<and> x \<noteq> 0 then reject IEINTERVAL a1 else Parsing a1))"

definition opt_server :: "args \<Rightarrow> parsing" where
  "opt_server a =
     (if t_role (a_test a) = CHR ''c'' then reject IESERVCLIENT a
      else Parsing (set_test (iperf_set_test_role (CHR ''s'')) a))"

definition opt_client :: "(string \<Rightarrow> bool) \<Rightarrow> string \<Rightarrow> args \<Rightarrow> parsing" where
  "opt_client link_local optarg a =
     (if t_role (a_test a) = CHR ''s'' then reject IESERVCLIENT a
      else
        (let a1 = set_test (\<lambda>t. (iperf_set_test_role (CHR ''c'') t)\<lparr>t_server_hostname := Some optarg\<rparr>) a
         in if iperf_parse_hostname link_local optarg \<noteq> 0 then reject IEBINDDEVNOSUPPORT a1 else Parsing a1))"

text \<open>The part of an argument before a slash, and what the code does with the part after it.\<close>

definition with_slash :: "(string \<Rightarrow> args \<Rightarrow> parsing) \<Rightarrow> (string \<Rightarrow> args \<Rightarrow> parsing) \<Rightarrow> string \<Rightarrow> args \<Rightarrow> parsing" where
  "with_slash after_slash f optarg a =
     (case split_at (CHR ''/'') optarg of
        None \<Rightarrow> f optarg a
      | Some (before, slash) \<Rightarrow> and_parse (f before) (after_slash slash a))"

definition opt_burst :: "string \<Rightarrow> args \<Rightarrow> parsing" where
  "opt_burst slash a =
     (let burst = atoi slash; a1 = set_settings (\<lambda>st. st\<lparr>s_burst := burst\<rparr>) a
      in if burst \<le> 0 \<or> burst > MAX_BURST then reject IEBURST a1 else Parsing a1)"

text \<open>A rate is the double \<open>unit_atof_rate\<close> returns, converted to 64 bits.\<close>

definition rate_of :: "string \<Rightarrow> u64 option" where
  "rate_of s = Option.bind (unit_atof_rate s) dbl_to_u64"

definition opt_rate :: "string \<Rightarrow> args \<Rightarrow> parsing" where
  "opt_rate optarg a =
     (case rate_of optarg of
        None \<Rightarrow> Undefined
      | Some r \<Rightarrow>
          Parsing (client_option ((set_settings (\<lambda>st. st\<lparr>s_rate := r\<rparr>) a)\<lparr>a_rate_flag := True\<rparr>)))"

definition opt_limit_interval :: "string \<Rightarrow> args \<Rightarrow> parsing" where
  "opt_limit_interval slash a =
     (case atof slash of
        None \<Rightarrow> Undefined
      | Some x \<Rightarrow>
          (let a1 = set_settings (\<lambda>st. st\<lparr>s_bitrate_limit_interval := x\<rparr>) a
           in if x \<noteq> 0 \<and> (x < MIN_INTERVAL \<or> x > MAX_INTERVAL) then reject IETOTALINTERVAL a1
              else Parsing a1))"

definition opt_limit :: "string \<Rightarrow> args \<Rightarrow> parsing" where
  "opt_limit optarg a =
     (case rate_of optarg of
        None \<Rightarrow> Undefined
      | Some r \<Rightarrow> Parsing (server_option (set_settings (\<lambda>st. st\<lparr>s_bitrate_limit := r\<rparr>) a)))"

definition opt_time :: "string \<Rightarrow> args \<Rightarrow> parsing" where
  "opt_time optarg a =
     (let d = atoi optarg; a1 = set_test (\<lambda>t. t\<lparr>t_duration := d\<rparr>) a
      in if d > MAX_TIME \<or> d < 0 then reject IEDURATION a1
         else Parsing (client_option (a1\<lparr>a_duration_flag := True\<rparr>)))"

text \<open>The options whose argument goes through \<open>unit_atoi\<close>.\<close>

definition opt_unit :: "(u64 \<Rightarrow> args \<Rightarrow> args) \<Rightarrow> string \<Rightarrow> args \<Rightarrow> parsing" where
  "opt_unit put optarg a =
     (case unit_atoi optarg of None \<Rightarrow> Undefined | Some n \<Rightarrow> Parsing (client_option (put n a)))"

definition opt_streams :: "string \<Rightarrow> args \<Rightarrow> parsing" where
  "opt_streams optarg a =
     (let n = atoi optarg; a1 = set_test (\<lambda>t. t\<lparr>t_num_streams := n\<rparr>) a
      in if n > MAX_STREAMS then reject IENUMSTREAMS a1 else Parsing (client_option a1))"

definition opt_reverse :: "args \<Rightarrow> parsing" where
  "opt_reverse a =
     (if t_bidirectional (a_test a) \<noteq> 0 then reject IEREVERSEBIDIR a
      else Parsing (client_option (set_test (iperf_set_test_reverse 1) a)))"

definition opt_bidirectional :: "args \<Rightarrow> parsing" where
  "opt_bidirectional a =
     (if t_reverse (a_test a) \<noteq> 0 then reject IEREVERSEBIDIR a
      else Parsing (client_option (set_test (iperf_set_test_bidirectional 1) a)))"

definition opt_window :: "string \<Rightarrow> args \<Rightarrow> parsing" where
  "opt_window optarg a =
     (case unit_atof optarg of
        None \<Rightarrow> Undefined
      | Some farg \<Rightarrow>
          if farg > of_int MAX_TCP_BUFFER then reject IEBUFSIZE a
          else
            (case dbl_to_i32 farg of
               None \<Rightarrow> Undefined
             | Some n \<Rightarrow> Parsing (client_option (set_settings (\<lambda>st. st\<lparr>s_socket_bufsize := n\<rparr>) a))))"

definition opt_bind :: "(string \<Rightarrow> bool) \<Rightarrow> string \<Rightarrow> args \<Rightarrow> parsing" where
  "opt_bind link_local optarg a =
     (let a1 = set_test (\<lambda>t. t\<lparr>t_bind_address := Some optarg\<rparr>) a
      in if iperf_parse_hostname link_local optarg \<noteq> 0 then reject IEBINDDEVNOSUPPORT a1 else Parsing a1)"

definition opt_client_port :: "string \<Rightarrow> args \<Rightarrow> parsing" where
  "opt_client_port optarg a =
     (let portno = atoi optarg
      in if portno < 1 \<or> portno > 65535 then reject IEBADPORT a
         else Parsing (set_test (\<lambda>t. t\<lparr>t_bind_port := portno\<rparr>) a))"

definition opt_mss :: "string \<Rightarrow> args \<Rightarrow> parsing" where
  "opt_mss optarg a =
     (let n = atoi optarg; a1 = set_settings (\<lambda>st. st\<lparr>s_mss := n\<rparr>) a
      in if n > MAX_MSS then reject IEMSS a1 else Parsing (client_option a1))"

definition opt_tos :: "string \<Rightarrow> args \<Rightarrow> parsing" where
  "opt_tos optarg a =
     (let (v, endptr) = strtol optarg 0; n = to_int32 v;
          a1 = set_settings (\<lambda>st. st\<lparr>s_tos := n\<rparr>) a
      in if endptr = optarg \<or> n < 0 \<or> n > 255 then reject IEBADTOS a1 else Parsing (client_option a1))"

definition opt_dscp :: "string option \<Rightarrow> args \<Rightarrow> parsing" where
  "opt_dscp optarg a =
     (let n = parse_qos optarg; a1 = set_settings (\<lambda>st. st\<lparr>s_tos := n\<rparr>) a
      in if n < 0 then reject IEBADTOS a1 else Parsing (client_option a1))"

definition opt_timestamps :: "string option \<Rightarrow> args \<Rightarrow> parsing" where
  "opt_timestamps optarg a =
     Parsing (set_test (\<lambda>t. t\<lparr>t_timestamps := 1,
                              t_timestamp_format := Some (case optarg of Some s \<Rightarrow> s | None \<Rightarrow> ''%c '')\<rparr>) a)"

definition opt_omit :: "string \<Rightarrow> args \<Rightarrow> parsing" where
  "opt_omit optarg a =
     (let n = atoi optarg; a1 = set_test (\<lambda>t. t\<lparr>t_omit := n\<rparr>) a
      in if n < 0 \<or> n > MAX_OMIT_TIME then reject IEOMIT a1 else Parsing (client_option a1))"

definition opt_idle_timeout :: "string \<Rightarrow> args \<Rightarrow> parsing" where
  "opt_idle_timeout optarg a =
     (let n = atoi optarg; a1 = set_settings (\<lambda>st. st\<lparr>s_idle_timeout := n\<rparr>) a
      in if n < 1 \<or> n > MAX_TIME then reject IEIDLETIMEOUT a1 else Parsing (server_option a1))"

definition opt_rcv_timeout :: "string \<Rightarrow> args \<Rightarrow> parsing" where
  "opt_rcv_timeout optarg a =
     (let n = atoi optarg
      in if n < MIN_NO_MSG_RCVD_TIMEOUT \<or> n > MAX_TIME * 1000 then reject IERCVTIMEOUT a
         else Parsing ((set_settings (\<lambda>st. st\<lparr>s_rcv_timeout :=
                          Iperf_Time (word_of_int (n div 1000)) (word_of_int (n mod 1000 * 1000))\<rparr>) a)
                       \<lparr>a_rcv_timeout_flag := True\<rparr>))"

definition opt_affinity :: "string \<Rightarrow> args \<Rightarrow> parsing" where
  "opt_affinity optarg a =
     (let (v, endptr) = strtol optarg 0; n = to_int32 v;
          a1 = set_test (\<lambda>t. t\<lparr>t_affinity := n\<rparr>) a
      in if endptr = optarg \<or> n < 0 \<or> n > 1024 then reject IEAFFINITY a1
         else
           (case split_at (CHR '','') optarg of
              None \<Rightarrow> Parsing a1
            | Some (_, comma) \<Rightarrow>
                (let m = atoi comma; a2 = set_test (\<lambda>t. t\<lparr>t_server_affinity := m\<rparr>) a1
                 in if m < 0 \<or> m > 1024 then reject IEAFFINITY a2 else Parsing (client_option a2))))"

definition opt_debug :: "string option \<Rightarrow> args \<Rightarrow> parsing" where
  "opt_debug optarg a =
     (let level = (case optarg of
                     None \<Rightarrow> DEBUG_LEVEL_MAX
                   | Some s \<Rightarrow> if atoi s < 0 then DEBUG_LEVEL_MAX else atoi s)
      in Parsing (set_test (\<lambda>t. t\<lparr>t_debug := 1, t_debug_level := level\<rparr>) a))"

definition opt_fq_rate :: "string \<Rightarrow> args \<Rightarrow> parsing" where
  "opt_fq_rate optarg a =
     (case rate_of optarg of
        None \<Rightarrow> Undefined
      | Some r \<Rightarrow> Parsing (client_option (set_settings (\<lambda>st. st\<lparr>s_fqrate := r\<rparr>) a)))"

section \<open>The switch\<close>

text \<open>An option whose argument \<open>getopt_long\<close> requires.\<close>

definition required :: "(string \<Rightarrow> args \<Rightarrow> parsing) \<Rightarrow> string option \<Rightarrow> args \<Rightarrow> parsing" where
  "required f optarg a = (case optarg of None \<Rightarrow> Undefined | Some s \<Rightarrow> f s a)"

definition flag_option :: "(args \<Rightarrow> args) \<Rightarrow> string option \<Rightarrow> args \<Rightarrow> parsing" where
  "flag_option f optarg a = Parsing (f a)"

definition text_option :: "(string \<Rightarrow> args \<Rightarrow> args) \<Rightarrow> string option \<Rightarrow> args \<Rightarrow> parsing" where
  "text_option f = required (\<lambda>s a. Parsing (f s a))"

text \<open>What is written by the options \<open>-X\<close> (a list only SCTP uses) and \<open>-v\<close>, \<open>-h\<close> (output) is not modelled.\<close>

definition short_options ::
  "(string \<Rightarrow> bool) \<Rightarrow> (char \<times> (string option \<Rightarrow> args \<Rightarrow> parsing)) list" where
  "short_options link_local =
    [(CHR ''p'', required opt_port),
     (CHR ''f'', opt_format),
     (CHR ''i'', required opt_interval),
     (CHR ''D'', flag_option (\<lambda>a. server_option (set_test (\<lambda>t. t\<lparr>t_daemon := 1\<rparr>) a))),
     (CHR ''1'', flag_option (\<lambda>a. server_option (set_test (\<lambda>t. t\<lparr>t_one_off := 1\<rparr>) a))),
     (CHR ''V'', flag_option (set_test (\<lambda>t. t\<lparr>t_verbose := 1\<rparr>))),
     (CHR ''J'', flag_option (set_test (\<lambda>t. t\<lparr>t_json_output := 1\<rparr>))),
     (CHR ''v'', \<lambda>_ _. Exited 0),
     (CHR ''s'', \<lambda>_. opt_server),
     (CHR ''c'', required (opt_client link_local)),
     (CHR ''u'', flag_option (\<lambda>a. client_option (set_test (\<lambda>t. snd (set_protocol Pudp t)) a))),
     (CHR ''b'', required (with_slash opt_burst opt_rate)),
     (CHR ''t'', required opt_time),
     (CHR ''n'', required (opt_unit (\<lambda>n. set_settings (\<lambda>st. st\<lparr>s_bytes := n\<rparr>)))),
     (CHR ''k'', required (opt_unit (\<lambda>n. set_settings (\<lambda>st. st\<lparr>s_blocks := n\<rparr>)))),
     (CHR ''l'', required (opt_unit (\<lambda>n a. a\<lparr>a_blksize := to_int32 (uint n)\<rparr>))),
     (CHR ''P'', required opt_streams),
     (CHR ''R'', \<lambda>_. opt_reverse),
     (CHR ''w'', required opt_window),
     (CHR ''B'', required (opt_bind link_local)),
     (CHR ''M'', required opt_mss),
     (CHR ''N'', flag_option (\<lambda>a. client_option (set_test (\<lambda>t. t\<lparr>t_no_delay := 1\<rparr>) a))),
     (CHR ''4'', flag_option (set_settings (\<lambda>st. st\<lparr>s_domain := 2\<rparr>))),
     (CHR ''6'', flag_option (set_settings (\<lambda>st. st\<lparr>s_domain := 10\<rparr>))),
     (CHR ''S'', required opt_tos),
     (CHR ''L'', \<lambda>_. reject IEUNIMP),
     (CHR ''X'', flag_option (\<lambda>a. a)),
     (CHR ''Z'', \<lambda>_. reject IENOSENDFILE),
     (CHR ''O'', required opt_omit),
     (CHR ''F'', text_option (\<lambda>s. set_test (\<lambda>t. t\<lparr>t_diskfile_name := Some s\<rparr>))),
     (CHR ''A'', required opt_affinity),
     (CHR ''T'', text_option (\<lambda>s a. client_option (set_test (\<lambda>t. t\<lparr>t_title := Some s\<rparr>) a))),
     (CHR ''C'', text_option (\<lambda>s a. client_option (set_test (\<lambda>t. t\<lparr>t_congestion := Some s\<rparr>) a))),
     (CHR ''d'', opt_debug),
     (CHR ''I'', text_option (\<lambda>s. set_test (\<lambda>t. t\<lparr>t_pidfile := Some s\<rparr>))),
     (CHR ''h'', \<lambda>_ _. Exited 0)]"

definition long_option :: "opt_flag \<Rightarrow> string option \<Rightarrow> args \<Rightarrow> parsing" where
  "long_option flag =
     (case flag of
        OPT_JSON_STREAM \<Rightarrow> flag_option (set_test (\<lambda>t. t\<lparr>t_json_output := 1, t_json_stream := 1\<rparr>))
      | OPT_SCTP \<Rightarrow> (\<lambda>_. reject IEUNIMP)
      | OPT_SERVER_BITRATE_LIMIT \<Rightarrow> required (with_slash opt_limit_interval opt_limit)
      | OPT_BIDIRECTIONAL \<Rightarrow> (\<lambda>_. opt_bidirectional)
      | OPT_CLIENT_PORT \<Rightarrow> required opt_client_port
      | OPT_DSCP \<Rightarrow> opt_dscp
      | OPT_EXTRA_DATA \<Rightarrow> text_option (\<lambda>s a. client_option (set_test (\<lambda>t. t\<lparr>t_extra_data := Some s\<rparr>) a))
      | OPT_REPEATING_PAYLOAD \<Rightarrow> flag_option (\<lambda>a. client_option (set_test (\<lambda>t. t\<lparr>t_repeating_payload := 1\<rparr>) a))
      | OPT_TIMESTAMPS \<Rightarrow> opt_timestamps
      | OPT_IDLE_TIMEOUT \<Rightarrow> required opt_idle_timeout
      | OPT_RCV_TIMEOUT \<Rightarrow> required opt_rcv_timeout
      | OPT_LOGFILE \<Rightarrow> text_option (\<lambda>s. set_test (\<lambda>t. t\<lparr>t_logfile := Some s\<rparr>))
      | OPT_FORCEFLUSH \<Rightarrow> flag_option (set_test (\<lambda>t. t\<lparr>t_forceflush := 1\<rparr>))
      | OPT_GET_SERVER_OUTPUT \<Rightarrow> flag_option (\<lambda>a. client_option (set_test (\<lambda>t. t\<lparr>t_get_server_output := 1\<rparr>) a))
      | OPT_UDP_COUNTERS_64BIT \<Rightarrow> flag_option (set_test (\<lambda>t. t\<lparr>t_udp_counters_64bit := 1\<rparr>))
      | OPT_NO_FQ_SOCKET_PACING \<Rightarrow> flag_option (\<lambda>a. client_option (set_settings (\<lambda>st. st\<lparr>s_fqrate := 0\<rparr>) a))
      | OPT_FQ_RATE \<Rightarrow> required opt_fq_rate
      | OPT_PACING_TIMER \<Rightarrow>
          required (opt_unit (\<lambda>n. set_settings (\<lambda>st. st\<lparr>s_pacing_timer := to_int32 (uint n)\<rparr>)))
      | OPT_CONNECT_TIMEOUT \<Rightarrow>
          required (opt_unit (\<lambda>n. set_settings (\<lambda>st. st\<lparr>s_connect_timeout := to_int32 (uint n)\<rparr>)))
      | _ \<Rightarrow> (\<lambda>_ _. Exited 1))"

definition parse_option ::
  "(string \<Rightarrow> bool) \<Rightarrow> opt_flag \<Rightarrow> string option \<Rightarrow> args \<Rightarrow> parsing" where
  "parse_option link_local flag =
     (case flag of
        Opt c \<Rightarrow>
          (case map_of (short_options link_local) c of Some f \<Rightarrow> f | None \<Rightarrow> (\<lambda>_ _. Exited 1))
      | _ \<Rightarrow> long_option flag)"

fun parse_options ::
  "(string \<Rightarrow> bool) \<Rightarrow> (opt_flag \<times> string option) list \<Rightarrow> args \<Rightarrow> parsing" where
  "parse_options link_local [] a = Parsing a"
| "parse_options link_local ((flag, optarg) # opts) a =
     and_parse (parse_options link_local opts) (parse_option link_local flag optarg a)"

section \<open>The checks after the loop\<close>

definition check_flags :: "args \<Rightarrow> parsing" where
  "check_flags a =
     (if t_role (a_test a) = CHR ''c'' \<and> a_server_flag a then reject IESERVERONLY a
      else if t_role (a_test a) = CHR ''s'' \<and> a_client_flag a then reject IECLIENTONLY a
      else Parsing a)"

definition check_udp_file :: "args \<Rightarrow> parsing" where
  "check_udp_file a =
     (let t = a_test a
      in if t_role t = CHR ''c'' \<and> t_diskfile_name t \<noteq> None \<and> t_protocol t = Pudp
         then reject IEUDPFILETRANSFER a else Parsing a)"

definition check_blksize :: "args \<Rightarrow> parsing" where
  "check_blksize a =
     (let p = t_protocol (a_test a);
          blksize = (if a_blksize a = 0
                     then if p = Pudp then 0 else if p = Psctp then DEFAULT_SCTP_BLKSIZE else DEFAULT_TCP_BLKSIZE
                     else a_blksize a);
          a1 = a\<lparr>a_blksize := blksize\<rparr>
      in if (p \<noteq> Pudp \<and> blksize \<le> 0) \<or> blksize > MAX_BLOCKSIZE then reject IEBLOCKSIZE a1
         else if p = Pudp \<and> (blksize > 0 \<and> (blksize < MIN_UDP_BLOCKSIZE \<or> blksize > MAX_UDP_BLOCKSIZE))
         then reject IEUDPBLOCKSIZE a1
         else Parsing (set_settings (\<lambda>st. st\<lparr>s_blksize := blksize\<rparr>) a1))"

definition default_rate :: "args \<Rightarrow> args" where
  "default_rate a =
     (if \<not> a_rate_flag a
      then set_settings (\<lambda>st. st\<lparr>s_rate := (if t_protocol (a_test a) = Pudp then UDP_RATE else 0)\<rparr>) a
      else a)"

text \<open>\<open>file_size\<close> is \<open>st_size\<close> of a file, \<open>None\<close> when \<open>stat\<close> fails.\<close>

definition file_end_condition :: "(string \<Rightarrow> u64 option) \<Rightarrow> args \<Rightarrow> args" where
  "file_end_condition file_size a =
     (let t = a_test a; st = t_settings t
      in if s_bytes st = 0 \<and> s_blocks st = 0 \<and> \<not> a_duration_flag a \<and> t_role t = CHR ''c''
         then (case Option.bind (t_diskfile_name t) file_size of
                 None \<Rightarrow> a
               | Some n \<Rightarrow> set_settings (\<lambda>st. st\<lparr>s_bytes := n\<rparr>) a)
         else a)"

definition check_end_conditions :: "args \<Rightarrow> parsing" where
  "check_end_conditions a =
     (let st = t_settings (a_test a); nb = s_bytes st \<noteq> 0; nk = s_blocks st \<noteq> 0;
          a1 = (if (nb \<or> nk) \<and> \<not> a_duration_flag a then set_test (\<lambda>t. t\<lparr>t_duration := 0\<rparr>) a else a)
      in if (a_duration_flag a \<and> nb) \<or> (a_duration_flag a \<and> nk) \<or> (nb \<and> nk) then reject IEENDCONDITIONS a1
         else Parsing a1)"

definition check_role :: "args \<Rightarrow> parsing" where
  "check_role a =
     (if t_role (a_test a) \<noteq> CHR ''c'' \<and> t_role (a_test a) \<noteq> CHR ''s'' then reject IENOROLE a else Parsing a)"

definition c_round :: "dbl \<Rightarrow> int" where
  "c_round x = (if 0 \<le> x then \<lfloor>x + 1 / 2\<rfloor> else \<lceil>x - 1 / 2\<rceil>)"

definition limit_intervals :: "args \<Rightarrow> parsing" where
  "limit_intervals a =
     (let t = a_test a; li = s_bitrate_limit_interval (t_settings t); si = t_stats_interval t;
          put = (\<lambda>n. Parsing (set_settings (\<lambda>st. st\<lparr>s_bitrate_limit_stats_per_interval := n\<rparr>) a))
      in if li = 0 then Parsing a
         else if li \<le> si then put 1
         else if si = 0 then Undefined
         else (case dbl_to_i32 (of_int (c_round (ddiv li si))) of None \<Rightarrow> Undefined | Some n \<Rightarrow> put n))"

definition finish_arguments :: "(string \<Rightarrow> u64 option) \<Rightarrow> args \<Rightarrow> parsing" where
  "finish_arguments file_size a =
     and_parse limit_intervals
       (and_parse check_role
         (and_parse (\<lambda>a. check_end_conditions (file_end_condition file_size (default_rate a)))
           (and_parse check_blksize
             (and_parse check_udp_file (check_flags a)))))"

definition iperf_parse_arguments ::
  "(string \<Rightarrow> bool) \<Rightarrow> (string \<Rightarrow> u64 option) \<Rightarrow> (opt_flag \<times> string option) list \<Rightarrow> iperf_test \<Rightarrow> parsing" where
  "iperf_parse_arguments link_local file_size opts test =
     and_parse (finish_arguments file_size)
       (parse_options link_local opts \<lparr>a_test = test, a_blksize = 0, a_server_flag = False, a_client_flag = False,
          a_rate_flag = False, a_duration_flag = False, a_rcv_timeout_flag = False\<rparr>)"

end
