(* ===== verification/Args_Ok.thy ===== *)
theory Args_Ok
  imports Args
begin

text \<open>
  What a command line that is accepted promises. \<open>ranges_ok\<close> are the ranges every option keeps,
  whatever comes before and after it, \<open>modes_ok\<close> the consistency of role, direction and mode; the
  checks after the loop add the block size, the end condition and the role. The ranges are those the
  code enforces: there is no lower bound for the number of streams, the segment size and the socket
  buffer.
\<close>

section \<open>The invariant\<close>

definition interval_ok :: "dbl \<Rightarrow> bool" where
  "interval_ok x \<longleftrightarrow> x = 0 \<or> MIN_INTERVAL \<le> x \<and> x \<le> MAX_INTERVAL"

definition ranges_ok :: "iperf_test \<Rightarrow> bool" where
  "ranges_ok t \<longleftrightarrow>
     (let st = t_settings t in
      t_protocols t = [Ptcp, Pudp] \<and> t_protocol t \<in> {Ptcp, Pudp} \<and>
      1 \<le> t_server_port t \<and> t_server_port t \<le> 65535 \<and> 0 \<le> t_bind_port t \<and> t_bind_port t \<le> 65535 \<and>
      0 \<le> t_duration t \<and> t_duration t \<le> MAX_TIME \<and> 0 \<le> t_omit t \<and> t_omit t \<le> MAX_OMIT_TIME \<and>
      t_num_streams t \<le> MAX_STREAMS \<and>
      - 1 \<le> t_affinity t \<and> t_affinity t \<le> 1024 \<and> - 1 \<le> t_server_affinity t \<and> t_server_affinity t \<le> 1024 \<and>
      interval_ok (t_stats_interval t) \<and> t_reporter_interval t = t_stats_interval t \<and>
      s_unit_format st \<in> set ''akKmMgGtT'' \<and>
      0 \<le> s_burst st \<and> s_burst st \<le> MAX_BURST \<and> s_mss st \<le> MAX_MSS \<and> s_socket_bufsize st \<le> MAX_TCP_BUFFER \<and>
      0 \<le> s_tos st \<and> s_tos st \<le> 255 \<and> interval_ok (s_bitrate_limit_interval st) \<and>
      0 \<le> s_idle_timeout st \<and> s_idle_timeout st \<le> MAX_TIME \<and>
      uint (secs (s_rcv_timeout st)) \<le> MAX_TIME \<and> uint (usecs (s_rcv_timeout st)) < 1000000)"

definition modes_ok :: "iperf_test \<Rightarrow> bool" where
  "modes_ok t \<longleftrightarrow>
     \<not> (t_reverse t \<noteq> 0 \<and> t_bidirectional t \<noteq> 0) \<and> (t_role t \<in> {CHR ''c'', CHR ''s''} \<longrightarrow> mode_ok t)"

definition args_ok :: "args \<Rightarrow> bool" where
  "args_ok a \<longleftrightarrow> ranges_ok (a_test a) \<and> modes_ok (a_test a)"

definition keeps_ok :: "(args \<Rightarrow> parsing) \<Rightarrow> bool" where
  "keeps_ok f \<longleftrightarrow> (\<forall>a a'. args_ok a \<longrightarrow> f a = Parsing a' \<longrightarrow> args_ok a')"

lemma keeps_okD: "keeps_ok f \<Longrightarrow> args_ok a \<Longrightarrow> f a = Parsing a' \<Longrightarrow> args_ok a'"
  unfolding keeps_ok_def by blast

lemma and_parse_Parsing [simp]: "and_parse f r = Parsing a \<longleftrightarrow> (\<exists>b. r = Parsing b \<and> f b = Parsing a)"
  by (cases r) (simp_all add: and_parse_def)

lemma reject_Parsing [simp]: "reject e a \<noteq> Parsing b"
  by (simp add: reject_def)

lemma keeps_and_parse: "keeps_ok f \<Longrightarrow> keeps_ok g \<Longrightarrow> keeps_ok (\<lambda>a. and_parse f (g a))"
  unfolding keeps_ok_def and_parse_Parsing by blast

lemma flags_ok [simp]:
  "args_ok (client_option a) = args_ok a" "args_ok (server_option a) = args_ok a"
  "args_ok (a\<lparr>a_rate_flag := b\<rparr>) = args_ok a" "args_ok (a\<lparr>a_duration_flag := b\<rparr>) = args_ok a"
  "args_ok (a\<lparr>a_rcv_timeout_flag := b\<rparr>) = args_ok a" "args_ok (a\<lparr>a_blksize := n\<rparr>) = args_ok a"
  by (simp_all add: args_ok_def client_option_def server_option_def)

lemmas ok_defs = args_ok_def ranges_ok_def modes_ok_def mode_ok_def set_settings_def set_test_def upd_settings_def Let_def

section \<open>The fields an option can set\<close>

lemma test_fields_ok:
  "args_ok a \<Longrightarrow> 1 \<le> n \<Longrightarrow> n \<le> 65535 \<Longrightarrow> args_ok (set_test (\<lambda>t. t\<lparr>t_server_port := n\<rparr>) a)"
  "args_ok a \<Longrightarrow> 1 \<le> n \<Longrightarrow> n \<le> 65535 \<Longrightarrow> args_ok (set_test (\<lambda>t. t\<lparr>t_bind_port := n\<rparr>) a)"
  "args_ok a \<Longrightarrow> interval_ok x \<Longrightarrow> args_ok (set_test (\<lambda>t. t\<lparr>t_stats_interval := x, t_reporter_interval := x\<rparr>) a)"
  "args_ok a \<Longrightarrow> 0 \<le> n \<Longrightarrow> n \<le> MAX_TIME \<Longrightarrow> args_ok (set_test (\<lambda>t. t\<lparr>t_duration := n\<rparr>) a)"
  "args_ok a \<Longrightarrow> 0 \<le> n \<Longrightarrow> n \<le> MAX_OMIT_TIME \<Longrightarrow> args_ok (set_test (\<lambda>t. t\<lparr>t_omit := n\<rparr>) a)"
  "args_ok a \<Longrightarrow> n \<le> MAX_STREAMS \<Longrightarrow> args_ok (set_test (\<lambda>t. t\<lparr>t_num_streams := n\<rparr>) a)"
  "args_ok a \<Longrightarrow> 0 \<le> n \<Longrightarrow> n \<le> 1024 \<Longrightarrow> args_ok (set_test (\<lambda>t. t\<lparr>t_affinity := n\<rparr>) a)"
  "args_ok a \<Longrightarrow> 0 \<le> n \<Longrightarrow> n \<le> 1024 \<Longrightarrow> args_ok (set_test (\<lambda>t. t\<lparr>t_server_affinity := n\<rparr>) a)"
  by (simp_all add: ok_defs)

lemma setting_fields_ok:
  "args_ok a \<Longrightarrow> c \<in> set ''kKmMgGtT'' \<Longrightarrow> args_ok (set_settings (\<lambda>st. st\<lparr>s_unit_format := c\<rparr>) a)"
  "args_ok a \<Longrightarrow> 0 < n \<Longrightarrow> n \<le> MAX_BURST \<Longrightarrow> args_ok (set_settings (\<lambda>st. st\<lparr>s_burst := n\<rparr>) a)"
  "args_ok a \<Longrightarrow> n \<le> MAX_MSS \<Longrightarrow> args_ok (set_settings (\<lambda>st. st\<lparr>s_mss := n\<rparr>) a)"
  "args_ok a \<Longrightarrow> n \<le> MAX_TCP_BUFFER \<Longrightarrow> args_ok (set_settings (\<lambda>st. st\<lparr>s_socket_bufsize := n\<rparr>) a)"
  "args_ok a \<Longrightarrow> 0 \<le> n \<Longrightarrow> n \<le> 255 \<Longrightarrow> args_ok (set_settings (\<lambda>st. st\<lparr>s_tos := n\<rparr>) a)"
  "args_ok a \<Longrightarrow> interval_ok x \<Longrightarrow> args_ok (set_settings (\<lambda>st. st\<lparr>s_bitrate_limit_interval := x\<rparr>) a)"
  "args_ok a \<Longrightarrow> 1 \<le> n \<Longrightarrow> n \<le> MAX_TIME \<Longrightarrow> args_ok (set_settings (\<lambda>st. st\<lparr>s_idle_timeout := n\<rparr>) a)"
  "args_ok a \<Longrightarrow> uint (secs v) \<le> MAX_TIME \<Longrightarrow> uint (usecs v) < 1000000 \<Longrightarrow>
     args_ok (set_settings (\<lambda>st. st\<lparr>s_rcv_timeout := v\<rparr>) a)"
  by (simp_all add: ok_defs)

text \<open>The other fields do not count.\<close>

lemma free_fields_ok:
  "args_ok (set_test (\<lambda>t. t\<lparr>t_daemon := i\<rparr>) a) = args_ok a"
  "args_ok (set_test (\<lambda>t. t\<lparr>t_one_off := i\<rparr>) a) = args_ok a"
  "args_ok (set_test (\<lambda>t. t\<lparr>t_verbose := i\<rparr>) a) = args_ok a"
  "args_ok (set_test (\<lambda>t. t\<lparr>t_json_output := i\<rparr>) a) = args_ok a"
  "args_ok (set_test (\<lambda>t. t\<lparr>t_json_output := i, t_json_stream := j\<rparr>) a) = args_ok a"
  "args_ok (set_test (\<lambda>t. t\<lparr>t_no_delay := i\<rparr>) a) = args_ok a"
  "args_ok (set_test (\<lambda>t. t\<lparr>t_repeating_payload := i\<rparr>) a) = args_ok a"
  "args_ok (set_test (\<lambda>t. t\<lparr>t_forceflush := i\<rparr>) a) = args_ok a"
  "args_ok (set_test (\<lambda>t. t\<lparr>t_get_server_output := i\<rparr>) a) = args_ok a"
  "args_ok (set_test (\<lambda>t. t\<lparr>t_udp_counters_64bit := i\<rparr>) a) = args_ok a"
  "args_ok (set_test (\<lambda>t. t\<lparr>t_debug := i, t_debug_level := j\<rparr>) a) = args_ok a"
  "args_ok (set_test (\<lambda>t. t\<lparr>t_timestamps := i, t_timestamp_format := so\<rparr>) a) = args_ok a"
  "args_ok (set_test (\<lambda>t. t\<lparr>t_server_hostname := so\<rparr>) a) = args_ok a"
  "args_ok (set_test (\<lambda>t. t\<lparr>t_bind_address := so\<rparr>) a) = args_ok a"
  "args_ok (set_test (\<lambda>t. t\<lparr>t_diskfile_name := so\<rparr>) a) = args_ok a"
  "args_ok (set_test (\<lambda>t. t\<lparr>t_title := so\<rparr>) a) = args_ok a"
  "args_ok (set_test (\<lambda>t. t\<lparr>t_congestion := so\<rparr>) a) = args_ok a"
  "args_ok (set_test (\<lambda>t. t\<lparr>t_extra_data := so\<rparr>) a) = args_ok a"
  "args_ok (set_test (\<lambda>t. t\<lparr>t_pidfile := so\<rparr>) a) = args_ok a"
  "args_ok (set_test (\<lambda>t. t\<lparr>t_logfile := so\<rparr>) a) = args_ok a"
  by (simp_all add: ok_defs)

lemma free_settings_ok:
  "args_ok (set_settings (\<lambda>st. st\<lparr>s_domain := i\<rparr>) a) = args_ok a"
  "args_ok (set_settings (\<lambda>st. st\<lparr>s_rate := r\<rparr>) a) = args_ok a"
  "args_ok (set_settings (\<lambda>st. st\<lparr>s_fqrate := r\<rparr>) a) = args_ok a"
  "args_ok (set_settings (\<lambda>st. st\<lparr>s_bitrate_limit := r\<rparr>) a) = args_ok a"
  "args_ok (set_settings (\<lambda>st. st\<lparr>s_bytes := r\<rparr>) a) = args_ok a"
  "args_ok (set_settings (\<lambda>st. st\<lparr>s_blocks := r\<rparr>) a) = args_ok a"
  "args_ok (set_settings (\<lambda>st. st\<lparr>s_blksize := i\<rparr>) a) = args_ok a"
  "args_ok (set_settings (\<lambda>st. st\<lparr>s_pacing_timer := i\<rparr>) a) = args_ok a"
  "args_ok (set_settings (\<lambda>st. st\<lparr>s_connect_timeout := i\<rparr>) a) = args_ok a"
  "args_ok (set_settings (\<lambda>st. st\<lparr>s_bitrate_limit_stats_per_interval := i\<rparr>) a) = args_ok a"
  by (simp_all add: ok_defs)

section \<open>The options keep it\<close>

lemma keep_test_options:
  "keeps_ok (opt_port s)" "keeps_ok (opt_interval s)" "keeps_ok (opt_time s)" "keeps_ok (opt_streams s)"
  "keeps_ok (opt_client_port s)" "keeps_ok (opt_timestamps so)" "keeps_ok (opt_omit s)" "keeps_ok (opt_debug so)"
  by (auto simp: keeps_ok_def opt_port_def opt_interval_def opt_time_def opt_streams_def
      opt_client_port_def opt_timestamps_def opt_omit_def opt_debug_def Let_def interval_ok_def not_less not_le
      free_fields_ok intro: test_fields_ok
      split: option.splits if_splits)

lemma keep_settings_options:
  "keeps_ok (opt_format so)" "keeps_ok (opt_burst s)" "keeps_ok (opt_rate s)" "keeps_ok (opt_limit_interval s)"
  "keeps_ok (opt_limit s)" "keeps_ok (opt_mss s)" "keeps_ok (opt_idle_timeout s)"
  "keeps_ok (opt_fq_rate s)"
  by (auto simp: keeps_ok_def opt_format_def opt_burst_def opt_rate_def opt_limit_interval_def opt_limit_def
      opt_mss_def opt_idle_timeout_def opt_fq_rate_def Let_def interval_ok_def not_less not_le
      free_settings_ok intro: setting_fields_ok split: option.splits if_splits)

lemma window_range: "farg \<le> of_int MAX_TCP_BUFFER \<Longrightarrow> dbl_to_i32 farg = Some n \<Longrightarrow> n \<le> MAX_TCP_BUFFER"
proof -
  assume a: "farg \<le> of_int MAX_TCP_BUFFER" and n: "dbl_to_i32 farg = Some n"
  have "trunc farg \<le> MAX_TCP_BUFFER"
  proof (cases "0 \<le> farg")
    case True
    then have "trunc farg = \<lfloor>farg\<rfloor>" by (simp add: trunc_def)
    moreover have "\<lfloor>farg\<rfloor> \<le> \<lfloor>of_int MAX_TCP_BUFFER :: rat\<rfloor>" using a by (rule floor_mono)
    ultimately show ?thesis by simp
  next
    case False
    then have "trunc farg = \<lceil>farg\<rceil>" by (simp add: trunc_def)
    moreover have "\<lceil>farg\<rceil> \<le> 0" using False by simp
    ultimately show ?thesis by simp
  qed
  then show ?thesis using n by (auto simp: dbl_to_i32_def split: if_splits)
qed

lemma keep_window: "keeps_ok (opt_window s)"
  unfolding keeps_ok_def
proof (intro allI impI)
  fix a a'
  assume a: "args_ok a" and o: "opt_window s a = Parsing a'"
  from o obtain farg n where f: "farg \<le> of_int MAX_TCP_BUFFER" "dbl_to_i32 farg = Some n"
    and a': "a' = client_option (set_settings (\<lambda>st. st\<lparr>s_socket_bufsize := n\<rparr>) a)"
    by (auto simp: opt_window_def not_less split: option.splits if_splits)
  show "args_ok a'" unfolding a' flags_ok by (rule setting_fields_ok(4)[OF a window_range[OF f]])
qed

lemma keep_tos_options: "keeps_ok (opt_tos s)" "keeps_ok (opt_dscp so)" "keeps_ok (opt_affinity s)"
proof -
  show "keeps_ok (opt_tos s)"
    by (auto simp: keeps_ok_def opt_tos_def Let_def not_less intro!: setting_fields_ok split: prod.splits if_splits)
  show "keeps_ok (opt_dscp so)"
    using qos_range[of so]
    by (auto simp: keeps_ok_def opt_dscp_def Let_def not_less intro!: setting_fields_ok split: if_splits)
  show "keeps_ok (opt_affinity s)"
    by (auto simp: keeps_ok_def opt_affinity_def Let_def not_less intro!: test_fields_ok
        split: prod.splits if_splits option.splits)
qed

lemma keep_rcv_timeout: "keeps_ok (opt_rcv_timeout s)"
  unfolding keeps_ok_def
proof (intro allI impI)
  fix a a'
  assume a: "args_ok a" and o: "opt_rcv_timeout s a = Parsing a'"
  define n where "n = atoi s"
  define v where "v = Iperf_Time (word_of_int (n div 1000)) (word_of_int (n mod 1000 * 1000))"
  have n: "100 \<le> n" "n \<le> MAX_TIME * 1000" and a': "a' = (set_settings (\<lambda>st. st\<lparr>s_rcv_timeout := v\<rparr>) a)\<lparr>a_rcv_timeout_flag := True\<rparr>"
    using o by (auto simp: opt_rcv_timeout_def Let_def n_def v_def not_less split: if_splits)
  have r: "0 \<le> n div 1000" "n div 1000 \<le> MAX_TIME" "0 \<le> n mod 1000 * 1000" "n mod 1000 * 1000 < 1000000"
    using n by linarith+
  have u32: "uint (word_of_int x :: u32) = x" if "0 \<le> x" "x < 2 ^ 32" for x
    using that by (simp add: unsigned_of_int take_bit_int_eq_self)
  have "uint (secs v) = n div 1000" unfolding v_def iperf_time.sel using r by (intro u32) simp_all
  moreover have "uint (usecs v) = n mod 1000 * 1000" unfolding v_def iperf_time.sel using r by (intro u32) simp_all
  ultimately have "uint (secs v) \<le> MAX_TIME" "uint (usecs v) < 1000000" using r by linarith+
  then show "args_ok a'" unfolding a' flags_ok by (rule setting_fields_ok(8)[OF a])
qed

text \<open>Role, direction and protocol.\<close>

lemma ranges_mode [simp]:
  "ranges_ok (iperf_set_test_role r t) = ranges_ok t" "ranges_ok (iperf_set_test_reverse v t) = ranges_ok t"
  "ranges_ok (iperf_set_test_bidirectional b t) = ranges_ok t" "ranges_ok (t\<lparr>t_server_hostname := so\<rparr>) = ranges_ok t"
  by (simp_all add: ranges_ok_def iperf_set_test_role_def iperf_set_test_reverse_def
      iperf_set_test_bidirectional_def check_sender_has_retransmits_def Let_def)

lemma mode_frames:
  "t_role (iperf_set_test_role r t) = r" "t_reverse (iperf_set_test_role r t) = t_reverse t"
  "t_bidirectional (iperf_set_test_role r t) = t_bidirectional t"
  "t_role (iperf_set_test_reverse v t) = t_role t" "t_reverse (iperf_set_test_reverse v t) = v"
  "t_bidirectional (iperf_set_test_reverse v t) = t_bidirectional t"
  "t_role (iperf_set_test_bidirectional 1 t) = t_role t"
  "t_reverse (iperf_set_test_bidirectional 1 t) = t_reverse t"
  "t_bidirectional (iperf_set_test_bidirectional 1 t) = 1"
  by (simp_all add: iperf_set_test_role_def iperf_set_test_reverse_def iperf_set_test_bidirectional_def
      check_sender_has_retransmits_def Let_def c_true_def)

lemma mode_hostname: "modes_ok (t\<lparr>t_server_hostname := so\<rparr>) = modes_ok t"
  by (simp add: modes_ok_def mode_ok_def)

lemma role_ok: "args_ok a \<Longrightarrow> r \<in> {CHR ''c'', CHR ''s''} \<Longrightarrow> args_ok (set_test (iperf_set_test_role r) a)"
proof -
  assume a: "args_ok a" and r: "r \<in> {CHR ''c'', CHR ''s''}"
  have d: "t_reverse (a_test a) = 0 \<or> t_bidirectional (a_test a) = 0" using a by (auto simp: args_ok_def modes_ok_def)
  have "mode_ok (iperf_set_test_role r (a_test a))" by (rule setters_keep_mode(1)[OF r d])
  then show ?thesis using a d by (auto simp: args_ok_def set_test_def modes_ok_def mode_frames)
qed

lemma keep_role_options:
  "keeps_ok opt_server" "keeps_ok (opt_client ll s)" "keeps_ok (opt_bind ll s)" "keeps_ok opt_reverse"
  "keeps_ok opt_bidirectional"
proof -
  show "keeps_ok opt_server" by (auto simp: keeps_ok_def opt_server_def role_ok split: if_splits)
  show "keeps_ok (opt_client ll s)"
    unfolding keeps_ok_def
  proof (intro allI impI)
    fix a a'
    assume a: "args_ok a" and o: "opt_client ll s a = Parsing a'"
    have "args_ok (set_test (iperf_set_test_role (CHR ''c'')) a)" by (rule role_ok[OF a]) simp
    moreover have "a' = set_test (\<lambda>t. (iperf_set_test_role (CHR ''c'') t)\<lparr>t_server_hostname := Some s\<rparr>) a"
      using o by (auto simp: opt_client_def Let_def split: if_splits)
    ultimately show "args_ok a'" by (simp add: args_ok_def set_test_def mode_hostname)
  qed
  show "keeps_ok (opt_bind ll s)" by (auto simp: keeps_ok_def opt_bind_def Let_def free_fields_ok split: if_splits)
  show "keeps_ok opt_reverse"
    using setters_keep_mode(2)
    by (auto simp: keeps_ok_def opt_reverse_def args_ok_def set_test_def modes_ok_def mode_frames client_option_def
        split: if_splits)
  show "keeps_ok opt_bidirectional"
    using setters_keep_mode(3)
    by (auto simp: keeps_ok_def opt_bidirectional_def args_ok_def set_test_def modes_ok_def mode_frames
        client_option_def split: if_splits)
qed

lemma udp_ok: "args_ok a \<Longrightarrow> args_ok (set_test (\<lambda>t. snd (set_protocol Pudp t)) a)"
  by (simp add: args_ok_def set_test_def set_protocol_def ranges_ok_def modes_ok_def mode_ok_def
      check_sender_has_retransmits_def Let_def)

section \<open>The loop\<close>

lemma keep_combinators:
  "(\<And>s. keeps_ok (f s)) \<Longrightarrow> keeps_ok (required f optarg)"
  "(\<And>a. args_ok a \<Longrightarrow> args_ok (g a)) \<Longrightarrow> keeps_ok (flag_option g optarg)"
  "(\<And>s a. args_ok a \<Longrightarrow> args_ok (h s a)) \<Longrightarrow> keeps_ok (text_option h optarg)"
  "(\<And>s. keeps_ok (f s)) \<Longrightarrow> (\<And>s. keeps_ok (f2 s)) \<Longrightarrow> keeps_ok (with_slash f2 f s)"
  "(\<And>n a. args_ok a \<Longrightarrow> args_ok (put n a)) \<Longrightarrow> keeps_ok (opt_unit put s)"
  "keeps_ok (reject e)" "keeps_ok (\<lambda>_. Exited n)" "keeps_ok (\<lambda>_. Undefined)"
proof -
  show "(\<And>s. keeps_ok (f s)) \<Longrightarrow> keeps_ok (required f optarg)"
    unfolding keeps_ok_def required_def by (cases optarg) auto
  show "(\<And>a. args_ok a \<Longrightarrow> args_ok (g a)) \<Longrightarrow> keeps_ok (flag_option g optarg)"
    by (simp add: keeps_ok_def flag_option_def)
  show "(\<And>s a. args_ok a \<Longrightarrow> args_ok (h s a)) \<Longrightarrow> keeps_ok (text_option h optarg)"
    by (cases optarg) (simp_all add: keeps_ok_def text_option_def required_def)
  show "(\<And>s. keeps_ok (f s)) \<Longrightarrow> (\<And>s. keeps_ok (f2 s)) \<Longrightarrow> keeps_ok (with_slash f2 f s)"
    unfolding with_slash_def by (cases "split_at (CHR ''/'') s") (auto intro: keeps_and_parse)
  show "(\<And>n a. args_ok a \<Longrightarrow> args_ok (put n a)) \<Longrightarrow> keeps_ok (opt_unit put s)"
    by (cases "unit_atoi s") (simp_all add: keeps_ok_def opt_unit_def)
qed (simp_all add: keeps_ok_def)

lemmas keep_options = keep_test_options keep_settings_options keep_window keep_tos_options keep_rcv_timeout
  keep_role_options

lemma keep_short: "(c, f) \<in> set (short_options ll) \<Longrightarrow> keeps_ok (f optarg)"
proof -
  have "list_all (\<lambda>(c, f). keeps_ok (f optarg)) (short_options ll)"
    by (simp add: short_options_def keep_combinators keep_options free_fields_ok free_settings_ok udp_ok)
  then show "(c, f) \<in> set (short_options ll) \<Longrightarrow> keeps_ok (f optarg)" by (auto simp: list_all_iff)
qed

lemma keep_long: "keeps_ok (long_option flag optarg)"
  by (cases flag) (simp_all add: long_option_def keep_combinators keep_options free_fields_ok free_settings_ok)

lemma keep_parse_option: "keeps_ok (parse_option ll flag optarg)"
proof (cases flag)
  case (Opt c)
  then show ?thesis
    using keep_short by (auto simp: parse_option_def keep_combinators split: option.split dest: map_of_SomeD)
qed (simp_all add: parse_option_def keep_long)

lemma parse_options_ok: "args_ok a \<Longrightarrow> parse_options ll opts a = Parsing a' \<Longrightarrow> args_ok a'"
proof (induction ll opts a rule: parse_options.induct)
  case (2 ll flag optarg opts a)
  from 2(3) obtain b where b: "parse_option ll flag optarg a = Parsing b" "parse_options ll opts b = Parsing a'"
    by auto
  show ?case by (rule 2(1)[OF keeps_okD[OF keep_parse_option 2(2) b(1)] b(2)])
qed simp

section \<open>The checks\<close>

lemma MIN_INTERVAL_value: "MIN_INTERVAL = 7205759403792794 / 2 ^ 56"
proof -
  have "ilog2 (1 / 10) = - 4" by (rule ilog2_unique) (simp_all add: pow2_def)
  moreover have "rne (1 / 10 / pow2 (- 56)) = 7205759403792794" by (rule rne_near) (simp add: pow2_def)
  ultimately show ?thesis by (simp add: MIN_INTERVAL_def fl_def Let_def pow2_def)
qed

lemma intervals_range:
  assumes "interval_ok li" "interval_ok si" "si < li" "si \<noteq> 0"
  shows "1 \<le> c_round (ddiv li si) \<and> c_round (ddiv li si) \<le> 600"
proof -
  have si: "1 / 10 < si" and li: "li \<le> 60"
    using assms by (auto simp: interval_ok_def MAX_INTERVAL_def MIN_INTERVAL_value)
  have q: "1 \<le> li / si" "li / si \<le> 600" using si li assms(3) by (simp_all add: pos_le_divide_eq pos_divide_le_eq)
  have "fl (of_int 1) \<le> fl (li / si)" "fl (li / si) \<le> fl (of_int 600)" using q by (intro fl_mono; simp)+
  then have "1 \<le> ddiv li si" "ddiv li si \<le> 600" using fl_int[of 1] fl_int[of 600] by (simp_all add: ddiv_def)
  then show ?thesis by (simp add: c_round_def le_floor_iff floor_le_iff)
qed

definition accepted :: "iperf_test \<Rightarrow> bool" where
  "accepted t \<longleftrightarrow>
     (let st = t_settings t in
      ranges_ok t \<and> mode_ok t \<and>
      (t_protocol t = Ptcp \<longrightarrow> 0 < s_blksize st \<and> s_blksize st \<le> MAX_BLOCKSIZE) \<and>
      (t_protocol t = Pudp \<longrightarrow>
         s_blksize st \<le> 0 \<or> MIN_UDP_BLOCKSIZE \<le> s_blksize st \<and> s_blksize st \<le> MAX_UDP_BLOCKSIZE) \<and>
      (t_role t = CHR ''c'' \<and> t_diskfile_name t \<noteq> None \<longrightarrow> t_protocol t \<noteq> Pudp) \<and>
      (s_bytes st = 0 \<or> s_blocks st = 0) \<and>
      (s_bytes st \<noteq> 0 \<or> s_blocks st \<noteq> 0 \<longrightarrow> t_duration t = 0) \<and>
      (s_bitrate_limit_interval st \<noteq> 0 \<longrightarrow>
         1 \<le> s_bitrate_limit_stats_per_interval st \<and> s_bitrate_limit_stats_per_interval st \<le> 600))"

lemma checks_ok:
  "args_ok a \<Longrightarrow> check_flags a = Parsing b \<Longrightarrow> b = a"
  "check_udp_file a = Parsing b \<Longrightarrow> b = a \<and>
     (t_role (a_test a) = CHR ''c'' \<and> t_diskfile_name (a_test a) \<noteq> None \<longrightarrow> t_protocol (a_test a) \<noteq> Pudp)"
  "check_role a = Parsing b \<Longrightarrow> b = a \<and> t_role (a_test a) \<in> {CHR ''c'', CHR ''s''}"
  by (auto simp: check_flags_def check_udp_file_def check_role_def Let_def split: if_splits)

lemma blksize_checked:
  assumes "args_ok a" "check_blksize a = Parsing b"
  shows "args_ok b" "t_role (a_test b) = t_role (a_test a)" "t_protocol (a_test b) = t_protocol (a_test a)"
    "t_diskfile_name (a_test b) = t_diskfile_name (a_test a)"
    "t_protocol (a_test b) = Ptcp \<longrightarrow>
       0 < s_blksize (t_settings (a_test b)) \<and> s_blksize (t_settings (a_test b)) \<le> MAX_BLOCKSIZE"
    "t_protocol (a_test b) = Pudp \<longrightarrow> s_blksize (t_settings (a_test b)) \<le> 0 \<or>
       MIN_UDP_BLOCKSIZE \<le> s_blksize (t_settings (a_test b)) \<and> s_blksize (t_settings (a_test b)) \<le> MAX_UDP_BLOCKSIZE"
proof -
  define n where "n = (if a_blksize a = 0
                     then if t_protocol (a_test a) = Pudp then 0
                          else if t_protocol (a_test a) = Psctp then DEFAULT_SCTP_BLKSIZE else DEFAULT_TCP_BLKSIZE
                     else a_blksize a)"
  have b: "b = set_settings (\<lambda>st. st\<lparr>s_blksize := n\<rparr>) (a\<lparr>a_blksize := n\<rparr>)"
    and c: "\<not> (t_protocol (a_test a) \<noteq> Pudp \<and> n \<le> 0)" "n \<le> MAX_BLOCKSIZE"
      "\<not> (t_protocol (a_test a) = Pudp \<and> (n > 0 \<and> (n < MIN_UDP_BLOCKSIZE \<or> n > MAX_UDP_BLOCKSIZE)))"
    using assms(2) unfolding check_blksize_def Let_def n_def[symmetric] by (simp_all split: if_splits)
  show "args_ok b" using assms(1) by (simp add: b free_settings_ok)
  show "t_role (a_test b) = t_role (a_test a)" "t_protocol (a_test b) = t_protocol (a_test a)"
    "t_diskfile_name (a_test b) = t_diskfile_name (a_test a)"
    "t_protocol (a_test b) = Ptcp \<longrightarrow>
       0 < s_blksize (t_settings (a_test b)) \<and> s_blksize (t_settings (a_test b)) \<le> MAX_BLOCKSIZE"
    "t_protocol (a_test b) = Pudp \<longrightarrow> s_blksize (t_settings (a_test b)) \<le> 0 \<or>
       MIN_UDP_BLOCKSIZE \<le> s_blksize (t_settings (a_test b)) \<and> s_blksize (t_settings (a_test b)) \<le> MAX_UDP_BLOCKSIZE"
    using c by (auto simp: b set_settings_def set_test_def upd_settings_def)
qed

text \<open>The fields the last checks leave alone.\<close>

definition same_choice :: "args \<Rightarrow> args \<Rightarrow> bool" where
  "same_choice a b \<longleftrightarrow>
     t_role (a_test b) = t_role (a_test a) \<and> t_protocol (a_test b) = t_protocol (a_test a) \<and>
     t_diskfile_name (a_test b) = t_diskfile_name (a_test a) \<and>
     s_blksize (t_settings (a_test b)) = s_blksize (t_settings (a_test a))"

lemma rate_and_file:
  assumes "args_ok a" "b = file_end_condition fs (default_rate a)"
  shows "args_ok b \<and> same_choice a b"
proof -
  have "args_ok (default_rate a) = args_ok a" by (simp add: default_rate_def free_settings_ok)
  moreover have "same_choice a (default_rate a)"
    by (simp add: default_rate_def same_choice_def set_settings_def set_test_def upd_settings_def)
  moreover have "args_ok (file_end_condition fs c) = args_ok c" for c
    by (simp add: file_end_condition_def Let_def free_settings_ok split: option.split)
  moreover have "same_choice c (file_end_condition fs c)" for c
    by (simp add: file_end_condition_def Let_def same_choice_def set_settings_def set_test_def
        upd_settings_def split: option.split)
  ultimately show ?thesis using assms unfolding same_choice_def by metis
qed

lemma end_checked:
  assumes "args_ok a" "check_end_conditions a = Parsing b"
  shows "args_ok b \<and> same_choice a b \<and> (s_bytes (t_settings (a_test b)) = 0 \<or> s_blocks (t_settings (a_test b)) = 0) \<and>
    (s_bytes (t_settings (a_test b)) \<noteq> 0 \<or> s_blocks (t_settings (a_test b)) \<noteq> 0 \<longrightarrow> t_duration (a_test b) = 0)"
proof -
  have z: "args_ok (set_test (\<lambda>t. t\<lparr>t_duration := 0\<rparr>) a)" by (rule test_fields_ok(4)[OF assms(1)]) simp_all
  show ?thesis
    using assms z
    by (auto simp: check_end_conditions_def Let_def same_choice_def set_test_def split: if_splits)
qed

lemma limit_checked:
  assumes "args_ok a" "limit_intervals a = Parsing b"
  shows "args_ok b \<and> same_choice a b \<and> t_duration (a_test b) = t_duration (a_test a) \<and>
    s_bytes (t_settings (a_test b)) = s_bytes (t_settings (a_test a)) \<and>
    s_blocks (t_settings (a_test b)) = s_blocks (t_settings (a_test a)) \<and>
    (s_bitrate_limit_interval (t_settings (a_test b)) \<noteq> 0 \<longrightarrow>
       1 \<le> s_bitrate_limit_stats_per_interval (t_settings (a_test b)) \<and>
       s_bitrate_limit_stats_per_interval (t_settings (a_test b)) \<le> 600)"
proof (cases "s_bitrate_limit_interval (t_settings (a_test a)) = 0")
  case True
  with assms show ?thesis by (simp add: limit_intervals_def Let_def same_choice_def)
next
  case False
  let ?li = "s_bitrate_limit_interval (t_settings (a_test a))" and ?si = "t_stats_interval (a_test a)"
  have i: "interval_ok ?li" "interval_ok ?si" using assms(1) by (simp_all add: args_ok_def ranges_ok_def Let_def)
  have n: "trunc (of_int (c_round (ddiv ?li ?si))) = c_round (ddiv ?li ?si)" by simp
  obtain m where m: "b = set_settings (\<lambda>st. st\<lparr>s_bitrate_limit_stats_per_interval := m\<rparr>) a" "1 \<le> m" "m \<le> 600"
  proof (cases "?li \<le> ?si")
    case True
    with False assms(2) show thesis by (intro that[of 1]) (simp_all add: limit_intervals_def Let_def)
  next
    case nle: False
    then have "?si \<noteq> 0" using assms(2) False by (auto simp: limit_intervals_def Let_def)
    then have r: "1 \<le> c_round (ddiv ?li ?si) \<and> c_round (ddiv ?li ?si) \<le> 600"
      using nle by (intro intervals_range[OF i]) simp_all
    then have "dbl_to_i32 (of_int (c_round (ddiv ?li ?si))) = Some (c_round (ddiv ?li ?si))" by (simp add: dbl_to_i32_def)
    with assms(2) False nle \<open>?si \<noteq> 0\<close> r show thesis
      by (intro that[of "c_round (ddiv ?li ?si)"]) (simp_all add: limit_intervals_def Let_def)
  qed
  have "args_ok b" using assms(1) by (simp add: m(1) free_settings_ok)
  then show ?thesis using m by (simp add: same_choice_def set_settings_def set_test_def upd_settings_def)
qed

section \<open>An accepted command line\<close>

lemma default_args_ok: "iperf_defaults True True zero_test = (0, t) \<Longrightarrow> ranges_ok t \<and> modes_ok t"
  by (auto simp: iperf_defaults_def set_protocol_def zero_test_def check_sender_has_retransmits_def Let_def
      ranges_ok_def modes_ok_def mode_ok_def default_settings_def zero_settings_def interval_ok_def
      MAX_INTERVAL_def MIN_INTERVAL_value)

lemma finish_accepted:
  assumes "args_ok a" "finish_arguments fs a = Parsing b"
  shows "accepted (a_test b)"
proof -
  obtain c d f where steps: "check_udp_file a = Parsing a" "check_blksize a = Parsing c"
    "check_end_conditions (file_end_condition fs (default_rate c)) = Parsing d" "check_role d = Parsing f"
    "limit_intervals f = Parsing b"
    using assms(2) checks_ok(1)[OF assms(1)] checks_ok(2)[of a] by (auto simp: finish_arguments_def)
  note blk = blksize_checked[OF assms(1) steps(2)]
  note rf = rate_and_file[OF blk(1) refl, of fs]
  note en = end_checked[OF conjunct1[OF rf] steps(3)]
  note role = checks_ok(3)[OF steps(4)]
  note lim = limit_checked[OF _ steps(5)]
  have fd: "f = d" using role by simp
  have l: "args_ok b \<and> same_choice d b \<and> t_duration (a_test b) = t_duration (a_test d) \<and>
    s_bytes (t_settings (a_test b)) = s_bytes (t_settings (a_test d)) \<and>
    s_blocks (t_settings (a_test b)) = s_blocks (t_settings (a_test d)) \<and>
    (s_bitrate_limit_interval (t_settings (a_test b)) \<noteq> 0 \<longrightarrow>
       1 \<le> s_bitrate_limit_stats_per_interval (t_settings (a_test b)) \<and>
       s_bitrate_limit_stats_per_interval (t_settings (a_test b)) \<le> 600)"
    using lim en unfolding fd by blast
  have ch: "t_role (a_test b) = t_role (a_test a)" "t_protocol (a_test b) = t_protocol (a_test c)"
    "t_protocol (a_test c) = t_protocol (a_test a)"
    "t_diskfile_name (a_test b) = t_diskfile_name (a_test a)"
    "s_blksize (t_settings (a_test b)) = s_blksize (t_settings (a_test c))"
    using l en rf blk(2-4) by (simp_all add: same_choice_def)
  have "t_role (a_test b) \<in> {CHR ''c'', CHR ''s''}" using role l fd by (simp add: same_choice_def)
  then have "mode_ok (a_test b)" "ranges_ok (a_test b)" using l by (auto simp: args_ok_def modes_ok_def)
  then show ?thesis
    using l en checks_ok(2)[OF steps(1)] blk(5,6) unfolding accepted_def Let_def ch by simp
qed

text \<open>C4: Whatever the options on the command line, their numbers written in decimal, a test that
  \<open>iperf_parse_arguments\<close> accepts is well formed: it has a role, the mode its role and direction call
  for and one of the two protocols; ports, times, intervals, type of service, affinities and receive
  time-out are in range; a TCP block size is between 1 and 1 MiB; a UDP block size is between 16 and
  65507 or not positive (zero is chosen later from the segment size, a negative one is that of a \<open>-l\<close>
  beyond the range of \<open>int\<close>, which the code lets pass: \<open>udp_negative_blksize\<close>); at most one of \<open>-n\<close> and
  \<open>-k\<close> is set, and then the duration is zero; no file is sent over UDP; and the cells the rate limit
  asks for are between 1 and 600.\<close>

theorem accepted_arguments:
  assumes "iperf_parse_arguments link_local file_size opts (snd (iperf_defaults True True zero_test)) = Parsing a"
  shows "accepted (a_test a)"
proof -
  let ?t = "snd (iperf_defaults True True zero_test)"
  let ?a = "\<lparr>a_test = ?t, a_blksize = 0, a_server_flag = False, a_client_flag = False, a_rate_flag = False,
    a_duration_flag = False, a_rcv_timeout_flag = False\<rparr>"
  obtain b where b: "parse_options link_local opts ?a = Parsing b" "finish_arguments file_size b = Parsing a"
    using assms by (auto simp: iperf_parse_arguments_def)
  have "fst (iperf_defaults True True zero_test) = 0" by (simp add: iperf_defaults_def Let_def)
  then have "ranges_ok ?t \<and> modes_ok ?t" by (intro default_args_ok) (metis prod.collapse)
  then have "args_ok ?a" by (simp add: args_ok_def)
  then show ?thesis by (rule finish_accepted[OF parse_options_ok[OF _ b(1)] b(2)])
qed

section \<open>Examples\<close>

text \<open>The test \<open>iperf_new_test\<close> and \<open>iperf_defaults\<close> set up.\<close>

definition fresh_test :: iperf_test where
  "fresh_test = snd (iperf_defaults True True zero_test)"

lemma fresh_fields:
  "t_role fresh_test = CHR 0x00" "t_reverse fresh_test = 0" "t_bidirectional fresh_test = 0"
  "t_protocol fresh_test = Ptcp" "t_protocols fresh_test = [Ptcp, Pudp]" "t_stats_interval fresh_test = 1"
  "t_diskfile_name fresh_test = None" "t_settings fresh_test = default_settings zero_settings"
  by (simp_all add: fresh_test_def iperf_defaults_def set_protocol_def zero_test_def
      check_sender_has_retransmits_def Let_def)

lemma default_limit: "c_round (ddiv 5 1) = 5"
  using fl_int[of 5] by (simp add: ddiv_def c_round_def floor_eq_iff)

lemma trunc_5: "trunc 5 = 5"
  using trunc_of_int[of 5] by simp

lemma parse_client_lookup:
  "parse_option ll (Opt (CHR ''c'')) = required (opt_client ll)" "parse_option ll (Opt (CHR ''t'')) = required opt_time"
  "parse_option ll (Opt (CHR ''l'')) = required (opt_unit (\<lambda>n a. a\<lparr>a_blksize := to_int32 (uint n)\<rparr>))"
  "parse_option ll (Opt (CHR ''u''))
     = flag_option (\<lambda>a. client_option (set_test (\<lambda>t. snd (set_protocol Pudp t)) a))"
  by (simp_all add: parse_option_def short_options_def)

lemmas parse_defs = parse_client_lookup required_def flag_option_def opt_client_def opt_time_def opt_unit_def
  iperf_parse_hostname_def strtok_def set_test_def set_settings_def upd_settings_def client_option_def
  iperf_set_test_role_def check_sender_has_retransmits_def and_parse_def Let_def c_true_def set_protocol_def
  finish_arguments_def check_flags_def check_udp_file_def check_blksize_def default_rate_def
  file_end_condition_def check_end_conditions_def check_role_def limit_intervals_def dbl_to_i32_def

lemma accepted_arguments_witness:
  "\<exists>a. iperf_parse_arguments (\<lambda>_. False) (\<lambda>_. None) [(Opt (CHR ''c''), Some ''host''), (Opt (CHR ''t''), Some ''5'')]
      (snd (iperf_defaults True True zero_test)) = Parsing a \<and>
     accepted (a_test a) \<and> t_role (a_test a) = CHR ''c'' \<and> t_duration (a_test a) = 5"
proof -
  have five: "atoi ''5'' = 5" by code_simp
  have "\<exists>a. iperf_parse_arguments (\<lambda>_. False) (\<lambda>_. None) [(Opt (CHR ''c''), Some ''host''), (Opt (CHR ''t''), Some ''5'')]
      fresh_test = Parsing a \<and> t_role (a_test a) = CHR ''c'' \<and> t_duration (a_test a) = 5"
    by (simp add: iperf_parse_arguments_def parse_defs fresh_fields five default_limit trunc_5 default_settings_def
        zero_settings_def)
  then show ?thesis using accepted_arguments unfolding fresh_test_def by blast
qed

text \<open>A UDP block size is only checked when it is positive, after its conversion to \<open>int\<close>.\<close>

lemma udp_negative_blksize:
  "\<exists>a. iperf_parse_arguments (\<lambda>_. False) (\<lambda>_. None)
      [(Opt (CHR ''c''), Some ''host''), (Opt (CHR ''u''), None), (Opt (CHR ''l''), Some ''4294967295'')]
      fresh_test = Parsing a \<and> s_blksize (t_settings (a_test a)) = - 1"
proof -
  have "dec_of_nat 4294967295 = ''4294967295''" by (simp add: dec_of_nat_def print_base.simps)
  then have "scan_double ''4294967295'' = Some (4294967295, [])" using scan_double_dec[of 4294967295 "[]"] by simp
  moreover have "trunc 4294967295 = 4294967295" using trunc_of_int[of 4294967295] by simp
  ultimately have "unit_atoi ''4294967295'' = Some 4294967295"
    by (simp add: unit_atoi_def scan_suffixed_def dbl_to_u64_def)
  moreover have "to_int32 4294967295 = - 1" by code_simp
  ultimately show ?thesis
    by (simp add: iperf_parse_arguments_def parse_defs fresh_fields default_limit trunc_5 default_settings_def
        zero_settings_def)
qed

end
