(* ===== verification/Jni.thy ===== *)
theory Jni
  imports Client Args_Ok
begin

text \<open>
  The native bridge of the app (\<open>iperf_jni.c\<close>): what the Java side calls, \<open>setTempDir\<close>,
  \<open>runIperfLive\<close> and \<open>forceStop\<close>. The state is what outlives a call: the global test, the stop flag, the
  directory, and the resources that are not given back (argument strings, pipe ends). Calls of the
  Java callback are a list; the lines the reader thread delivers are a list of their own, because
  only their order among themselves is determined. A use the C library leaves undefined but the
  program goes on from, a second \<open>fclose\<close> or a freed test, is recorded in \<open>j_misuse\<close>. Names of
  Java methods, references and logging are left out.
\<close>

definition PATH_MAX :: nat where "PATH_MAX = 4096"

datatype java_call = OnOutput string | OnError string | OnComplete

datatype misuse = Closed_twice | Used_after_free | Wrong_release

text \<open>The global pointer to the test: \<open>NULL\<close>, a test that runs, or one that has been freed.\<close>

datatype test_ptr = No_test | Test ep | Freed_test

record jni =
  j_test :: test_ptr
  j_stop :: bool
  j_temp_dir :: string
  j_argv :: nat
  j_fds :: "int list"
  j_calls :: "java_call list"
  j_lines :: "string list"
  j_misuse :: "misuse list"

definition java :: "java_call \<Rightarrow> jni \<Rightarrow> jni" where
  "java c j = j\<lparr>j_calls := j_calls j @ [c]\<rparr>"

definition misused :: "misuse \<Rightarrow> jni \<Rightarrow> jni" where
  "misused m j = j\<lparr>j_misuse := j_misuse j @ [m]\<rparr>"

definition close_end :: "int \<Rightarrow> jni \<Rightarrow> jni" where
  "close_end fd j = (if fd \<in> set (j_fds j) then j\<lparr>j_fds := remove1 fd (j_fds j)\<rparr> else misused Closed_twice j)"

section \<open>setTempDir\<close>

text \<open>\<open>env\<close> is \<open>getenv\<close>. The string that is released is not the one that was obtained when an
environment variable or the default has replaced it.\<close>

definition setTempDir :: "(string \<Rightarrow> string option) \<Rightarrow> string option \<Rightarrow> jni \<Rightarrow> jni" where
  "setTempDir env temp_dir j =
     (let given = (case temp_dir of None \<Rightarrow> [] | Some s \<Rightarrow> s);
          c_path = (if given \<noteq> [] then given
                    else (case env ''TMPDIR'' of Some s \<Rightarrow> s
                          | None \<Rightarrow> (case env ''TEMP'' of Some s \<Rightarrow> s
                                   | None \<Rightarrow> (case env ''TMP'' of Some s \<Rightarrow> s
                                            | None \<Rightarrow> ''/data/local/tmp''))));
          j1 = j\<lparr>j_temp_dir := take (PATH_MAX - 1) c_path\<rparr>
      in if given = [] then misused Wrong_release j1 else j1)"

section \<open>The reader thread\<close>

text \<open>\<open>fgets\<close> with a buffer of \<open>bufsize\<close> bytes: up to the first newline, at most \<open>bufsize - 1\<close> characters.\<close>

definition fgets :: "nat \<Rightarrow> string \<Rightarrow> string" where
  "fgets bufsize s =
     (let chunk = take (bufsize - 1) s; line = takeWhile (\<lambda>c. c \<noteq> CHR 0x0A) chunk
      in if length line < length chunk then line @ [CHR 0x0A] else chunk)"

function reader_lines :: "string \<Rightarrow> string list" where
  "reader_lines s =
     (let line = fgets 1024 s in if line = [] then [] else line # reader_lines (drop (length line) s))"
  by pat_completeness auto
termination
  by (relation "measure length") (auto simp: fgets_def Let_def split: if_splits)

declare reader_lines.simps [simp del]

section \<open>forceStop\<close>

definition stop_message :: string where
  "stop_message = ''{iPerf JNI} Requested graceful stop of iPerf test.''"

definition stop_test :: "ep \<Rightarrow> ep option" where
  "stop_test e =
     (if \<not> c_true (t_done (e_test e))
      then map_option snd (iperf_set_send_state IPERF_DONE (upd_test (\<lambda>t. t\<lparr>t_done := 1\<rparr>) e))
      else Some e)"

definition forceStop :: "jni \<Rightarrow> jni option" where
  "forceStop j =
     (let j1 = java (OnOutput stop_message) (j\<lparr>j_stop := True\<rparr>)
      in case j_test j1 of
           No_test \<Rightarrow> Some j1
         | Freed_test \<Rightarrow> Some (misused Used_after_free j1)
         | Test e \<Rightarrow> map_option (\<lambda>e1. j1\<lparr>j_test := Test e1\<rparr>) (stop_test e))"

section \<open>runIperfLive\<close>

text \<open>\<open>iperf_free_test\<close>: what a test leaves in the system are its timers.\<close>

definition iperf_free_test :: "ep \<Rightarrow> ep option" where
  "iperf_free_test e =
     map_option (\<lambda>tm. e\<lparr>e_tmrs := tm\<rparr>) (cancel_test_timers (e_test e) (e_tmrs e))"

text \<open>What a call of \<open>runIperfLive\<close> meets: the results of \<open>malloc\<close>, the pipe, what \<open>getopt_long\<close>
makes of the arguments, the system of the test and the returns of its \<open>select\<close> calls, the text the test
writes, the messages for error numbers, and whether the user asked to stop meanwhile.\<close>

record live =
  l_new :: "int + iperf_test"
  l_mem :: "bool \<times> bool"
  l_pipe :: "(int \<times> int) option"
  l_getopt :: "string list \<Rightarrow> (opt_flag \<times> string option) list"
  l_link_local :: "string \<Rightarrow> bool"
  l_file_size :: "string \<Rightarrow> u64 option"
  l_ep :: "iperf_test \<Rightarrow> ep"
  l_events :: "event list"
  l_output :: string
  l_message :: "int \<Rightarrow> string"
  l_stopped :: bool

datatype outcome = Back jni | Process_exit int | Still_running | Undefined_behaviour

text \<open>The pictographs of the messages, in UTF-8.\<close>

definition rocket :: string where "rocket = [CHR 0xF0, CHR 0x9F, CHR 0x9A, CHR 0x80]"
definition cross :: string where "cross = [CHR 0xE2, CHR 0x9D, CHR 0x8C]"

definition start_message :: string where
  "start_message = ''{iPerf JNI} '' @ rocket @ '' Initiating iPerf3 client request...'' @ [CHR 0x0A]"

definition final_message :: "bool \<Rightarrow> int \<Rightarrow> string" where
  "final_message stopped result =
     (if stopped then ''{iPerf JNI} '' @ rocket @ '' Test was stopped by user.'' @ [CHR 0x0A]
      else if result < 0 then ''{iPerf JNI} '' @ cross @ '' Test failed to complete successfully.'' @ [CHR 0x0A]
      else ''{iPerf JNI} '' @ rocket @ '' Test completed successfully.'' @ [CHR 0x0A])"

text \<open>The arguments: at most 64 strings, each copied.\<close>

definition copy_arguments :: "string list \<Rightarrow> jni \<Rightarrow> string list \<times> jni" where
  "copy_arguments arguments j =
     (let argv = take 64 arguments in (argv, j\<lparr>j_argv := j_argv j + length argv\<rparr>))"

text \<open>After \<open>iperf_run_client\<close>: the test is freed and the pointer cleared, the stream is closed, the reader
has seen the end of the pipe and is joined, the arguments are freed; the stream is closed again.\<close>

definition live_end :: "live \<Rightarrow> int \<Rightarrow> int \<Rightarrow> nat \<Rightarrow> int \<Rightarrow> ep \<Rightarrow> jni \<Rightarrow> outcome" where
  "live_end l rd wr argc result e j =
     (let j1 = (if result < 0 then java (OnError (l_message l (t_i_errno (e_test e)))) j else j)
      in case iperf_free_test e of
           None \<Rightarrow> Undefined_behaviour
         | Some _ \<Rightarrow>
             (let j2 = close_end wr (j1\<lparr>j_test := No_test\<rparr>);
                  j3 = close_end rd (j2\<lparr>j_lines := j_lines j2 @ reader_lines (l_output l)\<rparr>);
                  j4 = java (OnOutput (final_message (j_stop j3) result)) (j3\<lparr>j_argv := j_argv j3 - argc\<rparr>);
                  j5 = close_end wr j4
              in Back (java OnComplete (j5\<lparr>j_stop := False\<rparr>))))"

definition live_run :: "live \<Rightarrow> int \<Rightarrow> int \<Rightarrow> nat \<Rightarrow> iperf_test \<Rightarrow> jni \<Rightarrow> outcome" where
  "live_run l rd wr argc t j =
     (let j1 = java (OnOutput start_message) (j\<lparr>j_test := Test (l_ep l t)\<rparr>)
      in case iperf_run_client (l_events l) (l_ep l t) of
           None \<Rightarrow> Undefined_behaviour
         | Some (Waiting _ _) \<Rightarrow> Still_running
         | Some (Returned result e) \<Rightarrow> live_end l rd wr argc result e (j1\<lparr>j_stop := j_stop j1 \<or> l_stopped l\<rparr>))"

definition runIperfLive :: "live \<Rightarrow> string list \<Rightarrow> jni \<Rightarrow> outcome" where
  "runIperfLive l arguments j =
     (let (argv, j1) = copy_arguments arguments j
      in case l_new l of
           Inl _ \<Rightarrow> Back (java (OnError (''{iPerf JNI} '' @ cross @ '' Failed to create iperf test'')) (j1\<lparr>j_test := No_test\<rparr>))
         | Inr t0 \<Rightarrow>
             (let t = snd (iperf_defaults (fst (l_mem l)) (snd (l_mem l)) t0)
              in case l_pipe l of
                   None \<Rightarrow>
                     Back (java (OnError (''{iPerf JNI} '' @ cross @ '' Failed to create output pipe'')) (j1\<lparr>j_test := Freed_test\<rparr>))
                 | Some (rd, wr) \<Rightarrow>
                     (let j2 = j1\<lparr>j_fds := rd # wr # j_fds j1\<rparr>
                      in case iperf_parse_arguments (l_link_local l) (l_file_size l) (l_getopt l argv) t of
                           Undefined \<Rightarrow> Undefined_behaviour
                         | Exited n \<Rightarrow> Process_exit n
                         | Failed t1 \<Rightarrow>
                             Back (java (OnError (l_message l (t_i_errno t1)))
                                    ((close_end wr j2)\<lparr>j_test := Freed_test\<rparr>))
                         | Parsing a \<Rightarrow> live_run l rd wr (length argv) (a_test a) j2)))"

section \<open>Lemmas\<close>

lemma fgets_prefix: "\<exists>n. fgets bufsize s = take n s"
proof -
  let ?c = "take (bufsize - 1) s" and ?l = "takeWhile (\<lambda>c. c \<noteq> CHR 0x0A) (take (bufsize - 1) s)"
  show ?thesis
  proof (cases "length ?l < length ?c")
    case True
    then have "?c ! length ?l = CHR 0x0A" using nth_length_takeWhile[OF True] by simp
    moreover have "?l = take (length ?l) ?c" by (rule takeWhile_eq_take)
    ultimately have "?l @ [CHR 0x0A] = take (Suc (length ?l)) ?c" using take_Suc_conv_app_nth[OF True] by simp
    also have "\<dots> = take (min (Suc (length ?l)) (bufsize - 1)) s" by (rule take_take)
    finally show ?thesis using True unfolding fgets_def Let_def by auto
  next
    case False
    then have "fgets bufsize s = ?c" unfolding fgets_def Let_def by (rule if_not_P)
    then show ?thesis by blast
  qed
qed

text \<open>The reader delivers the output of the test unchanged, in lines that fit its buffer.\<close>

lemma reader_lines_concat: "concat (reader_lines s) = s \<and> (\<forall>l\<in>set (reader_lines s). l \<noteq> [] \<and> length l < 1024)"
proof (induction s rule: reader_lines.induct)
  case (1 s)
  let ?l = "fgets 1024 s"
  obtain n where "?l = take n s" using fgets_prefix[of 1024 s] by blast
  then have r: "s = ?l @ drop n s" by simp
  show ?case
  proof (cases "?l = []")
    case True
    then have "s = []" by (cases s) (auto simp: fgets_def Let_def split: if_splits)
    with True show ?thesis by (subst (1 2) reader_lines.simps) simp
  next
    case False
    have "length ?l < 1024" by (auto simp: fgets_def Let_def split: if_splits)
    moreover have "drop (length ?l) s = drop n s" using r by (metis append_eq_conv_conj)
    ultimately show ?thesis using 1[OF refl False] False r by (subst (1 2) reader_lines.simps) (simp add: Let_def)
  qed
qed

lemma java_fields [simp]:
  "j_calls (java c j) = j_calls j @ [c]" "j_test (java c j) = j_test j" "j_stop (java c j) = j_stop j"
  "j_argv (java c j) = j_argv j" "j_fds (java c j) = j_fds j" "j_lines (java c j) = j_lines j"
  "j_misuse (java c j) = j_misuse j"
  by (simp_all add: java_def)

lemma close_end_fields [simp]:
  "j_calls (close_end fd j) = j_calls j" "j_test (close_end fd j) = j_test j" "j_stop (close_end fd j) = j_stop j"
  "j_argv (close_end fd j) = j_argv j" "j_lines (close_end fd j) = j_lines j"
  by (simp_all add: close_end_def misused_def)

text \<open>What is left when a call has come to its end, from the state in which the pipe has been opened.\<close>

lemma live_end_back:
  assumes "live_end l rd wr argc result e j = Back j'" "j_fds j = rd # wr # fds" "rd \<noteq> wr" "wr \<notin> set fds"
  shows "j_calls j' = j_calls j @ (if result < 0 then [OnError (l_message l (t_i_errno (e_test e)))] else []) @
           [OnOutput (final_message (j_stop j) result), OnComplete]"
    and "j_test j' = No_test" "\<not> j_stop j'" "j_argv j' = j_argv j - argc" "j_fds j' = fds"
    and "j_misuse j' = j_misuse j @ [Closed_twice]" "j_lines j' = j_lines j @ reader_lines (l_output l)"
    and "j_temp_dir j' = j_temp_dir j"
proof -
  obtain e1 where f: "iperf_free_test e = Some e1"
    using assms(1) by (auto simp: live_end_def Let_def split: option.splits)
  define j1 where "j1 = (if result < 0 then java (OnError (l_message l (t_i_errno (e_test e)))) j else j)"
  have j1: "j_fds j1 = rd # wr # fds" "j_stop j1 = j_stop j" "j_argv j1 = j_argv j" "j_misuse j1 = j_misuse j"
    "j_lines j1 = j_lines j" "j_temp_dir j1 = j_temp_dir j"
    "j_calls j1 = j_calls j @ (if result < 0 then [OnError (l_message l (t_i_errno (e_test e)))] else [])"
    by (simp_all add: j1_def assms(2) java_def)
  have j': "j' = (let j2 = close_end wr (j1\<lparr>j_test := No_test\<rparr>);
                  j3 = close_end rd (j2\<lparr>j_lines := j_lines j2 @ reader_lines (l_output l)\<rparr>);
                  j4 = java (OnOutput (final_message (j_stop j3) result)) (j3\<lparr>j_argv := j_argv j3 - argc\<rparr>);
                  j5 = close_end wr j4
              in java OnComplete (j5\<lparr>j_stop := False\<rparr>))"
    using assms(1) unfolding live_end_def f j1_def Let_def option.case by simp
  show "j_calls j' = j_calls j @ (if result < 0 then [OnError (l_message l (t_i_errno (e_test e)))] else []) @
           [OnOutput (final_message (j_stop j) result), OnComplete]"
    "j_test j' = No_test" "\<not> j_stop j'" "j_argv j' = j_argv j - argc" "j_fds j' = fds"
    "j_misuse j' = j_misuse j @ [Closed_twice]" "j_lines j' = j_lines j @ reader_lines (l_output l)"
    "j_temp_dir j' = j_temp_dir j"
    unfolding j' Let_def using assms(3,4) by (simp_all add: j1 close_end_def misused_def java_def)
qed

text \<open>C5: What a call of \<open>runIperfLive\<close> that returns has done, on every path. Either the test did not
  start: the test or the pipe could not be made, or the arguments were rejected; the one error that
  says so is reported and nothing else, not even the end, and the copies of the arguments stay allocated.
  Or the client ran: its start is reported, the message of its error exactly if it failed, the final
  message and the end, in this order. The final message says that the user stopped the test if a stop
  was asked for, else whether the test failed; the reader has delivered the whole output of the test in
  order; the arguments and both ends of the pipe are given back and the test pointer and the stop flag
  are cleared, but the stream has been closed twice.\<close>

theorem runIperfLive_reports:
  assumes "runIperfLive l arguments j = Back j'"
    and "\<And>rd wr. l_pipe l = Some (rd, wr) \<Longrightarrow> rd \<noteq> wr \<and> rd \<notin> set (j_fds j) \<and> wr \<notin> set (j_fds j)"
  defines "parsed \<equiv> (\<lambda>t0. iperf_parse_arguments (l_link_local l) (l_file_size l) (l_getopt l (take 64 arguments))
    (snd (iperf_defaults (fst (l_mem l)) (snd (l_mem l)) t0)))"
  shows "(\<exists>msg. j_calls j' = j_calls j @ [OnError msg] \<and>
            (isl (l_new l) \<and> msg = ''{iPerf JNI} '' @ cross @ '' Failed to create iperf test'' \<or>
             (\<exists>t0. l_new l = Inr t0) \<and> l_pipe l = None \<and>
               msg = ''{iPerf JNI} '' @ cross @ '' Failed to create output pipe'' \<or>
             (\<exists>t0 t1. l_new l = Inr t0 \<and> l_pipe l \<noteq> None \<and> parsed t0 = Failed t1 \<and>
               msg = l_message l (t_i_errno t1))) \<and>
            j_lines j' = j_lines j \<and> j_stop j' = j_stop j \<and> j_test j' \<in> {No_test, Freed_test} \<and>
            j_argv j' = j_argv j + min 64 (length arguments)) \<or>
         (\<exists>t0 a result e. l_new l = Inr t0 \<and> l_pipe l \<noteq> None \<and> parsed t0 = Parsing a \<and>
            iperf_run_client (l_events l) (l_ep l (a_test a)) = Some (Returned result e) \<and>
            j_calls j' = j_calls j @ [OnOutput start_message] @
              (if result < 0 then [OnError (l_message l (t_i_errno (e_test e)))] else []) @
              [OnOutput (''{iPerf JNI} '' @
                 (if j_stop j \<or> l_stopped l then rocket @ '' Test was stopped by user.''
                  else if result < 0 then cross @ '' Test failed to complete successfully.''
                  else rocket @ '' Test completed successfully.'') @ [CHR 0x0A]), OnComplete] \<and>
            j_argv j' = j_argv j \<and> j_fds j' = j_fds j \<and> j_test j' = No_test \<and> \<not> j_stop j' \<and>
            j_misuse j' = j_misuse j @ [Closed_twice] \<and>
            concat (drop (length (j_lines j)) (j_lines j')) = l_output l)"
proof -
  define argv where "argv = take 64 arguments"
  define j1 where "j1 = j\<lparr>j_argv := j_argv j + length argv\<rparr>"
  have c: "copy_arguments arguments j = (argv, j1)" by (simp add: copy_arguments_def argv_def j1_def)
  have la: "length argv = min 64 (length arguments)" by (simp add: argv_def min.commute)
  have ps: "parsed = (\<lambda>t0. iperf_parse_arguments (l_link_local l) (l_file_size l) (l_getopt l argv)
    (snd (iperf_defaults (fst (l_mem l)) (snd (l_mem l)) t0)))" by (simp add: parsed_def argv_def)
  note r = assms(1)[unfolded runIperfLive_def c Let_def prod.case]
  show ?thesis
  proof (cases "l_new l")
    case (Inl n)
    with r show ?thesis by (auto simp: j1_def la)
  next
    case new: (Inr t0)
    show ?thesis
    proof (cases "l_pipe l")
      case None
      with r new show ?thesis by (auto simp: j1_def la)
    next
      case (Some p)
      obtain rd wr where p: "p = (rd, wr)" by (cases p)
      have fd: "rd \<noteq> wr" "rd \<notin> set (j_fds j)" "wr \<notin> set (j_fds j)" using assms(2) Some p by blast+
      define j2 where "j2 = j1\<lparr>j_fds := rd # wr # j_fds j1\<rparr>"
      note r2 = r[unfolded new Some p sum.case option.case prod.case, folded ps[THEN fun_cong], folded j2_def]
      show ?thesis
      proof (cases "parsed t0")
        case (Failed t1)
        with r2 new Some show ?thesis by (intro disjI1) (auto simp: ps j2_def j1_def la)
      next
        case (Parsing a)
        then have lr: "live_run l rd wr (length argv) (a_test a) j2 = Back j'" using r2 by (simp add: ps)
        define j3 where "j3 = java (OnOutput start_message) (j2\<lparr>j_test := Test (l_ep l (a_test a))\<rparr>)"
        obtain result e where
          run: "iperf_run_client (l_events l) (l_ep l (a_test a)) = Some (Returned result e)" and
          le: "live_end l rd wr (length argv) result e (j3\<lparr>j_stop := j_stop j3 \<or> l_stopped l\<rparr>) = Back j'"
          using lr unfolding live_run_def j3_def Let_def by (auto split: option.splits run.splits)
        have fds: "j_fds (j3\<lparr>j_stop := j_stop j3 \<or> l_stopped l\<rparr>) = rd # wr # j_fds j"
          by (simp add: j3_def j2_def j1_def)
        note b = live_end_back[OF le fds fd(1,3)]
        have 3: "j_calls j3 = j_calls j @ [OnOutput start_message]" "j_argv j3 = j_argv j + length argv"
          "j_misuse j3 = j_misuse j" "j_lines j3 = j_lines j" "j_stop j3 = j_stop j"
          by (simp_all add: j3_def j2_def j1_def)
        have msg: "final_message s result = ''{iPerf JNI} '' @
            (if s then rocket @ '' Test was stopped by user.''
             else if result < 0 then cross @ '' Test failed to complete successfully.''
             else rocket @ '' Test completed successfully.'') @ [CHR 0x0A]" for s
          by (simp add: final_message_def)
        have ends: "j_calls j' = j_calls j @ [OnOutput start_message] @
            (if result < 0 then [OnError (l_message l (t_i_errno (e_test e)))] else []) @
            [OnOutput (final_message (j_stop j \<or> l_stopped l) result), OnComplete]"
          "j_argv j' = j_argv j" "j_misuse j' = j_misuse j @ [Closed_twice]"
          "concat (drop (length (j_lines j)) (j_lines j')) = l_output l"
          using b 3 reader_lines_concat by simp_all
        show ?thesis
          by (rule disjI2, rule exI[of _ t0], rule exI[of _ a], rule exI[of _ result], rule exI[of _ e])
            (use new Some Parsing run b(2,3,5) ends in \<open>simp add: msg\<close>)
      qed (use r2 in \<open>simp_all add: ps\<close>)
    qed
  qed
qed

text \<open>A call whose connection fails.\<close>

definition demo_live :: live where
  "demo_live =
     \<lparr>l_new = Inr zero_test, l_mem = (True, True), l_pipe = Some (7, 8),
      l_getopt = (\<lambda>_. [(Opt (CHR ''c''), Some ''host'')]), l_link_local = (\<lambda>_. False), l_file_size = (\<lambda>_. None),
      l_ep = (\<lambda>t. \<lparr>e_test = t, e_tmrs = tmr_init, e_net = sys0 [] [], e_in = [], e_out = [], e_now = None,
        e_mem = [], e_udp = [], e_calls = [], e_info = (\<lambda>_. None), e_random = (\<lambda>n. Some (replicate n 0)),
        e_cpu = (\<lparr>cs_now = zero_time, cs_clock = 0, cs_utime = Timeval 0 0, cs_stime = Timeval 0 0\<rparr>,
                 \<lparr>cs_now = zero_time, cs_clock = 0, cs_utime = Timeval 0 0, cs_stime = Timeval 0 0\<rparr>),
        e_algo = [], e_conns = [], e_denied = [], e_json_top = None\<rparr>),
      l_events = [], l_output = ''hello'', l_message = (\<lambda>_. ''error''), l_stopped = False\<rparr>"

definition idle :: jni where
  "idle = \<lparr>j_test = No_test, j_stop = False, j_temp_dir = [], j_argv = 0, j_fds = [], j_calls = [], j_lines = [],
     j_misuse = []\<rparr>"

lemma demo_parse:
  "\<exists>a. iperf_parse_arguments (\<lambda>_. False) (\<lambda>_. None) [(Opt (CHR ''c''), Some ''host'')] fresh_test = Parsing a \<and>
     t_logfile (a_test a) = None \<and> t_affinity (a_test a) = - 1 \<and> t_ctrl_sck (a_test a) = - 1 \<and>
     t_streams (a_test a) = [] \<and> t_state (a_test a) = 0 \<and> t_omit_timer (a_test a) = None \<and>
     t_timer (a_test a) = None \<and> t_stats_timer (a_test a) = None \<and> t_reporter_timer (a_test a) = None"
proof -
  have f: "t_logfile fresh_test = None" "t_affinity fresh_test = - 1" "t_ctrl_sck fresh_test = - 1"
    "t_streams fresh_test = []" "t_state fresh_test = 0" "t_omit_timer fresh_test = None" "t_timer fresh_test = None"
    "t_stats_timer fresh_test = None" "t_reporter_timer fresh_test = None"
    by (simp_all add: fresh_test_def iperf_defaults_def set_protocol_def zero_test_def
        check_sender_has_retransmits_def Let_def)
  show ?thesis
    by (simp add: iperf_parse_arguments_def parse_defs fresh_fields f default_limit trunc_5 default_settings_def
        zero_settings_def)
qed

lemma demo_returns: "\<exists>j'. runIperfLive demo_live [''-c'', ''host''] idle = Back j'"
proof -
  obtain a where a: "iperf_parse_arguments (\<lambda>_. False) (\<lambda>_. None) [(Opt (CHR ''c''), Some ''host'')] fresh_test = Parsing a"
    "t_logfile (a_test a) = None" "t_affinity (a_test a) = - 1" "t_ctrl_sck (a_test a) = - 1"
    "t_streams (a_test a) = []" "t_state (a_test a) = 0" "t_omit_timer (a_test a) = None"
    "t_timer (a_test a) = None" "t_stats_timer (a_test a) = None" "t_reporter_timer (a_test a) = None"
    using demo_parse by blast
  obtain c where c: "make_cookie (\<lambda>n. Some (replicate n 0)) = Some c" by (auto simp: make_cookie_def readentropy_def)
  have "\<exists>e. iperf_run_client [] (l_ep demo_live (a_test a)) = Some (Returned (- 1) e) \<and> (\<exists>e1. iperf_free_test e = Some e1)"
    using a c
    by (simp add: iperf_run_client_def demo_live_def and_then_def Endpoint.ok_def iperf_connect_def upd_test_def netdial_def
        create_socket_def call_getaddrinfo_def syscall_def sys0_def Endpoint.fail_def client_cleanup_def stream_numbers_def
        iperf_client_end_def iperf_free_test_def cancel_test_timers_def cancel_field_def)
  then show ?thesis
    using a(1) by (auto simp: runIperfLive_def copy_arguments_def demo_live_def fresh_test_def live_run_def live_end_def Let_def)
qed

lemma runIperfLive_reports_witness:
  "\<exists>j'. runIperfLive demo_live [''-c'', ''host''] idle = Back j' \<and>
     (length (j_calls j') = 1 \<and> j_argv j' = 2 \<or> concat (j_lines j') = ''hello'' \<and> j_misuse j' = [Closed_twice])"
proof -
  obtain j' where r: "runIperfLive demo_live [''-c'', ''host''] idle = Back j'" using demo_returns by blast
  have i: "j_calls idle = []" "j_fds idle = []" "j_argv idle = 0" "j_misuse idle = []" "j_lines idle = []"
    by (simp_all add: idle_def)
  have d: "l_pipe demo_live = Some (7, 8)" "l_output demo_live = ''hello''" by (simp_all add: demo_live_def)
  have fd: "rd \<noteq> wr \<and> rd \<notin> set (j_fds idle) \<and> wr \<notin> set (j_fds idle)" if "l_pipe demo_live = Some (rd, wr)" for rd wr
    using that unfolding d i by simp
  have "length (j_calls j') = 1 \<and> j_argv j' = 2 \<or> concat (j_lines j') = ''hello'' \<and> j_misuse j' = [Closed_twice]"
    by (rule disjE[OF runIperfLive_reports[OF r]], erule fd, unfold i d) (elim exE conjE, simp)+
  with r show ?thesis by (intro exI[of _ j'] conjI)
qed

section \<open>Stopping\<close>

declare client_loop.simps [simp del]

text \<open>C6: A stop ends the client: once \<open>forceStop\<close> has met a running test that is connected and not done,
  the stop flag is set, the test is done and in the state in which the main loop of the client is over, so
  whatever select would have returned the loop does not wait again. A stop that comes after a start that
  failed, in contrast, uses the freed test.\<close>

theorem forceStop_ends_client:
  assumes "forceStop j = Some j'"
  shows "j_stop j' \<and> (j_test j = Freed_test \<longrightarrow> j_misuse j' = j_misuse j @ [Used_after_free]) \<and>
    (\<forall>e. j_test j = Test e \<and> t_done (e_test e) = 0 \<and> 0 \<le> t_ctrl_sck (e_test e) \<longrightarrow>
       (\<exists>e'. j_test j' = Test e' \<and> t_done (e_test e') = 1 \<and>
          (\<forall>events loc. client_loop events loc e' = client_loop [] loc e' \<and>
             (\<forall>loc2 e2. client_loop events loc e' \<noteq> Some (Waiting loc2 e2)))))"
proof (cases "j_test j")
  case (Test e0)
  then obtain e' where e': "stop_test e0 = Some e'" and j': "j' = (java (OnOutput stop_message) (j\<lparr>j_stop := True\<rparr>))\<lparr>j_test := Test e'\<rparr>"
    using assms by (auto simp: forceStop_def Let_def)
  have "t_done (e_test e') = 1 \<and> (\<forall>events loc. client_loop events loc e' = client_loop [] loc e' \<and>
             (\<forall>loc2 e2. client_loop events loc e' \<noteq> Some (Waiting loc2 e2)))"
    if "t_done (e_test e0) = 0" "0 \<le> t_ctrl_sck (e_test e0)"
  proof -
    have st: "t_done (e_test e') = 1" "t_state (e_test e') = IPERF_DONE"
      using e' that by (auto simp: stop_test_def iperf_set_send_state_def iperf_set_test_state_def ctl_write_def
          upd_test_def c_true_def Endpoint.fail_def Endpoint.ok_def Let_def split: prod.splits if_splits)
    have "client_loop events loc e' = client_loop [] loc e'" for events loc
      using st(2) by (subst (1 2) client_loop.simps) simp
    moreover have "client_loop events loc e' \<noteq> Some (Waiting loc2 e2)" for events loc loc2 e2
      using st(2) by (subst client_loop.simps) (auto split: if_splits elim!: bindE)
    ultimately show ?thesis using st(1) by blast
  qed
  then have "\<forall>e. Test e0 = Test e \<and> t_done (e_test e) = 0 \<and> 0 \<le> t_ctrl_sck (e_test e) \<longrightarrow>
       (\<exists>e1. Test e' = Test e1 \<and> t_done (e_test e1) = 1 \<and>
          (\<forall>events loc. client_loop events loc e1 = client_loop [] loc e1 \<and>
             (\<forall>loc2 e2. client_loop events loc e1 \<noteq> Some (Waiting loc2 e2))))"
    by (metis test_ptr.inject)
  moreover have "j_stop j'" "j_test j' = Test e'" unfolding j' by (simp_all add: java_def)
  moreover have "Test e0 \<noteq> Freed_test" by simp
  ultimately show ?thesis unfolding Test by (simp only: simp_thms)
qed (use assms in \<open>auto simp: forceStop_def misused_def java_def Let_def\<close>)

text \<open>A running test on control socket 5.\<close>

definition busy :: jni where
  "busy = idle\<lparr>j_test := Test (l_ep demo_live (zero_test\<lparr>t_ctrl_sck := 5, t_state := TEST_RUNNING, t_done := 0\<rparr>))\<rparr>"

lemma forceStop_ends_client_witness:
  "\<exists>j' e'. forceStop busy = Some j' \<and> j_stop j' \<and> j_test j' = Test e' \<and> t_done (e_test e') = 1 \<and>
     client_loop [] undefined e' \<noteq> Some (Waiting undefined e')"
proof -
  define e where "e = l_ep demo_live (zero_test\<lparr>t_ctrl_sck := 5, t_state := TEST_RUNNING, t_done := 0\<rparr>)"
  have t: "j_test busy = Test e" by (simp add: busy_def e_def)
  have e: "t_done (e_test e) = 0" "0 \<le> t_ctrl_sck (e_test e)" by (simp_all add: e_def demo_live_def)
  have "\<exists>j'. forceStop busy = Some j'"
    by (auto simp: forceStop_def t Let_def stop_test_def iperf_set_send_state_def Endpoint.fail_def Endpoint.ok_def
        split: prod.splits)
  then obtain j' where j': "forceStop busy = Some j'" by blast
  from forceStop_ends_client[OF j'] t e j' show ?thesis by metis
qed

end
