(* ===== verification/Printf.thy ===== *)
theory Printf
  imports Json_Number
begin

text \<open>
  What the program uses of \<open>printf\<close>: \<open>%d\<close>, \<open>%u\<close>, \<open>%s\<close>, \<open>%f\<close>, \<open>%g\<close> and \<open>%%\<close> with the flag \<open>-\<close>, a width, a
  precision and the length \<open>l\<close>, and \<open>iperf_json_printf\<close> of \<open>iperf_util.c\<close>, which builds a JSON object from a
  format. The arguments are a list of values with their type; a format that asks for an argument of
  another type, or for one that is not there, has no defined result. The formats of the reports
  (\<open>iperf_locale.c\<close>) are at the end.
\<close>

section \<open>Directives\<close>

datatype arg = A_int int | A_dbl dbl | A_str string

text \<open>The flag, the width, the precision and the conversion, and the format after them.\<close>

definition directive :: "string \<Rightarrow> (bool \<times> nat \<times> nat option \<times> char \<times> string) option" where
  "directive f =
     (let left = (f \<noteq> [] \<and> hd f = CHR ''-''); f1 = (if left then tl f else f);
          w = takeWhile c_isdigit f1; f2 = dropWhile c_isdigit f1;
          (prec, f3) = (if f2 \<noteq> [] \<and> hd f2 = CHR ''.''
                        then (Some (digits_value 10 0 (takeWhile c_isdigit (tl f2))), dropWhile c_isdigit (tl f2))
                        else (None, f2))
      in case dropWhile (\<lambda>c. c = CHR ''l'') f3 of
           [] \<Rightarrow> None
         | c # r \<Rightarrow> Some (left, digits_value 10 0 w, prec, c, r))"

definition convert :: "nat option \<Rightarrow> char \<Rightarrow> arg \<Rightarrow> string option" where
  "convert prec c a =
     (let p = (case prec of None \<Rightarrow> 6 | Some p \<Rightarrow> p) in
      case a of
        A_int i \<Rightarrow> if c = CHR ''d'' then Some (dec_of_int i)
                   else if c = CHR ''u'' \<and> 0 \<le> i then Some (dec_of_int i) else None
      | A_dbl x \<Rightarrow> if c = CHR ''f'' then Some (fmt_fixed p x)
                   else if c = CHR ''g'' then Some (fmt_g p x) else None
      | A_str s \<Rightarrow> if c = CHR ''s'' then Some s else None)"

definition pad :: "bool \<Rightarrow> nat \<Rightarrow> string \<Rightarrow> string" where
  "pad left w s = (if left then s @ replicate (w - length s) (CHR '' '') else pad_left (CHR '' '') w s)"

lemma directive_length: "directive f = Some (l, w, p, c, r) \<Longrightarrow> length r < length f"
proof -
  assume d: "directive f = Some (l, w, p, c, r)"
  have dw: "length (dropWhile P xs) \<le> length xs" for P and xs :: string by (rule length_dropWhile_le)
  define f1 where "f1 = (if f \<noteq> [] \<and> hd f = CHR ''-'' then tl f else f)"
  define f2 where "f2 = dropWhile c_isdigit f1"
  define f3 where "f3 = (if f2 \<noteq> [] \<and> hd f2 = CHR ''.'' then dropWhile c_isdigit (tl f2) else f2)"
  have "dropWhile (\<lambda>c. c = CHR ''l'') f3 = c # r"
    using d unfolding directive_def Let_def f1_def f2_def f3_def by (auto split: if_splits list.splits)
  then have "length (c # r) \<le> length f3" using dw[of "\<lambda>c. c = CHR ''l''" f3] by simp
  moreover have "length f3 \<le> length f2"
    using dw[of c_isdigit "tl f2"] by (auto simp: f3_def intro: le_trans)
  moreover have "length f2 \<le> length f1" unfolding f2_def by (rule dw)
  moreover have "length f1 \<le> length f" by (simp add: f1_def)
  ultimately show ?thesis by simp
qed

function c_printf :: "string \<Rightarrow> arg list \<Rightarrow> string option" where
  "c_printf [] args = Some []"
| "c_printf (c # f) args =
     (if c \<noteq> CHR ''%'' then map_option ((#) c) (c_printf f args)
      else
        (case directive f of
           None \<Rightarrow> None
         | Some (left, w, prec, conv, r) \<Rightarrow>
             if conv = CHR ''%'' then map_option ((#) (CHR ''%'')) (c_printf r args)
             else
               (case args of
                  [] \<Rightarrow> None
                | a # rest \<Rightarrow>
                    (case convert prec conv a of
                       None \<Rightarrow> None
                     | Some s \<Rightarrow> map_option ((@) (pad left w s)) (c_printf r rest)))))"
  by pat_completeness auto
termination
  by (relation "measure (\<lambda>(f, _). length f)") (auto dest!: directive_length)

declare c_printf.simps [simp del]

section \<open>iperf_json_printf\<close>

text \<open>The characters of a name so far, and the name the last colon ended; a name that no colon has ended
is not terminated. An integer has type \<open>int64_t\<close>.\<close>

definition json_arg :: "char \<Rightarrow> arg \<Rightarrow> cJSON option" where
  "json_arg c a =
     (case a of
        A_int i \<Rightarrow> if c = CHR ''b'' then Some (J_Bool (i \<noteq> 0))
                   else if c = CHR ''d'' then Some (J_Number (dbl_of_int i)) else None
      | A_dbl x \<Rightarrow> if c = CHR ''f'' then Some (J_Number x) else None
      | A_str s \<Rightarrow> if c = CHR ''s'' then Some (J_String s) else None)"

fun json_members :: "string \<Rightarrow> string option \<Rightarrow> string \<Rightarrow> arg list \<Rightarrow> (string \<times> cJSON) list option" where
  "json_members np name [] args = Some []"
| "json_members np name (c # f) args =
     (if c = CHR '' '' then json_members np name f args
      else if c = CHR '':'' then json_members np (Some np) f args
      else if c = CHR ''%'' then
        (case (f, args, name) of
           (d # r, a # rest, Some n) \<Rightarrow>
             (case json_arg d a of
                None \<Rightarrow> None
              | Some j \<Rightarrow> map_option ((#) (n, j)) (json_members [] None r rest))
         | _ \<Rightarrow> None)
      else if name = None then json_members (np @ [c]) None f args
      else None)"

definition iperf_json_printf :: "string \<Rightarrow> arg list \<Rightarrow> cJSON option" where
  "iperf_json_printf format args = map_option J_Object (json_members [] None format args)"

section \<open>The formats of the reports\<close>

abbreviation (input) NL :: string where "NL \<equiv> [CHR 0x0A]"

definition test_start_time :: string where
  "test_start_time = ''Starting Test: protocol: %s, %d streams, %d byte blocks, omitting %d seconds, %d second test, tos %d'' @ NL"
definition test_start_bytes :: string where
  "test_start_bytes = ''Starting Test: protocol: %s, %d streams, %d byte blocks, omitting %d seconds, %lu bytes to send, tos %d'' @ NL"
definition test_start_blocks :: string where
  "test_start_blocks = ''Starting Test: protocol: %s, %d streams, %d byte blocks, omitting %d seconds, %lu bytes to send, tos %d'' @ NL"
definition report_time :: string where "report_time = ''Time: %s'' @ NL"
definition report_connecting :: string where "report_connecting = ''Connecting to host %s, port %d'' @ NL"
definition report_reverse :: string where "report_reverse = ''Reverse mode, remote host %s is sending'' @ NL"
definition report_accepted :: string where "report_accepted = ''Accepted connection from %s, port %d'' @ NL"
definition report_cookie :: string where "report_cookie = ''      Cookie: %s'' @ NL"
definition report_connected :: string where
  "report_connected = ''[%3d] local %s port %d connected to %s port %d'' @ NL"
definition report_diskfile :: string where "report_diskfile = ''        Sent %s / %s (%d%%) of %s'' @ NL"
definition report_done :: string where "report_done = ''iperf Done.'' @ NL"
definition report_bw_header :: string where
  "report_bw_header = ''[ ID] Interval           Transfer     Bitrate'' @ NL"
definition report_bw_header_bidir :: string where
  "report_bw_header_bidir = ''[ ID][Role] Interval           Transfer     Bitrate'' @ NL"
definition report_bw_retrans_header :: string where
  "report_bw_retrans_header = ''[ ID] Interval           Transfer     Bitrate         Retr'' @ NL"
definition report_bw_retrans_header_bidir :: string where
  "report_bw_retrans_header_bidir = ''[ ID][Role] Interval           Transfer     Bitrate         Retr'' @ NL"
definition report_bw_retrans_cwnd_header :: string where
  "report_bw_retrans_cwnd_header = ''[ ID] Interval           Transfer     Bitrate         Retr  Cwnd'' @ NL"
definition report_bw_retrans_cwnd_header_bidir :: string where
  "report_bw_retrans_cwnd_header_bidir =
     ''[ ID][Role] Interval           Transfer     Bitrate         Retr  Cwnd'' @ NL"
definition report_bw_udp_header :: string where
  "report_bw_udp_header =
     ''[ ID] Interval           Transfer     Bitrate         Jitter    Lost/Total Datagrams'' @ NL"
definition report_bw_udp_header_bidir :: string where
  "report_bw_udp_header_bidir =
     ''[ ID][Role] Interval           Transfer     Bitrate         Jitter    Lost/Total Datagrams'' @ NL"
definition report_bw_udp_sender_header :: string where
  "report_bw_udp_sender_header =
     ''[ ID] Interval           Transfer     Bitrate         Total Datagrams'' @ NL"
definition report_bw_format :: string where
  "report_bw_format = ''[%3d]%s %6.2f-%-6.2f sec  %ss  %ss/sec                  %s'' @ NL"
definition report_bw_retrans_format :: string where
  "report_bw_retrans_format = ''[%3d]%s %6.2f-%-6.2f sec  %ss  %ss/sec  %3ld            %s'' @ NL"
definition report_bw_retrans_cwnd_format :: string where
  "report_bw_retrans_cwnd_format = ''[%3d]%s %6.2f-%-6.2f sec  %ss  %ss/sec  %3ld   %ss       %s'' @ NL"
definition report_bw_udp_format :: string where
  "report_bw_udp_format =
     ''[%3d]%s %6.2f-%-6.2f sec  %ss  %ss/sec  %5.3f ms  %ld/%ld (%.2g%%)  %s'' @ NL"
definition report_bw_udp_format_no_omitted_error :: string where
  "report_bw_udp_format_no_omitted_error =
     ''[%3d]%s %6.2f-%-6.2f sec  %ss  %ss/sec  %5.3f ms  Unknown/%ld  %s'' @ NL"
definition report_bw_udp_sender_format :: string where
  "report_bw_udp_sender_format = ''[%3d]%s %6.2f-%-6.2f sec  %ss  %ss/sec %s %ld  %s'' @ NL"
definition report_summary :: string where "report_summary = ''Test Complete. Summary Results:'' @ NL"
definition report_sum_bw_format :: string where
  "report_sum_bw_format = ''[SUM]%s %6.2f-%-6.2f sec  %ss  %ss/sec                  %s'' @ NL"
definition report_sum_bw_retrans_format :: string where
  "report_sum_bw_retrans_format = ''[SUM]%s %6.2f-%-6.2f sec  %ss  %ss/sec  %3ld             %s'' @ NL"
definition report_sum_bw_udp_format :: string where
  "report_sum_bw_udp_format =
     ''[SUM]%s %6.2f-%-6.2f sec  %ss  %ss/sec  %5.3f ms  %ld/%ld (%.2g%%)  %s'' @ NL"
definition report_sum_bw_udp_sender_format :: string where
  "report_sum_bw_udp_sender_format = ''[SUM]%s %6.2f-%-6.2f sec  %ss  %ss/sec %s %ld  %s'' @ NL"
definition report_omitted :: string where "report_omitted = ''(omitted)''"
definition report_bw_separator :: string where
  "report_bw_separator = ''- - - - - - - - - - - - - - - - - - - - - - - - -'' @ NL"
definition report_sum_outoforder :: string where
  "report_sum_outoforder = ''[SUM]%s %4.1f-%4.1f sec  %lu datagrams received out-of-order'' @ NL"
definition report_cpu :: string where
  "report_cpu =
     ''CPU Utilization: %s/%s %.1f%% (%.1f%%u/%.1f%%s), %s/%s %.1f%% (%.1f%%u/%.1f%%s)'' @ NL"
definition report_local :: string where "report_local = ''local''"
definition report_remote :: string where "report_remote = ''remote''"
definition report_sender :: string where "report_sender = ''sender''"
definition report_receiver :: string where "report_receiver = ''receiver''"
definition report_sender_not_available_format :: string where
  "report_sender_not_available_format = ''[%3d] (sender statistics not available)'' @ NL"
definition report_sender_not_available_summary_format :: string where
  "report_sender_not_available_summary_format = ''[%3s] (sender statistics not available)'' @ NL"
definition report_receiver_not_available_format :: string where
  "report_receiver_not_available_format = ''[%3d] (receiver statistics not available)'' @ NL"
definition report_receiver_not_available_summary_format :: string where
  "report_receiver_not_available_summary_format = ''[%3s] (receiver statistics not available)'' @ NL"

end
