(* ===== verification/Report.thy ===== *)
theory Report
  imports Printf Json_Text Stats
begin

text \<open>
  The output of a test (\<open>iperf_api.c\<close>): \<open>iperf_printf\<close> with its time stamps, titles and the lines a server
  keeps for its client, the JSON report from \<open>iperf_json_start\<close> to \<open>iperf_json_finish\<close>, the events of
  \<open>--json-stream\<close>, and the callbacks that report a connection, a stream and the start of a test. The
  state is the test, the text written so far, and the report: the objects \<open>json_start\<close>, \<open>json_intervals\<close> and
  \<open>json_end\<close> the code reaches through pointers are parts of \<open>json_top\<close>. What the code adds to a report
  that was not begun is lost. A function is \<open>None\<close> where a value is no finite double or where the
  program would follow a null pointer. No callback for JSON text is installed.
\<close>

section \<open>The state\<close>

type_synonym members = "(string \<times> cJSON) list"

text \<open>\<open>json_start\<close> after its first member \<open>connected\<close>, that array, \<open>json_intervals\<close>, \<open>json_end\<close>, and the
members of \<open>json_top\<close> after its first three.\<close>

record json_report =
  j_start :: members
  j_connected :: "cJSON list"
  j_intervals :: "cJSON list"
  j_end :: members
  j_rest :: members

record report =
  r_test :: iperf_test
  r_stamp :: string
  r_out :: string
  r_json :: "json_report option"

text \<open>Text reaches the outfile only by \<open>put\<close>; \<open>r_stamp\<close> is what \<open>strftime\<close> makes of the time.\<close>

definition put :: "string \<Rightarrow> report \<Rightarrow> report" where
  "put s r = r\<lparr>r_out := r_out r @ s\<rparr>"

definition upd_json :: "(json_report \<Rightarrow> json_report) \<Rightarrow> report \<Rightarrow> report" where
  "upd_json f r = r\<lparr>r_json := map_option f (r_json r)\<rparr>"

definition add_start :: "string \<Rightarrow> cJSON \<Rightarrow> report \<Rightarrow> report" where
  "add_start name item = upd_json (\<lambda>j. j\<lparr>j_start := j_start j @ [(name, item)]\<rparr>)"

definition add_end :: "members \<Rightarrow> report \<Rightarrow> report" where
  "add_end ms = upd_json (\<lambda>j. j\<lparr>j_end := j_end j @ ms\<rparr>)"

definition add_rest :: "string \<Rightarrow> cJSON \<Rightarrow> report \<Rightarrow> report" where
  "add_rest name item = upd_json (\<lambda>j. j\<lparr>j_rest := j_rest j @ [(name, item)]\<rparr>)"

definition start_object :: "json_report \<Rightarrow> cJSON" where
  "start_object j = J_Object ((''connected'', J_Array (j_connected j)) # j_start j)"

definition top_object :: "json_report \<Rightarrow> cJSON" where
  "top_object j =
     J_Object ((''start'', start_object j) # (''intervals'', J_Array (j_intervals j)) #
               (''end'', J_Object (j_end j)) # j_rest j)"

section \<open>Text\<close>

text \<open>The buffer of a line on the server has 1024 bytes.\<close>

definition timestamp :: "report \<Rightarrow> string" where
  "timestamp r = (if c_true (t_timestamps (r_test r)) then r_stamp r else [])"

definition print_text :: "string \<Rightarrow> report \<Rightarrow> report" where
  "print_text s r =
     (let t = r_test r; ct = timestamp r
      in if t_role t = CHR ''c''
         then put (ct @ (case t_title t of None \<Rightarrow> [] | Some title \<Rightarrow> title @ '':  '') @ s) r
         else if t_role t = CHR ''s''
         then (let linebuffer = take 1023 (ct @ s); r1 = put linebuffer r
               in if c_true (t_get_server_output t)
                  then r1\<lparr>r_test := t\<lparr>t_server_output_list := t_server_output_list t @ [linebuffer]\<rparr>\<rparr>
                  else r1)
         else r)"

definition iperf_printf :: "string \<Rightarrow> arg list \<Rightarrow> report \<Rightarrow> report option" where
  "iperf_printf format args r =
     (case c_printf format args of None \<Rightarrow> None | Some s \<Rightarrow> Some (print_text s r))"

text \<open>\<open>if (cond) iperf_printf (...);\<close>\<close>

definition printf_if :: "bool \<Rightarrow> string \<Rightarrow> arg list \<Rightarrow> report \<Rightarrow> report option" where
  "printf_if b format args r = (if b then iperf_printf format args r else Some r)"

text \<open>\<open>iperf_err\<close>, whose text is not longer than its buffer of 1000 bytes; the outfile is not \<open>stdout\<close>.\<close>

definition iperf_err :: "string \<Rightarrow> report \<Rightarrow> report" where
  "iperf_err str r =
     (if c_true (t_json_output (r_test r)) \<and> r_json r \<noteq> None then add_rest ''error'' (J_String str) r
      else put (timestamp r @ ''iperf3: '' @ str @ NL) r)"

section \<open>JSON\<close>

definition iperf_json_start :: "report \<Rightarrow> report" where
  "iperf_json_start r =
     r\<lparr>r_json := Some \<lparr>j_start = [], j_connected = [], j_intervals = [], j_end = [], j_rest = []\<rparr>\<rparr>"

text \<open>Nothing is written if the object cannot be printed; a null pointer adds no member.\<close>

definition JSONStream_Output :: "string \<Rightarrow> cJSON option \<Rightarrow> report \<Rightarrow> report" where
  "JSONStream_Output event_name obj r =
     (case cJSON_PrintUnformatted
             (J_Object ((''event'', J_String event_name) #
                        (case obj of None \<Rightarrow> [] | Some j \<Rightarrow> [(''data'', j)]))) of
        None \<Rightarrow> r
      | Some str \<Rightarrow> put (str @ NL) r)"

definition finish_members :: "report \<Rightarrow> report" where
  "finish_members r =
     (let t = r_test r;
          opt = (\<lambda>name so r. case so of None \<Rightarrow> r | Some s \<Rightarrow> add_rest name (J_String s) r);
          r1 = opt ''extra_data'' (t_extra_data t) (opt ''title'' (t_title t) r);
          r2 = (case t_json_server_output t of None \<Rightarrow> r1 | Some j \<Rightarrow> add_rest ''server_output_json'' j r1)
      in opt ''server_output_text'' (t_server_output_text t) r2)"

definition finish_stream :: "json_report \<Rightarrow> report \<Rightarrow> report" where
  "finish_stream j r =
     (let t = r_test r;
          r1 = (case iperf_cJSON_GetObjectItemType (top_object j) ''error'' cJSON_String of
                  None \<Rightarrow> r | Some e \<Rightarrow> JSONStream_Output ''error'' (Some e) r);
          r2 = (case t_json_server_output t of
                  None \<Rightarrow> r1 | Some s \<Rightarrow> JSONStream_Output ''server_output_json'' (Some s) r1);
          r3 = (case t_server_output_text t of
                  None \<Rightarrow> r2 | Some s \<Rightarrow> JSONStream_Output ''server_output_text'' (Some (J_String s)) r2)
      in JSONStream_Output ''end'' (Some (J_Object (j_end j))) r3)"

text \<open>The pointers are cleared, except when the report cannot be printed.\<close>

definition json_cleared :: "report \<Rightarrow> report" where
  "json_cleared r = r\<lparr>r_json := None, r_test := (r_test r)\<lparr>t_json_server_output := None\<rparr>\<rparr>"

definition iperf_json_finish :: "report \<Rightarrow> int \<times> report" where
  "iperf_json_finish r =
     (case r_json r of
        None \<Rightarrow> (0, json_cleared r)
      | Some _ \<Rightarrow>
          (let r1 = finish_members r; j = the (r_json r1)
           in if c_true (t_json_stream (r_test r)) then (0, json_cleared (finish_stream j r1))
              else (case cJSON_Print (top_object j) of
                      None \<Rightarrow> (- 1, r1)
                    | Some str \<Rightarrow> (0, json_cleared (put (str @ NL) r1)))))"

section \<open>The callbacks for connections and streams\<close>

text \<open>An object that is added to \<open>json_start\<close>.\<close>

definition start_item :: "string \<Rightarrow> string \<Rightarrow> arg list \<Rightarrow> report \<Rightarrow> report option" where
  "start_item name format args r =
     (case iperf_json_printf format args of None \<Rightarrow> None | Some j \<Rightarrow> Some (add_start name j r))"

definition size_arg :: "u64 \<Rightarrow> arg" where
  "size_arg w = A_int (to_int64 (uint w))"

definition protocol_name :: "int \<Rightarrow> string" where
  "protocol_name p = (if p = Ptcp then ''TCP'' else if p = Pudp then ''UDP'' else ''SCTP'')"

definition test_start_args :: "iperf_test \<Rightarrow> arg list" where
  "test_start_args t =
     (let s = t_settings t in
      [A_str (protocol_name (t_protocol t)), A_int (t_num_streams t), A_int (s_blksize s), A_int (t_omit t)])"

definition iperf_on_test_start :: "report \<Rightarrow> report option" where
  "iperf_on_test_start r =
     (let t = r_test r; s = t_settings t in
      do {
        r1 \<leftarrow> (if c_true (t_json_output t)
              then start_item ''test_start''
                ''protocol: %s  num_streams: %d  blksize: %d  omit: %d  duration: %d  bytes: %d  blocks: %d  reverse: %d  tos: %d  target_bitrate: %d bidir: %d fqrate: %d interval: %f''
                (test_start_args t @
                 [A_int (t_duration t), size_arg (s_bytes s), size_arg (s_blocks s),
                  A_int (if c_true (t_reverse t) then 1 else 0), A_int (s_tos s), size_arg (s_rate s),
                  A_int (t_bidirectional t), size_arg (s_fqrate s), A_dbl (t_stats_interval t)]) r
              else if c_true (t_verbose t) then
                (if s_bytes s \<noteq> 0
                 then iperf_printf test_start_bytes
                        (test_start_args t @ [A_int (uint (s_bytes s)), A_int (s_tos s)]) r
                 else if s_blocks s \<noteq> 0
                 then iperf_printf test_start_blocks
                        (test_start_args t @ [A_int (uint (s_blocks s)), A_int (s_tos s)]) r
                 else iperf_printf test_start_time
                        (test_start_args t @ [A_int (t_duration t), A_int (s_tos s)]) r)
              else Some r);
        Some (if c_true (t_json_stream t)
              then JSONStream_Output ''start'' (map_option start_object (r_json r1)) r1 else r1)
      })"

definition mapped_v4_to_regular_v4 :: "string \<Rightarrow> int \<times> string" where
  "mapped_v4_to_regular_v4 str = (if take 7 str = ''::ffff:'' then (1, drop 7 str) else (0, str))"

text \<open>What \<open>time\<close> and \<open>strftime\<close> say, and the address and port of the peer of the control connection.\<close>

record connect_info =
  ci_now_str :: string
  ci_now_secs :: int
  ci_peer :: string
  ci_port :: int

definition report_peer :: "connect_info \<Rightarrow> report \<Rightarrow> report option" where
  "report_peer ci r =
     (let t = r_test r; host = (case t_server_hostname t of None \<Rightarrow> [] | Some h \<Rightarrow> h);
          server_args = [A_str host, A_int (t_server_port t)]
      in if t_role t = CHR ''c'' then
           (if c_true (t_json_output t) then start_item ''connecting_to'' ''host: %s  port: %d'' server_args r
            else do { r1 \<leftarrow> iperf_printf report_connecting server_args r;
                      printf_if (c_true (t_reverse t)) report_reverse [A_str host] r1 })
         else
           (let (mapped, ipr) = mapped_v4_to_regular_v4 (ci_peer ci);
                r1 = (if c_true mapped then r\<lparr>r_test := t\<lparr>t_mapped_v4 := 1\<rparr>\<rparr> else r);
                peer_args = [A_str ipr, A_int (ci_port ci)]
            in if c_true (t_json_output t)
               then start_item ''accepted_connection'' ''host: %s  port: %d'' peer_args r1
               else iperf_printf report_accepted peer_args r1))"

definition report_options :: "report \<Rightarrow> report option" where
  "report_options r =
     (let t = r_test r; s = t_settings t; tcp = (t_protocol t = Ptcp); num = (\<lambda>i. J_Number (dbl_of_int i)) in
      if c_true (t_json_output t) then
        (let r1 = add_start ''cookie'' (J_String (t_cookie t)) r;
             r2 = (if \<not> tcp then r1
                   else if s_mss s \<noteq> 0 then add_start ''tcp_mss'' (num (s_mss s)) r1
                   else add_start ''tcp_mss_default'' (num (t_ctrl_sck_mss t)) r1)
         in Some (add_start ''fq_rate'' (num (uint (s_fqrate s)))
                   (add_start ''target_bitrate'' (num (uint (s_rate s))) r2)))
      else if c_true (t_verbose t) then
        do {
          r1 \<leftarrow> iperf_printf report_cookie [A_str (t_cookie t)] r;
          r2 \<leftarrow> (if \<not> tcp then Some r1
                else if s_mss s \<noteq> 0 then iperf_printf (''      TCP MSS: %d'' @ NL) [A_int (s_mss s)] r1
                else iperf_printf (''      TCP MSS: %d (default)'' @ NL) [A_int (t_ctrl_sck_mss t)] r1);
          printf_if (s_rate s \<noteq> 0) (''      Target Bitrate: %lu'' @ NL) [A_int (uint (s_rate s))] r2
        }
      else Some r)"

definition iperf_on_connect :: "connect_info \<Rightarrow> report \<Rightarrow> report option" where
  "iperf_on_connect ci r =
     (let t = r_test r in
      do {
        r1 \<leftarrow> (if c_true (t_json_output t)
              then start_item ''timestamp'' ''time: %s  timesecs: %d'' [A_str (ci_now_str ci), A_int (ci_now_secs ci)] r
              else printf_if (c_true (t_verbose t)) report_time [A_str (ci_now_str ci)] r);
        r2 \<leftarrow> report_peer ci r1;
        report_options r2
      })"

text \<open>\<open>local\<close> and \<open>remote\<close> are the addresses as \<open>inet_ntop\<close> writes them.\<close>

definition connect_msg :: "string \<Rightarrow> string \<Rightarrow> iperf_stream \<Rightarrow> report \<Rightarrow> report option" where
  "connect_msg local remote sp r =
     (let args = [A_int (sp_socket sp), A_str (snd (mapped_v4_to_regular_v4 local)), A_int (sp_local_port sp),
                  A_str (snd (mapped_v4_to_regular_v4 remote)), A_int (sp_remote_port sp)]
      in if c_true (t_json_output (r_test r))
         then (case iperf_json_printf
                      ''socket: %d  local_host: %s  local_port: %d  remote_host: %s  remote_port: %d'' args of
                 None \<Rightarrow> None
               | Some j \<Rightarrow> Some (upd_json (\<lambda>jr. jr\<lparr>j_connected := j_connected jr @ [j]\<rparr>) r))
         else iperf_printf report_connected args r)"

end
