(* ===== verification/Report_Interval.thy ===== *)
theory Report_Interval
  imports Report
begin

text \<open>
  The interval reports (\<open>print_interval_results\<close> and \<open>iperf_print_intermediate\<close> of \<open>iperf_api.c\<close>). A report
  has a JSON form and a text form; an \<open>entry\<close> holds the formats and arguments of both. The streams are
  reported in one pass, or in bidirectional mode in two, one per direction. The interval object is
  put together while the passes run and added to the report at their end; as the code reaches it
  through the report all the time, the result is the same.
\<close>

section \<open>Entries\<close>

text \<open>The JSON format and its arguments, the text format and its arguments.\<close>

type_synonym entry = "(string \<times> arg list) \<times> (string \<times> arg list)"

definition report_item :: "entry \<Rightarrow> report \<times> cJSON list \<Rightarrow> (report \<times> cJSON list) option" where
  "report_item e x =
     (let ((jf, ja), (tf, ta)) = e; (r, items) = x
      in if c_true (t_json_output (r_test r))
         then (case iperf_json_printf jf ja of None \<Rightarrow> None | Some j \<Rightarrow> Some (r, items @ [j]))
         else (case iperf_printf tf ta r of None \<Rightarrow> None | Some r1 \<Rightarrow> Some (r1, items)))"

definition UNIT_LEN :: nat where "UNIT_LEN = 32"

definition size_text :: "u64 \<Rightarrow> string" where
  "size_text bytes = unit_snprintf UNIT_LEN (dbl_of_u64 bytes) (CHR ''A'')"

definition rate_text :: "iperf_test \<Rightarrow> dbl \<Rightarrow> string" where
  "rate_text t bandwidth = unit_snprintf UNIT_LEN bandwidth (s_unit_format (t_settings t))"

text \<open>The role of a stream is printed in bidirectional mode only.\<close>

definition role_text :: "iperf_test \<Rightarrow> bool \<Rightarrow> string" where
  "role_text t sender =
     (if t_mode t = BIDIRECTIONAL
      then ''['' @ (if sender then ''TX'' else ''RX'') @ ''-'' @ (if t_role t = CHR ''c'' then ''C'' else ''S'') @ '']''
      else [])"

definition blanks :: "iperf_test \<Rightarrow> string" where
  "blanks t = (if t_mode t = BIDIRECTIONAL then replicate 10 (CHR '' '') else [])"

definition since_start :: "iperf_stream \<Rightarrow> iperf_time \<Rightarrow> dbl" where
  "since_start sp time = iperf_time_in_secs (snd (iperf_time_diff (rp_start_time (sp_result sp)) time))"

definition bandwidth_of :: "u64 \<Rightarrow> dbl \<Rightarrow> dbl" where
  "bandwidth_of bytes seconds = (if seconds > 0 then ddiv (dbl_of_u64 bytes) seconds else 0)"

definition percent_lost :: "int \<Rightarrow> int \<Rightarrow> dbl" where
  "percent_lost lost packets =
     (if packets > 0 then ddiv (dmul 100 (dbl_of_int lost)) (dbl_of_int packets) else 0)"

definition omitted_text :: "int \<Rightarrow> arg" where
  "omitted_text omitted = A_str (if c_true omitted then report_omitted else [])"

definition tcp_like :: "iperf_test \<Rightarrow> bool" where
  "tcp_like t \<longleftrightarrow> t_protocol t = Ptcp \<or> t_protocol t = Psctp"

section \<open>One stream\<close>

definition interval_header :: "iperf_test \<Rightarrow> iperf_stream \<Rightarrow> iperf_interval_results \<Rightarrow> string option" where
  "interval_header t sp irp =
     (if iperf_time_compare (rp_start_time (sp_result sp)) (irp_interval_start_time irp) = 0 then
        Some (if tcp_like t then
                (if t_sender_has_retransmits t = 1 then
                   (if c_true (t_bidirectional t) then report_bw_retrans_cwnd_header_bidir
                    else report_bw_retrans_cwnd_header)
                 else if c_true (t_bidirectional t) then report_bw_header_bidir else report_bw_header)
              else
                (case t_mode t of
                   SENDER \<Rightarrow> report_bw_udp_sender_header
                 | RECEIVER \<Rightarrow> report_bw_udp_header
                 | BIDIRECTIONAL \<Rightarrow> report_bw_udp_header_bidir))
      else if t_num_streams t > 1 then Some report_bw_separator
      else None)"

definition interval_entry :: "iperf_test \<Rightarrow> iperf_stream \<Rightarrow> iperf_interval_results \<Rightarrow> entry" where
  "interval_entry t sp irp =
     (let bytes = irp_bytes_transferred irp; seconds = irp_interval_duration irp;
          bandwidth = bandwidth_of bytes seconds;
          st = since_start sp (irp_interval_start_time irp); et = since_start sp (irp_interval_end_time irp);
          js = [A_int (sp_socket sp), A_dbl st, A_dbl et, A_dbl seconds, size_arg bytes, A_dbl (dmul bandwidth 8)];
          jb = [A_int (irp_omitted irp), A_int (sp_sender sp)];
          ts = [A_int (sp_socket sp), A_str (role_text t (c_true (sp_sender sp))), A_dbl st, A_dbl et,
                A_str (size_text bytes), A_str (rate_text t bandwidth)];
          om = [omitted_text (irp_omitted irp)];
          jitter = dmul (irp_jitter irp) 1000; lost = irp_interval_cnt_error irp;
          packets = irp_interval_packet_count irp; lost_percent = percent_lost lost packets
      in if tcp_like t then
           (if (t_sender_has_retransmits t = 1 \<or> t_protocol t = Psctp) \<and> c_true (sp_sender sp)
            then ((''socket: %d  start: %f  end: %f  seconds: %f  bytes: %d  bits_per_second: %f  retransmits: %d  snd_cwnd:  %d  snd_wnd:  %d  rtt:  %d  rttvar: %d  pmtu: %d  omitted: %b sender: %b'',
                   js @ [A_int (irp_interval_retrans irp), A_int (irp_snd_cwnd irp), A_int (irp_snd_wnd irp),
                         A_int (irp_rtt irp), A_int (irp_rttvar irp), A_int (irp_pmtu irp)] @ jb),
                  (report_bw_retrans_cwnd_format,
                   ts @ [A_int (irp_interval_retrans irp),
                         A_str (unit_snprintf UNIT_LEN (dbl_of_int (irp_snd_cwnd irp)) (CHR ''A''))] @ om))
            else ((''socket: %d  start: %f  end: %f  seconds: %f  bytes: %d  bits_per_second: %f  omitted: %b sender: %b'',
                   js @ jb),
                  (report_bw_format, ts @ om)))
         else if c_true (sp_sender sp)
         then ((''socket: %d  start: %f  end: %f  seconds: %f  bytes: %d  bits_per_second: %f  packets: %d  omitted: %b sender: %b'',
                js @ [A_int packets] @ jb),
               (report_bw_udp_sender_format, ts @ [A_str (blanks t), A_int packets] @ om))
         else ((''socket: %d  start: %f  end: %f  seconds: %f  bytes: %d  bits_per_second: %f  jitter_ms: %f  lost_packets: %d  packets: %d  lost_percent: %f  omitted: %b sender: %b'',
                js @ [A_dbl jitter, A_int lost, A_int packets, A_dbl lost_percent] @ jb),
               (report_bw_udp_format, ts @ [A_dbl jitter, A_int lost, A_int packets, A_dbl lost_percent] @ om)))"

text \<open>\<open>is_first\<close>: the stream is the first of the test.\<close>

definition print_interval_results ::
  "bool \<Rightarrow> iperf_stream \<Rightarrow> report \<times> cJSON list \<Rightarrow> (report \<times> cJSON list) option" where
  "print_interval_results is_first sp x =
     (let (r, items) = x; t = r_test r in
      case last_interval (sp_result sp) of
        None \<Rightarrow> Some (iperf_err ''print_interval_results error: interval_results is NULL'' r, items)
      | Some irp \<Rightarrow>
          do {
            r1 \<leftarrow> (case interval_header t sp irp of
                    None \<Rightarrow> Some r
                  | Some h \<Rightarrow> printf_if (\<not> c_true (t_json_output t) \<and> is_first) ''%s'' [A_str h] r);
            report_item (interval_entry t sp irp) (r1, items)
          })"

section \<open>The passes\<close>

record interval_sum =
  is_bytes :: u64
  is_retransmits :: int
  is_total_packets :: int
  is_lost_packets :: int
  is_jitter :: dbl

definition no_sum :: interval_sum where
  "no_sum = \<lparr>is_bytes = 0, is_retransmits = 0, is_total_packets = 0, is_lost_packets = 0, is_jitter = 0\<rparr>"

definition add_interval :: "iperf_test \<Rightarrow> iperf_interval_results \<Rightarrow> interval_sum \<Rightarrow> interval_sum" where
  "add_interval t irp s =
     (let s1 = s\<lparr>is_bytes := is_bytes s + irp_bytes_transferred irp\<rparr>
      in if t_protocol t = Ptcp
         then (if t_sender_has_retransmits t = 1
               then s1\<lparr>is_retransmits := is_retransmits s + irp_interval_retrans irp\<rparr> else s1)
         else s1\<lparr>is_total_packets := is_total_packets s + irp_interval_packet_count irp,
                 is_lost_packets := is_lost_packets s + irp_interval_cnt_error irp,
                 is_jitter := dadd (is_jitter s) (irp_jitter irp)\<rparr>)"

text \<open>The state of the function: the report, the elements of \<open>streams\<close>, the sums in the interval object,
and whether the function has returned early.\<close>

record interval_state =
  iv_report :: report
  iv_items :: "cJSON list"
  iv_sums :: members
  iv_stop :: bool

definition interval_stream ::
  "bool \<Rightarrow> int \<Rightarrow> iperf_stream \<Rightarrow> interval_state \<times> interval_sum \<Rightarrow> (interval_state \<times> interval_sum) option" where
  "interval_stream is_first stream_must_be_sender sp x =
     (let (st, s) = x in
      if iv_stop st \<or> sp_sender sp \<noteq> stream_must_be_sender then Some (st, s)
      else
        do {
          (r, items) \<leftarrow> print_interval_results is_first sp (iv_report st, iv_items st);
          Some (case last_interval (sp_result sp) of
                  None \<Rightarrow>
                    (st\<lparr>iv_report := iperf_err ''iperf_print_intermediate error: interval_results is NULL'' r,
                        iv_items := items, iv_stop := True\<rparr>, s)
                | Some irp \<Rightarrow> (st\<lparr>iv_report := r, iv_items := items\<rparr>, add_interval (r_test r) irp s))
        })"

fun interval_streams ::
  "bool \<Rightarrow> int \<Rightarrow> iperf_stream list \<Rightarrow> interval_state \<times> interval_sum \<Rightarrow>
   (interval_state \<times> interval_sum) option" where
  "interval_streams is_first sender [] x = Some x"
| "interval_streams is_first sender (sp # sps) x =
     do { y \<leftarrow> interval_stream is_first sender sp x; interval_streams False sender sps y }"

definition reverse_channel :: "iperf_test \<Rightarrow> int \<Rightarrow> bool" where
  "reverse_channel t stream_must_be_sender \<longleftrightarrow>
     t_mode t = BIDIRECTIONAL \<and>
     ((t_role t = CHR ''c'' \<and> stream_must_be_sender = 0) \<or> (t_role t \<noteq> CHR ''c'' \<and> stream_must_be_sender \<noteq> 0))"

text \<open>Dividing by a duration of 0 or by 0 streams gives no finite number.\<close>

definition interval_sum_entry ::
  "iperf_test \<Rightarrow> int \<Rightarrow> iperf_stream \<Rightarrow> iperf_interval_results \<Rightarrow> interval_sum \<Rightarrow> entry option" where
  "interval_sum_entry t stream_must_be_sender sp irp s =
     (let bytes = is_bytes s; seconds = irp_interval_duration irp; bandwidth = ddiv (dbl_of_u64 bytes) seconds;
          st = since_start sp (irp_interval_start_time irp); et = since_start sp (irp_interval_end_time irp);
          js = [A_dbl st, A_dbl et, A_dbl seconds, size_arg bytes, A_dbl (dmul bandwidth 8)];
          jb = (\<lambda>omitted. [A_int omitted, A_int stream_must_be_sender]);
          ts = [A_str (role_text t (c_true stream_must_be_sender)), A_dbl st, A_dbl et,
                A_str (size_text bytes), A_str (rate_text t bandwidth)];
          om = [omitted_text (t_omitting t)];
          avg_jitter = dmul (ddiv (is_jitter s) (dbl_of_int (t_num_streams t))) 1000;
          lost = is_lost_packets s; packets = is_total_packets s; lost_percent = percent_lost lost packets
      in if seconds = 0 then None
         else if tcp_like t then
           (if t_sender_has_retransmits t = 1 \<and> c_true stream_must_be_sender
            then Some ((''start: %f  end: %f  seconds: %f  bytes: %d  bits_per_second: %f  retransmits: %d  omitted: %b sender: %b'',
                        js @ [A_int (is_retransmits s)] @ jb (irp_omitted irp)),
                       (report_sum_bw_retrans_format,
                        ts @ [A_int (is_retransmits s), omitted_text (irp_omitted irp)]))
            else Some ((''start: %f  end: %f  seconds: %f  bytes: %d  bits_per_second: %f  omitted: %b sender: %b'',
                        js @ jb (t_omitting t)),
                       (report_sum_bw_format, ts @ om)))
         else if c_true stream_must_be_sender
         then Some ((''start: %f  end: %f  seconds: %f  bytes: %d  bits_per_second: %f  packets: %d  omitted: %b sender: %b'',
                     js @ [A_int packets] @ jb (t_omitting t)),
                    (report_sum_bw_udp_sender_format, ts @ [A_str (blanks t), A_int packets] @ om))
         else if t_num_streams t = 0 then None
         else Some ((''start: %f  end: %f  seconds: %f  bytes: %d  bits_per_second: %f  jitter_ms: %f  lost_packets: %d  packets: %d  lost_percent: %f  omitted: %b sender: %b'',
                     js @ [A_dbl avg_jitter, A_int lost, A_int packets, A_dbl lost_percent] @ jb (t_omitting t)),
                    (report_sum_bw_udp_format,
                     ts @ [A_dbl avg_jitter, A_int lost, A_int packets, A_dbl lost_percent] @ om)))"

definition interval_total :: "int \<Rightarrow> interval_state \<times> interval_sum \<Rightarrow> interval_state option" where
  "interval_total stream_must_be_sender x =
     (let (st, s) = x; t = r_test (iv_report st);
          sum_name = (if reverse_channel t stream_must_be_sender then ''sum_bidir_reverse'' else ''sum'')
      in if iv_stop st \<or> \<not> (t_num_streams t > 1 \<or> c_true (t_json_output t)) then Some st
         else
           (case t_streams t of
              [] \<Rightarrow> Some st
            | sp # _ \<Rightarrow>
                do {
                  irp \<leftarrow> last_interval (sp_result sp);
                  e \<leftarrow> interval_sum_entry t stream_must_be_sender sp irp s;
                  (r, items) \<leftarrow> report_item e (iv_report st, []);
                  Some (st\<lparr>iv_report := r, iv_sums := iv_sums st @ map (Pair sum_name) items\<rparr>)
                }))"

definition interval_pass :: "int \<Rightarrow> interval_state \<Rightarrow> interval_state option" where
  "interval_pass stream_must_be_sender st =
     do {
       y \<leftarrow> interval_streams True stream_must_be_sender (t_streams (r_test (iv_report st))) (st, no_sum);
       interval_total stream_must_be_sender y
     }"

fun interval_passes :: "int list \<Rightarrow> interval_state \<Rightarrow> interval_state option" where
  "interval_passes [] st = Some st"
| "interval_passes (m # ms) st =
     (if iv_stop st then Some st else do { st1 \<leftarrow> interval_pass m st; interval_passes ms st1 })"

text \<open>The values of \<open>stream_must_be_sender\<close>, the square of \<open>current_mode\<close>, from \<open>lower_mode\<close> to \<open>upper_mode\<close>.\<close>

definition pass_modes :: "iperf_test \<Rightarrow> int list" where
  "pass_modes t =
     (case t_mode t of
        BIDIRECTIONAL \<Rightarrow> if t_role t = CHR ''c'' then [1, 0] else [0, 1]
      | SENDER \<Rightarrow> [1]
      | RECEIVER \<Rightarrow> [0])"

section \<open>The report of an interval\<close>

definition keeps_interval :: "iperf_test \<Rightarrow> bool" where
  "keeps_interval t =
     list_ex (\<lambda>sp. case last_interval (sp_result sp) of
                     None \<Rightarrow> False
                   | Some irp \<Rightarrow>
                       iperf_time_in_secs (snd (iperf_time_diff (irp_interval_start_time irp) (irp_interval_end_time irp)))
                         \<ge> dmul (t_stats_interval t) (fl (1 / 10)) \<or> irp_bytes_transferred irp > 0) (t_streams t)"

definition discard_json :: "iperf_test \<Rightarrow> bool" where
  "discard_json t \<longleftrightarrow> t_json_stream t = 1 \<and> \<not> (t_role t = CHR ''s'' \<and> c_true (t_get_server_output t))"

definition interval_object :: "interval_state \<Rightarrow> cJSON" where
  "interval_object st = J_Object ((''streams'', J_Array (iv_items st)) # iv_sums st)"

definition iperf_print_intermediate :: "report \<Rightarrow> report option" where
  "iperf_print_intermediate r =
     (let t = r_test r; json = c_true (t_json_output t) in
      if \<not> keeps_interval t then Some r
      else
        do {
          st \<leftarrow> interval_passes (pass_modes t) \<lparr>iv_report = r, iv_items = [], iv_sums = [], iv_stop = False\<rparr>;
          let r1 = (if json \<and> \<not> discard_json t
                    then upd_json (\<lambda>j. j\<lparr>j_intervals := j_intervals j @ [interval_object st]\<rparr>) (iv_report st)
                    else iv_report st);
          Some (if \<not> iv_stop st \<and> c_true (t_json_stream t)
                then JSONStream_Output ''interval'' (if json then Some (interval_object st) else None) r1
                else r1)
        })"

end
