(* ===== verification/Report_Summary.thy ===== *)
theory Report_Summary
  imports Report_Interval
begin

text \<open>
  The summary at the end of a test (\<open>iperf_print_results\<close> of \<open>iperf_api.c\<close>) and the callback that makes all
  reports. As in the interval reports there is one pass per direction; each reports its streams from
  the sender's and from the receiver's side, then the sums. The argument \<open>file_size\<close> is what \<open>fstat\<close>
  says of a descriptor. The array \<open>streams\<close> and the sums are collected and added to \<open>json_end\<close> at the end,
  in the order of the code.
\<close>

section \<open>Headers\<close>

definition summary_header :: "report \<Rightarrow> report option" where
  "summary_header r =
     (let t = r_test r; bidir = c_true (t_bidirectional t) in
      if c_true (t_json_output t) then Some r
      else
        do {
          r1 \<leftarrow> iperf_printf ''%s'' [A_str report_bw_separator] r;
          r2 \<leftarrow> printf_if (c_true (t_verbose t)) ''%s'' [A_str report_summary] r1;
          iperf_printf ''%s''
            [A_str (if tcp_like t then
                      (if c_true (t_sender_has_retransmits t) \<or> c_true (t_other_side_has_retransmits t)
                       then (if bidir then report_bw_retrans_header_bidir else report_bw_retrans_header)
                       else if bidir then report_bw_header_bidir else report_bw_header)
                    else if bidir then report_bw_udp_header_bidir else report_bw_udp_header)] r2
        })"

section \<open>Times\<close>

text \<open>The first stream gives the times of the test; a time the peer has not sent is the own one.\<close>

definition set_times :: "iperf_stream \<Rightarrow> iperf_stream" where
  "set_times sp =
     (let rp = sp_result sp; end_time = since_start sp (rp_end_time rp)
      in sp\<lparr>sp_result :=
           (if c_true (sp_sender sp)
            then rp\<lparr>rp_sender_time := end_time,
                    rp_receiver_time := (if rp_receiver_time rp = 0 then end_time else rp_receiver_time rp)\<rparr>
            else rp\<lparr>rp_receiver_time := end_time,
                    rp_sender_time := (if rp_sender_time rp = 0 then end_time else rp_sender_time rp)\<rparr>)\<rparr>)"

text \<open>\<open>sender_time\<close>, \<open>receiver_time\<close> and \<open>end_time\<close>.\<close>

type_synonym end_times = "dbl \<times> dbl \<times> dbl"

definition summary_times :: "report \<Rightarrow> end_times \<times> report" where
  "summary_times r =
     (case t_streams (r_test r) of
        [] \<Rightarrow> ((0, 0, 0), r)
      | sp # sps \<Rightarrow>
          (let sp1 = set_times sp; rp = sp_result sp1
           in ((rp_sender_time rp, rp_receiver_time rp, since_start sp (rp_end_time rp)),
               r\<lparr>r_test := (r_test r)\<lparr>t_streams := sp1 # sps\<rparr>\<rparr>)))"

section \<open>Counts\<close>

definition stream_sent :: "iperf_stream \<Rightarrow> u64" where
  "stream_sent sp = rp_bytes_sent (sp_result sp) - rp_bytes_sent_omit (sp_result sp)"

text \<open>The packets of the sender and of the receiver, each without those of the omitted period.\<close>

definition sender_packets :: "iperf_stream \<Rightarrow> int \<times> int" where
  "sender_packets sp =
     (if c_true (sp_sender sp) then (sp_packet_count sp, sp_omitted_packet_count sp)
      else (sp_peer_packet_count sp, sp_peer_omitted_packet_count sp))"

definition receiver_packets :: "iperf_stream \<Rightarrow> int \<times> int" where
  "receiver_packets sp =
     (if c_true (sp_sender sp) then (sp_peer_packet_count sp, sp_peer_omitted_packet_count sp)
      else (sp_packet_count sp, sp_omitted_packet_count sp))"

definition known_packets :: "iperf_stream \<Rightarrow> int" where
  "known_packets sp =
     (if fst (sender_packets sp) \<noteq> 0 then fst (sender_packets sp) else fst (receiver_packets sp))"

record summary_sum =
  su_sent :: u64
  su_received :: u64
  su_retransmits :: int
  su_packets :: int
  su_sender_packets :: int
  su_receiver_packets :: int
  su_lost :: int
  su_jitter :: dbl

definition zero_summary :: summary_sum where
  "zero_summary = \<lparr>su_sent = 0, su_received = 0, su_retransmits = 0, su_packets = 0, su_sender_packets = 0,
     su_receiver_packets = 0, su_lost = 0, su_jitter = 0\<rparr>"

definition add_summary :: "iperf_test \<Rightarrow> iperf_stream \<Rightarrow> summary_sum \<Rightarrow> summary_sum" where
  "add_summary t sp s =
     (let s1 = s\<lparr>su_sent := su_sent s + stream_sent sp,
                 su_received := su_received s + rp_bytes_received (sp_result sp)\<rparr>;
          (spc, sopc) = sender_packets sp; (rpc, ropc) = receiver_packets sp
      in if tcp_like t
         then (if c_true (t_sender_has_retransmits t)
               then s1\<lparr>su_retransmits := su_retransmits s + rp_stream_retrans (sp_result sp)\<rparr> else s1)
         else s1\<lparr>su_packets := su_packets s + (known_packets sp - sp_omitted_packet_count sp),
                 su_sender_packets := su_sender_packets s + (spc - sopc),
                 su_receiver_packets := su_receiver_packets s + (rpc - ropc),
                 su_lost := su_lost s + sp_cnt_error sp
                            - (if sp_omitted_cnt_error sp > - 1 then sp_omitted_cnt_error sp else 0),
                 su_jitter := dadd (su_jitter s) (sp_jitter sp)\<rparr>)"

section \<open>One stream\<close>

text \<open>An object that JSON gets under \<open>name\<close>, and text gets unless the side it is about is unknown to
this end; then it gets a remark, if it is verbose.\<close>

definition summary_item ::
  "string \<Rightarrow> bool \<Rightarrow> string \<times> arg list \<Rightarrow> entry \<Rightarrow> report \<times> members \<Rightarrow> (report \<times> members) option" where
  "summary_item name unknown remark e x =
     (let ((jf, ja), (tf, ta)) = e; (r, ms) = x; t = r_test r
      in if c_true (t_json_output t)
         then (case iperf_json_printf jf ja of None \<Rightarrow> None | Some j \<Rightarrow> Some (r, ms @ [(name, j)]))
         else do { r1 \<leftarrow> (if unknown then printf_if (c_true (t_verbose t)) (fst remark) (snd remark) r
                         else iperf_printf tf ta r);
                   Some (r1, ms) })"

definition sender_unknown :: "iperf_test \<Rightarrow> int \<Rightarrow> bool" where
  "sender_unknown t sender \<longleftrightarrow> t_role t = CHR ''s'' \<and> \<not> c_true sender"

definition receiver_unknown :: "iperf_test \<Rightarrow> int \<Rightarrow> bool" where
  "receiver_unknown t sender \<longleftrightarrow> t_role t = CHR ''s'' \<and> c_true sender"

definition mean_rtt :: "iperf_stream_result \<Rightarrow> int" where
  "mean_rtt rp =
     (if rp_stream_count_rtt rp = 0 then 0 else rp_stream_sum_rtt rp div rp_stream_count_rtt rp)"

definition sender_summary ::
  "end_times \<Rightarrow> iperf_stream \<Rightarrow> report \<times> members \<Rightarrow> (report \<times> members) option" where
  "sender_summary tms sp x =
     (let (sender_time, _, _) = tms; t = r_test (fst x); rp = sp_result sp; bytes = stream_sent sp;
          bandwidth = bandwidth_of bytes sender_time; (spc, sopc) = sender_packets sp;
          sender = A_int (sp_sender sp); lost = sp_cnt_error sp - sp_omitted_cnt_error sp;
          out_of_order = sp_outoforder_packets sp - sp_omitted_outoforder_packets sp;
          js = [A_int (sp_socket sp), A_dbl 0, A_dbl sender_time, A_dbl sender_time, size_arg bytes,
                A_dbl (dmul bandwidth 8)];
          mb = A_str (role_text t (c_true (sp_sender sp)));
          ts = [A_int (sp_socket sp), mb, A_dbl 0, A_dbl sender_time, A_str (size_text bytes),
                A_str (rate_text t bandwidth)];
          unknown = sender_unknown t (sp_sender sp);
          remark = (report_sender_not_available_format, [A_int (sp_socket sp)])
      in if tcp_like t then
           summary_item report_sender unknown remark
             (if c_true (t_sender_has_retransmits t) \<or> t_protocol t = Psctp
              then ((''socket: %d  start: %f  end: %f  seconds: %f  bytes: %d  bits_per_second: %f  retransmits: %d  max_snd_cwnd:  %d  max_snd_wnd:  %d  max_rtt:  %d  min_rtt:  %d  mean_rtt:  %d sender: %b'',
                     js @ [A_int (rp_stream_retrans rp), A_int (rp_stream_max_snd_cwnd rp),
                           A_int (rp_stream_max_snd_wnd rp), A_int (rp_stream_max_rtt rp),
                           A_int (rp_stream_min_rtt rp), A_int (mean_rtt rp), sender]),
                    (report_bw_retrans_format, ts @ [A_int (rp_stream_retrans rp), A_str report_sender]))
              else ((''socket: %d  start: %f  end: %f  seconds: %f  bytes: %d  bits_per_second: %f sender: %b'',
                     js @ [sender]),
                    (report_bw_format, ts @ [A_str report_sender]))) x
         else
           do {
             (r, ms) \<leftarrow> summary_item ''udp'' unknown remark
               ((''socket: %d  start: %f  end: %f  seconds: %f  bytes: %d  bits_per_second: %f  jitter_ms: %f  lost_packets: %d  packets: %d  lost_percent: %f  out_of_order: %d sender: %b'',
                 js @ [A_dbl (dmul (sp_jitter sp) 1000), A_int lost,
                       A_int (known_packets sp - sp_omitted_packet_count sp), A_dbl (percent_lost lost (spc - sopc)),
                       A_int out_of_order, sender]),
                (report_bw_udp_format, ts @ [A_dbl 0, A_int 0, A_int (spc - sopc), A_dbl 0, A_str report_sender])) x;
             r1 \<leftarrow> printf_if (\<not> c_true (t_json_output t) \<and> out_of_order > 0) report_sum_outoforder
                    [mb, A_dbl 0, A_dbl sender_time, A_int out_of_order] r;
             Some (r1, ms)
           })"

text \<open>The percentages are converted to \<open>int\<close>.\<close>

definition percent_of :: "u64 \<Rightarrow> int \<Rightarrow> int option" where
  "percent_of bytes st_size =
     (if st_size > 0 then dbl_to_i32 (dmul (ddiv (dbl_of_u64 bytes) (dbl_of_int st_size)) 100) else Some 100)"

definition diskfile_summary ::
  "(int \<Rightarrow> int option) \<Rightarrow> iperf_stream \<Rightarrow> report \<times> members \<Rightarrow> (report \<times> members) option" where
  "diskfile_summary file_size sp x =
     (let t = r_test (fst x); sent = stream_sent sp; received = rp_bytes_received (sp_result sp) in
      case (if sp_diskfile_fd sp \<ge> 0 then file_size (sp_diskfile_fd sp) else None) of
        None \<Rightarrow> Some x
      | Some st_size \<Rightarrow>
          do {
            percent_sent \<leftarrow> percent_of sent st_size;
            percent_received \<leftarrow> percent_of received st_size;
            name \<leftarrow> t_diskfile_name t;
            summary_item ''diskfile'' False ([], [])
              ((''sent: %d  received: %d  size: %d  percent_sent: %d  percent_received: %d  filename: %s'',
                [size_arg sent, size_arg received, A_int st_size, A_int percent_sent, A_int percent_received,
                 A_str name]),
               (report_diskfile,
                [A_str (if c_true (sp_sender sp) then size_text sent else size_text received),
                 A_str (unit_snprintf UNIT_LEN (dbl_of_int st_size) (CHR ''A'')),
                 A_int (if c_true (sp_sender sp) then percent_sent else percent_received), A_str name])) x
          })"

text \<open>For UDP the JSON object of the sender's side has both sides.\<close>

definition receiver_summary ::
  "end_times \<Rightarrow> iperf_stream \<Rightarrow> report \<times> members \<Rightarrow> (report \<times> members) option" where
  "receiver_summary tms sp x =
     (let (_, receiver_time, end_time) = tms; t = r_test (fst x); bytes = rp_bytes_received (sp_result sp);
          bandwidth = bandwidth_of bytes receiver_time; (rpc, ropc) = receiver_packets sp; packets = rpc - ropc;
          omitted_known = (sp_omitted_cnt_error sp > - 1); lost = sp_cnt_error sp - sp_omitted_cnt_error sp;
          jitter = dmul (sp_jitter sp) 1000;
          lost_percent = (if omitted_known then percent_lost lost packets else 0);
          ts = [A_int (sp_socket sp), A_str (role_text t (c_true (sp_sender sp))), A_dbl 0, A_dbl receiver_time,
                A_str (size_text bytes), A_str (rate_text t bandwidth)];
          unknown = receiver_unknown t (sp_sender sp);
          remark = (report_receiver_not_available_format, [A_int (sp_socket sp)])
      in if tcp_like t then
           summary_item report_receiver unknown remark
             ((''socket: %d  start: %f  end: %f  seconds: %f  bytes: %d  bits_per_second: %f sender: %b'',
               [A_int (sp_socket sp), A_dbl 0, A_dbl receiver_time, A_dbl end_time, size_arg bytes,
                A_dbl (dmul bandwidth 8), A_int (sp_sender sp)]),
              (report_bw_format, ts @ [A_str report_receiver])) x
         else if c_true (t_json_output t) then Some x
         else
           summary_item [] unknown remark
             (([], []),
              (if omitted_known
               then (report_bw_udp_format,
                     ts @ [A_dbl jitter, A_int lost, A_int packets, A_dbl lost_percent, A_str report_receiver])
               else (report_bw_udp_format_no_omitted_error,
                     ts @ [A_dbl jitter, A_int packets, A_str report_receiver]))) x)"

section \<open>The passes\<close>

record summary_state =
  sm_report :: report
  sm_items :: "cJSON list"
  sm_end :: members

definition summary_stream ::
  "(int \<Rightarrow> int option) \<Rightarrow> end_times \<Rightarrow> iperf_stream \<Rightarrow> summary_state \<times> summary_sum \<Rightarrow>
   (summary_state \<times> summary_sum) option" where
  "summary_stream file_size tms sp x =
     (let (st, s) = x; t = r_test (sm_report st) in
      do {
        y1 \<leftarrow> sender_summary tms sp (sm_report st, []);
        y2 \<leftarrow> diskfile_summary file_size sp y1;
        (r, ms) \<leftarrow> receiver_summary tms sp y2;
        Some (st\<lparr>sm_report := r,
                 sm_items := (if c_true (t_json_output t) then sm_items st @ [J_Object ms] else sm_items st)\<rparr>,
              add_summary t sp s)
      })"

fun summary_streams ::
  "(int \<Rightarrow> int option) \<Rightarrow> end_times \<Rightarrow> int \<Rightarrow> iperf_stream list \<Rightarrow> summary_state \<times> summary_sum \<Rightarrow>
   (summary_state \<times> summary_sum) option" where
  "summary_streams file_size tms sender [] x = Some x"
| "summary_streams file_size tms sender (sp # sps) x =
     do {
       y \<leftarrow> (if sp_sender sp = sender then summary_stream file_size tms sp x else Some x);
       summary_streams file_size tms sender sps y
     }"

definition summary_tcp ::
  "end_times \<Rightarrow> int \<Rightarrow> summary_sum \<Rightarrow> report \<times> members \<Rightarrow> (report \<times> members) option" where
  "summary_tcp tms sender s x =
     (let (sender_time, receiver_time, _) = tms; t = r_test (fst x);
          suffix = (if reverse_channel t sender then ''_bidir_reverse'' else []);
          sent_rate = bandwidth_of (su_sent s) sender_time;
          received_rate = bandwidth_of (su_received s) receiver_time;
          mb = A_str (role_text t (c_true sender));
          js = [A_dbl 0, A_dbl sender_time, A_dbl sender_time, size_arg (su_sent s), A_dbl (dmul sent_rate 8)];
          ts = [mb, A_dbl 0, A_dbl sender_time, A_str (size_text (su_sent s)), A_str (rate_text t sent_rate)]
      in do {
           y \<leftarrow> summary_item (''sum_sent'' @ suffix) (sender_unknown t sender)
                 (report_sender_not_available_summary_format, [A_str ''SUM''])
                 (if c_true (t_sender_has_retransmits t)
                  then ((''start: %f  end: %f  seconds: %f  bytes: %d  bits_per_second: %f  retransmits: %d sender: %b'',
                         js @ [A_int (su_retransmits s), A_int sender]),
                        (report_sum_bw_retrans_format, ts @ [A_int (su_retransmits s), A_str report_sender]))
                  else ((''start: %f  end: %f  seconds: %f  bytes: %d  bits_per_second: %f sender: %b'',
                         js @ [A_int sender]),
                        (report_sum_bw_format, ts @ [A_str report_sender]))) x;
           summary_item (''sum_received'' @ suffix) (receiver_unknown t sender)
             (report_receiver_not_available_summary_format, [A_str ''SUM''])
             ((''start: %f  end: %f  seconds: %f  bytes: %d  bits_per_second: %f sender: %b'',
               [A_dbl 0, A_dbl receiver_time, A_dbl receiver_time, size_arg (su_received s),
                A_dbl (dmul received_rate 8), A_int sender]),
              (report_sum_bw_format,
               [mb, A_dbl 0, A_dbl receiver_time, A_str (size_text (su_received s)),
                A_str (rate_text t received_rate), A_str report_receiver])) y
         })"

text \<open>In the JSON sums the code divides by the times unguarded, and by the number of streams in both forms.\<close>

definition sum_udp_format :: string where
  "sum_udp_format = ''start: %f  end: %f  seconds: %f  bytes: %d  bits_per_second: %f  jitter_ms: %f  lost_packets: %d  packets: %d  lost_percent: %f  sender: %b''"

definition summary_udp ::
  "end_times \<Rightarrow> int \<Rightarrow> summary_sum \<Rightarrow> report \<times> members \<Rightarrow> (report \<times> members) option" where
  "summary_udp tms sender s x =
     (let (sender_time, receiver_time, end_time) = tms; (r, ms) = x; t = r_test r;
          suffix = (if reverse_channel t sender then ''_bidir_reverse'' else []);
          sent_rate = bandwidth_of (su_sent s) sender_time;
          jitter = dmul (ddiv (su_jitter s) (dbl_of_int (t_num_streams t))) 1000;
          lost = su_lost s; lost_percent = percent_lost lost (su_packets s); mb = A_str (role_text t (c_true sender))
      in if t_num_streams t = 0 then None
         else if c_true (t_json_output t) then
           (if sender_time = 0 \<or> receiver_time = 0 then None
            else
              do {
                j \<leftarrow> iperf_json_printf sum_udp_format
                      [A_dbl 0, A_dbl receiver_time, A_dbl receiver_time, size_arg (su_sent s), A_dbl (dmul sent_rate 8),
                       A_dbl jitter, A_int lost, A_int (su_packets s), A_dbl lost_percent, A_int sender];
                j1 \<leftarrow> iperf_json_printf sum_udp_format
                      [A_dbl 0, A_dbl sender_time, A_dbl sender_time, size_arg (su_sent s),
                       A_dbl (ddiv (dmul (dbl_of_u64 (su_sent s)) 8) sender_time), A_dbl 0, A_int 0,
                       A_int (su_sender_packets s), A_dbl 0, A_int 1];
                j2 \<leftarrow> iperf_json_printf sum_udp_format
                      [A_dbl 0, A_dbl receiver_time, A_dbl receiver_time, size_arg (su_received s),
                       A_dbl (ddiv (dmul (dbl_of_u64 (su_received s)) 8) receiver_time), A_dbl jitter, A_int lost,
                       A_int (su_receiver_packets s), A_dbl lost_percent, A_int 0];
                Some (r, ms @ [(''sum'' @ suffix, j), (''sum_sent'' @ suffix, j1), (''sum_received'' @ suffix, j2)])
              })
         else
           do {
             r1 \<leftarrow> printf_if (\<not> sender_unknown t sender) report_sum_bw_udp_format
                    [mb, A_dbl 0, A_dbl sender_time, A_str (size_text (su_sent s)), A_str (rate_text t sent_rate),
                     A_dbl 0, A_int 0, A_int (su_sender_packets s), A_dbl 0, A_str report_sender] r;
             r2 \<leftarrow> (if receiver_unknown t sender then Some r1
                   else if end_time > 0 \<and> receiver_time = 0 then None
                   else iperf_printf report_sum_bw_udp_format
                     [mb, A_dbl 0, A_dbl receiver_time, A_str (size_text (su_received s)),
                      A_str (rate_text t (if end_time > 0 then ddiv (dbl_of_u64 (su_received s)) receiver_time else 0)),
                      A_dbl jitter, A_int lost, A_int (su_receiver_packets s), A_dbl lost_percent,
                      A_str report_receiver] r1);
             Some (r2, ms)
           })"

definition summary_sums ::
  "end_times \<Rightarrow> int \<Rightarrow> summary_sum \<Rightarrow> report \<times> members \<Rightarrow> (report \<times> members) option" where
  "summary_sums tms sender s x =
     (let t = r_test (fst x)
      in if \<not> (t_num_streams t > 1 \<or> c_true (t_json_output t)) then Some x
         else if tcp_like t then summary_tcp tms sender s x else summary_udp tms sender s x)"

section \<open>The end of the report\<close>

text \<open>The congestion algorithms of the sender and of the receiver.\<close>

definition congestions :: "iperf_test \<Rightarrow> int \<Rightarrow> string option \<times> string option" where
  "congestions t sender =
     (if c_true sender then (t_congestion_used t, t_remote_congestion_used t)
      else (t_remote_congestion_used t, t_congestion_used t))"

definition cpu_args :: "dbl \<times> dbl \<times> dbl \<Rightarrow> arg list" where
  "cpu_args u = (let (total_cpu, user, system) = u in [A_dbl total_cpu, A_dbl user, A_dbl system])"

definition json_ending :: "iperf_test \<Rightarrow> int \<Rightarrow> members option" where
  "json_ending t sender =
     (let (snd_congestion, rcv_congestion) = congestions t sender;
          str = (\<lambda>name so. case so of None \<Rightarrow> [] | Some s \<Rightarrow> [(name, J_String s)])
      in do {
           j \<leftarrow> iperf_json_printf
                 ''host_total: %f  host_user: %f  host_system: %f  remote_total: %f  remote_user: %f  remote_system: %f''
                 (cpu_args (t_cpu_util t) @ cpu_args (t_remote_cpu_util t));
           Some ((''cpu_utilization_percent'', j) #
                 (if t_protocol t = Ptcp
                  then str ''sender_tcp_congestion'' snd_congestion @ str ''receiver_tcp_congestion'' rcv_congestion
                  else []))
         })"

definition cpu_line :: "bool \<Rightarrow> report \<Rightarrow> report option" where
  "cpu_line sender r =
     (let t = r_test r; name = (\<lambda>b. A_str (if b then report_sender else report_receiver))
      in iperf_printf report_cpu
           ([A_str report_local, name sender] @ cpu_args (t_cpu_util t) @
            [A_str report_remote, name (\<not> sender)] @ cpu_args (t_remote_cpu_util t)) r)"

definition text_ending :: "int \<Rightarrow> report \<Rightarrow> report option" where
  "text_ending sender r =
     (let t = r_test r; (snd_congestion, rcv_congestion) = congestions t sender;
          line = (\<lambda>format so r. case so of None \<Rightarrow> Some r | Some s \<Rightarrow> iperf_printf (format @ NL) [A_str s] r)
      in if \<not> c_true (t_verbose t) then Some r
         else
           do {
             r1 \<leftarrow> (if c_true sender then cpu_line True r else Some r);
             r2 \<leftarrow> (if c_true sender \<and> c_true (t_bidirectional t) then cpu_line False r1 else Some r1);
             if t_protocol t = Ptcp
             then do { r3 \<leftarrow> line ''snd_tcp_congestion %s'' snd_congestion r2;
                       line ''rcv_tcp_congestion %s'' rcv_congestion r3 }
             else Some r2
           })"

definition server_output :: "report \<Rightarrow> report option" where
  "server_output r =
     (let t = r_test r
      in if \<not> (t_role t = CHR ''c'' \<and> c_true (t_get_server_output t) \<and> \<not> c_true (t_json_output t)) then Some r
         else
           do {
             r1 \<leftarrow> (case t_json_server_output t of
                     None \<Rightarrow> Some r
                   | Some j \<Rightarrow>
                       do { str \<leftarrow> cJSON_Print j;
                            r1 \<leftarrow> iperf_printf (NL @ ''Server JSON output:'' @ NL @ ''%s'' @ NL) [A_str str] r;
                            Some (r1\<lparr>r_test := (r_test r1)\<lparr>t_json_server_output := None\<rparr>\<rparr>) });
             (case t_server_output_text (r_test r1) of
                None \<Rightarrow> Some r1
              | Some s \<Rightarrow>
                  do { r2 \<leftarrow> iperf_printf (NL @ ''Server output:'' @ NL @ ''%s'' @ NL) [A_str s] r1;
                       Some (r2\<lparr>r_test := (r_test r2)\<lparr>t_server_output_text := None\<rparr>\<rparr>) })
           })"

definition summary_ending :: "bool \<Rightarrow> int \<Rightarrow> summary_state \<Rightarrow> summary_state option" where
  "summary_ending is_last sender st =
     (let r = sm_report st; t = r_test r
      in if c_true (t_json_output t) \<and> is_last
         then do { ms \<leftarrow> json_ending t sender; Some (st\<lparr>sm_end := sm_end st @ ms\<rparr>) }
         else do { r1 \<leftarrow> text_ending sender r; r2 \<leftarrow> server_output r1; Some (st\<lparr>sm_report := r2\<rparr>) })"

section \<open>The summary\<close>

definition set_retransmits :: "int \<Rightarrow> report \<Rightarrow> report" where
  "set_retransmits v r = r\<lparr>r_test := (r_test r)\<lparr>t_sender_has_retransmits := v\<rparr>\<rparr>"

definition pass_retransmits :: "int \<Rightarrow> int \<Rightarrow> report \<Rightarrow> report" where
  "pass_retransmits tmp sender r =
     (if t_mode (r_test r) = BIDIRECTIONAL
      then set_retransmits (if c_true sender then tmp else t_other_side_has_retransmits (r_test r)) r
      else r)"

definition summary_pass ::
  "(int \<Rightarrow> int option) \<Rightarrow> int \<Rightarrow> bool \<Rightarrow> int \<Rightarrow> summary_state \<Rightarrow> summary_state option" where
  "summary_pass file_size tmp is_last sender st =
     (let (tms, r) = summary_times (pass_retransmits tmp sender (sm_report st))
      in do {
           (st1, s) \<leftarrow> summary_streams file_size tms sender (t_streams (r_test r)) (st\<lparr>sm_report := r\<rparr>, zero_summary);
           (r1, ms) \<leftarrow> summary_sums tms sender s (sm_report st1, sm_end st1);
           summary_ending is_last sender (st1\<lparr>sm_report := r1, sm_end := ms\<rparr>)
         })"

fun summary_passes ::
  "(int \<Rightarrow> int option) \<Rightarrow> int \<Rightarrow> int list \<Rightarrow> summary_state \<Rightarrow> summary_state option" where
  "summary_passes file_size tmp [] st = Some st"
| "summary_passes file_size tmp (m # ms) st =
     do { st1 \<leftarrow> summary_pass file_size tmp (ms = []) m st; summary_passes file_size tmp ms st1 }"

definition iperf_print_results :: "(int \<Rightarrow> int option) \<Rightarrow> report \<Rightarrow> report option" where
  "iperf_print_results file_size r =
     (let t = r_test r; tmp = t_sender_has_retransmits t in
      do {
        r1 \<leftarrow> summary_header r;
        st \<leftarrow> summary_passes file_size tmp (pass_modes t) \<lparr>sm_report = r1, sm_items = [], sm_end = []\<rparr>;
        let r2 = (if c_true (t_json_output t)
                  then add_end ((''streams'', J_Array (sm_items st)) # sm_end st) (sm_report st) else sm_report st);
        Some (if t_mode t = BIDIRECTIONAL then set_retransmits tmp r2 else r2)
      })"

abbreviation (input) STREAM_RUNNING :: int where "STREAM_RUNNING \<equiv> 6"

definition iperf_reporter_callback :: "(int \<Rightarrow> int option) \<Rightarrow> report \<Rightarrow> report option" where
  "iperf_reporter_callback file_size r =
     (let state = t_state (r_test r)
      in if state = TEST_RUNNING \<or> state = STREAM_RUNNING then iperf_print_intermediate r
         else if state = TEST_END \<or> state = DISPLAY_RESULTS
         then do { r1 \<leftarrow> iperf_print_intermediate r; iperf_print_results file_size r1 }
         else Some r)"

end
