(* ===== verification/Report_Output.thy ===== *)
theory Report_Output
  imports Report_Summary Json_Roundtrip Results
begin

text \<open>
  What the reports do to the output. A locale states what a property of the output has to satisfy at
  the places where text or JSON is produced; inside it the property is carried through every function
  of the reports. Its interpretations are the silence of a test that reports in JSON, and the transcript
  a server keeps of what it prints.
\<close>

section \<open>What the reports leave alone\<close>

text \<open>Every stream has an interval, so that no error message is written.\<close>

definition intervals_known :: "report \<Rightarrow> bool" where
  "intervals_known r \<longleftrightarrow> (\<forall>sp\<in>set (t_streams (r_test r)). last_interval (sp_result sp) \<noteq> None)"

definition mode_of :: "iperf_test \<Rightarrow> char \<times> iperf_mode \<times> int \<times> int \<times> int \<times> int" where
  "mode_of t = (t_role t, t_mode t, t_json_output t, t_json_stream t, t_verbose t, t_get_server_output t)"

definition same_mode :: "report \<Rightarrow> report \<Rightarrow> bool" where
  "same_mode r r' \<longleftrightarrow> mode_of (r_test r') = mode_of (r_test r) \<and> (intervals_known r \<longrightarrow> intervals_known r')"

lemma same_mode_refl [simp]: "same_mode r r"
  by (simp add: same_mode_def)

lemma same_mode_trans: "same_mode a b \<Longrightarrow> same_mode b c \<Longrightarrow> same_mode a c"
  by (simp add: same_mode_def)

lemma mode_fields:
  assumes "mode_of t' = mode_of t"
  shows "t_role t' = t_role t" "t_mode t' = t_mode t" "t_json_output t' = t_json_output t"
    "t_json_stream t' = t_json_stream t" "t_verbose t' = t_verbose t"
    "t_get_server_output t' = t_get_server_output t"
  using assms by (simp_all add: mode_of_def)

lemma same_mode_json: "same_mode r r' \<Longrightarrow> t_json_output (r_test r') = t_json_output (r_test r)"
  by (simp add: same_mode_def mode_of_def)

lemma output_same_mode:
  "same_mode r (put s r)" "same_mode r (upd_json f r)" "same_mode r (print_text s r)"
  by (simp_all add: same_mode_def mode_of_def intervals_known_def put_def upd_json_def print_text_def Let_def)

lemma retransmits_same_mode: "same_mode r (set_retransmits v r)"
  by (simp add: same_mode_def mode_of_def intervals_known_def set_retransmits_def)

lemma set_times_intervals: "last_interval (sp_result (set_times sp)) = last_interval (sp_result sp)"
  by (simp add: set_times_def last_interval_def Let_def)

section \<open>Properties of the output\<close>

text \<open>\<open>P r r'\<close>: going from \<open>r\<close> to \<open>r'\<close> is all right with the output.\<close>

locale output_contract =
  fixes P :: "report \<Rightarrow> report \<Rightarrow> bool"
  assumes refl: "P r r"
    and trans: "P a b \<Longrightarrow> P b c \<Longrightarrow> P a c"
    and prints: "\<not> c_true (t_json_output (r_test r)) \<Longrightarrow> P r (print_text s r)"
    and json: "P r (upd_json f r)"
    and event: "c_true (t_json_stream (r_test r)) \<Longrightarrow> P r (put s r)"
    and test: "same_mode r (r\<lparr>r_test := t\<rparr>) \<Longrightarrow> t_server_output_list t = t_server_output_list (r_test r) \<Longrightarrow>
      P r (r\<lparr>r_test := t\<rparr>)"
begin

definition ok :: "report \<Rightarrow> report \<Rightarrow> bool" where
  "ok r r' \<longleftrightarrow> P r r' \<and> same_mode r r'"

lemma ok_refl [simp, intro]: "ok r r"
  by (simp add: ok_def refl)

lemma ok_trans: "ok a b \<Longrightarrow> ok b c \<Longrightarrow> ok a c"
  unfolding ok_def by (blast intro: trans same_mode_trans)

lemma ok_json: "ok r r' \<Longrightarrow> t_json_output (r_test r') = t_json_output (r_test r)"
  by (simp add: ok_def same_mode_json)

lemma ok_upd_json: "ok r (upd_json f r)"
  by (simp add: ok_def json output_same_mode)

lemma ok_printf: "iperf_printf format args r = Some r' \<Longrightarrow> \<not> c_true (t_json_output (r_test r)) \<Longrightarrow> ok r r'"
  by (auto simp: iperf_printf_def ok_def prints output_same_mode split: option.splits)

lemma ok_printf_if:
  "printf_if b format args r = Some r' \<Longrightarrow> (b \<Longrightarrow> \<not> c_true (t_json_output (r_test r))) \<Longrightarrow> ok r r'"
  by (auto simp: printf_if_def ok_printf split: if_splits)

lemma ok_retransmits: "ok r (set_retransmits v r)"
  using test[of r "(r_test r)\<lparr>t_sender_has_retransmits := v\<rparr>"] retransmits_same_mode[of r v]
  by (simp add: ok_def set_retransmits_def)

lemma ok_event:
  assumes "c_true (t_json_stream (r_test r))"
  shows "ok r (JSONStream_Output name obj r)"
proof -
  have "ok r (put s r)" for s using assms by (simp add: ok_def event output_same_mode)
  then show ?thesis by (auto simp: JSONStream_Output_def split: option.splits)
qed

subsection \<open>Interval reports\<close>

lemma ok_item: "report_item e x = Some y \<Longrightarrow> ok (fst x) (fst y)"
  by (cases x) (auto simp: report_item_def Let_def split: prod.splits if_splits option.splits intro: ok_printf)

lemma ok_interval_results:
  assumes "print_interval_results is_first sp x = Some y" "last_interval (sp_result sp) \<noteq> None"
  shows "ok (fst x) (fst y)"
proof -
  obtain r items irp where x: "x = (r, items)" and i: "last_interval (sp_result sp) = Some irp"
    using assms(2) by (cases x) auto
  obtain r1 where h: "(case interval_header (r_test r) sp irp of None \<Rightarrow> Some r
       | Some h \<Rightarrow> printf_if (\<not> c_true (t_json_output (r_test r)) \<and> is_first) ''%s'' [A_str h] r) = Some r1"
    and e: "report_item (interval_entry (r_test r) sp irp) (r1, items) = Some y"
    using assms(1) unfolding print_interval_results_def x i Let_def prod.case option.case by (blast elim: bindE)
  have "ok r r1" using h by (auto split: option.splits intro: ok_printf_if)
  moreover have "ok r1 (fst y)" using ok_item[OF e] by simp
  ultimately show ?thesis unfolding x by (auto intro: ok_trans)
qed

lemma ok_interval_stream:
  assumes "interval_stream is_first m sp x = Some y" "last_interval (sp_result sp) \<noteq> None"
  shows "ok (iv_report (fst x)) (iv_report (fst y))" "iv_stop (fst y) = iv_stop (fst x)"
proof -
  obtain st s where x: "x = (st, s)" by (cases x)
  obtain irp where i: "last_interval (sp_result sp) = Some irp" using assms(2) by blast
  have "ok (iv_report (fst x)) (iv_report (fst y)) \<and> iv_stop (fst y) = iv_stop (fst x)"
  proof (cases "iv_stop st \<or> sp_sender sp \<noteq> m")
    case True
    then show ?thesis using assms(1) unfolding interval_stream_def x by auto
  next
    case False
    then obtain r items where p: "print_interval_results is_first sp (iv_report st, iv_items st) = Some (r, items)"
      and y: "y = (st\<lparr>iv_report := r, iv_items := items\<rparr>, add_interval (r_test r) irp s)"
      using assms(1) unfolding interval_stream_def x i by (auto elim!: bindE)
    show ?thesis using ok_interval_results[OF p assms(2)] unfolding x y by simp
  qed
  then show "ok (iv_report (fst x)) (iv_report (fst y))" "iv_stop (fst y) = iv_stop (fst x)" by blast+
qed

lemma ok_interval_streams:
  assumes "interval_streams is_first m sps x = Some y" "\<forall>sp\<in>set sps. last_interval (sp_result sp) \<noteq> None"
  shows "ok (iv_report (fst x)) (iv_report (fst y)) \<and> iv_stop (fst y) = iv_stop (fst x)"
  using assms
proof (induction sps arbitrary: is_first x)
  case (Cons sp sps)
  then obtain z where z: "interval_stream is_first m sp x = Some z" "interval_streams False m sps z = Some y"
    by (auto elim!: bindE)
  show ?case using ok_interval_stream[OF z(1)] Cons.IH[OF z(2)] Cons.prems(2) ok_trans by auto
qed simp

lemma ok_interval_total:
  assumes "interval_total m x = Some y"
  shows "ok (iv_report (fst x)) (iv_report y)" "iv_stop y = iv_stop (fst x)"
proof -
  have "ok (iv_report (fst x)) (iv_report y) \<and> iv_stop y = iv_stop (fst x)"
    using assms by (cases x) (auto simp: interval_total_def Let_def split: if_splits list.splits elim!: bindE
        dest!: ok_item)
  then show "ok (iv_report (fst x)) (iv_report y)" "iv_stop y = iv_stop (fst x)" by blast+
qed

lemma ok_interval_passes:
  assumes "interval_passes ms st = Some st'" "intervals_known (iv_report st)"
  shows "ok (iv_report st) (iv_report st') \<and> iv_stop st' = iv_stop st"
  using assms
proof (induction ms arbitrary: st)
  case (Cons m ms)
  show ?case
  proof (cases "iv_stop st")
    case True
    then show ?thesis using Cons.prems by simp
  next
    case False
    then obtain y st1 where
      y: "interval_streams True m (t_streams (r_test (iv_report st))) (st, no_sum) = Some y" and
      t: "interval_total m y = Some st1" and p: "interval_passes ms st1 = Some st'"
      using Cons.prems(1) by (auto simp: interval_pass_def elim!: bindE)
    have 1: "ok (iv_report st) (iv_report (fst y))" "iv_stop (fst y) = iv_stop st"
      using ok_interval_streams[OF y] Cons.prems(2) by (simp_all add: intervals_known_def)
    have 2: "ok (iv_report st) (iv_report st1)" using ok_trans[OF 1(1) ok_interval_total(1)[OF t]] .
    then have "intervals_known (iv_report st1)" using Cons.prems(2) by (simp add: ok_def same_mode_def)
    from Cons.IH[OF p this] show ?thesis using ok_trans[OF 2] 1(2) ok_interval_total(2)[OF t] by simp
  qed
qed simp

lemma ok_intermediate:
  assumes "iperf_print_intermediate r = Some r'" "intervals_known r"
  shows "ok r r'"
proof (cases "keeps_interval (r_test r)")
  case False
  then show ?thesis using assms(1) by (simp add: iperf_print_intermediate_def Let_def)
next
  case True
  let ?t = "r_test r"
  obtain st where st: "interval_passes (pass_modes ?t) \<lparr>iv_report = r, iv_items = [], iv_sums = [], iv_stop = False\<rparr>
       = Some st"
    and r': "r' = (let r1 = (if c_true (t_json_output ?t) \<and> \<not> discard_json ?t
                    then upd_json (\<lambda>j. j\<lparr>j_intervals := j_intervals j @ [interval_object st]\<rparr>) (iv_report st)
                    else iv_report st)
          in if \<not> iv_stop st \<and> c_true (t_json_stream ?t)
             then JSONStream_Output ''interval'' (if c_true (t_json_output ?t) then Some (interval_object st) else None) r1
             else r1)"
    using assms(1) True unfolding iperf_print_intermediate_def Let_def by (auto elim!: bindE)
  define r1 where "r1 = (if c_true (t_json_output ?t) \<and> \<not> discard_json ?t
                    then upd_json (\<lambda>j. j\<lparr>j_intervals := j_intervals j @ [interval_object st]\<rparr>) (iv_report st)
                    else iv_report st)"
  have "ok r (iv_report st)" using ok_interval_passes[OF st] assms(2) by simp
  then have 1: "ok r r1" unfolding r1_def by (auto intro: ok_trans ok_upd_json)
  have "t_json_stream (r_test r1) = t_json_stream ?t" using 1 by (simp add: ok_def same_mode_def mode_of_def)
  then have "ok r1 r'" using ok_event[of r1] unfolding r' r1_def[symmetric] Let_def by simp
  with 1 show ?thesis by (rule ok_trans)
qed

subsection \<open>The summary\<close>

lemma ok_summary_header: "summary_header r = Some r' \<Longrightarrow> ok r r'"
proof (cases "c_true (t_json_output (r_test r))")
  case False
  assume h: "summary_header r = Some r'"
  then obtain r1 r2 f where p: "iperf_printf ''%s'' [A_str report_bw_separator] r = Some r1"
    "printf_if (c_true (t_verbose (r_test r))) ''%s'' [A_str report_summary] r1 = Some r2"
    "iperf_printf ''%s'' [A_str f] r2 = Some r'"
    using False unfolding summary_header_def Let_def by (simp add: bind_eq_Some_conv) blast
  have 1: "ok r r1" by (rule ok_printf[OF p(1) False])
  have 2: "ok r1 r2" using p(2) ok_json[OF 1] False by (auto intro: ok_printf_if)
  have "ok r2 r'" using ok_printf[OF p(3)] ok_json[OF 1] ok_json[OF 2] False by simp
  then show "ok r r'" using 1 2 ok_trans by blast
qed (simp add: summary_header_def Let_def)

lemma ok_summary_item: "summary_item name unknown remark e x = Some y \<Longrightarrow> ok (fst x) (fst y)"
  by (cases x) (auto simp: summary_item_def Let_def split: prod.splits if_splits option.splits elim!: bindE
      intro: ok_printf ok_printf_if)

lemma ok_sender_summary:
  assumes "sender_summary tms sp x = Some y"
  shows "ok (fst x) (fst y)"
proof (cases "tcp_like (r_test (fst x))")
  case True
  then show ?thesis using assms unfolding sender_summary_def Let_def by (auto split: prod.splits dest: ok_summary_item)
next
  case False
  obtain name unknown remark e b f args z r1 where z: "summary_item name unknown remark e x = Some z"
    and p: "printf_if (\<not> c_true (t_json_output (r_test (fst x))) \<and> b) f args (fst z) = Some r1" and y: "fst y = r1"
    using assms False unfolding sender_summary_def Let_def
    by (auto split: prod.splits elim!: bindE intro: that)
  have 1: "ok (fst x) (fst z)" by (rule ok_summary_item[OF z])
  have "ok (fst z) r1" using p ok_json[OF 1] by (auto intro: ok_printf_if)
  then show ?thesis using 1 y ok_trans by blast
qed

lemma ok_diskfile_summary: "diskfile_summary file_size sp x = Some y \<Longrightarrow> ok (fst x) (fst y)"
  unfolding diskfile_summary_def Let_def
  by (auto split: option.splits if_splits elim!: bindE dest: ok_summary_item)

lemma ok_receiver_summary: "receiver_summary tms sp x = Some y \<Longrightarrow> ok (fst x) (fst y)"
  unfolding receiver_summary_def Let_def by (auto split: prod.splits if_splits dest: ok_summary_item)

lemma ok_summary_stream:
  assumes "summary_stream file_size tms sp x = Some y"
  shows "ok (sm_report (fst x)) (sm_report (fst y))"
proof -
  obtain st s where x: "x = (st, s)" by (cases x)
  obtain y1 y2 r ms where
    y: "sender_summary tms sp (sm_report st, []) = Some y1" "diskfile_summary file_size sp y1 = Some y2"
      "receiver_summary tms sp y2 = Some (r, ms)" "sm_report (fst y) = r"
    using assms unfolding summary_stream_def Let_def x by (auto elim!: bindE)
  have "ok (sm_report st) r"
    using ok_sender_summary[OF y(1)] ok_diskfile_summary[OF y(2)] ok_receiver_summary[OF y(3)] ok_trans by simp
  with x y(4) show ?thesis by simp
qed

lemma ok_summary_streams:
  "summary_streams file_size tms m sps x = Some y \<Longrightarrow> ok (sm_report (fst x)) (sm_report (fst y))"
proof (induction sps arbitrary: x)
  case (Cons sp sps)
  from Cons.prems obtain z where "(if sp_sender sp = m then summary_stream file_size tms sp x else Some x) = Some z"
    and z: "summary_streams file_size tms m sps z = Some y" by (auto elim!: bindE)
  then have "ok (sm_report (fst x)) (sm_report (fst z))" by (auto split: if_splits dest: ok_summary_stream)
  then show ?case using Cons.IH[OF z] ok_trans by blast
qed simp

lemma ok_summary_tcp: "summary_tcp tms m s x = Some y \<Longrightarrow> ok (fst x) (fst y)"
  unfolding summary_tcp_def Let_def by (auto split: prod.splits elim!: bindE dest!: ok_summary_item intro: ok_trans)

lemma ok_summary_udp:
  assumes "summary_udp tms m s x = Some y"
  shows "ok (fst x) (fst y)"
proof (cases "c_true (t_json_output (r_test (fst x)))")
  case True
  then show ?thesis
    using assms unfolding summary_udp_def Let_def by (cases x) (auto split: prod.splits if_splits elim!: bindE)
next
  case False
  obtain b f args r1 where p: "printf_if b f args (fst x) = Some r1"
    and q: "fst y = r1 \<or> (\<exists>g args'. iperf_printf g args' r1 = Some (fst y))"
    using assms False unfolding summary_udp_def Let_def
    by (cases x) (auto split: prod.splits if_splits elim!: bindE intro: that)
  have 1: "ok (fst x) r1" using p False by (auto intro: ok_printf_if)
  moreover have "ok r1 (fst y)" using q ok_json[OF 1] False ok_printf by auto
  ultimately show ?thesis by (rule ok_trans)
qed

lemma ok_summary_sums: "summary_sums tms m s x = Some y \<Longrightarrow> ok (fst x) (fst y)"
  unfolding summary_sums_def Let_def by (auto split: if_splits dest: ok_summary_tcp ok_summary_udp)

lemma ok_test:
  assumes "mode_of t = mode_of (r_test r)" "t_streams t = t_streams (r_test r)"
    and "t_server_output_list t = t_server_output_list (r_test r)"
  shows "ok r (r\<lparr>r_test := t\<rparr>)"
proof -
  have "same_mode r (r\<lparr>r_test := t\<rparr>)" using assms by (simp add: same_mode_def intervals_known_def)
  then show ?thesis using test assms(3) by (simp add: ok_def)
qed

lemma ok_cpu_line: "cpu_line b r = Some r' \<Longrightarrow> \<not> c_true (t_json_output (r_test r)) \<Longrightarrow> ok r r'"
  unfolding cpu_line_def Let_def by (rule ok_printf)

text \<open>Steps that keep the output in order when the test reports as text.\<close>

definition step :: "(report \<Rightarrow> report option) \<Rightarrow> bool" where
  "step f \<longleftrightarrow> (\<forall>r r'. f r = Some r' \<longrightarrow> \<not> c_true (t_json_output (r_test r)) \<longrightarrow> ok r r')"

lemma step_bind: "step f \<Longrightarrow> step g \<Longrightarrow> step (\<lambda>r. f r \<bind> g)"
proof -
  assume f: "step f" and g: "step g"
  show "step (\<lambda>r. f r \<bind> g)"
    unfolding step_def
  proof (intro allI impI)
    fix r r'
    assume fg: "f r \<bind> g = Some r'" and j: "\<not> c_true (t_json_output (r_test r))"
    obtain r1 where r1: "f r = Some r1" "g r1 = Some r'" by (rule bindE[OF fg])
    have 1: "ok r r1" using f r1(1) j by (simp add: step_def)
    have "ok r1 r'" using g r1(2) j ok_json[OF 1] by (simp add: step_def)
    with 1 show "ok r r'" by (rule ok_trans)
  qed
qed

lemma step_if: "step f \<Longrightarrow> step g \<Longrightarrow> step (\<lambda>r. if b then f r else g r)"
  by (simp add: step_def)

lemma step_option: "step f \<Longrightarrow> (\<And>s. step (g s)) \<Longrightarrow> step (\<lambda>r. case so of None \<Rightarrow> f r | Some s \<Rightarrow> g s r)"
  by (cases so) simp_all

lemma step_basic: "step Some" "step (iperf_printf format args)" "step (cpu_line b)"
  by (auto simp: step_def intro: ok_printf ok_cpu_line)

lemma step_put_server:
  "step (\<lambda>r. Some (r\<lparr>r_test := (r_test r)\<lparr>t_json_server_output := None\<rparr>\<rparr>))"
  "step (\<lambda>r. Some (r\<lparr>r_test := (r_test r)\<lparr>t_server_output_text := None\<rparr>\<rparr>))"
  by (auto simp: step_def mode_of_def intro!: ok_test)

lemmas step_rules = step_bind step_if step_option step_basic step_put_server

lemma stepD: "step f \<Longrightarrow> f r = Some r' \<Longrightarrow> \<not> c_true (t_json_output (r_test r)) \<Longrightarrow> ok r r'"
  by (simp add: step_def)

lemma ok_text_ending:
  assumes "text_ending m r = Some r'" "c_true (t_json_output (r_test r)) \<longrightarrow> \<not> c_true (t_verbose (r_test r))"
  shows "ok r r'"
proof (cases "c_true (t_verbose (r_test r))")
  case True
  define t where "t = r_test r"
  obtain a b where c: "congestions t m = (a, b)" by fastforce
  define f where "f = (\<lambda>r. do {
      r1 \<leftarrow> (if c_true m then cpu_line True r else Some r);
      r2 \<leftarrow> (if c_true m \<and> c_true (t_bidirectional t) then cpu_line False r1 else Some r1);
      if t_protocol t = Ptcp
      then do { r3 \<leftarrow> (case a of None \<Rightarrow> Some r2 | Some s \<Rightarrow> iperf_printf (''snd_tcp_congestion %s'' @ NL) [A_str s] r2);
                (case b of None \<Rightarrow> Some r3 | Some s \<Rightarrow> iperf_printf (''rcv_tcp_congestion %s'' @ NL) [A_str s] r3) }
      else Some r2 })"
  have "step f" unfolding f_def by (intro step_rules)
  moreover have "f r = Some r'"
    using assms(1) True unfolding text_ending_def f_def Let_def t_def[symmetric] c prod.case by simp
  ultimately show ?thesis using assms(2) True stepD by blast
qed (use assms(1) in \<open>simp add: text_ending_def Let_def split: prod.splits\<close>)

lemma ok_server_output:
  assumes "server_output r = Some r'"
  shows "ok r r'"
proof (cases "t_role (r_test r) = CHR ''c'' \<and> c_true (t_get_server_output (r_test r)) \<and>
    \<not> c_true (t_json_output (r_test r))")
  case True
  define j where "j = t_json_server_output (r_test r)"
  define f where "f = (\<lambda>r. case j of None \<Rightarrow> Some r
      | Some j \<Rightarrow>
          (case cJSON_Print j of None \<Rightarrow> None | Some str \<Rightarrow>
             do { r1 \<leftarrow> iperf_printf (NL @ ''Server JSON output:'' @ NL @ ''%s'' @ NL) [A_str str] r;
                  Some (r1\<lparr>r_test := (r_test r1)\<lparr>t_json_server_output := None\<rparr>\<rparr>) }))"
  have sf: "step f"
    unfolding f_def by (intro step_option step_bind step_basic step_put_server) (simp add: step_def)
  obtain r1 where r1: "f r = Some r1" and
    g: "(case t_server_output_text (r_test r1) of None \<Rightarrow> Some r1
         | Some s \<Rightarrow> do { r2 \<leftarrow> iperf_printf (NL @ ''Server output:'' @ NL @ ''%s'' @ NL) [A_str s] r1;
                       Some (r2\<lparr>r_test := (r_test r2)\<lparr>t_server_output_text := None\<rparr>\<rparr>) }) = Some r'"
    using assms True unfolding server_output_def f_def j_def Let_def
    by (auto elim!: bindE split: option.splits)
  have 1: "ok r r1" using stepD[OF sf r1] True by blast
  have "step (\<lambda>r. case t_server_output_text (r_test r1) of None \<Rightarrow> Some r
         | Some s \<Rightarrow> do { r2 \<leftarrow> iperf_printf (NL @ ''Server output:'' @ NL @ ''%s'' @ NL) [A_str s] r;
                       Some (r2\<lparr>r_test := (r_test r2)\<lparr>t_server_output_text := None\<rparr>\<rparr>) })"
    by (intro step_rules)
  from stepD[OF this g] have "ok r1 r'" using ok_json[OF 1] True by simp
  with 1 show ?thesis by (rule ok_trans)
qed (use assms in \<open>auto simp: server_output_def Let_def\<close>)

lemma ok_mode: "ok r r' \<Longrightarrow> mode_of (r_test r') = mode_of (r_test r)"
  by (simp add: ok_def same_mode_def)

lemma ok_intervals: "ok r r' \<Longrightarrow> intervals_known r \<Longrightarrow> intervals_known r'"
  by (simp add: ok_def same_mode_def)

lemma ok_summary_times: "summary_times r = (tms, r') \<Longrightarrow> ok r r'"
proof -
  assume "summary_times r = (tms, r')"
  then consider "r' = r" | sp sps where "t_streams (r_test r) = sp # sps"
      "r' = r\<lparr>r_test := (r_test r)\<lparr>t_streams := set_times sp # sps\<rparr>\<rparr>"
    by (auto simp: summary_times_def Let_def split: list.splits)
  then show "ok r r'"
  proof cases
    case 2
    then have "same_mode r r'"
      by (auto simp: same_mode_def mode_of_def intervals_known_def set_times_intervals)
    then show ?thesis using test unfolding ok_def 2 by simp
  qed simp
qed

text \<open>In JSON the passes before the last one print their ending as text.\<close>

lemma ok_summary_ending:
  assumes "summary_ending is_last m st = Some st'"
    and "c_true (t_json_output (r_test (sm_report st))) \<longrightarrow> is_last \<or> \<not> c_true (t_verbose (r_test (sm_report st)))"
  shows "ok (sm_report st) (sm_report st')"
proof (cases "c_true (t_json_output (r_test (sm_report st))) \<and> is_last")
  case True
  then show ?thesis using assms(1) by (auto simp: summary_ending_def Let_def elim!: bindE)
next
  case False
  then obtain r1 r2 where r: "text_ending m (sm_report st) = Some r1" "server_output r1 = Some r2" "sm_report st' = r2"
    using assms(1) by (auto simp: summary_ending_def Let_def elim!: bindE)
  have "ok (sm_report st) r1" using ok_text_ending[OF r(1)] assms(2) False by blast
  then show ?thesis using ok_server_output[OF r(2)] r(3) ok_trans by blast
qed

lemma ok_summary_pass:
  assumes "summary_pass file_size tmp is_last m st = Some st'"
    and "c_true (t_json_output (r_test (sm_report st))) \<longrightarrow> is_last \<or> \<not> c_true (t_verbose (r_test (sm_report st)))"
  shows "ok (sm_report st) (sm_report st')"
proof -
  define r0 where "r0 = pass_retransmits tmp m (sm_report st)"
  obtain tms r where t: "summary_times r0 = (tms, r)" by fastforce
  obtain st1 s r1 ms where
    p: "summary_streams file_size tms m (t_streams (r_test r)) (st\<lparr>sm_report := r\<rparr>, zero_summary) = Some (st1, s)"
      "summary_sums tms m s (sm_report st1, sm_end st1) = Some (r1, ms)"
      "summary_ending is_last m (st1\<lparr>sm_report := r1, sm_end := ms\<rparr>) = Some st'"
    using assms(1) t unfolding summary_pass_def r0_def Let_def by (auto elim!: bindE)
  have 0: "ok (sm_report st) r0" by (auto simp: r0_def pass_retransmits_def ok_retransmits)
  have 1: "ok r0 r" by (rule ok_summary_times[OF t])
  have 2: "ok r (sm_report st1)" using ok_summary_streams[OF p(1)] by simp
  have 3: "ok (sm_report st1) r1" using ok_summary_sums[OF p(2)] by simp
  have 4: "ok (sm_report st) r1" using 0 1 2 3 ok_trans by blast
  have "ok r1 (sm_report st')"
    using ok_summary_ending[OF p(3)] assms(2) mode_fields[OF ok_mode[OF 4]] by simp
  with 4 show ?thesis by (rule ok_trans)
qed

lemma ok_summary_passes:
  assumes "summary_passes file_size tmp ms st = Some st'"
    and "c_true (t_json_output (r_test (sm_report st))) \<longrightarrow>
         length ms \<le> 1 \<or> \<not> c_true (t_verbose (r_test (sm_report st)))"
  shows "ok (sm_report st) (sm_report st')"
  using assms
proof (induction ms arbitrary: st)
  case (Cons m ms)
  then obtain st1 where p: "summary_pass file_size tmp (ms = []) m st = Some st1"
    "summary_passes file_size tmp ms st1 = Some st'" by (auto elim!: bindE)
  have 1: "ok (sm_report st) (sm_report st1)" using ok_summary_pass[OF p(1)] Cons.prems(2) by auto
  have "ok (sm_report st1) (sm_report st')"
    using Cons.IH[OF p(2)] Cons.prems(2) mode_fields[OF ok_mode[OF 1]] by auto
  with 1 show ?case by (rule ok_trans)
qed simp

lemma ok_results:
  assumes "iperf_print_results file_size r = Some r'"
    and "c_true (t_json_output (r_test r)) \<longrightarrow> t_mode (r_test r) \<noteq> BIDIRECTIONAL \<or> \<not> c_true (t_verbose (r_test r))"
  shows "ok r r'"
proof -
  define t where "t = r_test r"
  obtain r1 st where p: "summary_header r = Some r1"
    "summary_passes file_size (t_sender_has_retransmits t) (pass_modes t) \<lparr>sm_report = r1, sm_items = [], sm_end = []\<rparr> = Some st"
    and r': "r' = (let r2 = (if c_true (t_json_output t)
                  then add_end ((''streams'', J_Array (sm_items st)) # sm_end st) (sm_report st) else sm_report st)
             in if t_mode t = BIDIRECTIONAL then set_retransmits (t_sender_has_retransmits t) r2 else r2)"
    using assms(1) unfolding iperf_print_results_def t_def Let_def by (auto elim!: bindE)
  have 1: "ok r r1" by (rule ok_summary_header[OF p(1)])
  have "t_mode t \<noteq> BIDIRECTIONAL \<Longrightarrow> length (pass_modes t) \<le> 1"
    by (cases "t_mode t") (simp_all add: pass_modes_def)
  then have 2: "ok r1 (sm_report st)"
    using ok_summary_passes[OF p(2)] assms(2) mode_fields[OF ok_mode[OF 1]] by (simp add: t_def) blast
  have 3: "ok (sm_report st) (add_end ms (sm_report st))" for ms by (simp add: add_end_def ok_upd_json)
  have "ok (sm_report st) r'"
    unfolding r' Let_def using 3 ok_retransmits ok_trans by (simp split: if_split) blast
  with 1 2 show ?thesis using ok_trans by blast
qed

theorem ok_reporter:
  assumes "iperf_reporter_callback file_size r = Some r'" "intervals_known r"
    and "c_true (t_json_output (r_test r)) \<longrightarrow> t_mode (r_test r) \<noteq> BIDIRECTIONAL \<or> \<not> c_true (t_verbose (r_test r))"
  shows "ok r r'"
proof -
  define running ending where "running = (t_state (r_test r) = TEST_RUNNING \<or> t_state (r_test r) = STREAM_RUNNING)"
    and "ending = (t_state (r_test r) = TEST_END \<or> t_state (r_test r) = DISPLAY_RESULTS)"
  note c = assms(1)[unfolded iperf_reporter_callback_def Let_def, folded running_def ending_def]
  show ?thesis
  proof (cases running)
    case True
    show ?thesis by (rule ok_intermediate[OF c[unfolded if_P[OF True]] assms(2)])
  next
    case False
    note c1 = c[unfolded if_not_P[OF False]]
    show ?thesis
    proof (cases ending)
      case True
      obtain r1 where r1: "iperf_print_intermediate r = Some r1" "iperf_print_results file_size r1 = Some r'"
        by (rule bindE[OF c1[unfolded if_P[OF True]]])
      have 1: "ok r r1" by (rule ok_intermediate[OF r1(1) assms(2)])
      have "ok r1 r'" using ok_results[OF r1(2)] assms(3) mode_fields[OF ok_mode[OF 1]] by simp
      with 1 show ?thesis by (rule ok_trans)
    next
      case False
      then show ?thesis using c1 by simp
    qed
  qed
qed

end

end
