(* ===== verification/Report_Props.thy ===== *)
theory Report_Props
  imports Report_Output
begin

text \<open>
  The two interpretations of the output contract, and what they say of the reports: a test that reports
  in JSON writes one document that can be read back, and what a server prints is what its client gets.
\<close>

section \<open>Silence in JSON mode\<close>

definition silent :: "report \<Rightarrow> report \<Rightarrow> bool" where
  "silent r r' \<longleftrightarrow>
     t_json_output (r_test r') = t_json_output (r_test r) \<and> t_json_stream (r_test r') = t_json_stream (r_test r) \<and>
     (r_json r \<noteq> None \<longrightarrow> r_json r' \<noteq> None) \<and>
     (c_true (t_json_output (r_test r)) \<and> \<not> c_true (t_json_stream (r_test r)) \<longrightarrow> r_out r' = r_out r)"

interpretation quiet: output_contract silent
proof
  show "silent r (print_text s r)" if "\<not> c_true (t_json_output (r_test r))" for r s
    using that by (simp add: silent_def print_text_def put_def Let_def)
  show "silent r (r\<lparr>r_test := t\<rparr>)" if "same_mode r (r\<lparr>r_test := t\<rparr>)" for r t
    using that by (simp add: silent_def same_mode_def mode_of_def)
qed (auto simp: silent_def upd_json_def put_def)

lemma finish_members_fields:
  "r_out (finish_members r) = r_out r" "t_json_stream (r_test (finish_members r)) = t_json_stream (r_test r)"
  "r_json r \<noteq> None \<Longrightarrow> r_json (finish_members r) \<noteq> None"
  by (simp_all add: finish_members_def Let_def add_rest_def upd_json_def split: option.splits)

section \<open>One document\<close>

text \<open>What becomes of the report \<open>r\<close> of a test, from \<open>iperf_json_start\<close> on: the connection, its streams and
the start of the test are reported, the reporter runs, errors are noted, in any order, and in between
the test goes on, its output options unchanged. At each report every stream has an interval.\<close>

inductive reporting :: "(int \<Rightarrow> int option) \<Rightarrow> report \<Rightarrow> report \<Rightarrow> bool" for file_size r where
  begins: "reporting file_size r (iperf_json_start r)"
| connects: "reporting file_size r r1 \<Longrightarrow> iperf_on_connect ci r1 = Some r2 \<Longrightarrow> reporting file_size r r2"
| opens: "reporting file_size r r1 \<Longrightarrow> connect_msg local remote sp r1 = Some r2 \<Longrightarrow> reporting file_size r r2"
| starts: "reporting file_size r r1 \<Longrightarrow> iperf_on_test_start r1 = Some r2 \<Longrightarrow> reporting file_size r r2"
| reports: "reporting file_size r r1 \<Longrightarrow> intervals_known r1 \<Longrightarrow> iperf_reporter_callback file_size r1 = Some r2 \<Longrightarrow>
    reporting file_size r r2"
| fails: "reporting file_size r r1 \<Longrightarrow> reporting file_size r (iperf_err str r1)"
| goes_on: "reporting file_size r r1 \<Longrightarrow> t_json_output t = t_json_output (r_test r1) \<Longrightarrow>
    t_json_stream t = t_json_stream (r_test r1) \<Longrightarrow> t_verbose t = t_verbose (r_test r1) \<Longrightarrow>
    reporting file_size r (r1\<lparr>r_test := t, r_stamp := stamp\<rparr>)"

text \<open>In JSON mode, without the stream of events and not verbose, none of these steps writes.\<close>

definition writes_nothing :: "report \<Rightarrow> report \<Rightarrow> bool" where
  "writes_nothing r r' \<longleftrightarrow> r_out r' = r_out r \<and> (r_json r \<noteq> None \<longrightarrow> r_json r' \<noteq> None) \<and>
     t_json_output (r_test r') = t_json_output (r_test r) \<and>
     t_json_stream (r_test r') = t_json_stream (r_test r) \<and> t_verbose (r_test r') = t_verbose (r_test r)"

lemma writes_nothing_simps [simp]:
  "writes_nothing r r" "writes_nothing r (add_start name item r)" "writes_nothing r (add_rest name item r)"
  "writes_nothing r (upd_json f r)"
  by (simp_all add: writes_nothing_def add_start_def add_rest_def upd_json_def)

lemma writes_nothing_trans: "writes_nothing a b \<Longrightarrow> writes_nothing b c \<Longrightarrow> writes_nothing a c"
  by (simp add: writes_nothing_def)

lemma start_item_quiet: "start_item name format args r = Some r' \<Longrightarrow> writes_nothing r r'"
  by (auto simp: start_item_def split: option.splits)

lemma peer_quiet:
  assumes "report_peer ci r = Some r'" "c_true (t_json_output (r_test r))"
  shows "writes_nothing r r'"
proof -
  define r1 where "r1 = (if c_true (fst (mapped_v4_to_regular_v4 (ci_peer ci)))
    then r\<lparr>r_test := (r_test r)\<lparr>t_mapped_v4 := 1\<rparr>\<rparr> else r)"
  have "writes_nothing r r1" by (simp add: r1_def writes_nothing_def)
  moreover have "(\<exists>name format args. start_item name format args r = Some r') \<or>
      (\<exists>name format args. start_item name format args r1 = Some r')"
    using assms unfolding report_peer_def Let_def r1_def by (auto split: if_splits prod.splits)
  ultimately show ?thesis using start_item_quiet writes_nothing_trans by blast
qed

lemma options_quiet:
  assumes "report_options r = Some r'" "c_true (t_json_output (r_test r))"
  shows "writes_nothing r r'"
  using assms by (auto simp: report_options_def Let_def writes_nothing_def add_start_def upd_json_def split: if_splits)

lemma connect_quiet:
  assumes "iperf_on_connect ci r = Some r'" "c_true (t_json_output (r_test r))"
  shows "writes_nothing r r'"
proof -
  obtain r1 r2 where "start_item ''timestamp'' ''time: %s  timesecs: %d'' [A_str (ci_now_str ci), A_int (ci_now_secs ci)] r
      = Some r1" and r2: "report_peer ci r1 = Some r2" and r': "report_options r2 = Some r'"
    using assms unfolding iperf_on_connect_def Let_def by (auto elim!: bindE)
  then have 1: "writes_nothing r r1" by (intro start_item_quiet)
  then have 2: "writes_nothing r r2"
    using peer_quiet[OF r2] assms(2) writes_nothing_trans by (simp add: writes_nothing_def)
  then show ?thesis
    using options_quiet[OF r'] assms(2) writes_nothing_trans by (simp add: writes_nothing_def)
qed

lemma start_quiet:
  assumes "iperf_on_test_start r = Some r'" "c_true (t_json_output (r_test r))" "\<not> c_true (t_json_stream (r_test r))"
  shows "writes_nothing r r'"
  using assms unfolding iperf_on_test_start_def Let_def by (auto elim!: bindE dest: start_item_quiet)

lemma reporting_quiet:
  assumes "reporting file_size r r'" "c_true (t_json_output (r_test r))" "\<not> c_true (t_json_stream (r_test r))"
    and "\<not> c_true (t_verbose (r_test r))"
  shows "writes_nothing r r' \<and> r_json r' \<noteq> None"
  using assms
proof induction
  case begins
  then show ?case by (simp add: writes_nothing_def iperf_json_start_def)
next
  case (connects r1 ci r2)
  then have "writes_nothing r1 r2" by (intro connect_quiet) (simp_all add: writes_nothing_def)
  with connects show ?case by (auto simp: writes_nothing_def)
next
  case (opens r1 local remote sp r2)
  then have "writes_nothing r1 r2"
    by (auto simp: writes_nothing_def connect_msg_def upd_json_def Let_def split: option.splits)
  with opens show ?case by (auto simp: writes_nothing_def)
next
  case (starts r1 r2)
  then have "writes_nothing r1 r2" by (intro start_quiet) (simp_all add: writes_nothing_def)
  with starts show ?case by (auto simp: writes_nothing_def)
next
  case (reports r1 r2)
  then have "quiet.ok r1 r2" by (intro quiet.ok_reporter[OF reports(3,2)]) (simp add: writes_nothing_def)
  then have "writes_nothing r1 r2"
    using reports by (simp add: quiet.ok_def silent_def writes_nothing_def same_mode_def mode_of_def)
  with reports show ?case by (auto simp: writes_nothing_def)
next
  case (fails r1 str)
  then show ?case by (auto simp: writes_nothing_def iperf_err_def add_rest_def upd_json_def)
next
  case (goes_on r1 t stamp)
  then show ?case by (simp add: writes_nothing_def)
qed

text \<open>C7: A test that reports in JSON, not as a stream of events, and is not verbose writes one document
  to its output: whatever is reported from \<open>iperf_json_start\<close> on, by the callbacks for the connection,
  the streams and the start of the test, by the reporter (every stream having an interval), and by
  \<open>iperf_err\<close>, the output stays alone, and \<open>iperf_json_finish\<close> writes one text, which \<open>cJSON_Parse\<close> reads as
  the whole report, numbers as they read again, if no string of it holds a NUL, its numbers are normal
  doubles and it is nested at most 1000 deep. (A verbose test does write text between the JSON, in the
  summary of two directions and, on standard output, as a client that connects.)\<close>

theorem json_output_is_one_document:
  assumes "reporting file_size r r1"
    and "c_true (t_json_output (r_test r))" "\<not> c_true (t_json_stream (r_test r))" "\<not> c_true (t_verbose (r_test r))"
    and "printable CJSON_NESTING_LIMIT (top_object (the (r_json (finish_members r1))))"
  shows "\<exists>s r2. iperf_json_finish r1 = (0, r2) \<and> r_out r1 = r_out r \<and> r_out r2 = r_out r @ s @ NL \<and>
    r_json r2 = None \<and>
    cJSON_Parse s = Some (reread_tree (top_object (the (r_json (finish_members r1)))))"
proof -
  have o: "r_out r1 = r_out r" "r_json r1 \<noteq> None" "\<not> c_true (t_json_stream (r_test r1))"
    using reporting_quiet[OF assms(1-4)] assms(3) by (simp_all add: writes_nothing_def)
  let ?j = "top_object (the (r_json (finish_members r1)))"
  obtain s where s: "print_value True 0 ?j = Some s" "cJSON_Parse s = Some (reread_tree ?j)"
    by (rule printed_parses[OF assms(5), of True])
  let ?r2 = "json_cleared (put (s @ NL) (finish_members r1))"
  have "iperf_json_finish r1 = (0, ?r2)"
    using o(2,3) s(1) by (auto simp: iperf_json_finish_def Let_def cJSON_Print_def)
  moreover have "r_out ?r2 = r_out r @ s @ NL" "r_json ?r2 = None"
    by (simp_all add: json_cleared_def put_def finish_members_fields o)
  ultimately show ?thesis using s(2) o(1) by blast
qed

text \<open>The end of a test that received nothing on no stream.\<close>

definition demo_test :: report where
  "demo_test =
     \<lparr>r_test = zero_test\<lparr>t_role := CHR ''c'', t_state := TEST_END, t_protocol := Ptcp, t_num_streams := 1,
        t_json_output := 1\<rparr>,
      r_stamp = [], r_out = [], r_json = None\<rparr>"

definition demo_report :: report where
  "demo_report = iperf_json_start demo_test"

lemma normal_0: "normal_double 0"
proof -
  have "is_dbl (of_int 0)" by (rule is_dbl_int) simp
  then show ?thesis by (simp add: normal_double_def)
qed

lemma demo_report_ends:
  "\<exists>r1. iperf_reporter_callback (\<lambda>_. None) demo_report = Some r1 \<and>
     printable CJSON_NESTING_LIMIT (top_object (the (r_json (finish_members r1))))"
proof -
  have "CJSON_NESTING_LIMIT = Suc (Suc (Suc 997))" by (simp add: CJSON_NESTING_LIMIT_def)
  then obtain k where L: "CJSON_NESTING_LIMIT = Suc (Suc (Suc k))" by blast
  have f: "fl 0 = 0" by (simp add: fl_def)
  show ?thesis
    unfolding L
    by (simp add: iperf_reporter_callback_def demo_report_def demo_test_def iperf_json_start_def zero_test_def
        iperf_print_intermediate_def keeps_interval_def iperf_print_results_def summary_header_def pass_modes_def
        summary_pass_def pass_retransmits_def summary_times_def summary_sums_def tcp_like_def zero_summary_def
        summary_tcp_def summary_item_def iperf_json_printf_def json_arg_def summary_ending_def json_ending_def
        congestions_def cpu_args_def add_end_def upd_json_def finish_members_def top_object_def start_object_def
        normal_0 Let_def size_arg_def reverse_channel_def bandwidth_of_def dbl_of_int_def dmul_def f to_int64_def)
qed

lemma json_output_is_one_document_witness:
  "\<exists>r1 s r2. iperf_reporter_callback (\<lambda>_. None) demo_report = Some r1 \<and> iperf_json_finish r1 = (0, r2) \<and>
     r_out r2 = s @ NL"
proof -
  obtain r1 where r1: "iperf_reporter_callback (\<lambda>_. None) demo_report = Some r1"
    "printable CJSON_NESTING_LIMIT (top_object (the (r_json (finish_members r1))))"
    using demo_report_ends by blast
  have "intervals_known demo_report"
    by (simp add: demo_report_def demo_test_def intervals_known_def iperf_json_start_def zero_test_def)
  then have run: "reporting (\<lambda>_. None) demo_test r1"
    using reporting.reports[OF reporting.begins[of _ demo_test]] r1(1) unfolding demo_report_def by blast
  have d: "c_true (t_json_output (r_test demo_test))" "\<not> c_true (t_json_stream (r_test demo_test))"
    "\<not> c_true (t_verbose (r_test demo_test))" "r_out demo_test = []"
    by (simp_all add: demo_test_def zero_test_def)
  from json_output_is_one_document[OF run d(1-3) r1(2)] r1(1) d(4) show ?thesis by auto
qed

section \<open>The transcript of a server\<close>

definition transcript :: "report \<Rightarrow> report \<Rightarrow> bool" where
  "transcript r r' \<longleftrightarrow>
     t_role (r_test r') = t_role (r_test r) \<and> t_get_server_output (r_test r') = t_get_server_output (r_test r) \<and>
     t_json_stream (r_test r') = t_json_stream (r_test r) \<and>
     (t_role (r_test r) = CHR ''s'' \<and> c_true (t_get_server_output (r_test r)) \<and> \<not> c_true (t_json_stream (r_test r)) \<longrightarrow>
        (\<exists>ls. t_server_output_list (r_test r') = t_server_output_list (r_test r) @ ls \<and>
              r_out r' = r_out r @ concat ls))"

interpretation told: output_contract transcript
proof
  show "transcript r r" for r by (simp add: transcript_def)
  show "transcript r (print_text s r)" for r s
    by (auto simp: transcript_def print_text_def put_def Let_def intro: exI[of _ "[take 1023 (timestamp r @ s)]"])
  show "transcript r (r\<lparr>r_test := t\<rparr>)"
    if "same_mode r (r\<lparr>r_test := t\<rparr>)" "t_server_output_list t = t_server_output_list (r_test r)" for r t
    using that by (auto simp: transcript_def same_mode_def mode_of_def)
  show "transcript a c" if ab: "transcript a b" and bc: "transcript b c" for a b c
  proof -
    have "\<exists>ls. t_server_output_list (r_test c) = t_server_output_list (r_test a) @ ls \<and> r_out c = r_out a @ concat ls"
      if s: "t_role (r_test a) = CHR ''s''" "c_true (t_get_server_output (r_test a))" "\<not> c_true (t_json_stream (r_test a))"
    proof -
      obtain ls where "t_server_output_list (r_test b) = t_server_output_list (r_test a) @ ls"
        "r_out b = r_out a @ concat ls" using ab s by (auto simp: transcript_def)
      moreover obtain ms where "t_server_output_list (r_test c) = t_server_output_list (r_test b) @ ms"
        "r_out c = r_out b @ concat ms" using ab bc s by (auto simp: transcript_def)
      ultimately show ?thesis by (intro exI[of _ "ls @ ms"]) simp
    qed
    then show ?thesis using ab bc by (simp add: transcript_def)
  qed
qed (auto simp: transcript_def upd_json_def put_def)

text \<open>The text of a server among its results, as the client takes it.\<close>

lemma output_names:
  "list_all (\<lambda>k. \<not> strcaseeq ''server_output_json'' k \<and> \<not> strcaseeq ''server_output_text'' k)
     [''cpu_util_total'', ''cpu_util_user'', ''cpu_util_system'', ''sender_has_retransmits'', ''congestion_used'',
      ''streams'']"
  "\<not> strcaseeq ''server_output_json'' ''server_output_text''" "strcaseeq ''server_output_text'' ''server_output_text''"
  by code_simp+

lemma server_text_taken:
  assumes "t_role s = CHR ''s''" "c_true (t_get_server_output s)" "\<not> c_true (t_json_output s)"
    and "t_role c = CHR ''c''" "c_true (t_get_server_output c)"
  shows "fst (take_server_output (results_json None s) c) =
    c\<lparr>t_server_output_text := Some (concat (t_server_output_list s))\<rparr>"
proof -
  obtain a b d where u: "t_cpu_util s = (a, b, d)" by (cases "t_cpu_util s")
  have "find_item ''server_output_json'' (results_members None s) = None"
    "find_item ''server_output_text'' (remove_item ''server_output_json'' (results_members None s)) =
     Some (J_String (concat (t_server_output_list s)))"
    using assms(1-3) output_names
    by (auto simp: results_members_def u server_output_members_def dbl_member_def num_member_def str_member_def
        split: option.splits)
  then show ?thesis
    using assms(4,5) by (simp add: take_server_output_def results_json_def iperf_cJSON_GetObjectItemType_def)
qed

text \<open>C18: A client that asks for the server's output gets what the server has printed: the text the
  server's reports write is, line by line, added to the list that goes into its results, and the client
  takes the whole list from them as text.\<close>

theorem server_output_reaches_client:
  assumes "iperf_reporter_callback file_size r = Some r1" "intervals_known r"
    and "t_role (r_test r) = CHR ''s''" "c_true (t_get_server_output (r_test r))"
    and "\<not> c_true (t_json_output (r_test r))" "\<not> c_true (t_json_stream (r_test r))"
    and "t_role c = CHR ''c''" "c_true (t_get_server_output c)"
  shows "\<exists>printed. r_out r1 = r_out r @ printed \<and>
    fst (take_server_output (results_json None (r_test r1)) c) =
      c\<lparr>t_server_output_text := Some (concat (t_server_output_list (r_test r)) @ printed)\<rparr>"
proof -
  have ok: "transcript r r1" "mode_of (r_test r1) = mode_of (r_test r)"
    using told.ok_reporter[OF assms(1,2)] assms(5) by (simp_all add: told.ok_def same_mode_def)
  then obtain ls where ls: "t_server_output_list (r_test r1) = t_server_output_list (r_test r) @ ls"
    "r_out r1 = r_out r @ concat ls" using assms(3,4,6) by (auto simp: transcript_def)
  show ?thesis
    using server_text_taken[of "r_test r1" c] assms(3-8) mode_fields[OF ok(2)] ls by auto
qed

text \<open>A server that prints the headers of the summary of a test without streams.\<close>

definition demo_server :: report where
  "demo_server =
     \<lparr>r_test = zero_test\<lparr>t_role := CHR ''s'', t_state := TEST_END, t_protocol := Ptcp, t_num_streams := 1,
        t_get_server_output := 1\<rparr>,
      r_stamp = [], r_out = [], r_json = None\<rparr>"

lemma printf_s: "c_printf ''%s'' [A_str h] = Some h"
proof -
  have "directive ''s'' = Some (False, 0, None, CHR ''s'', [])" by code_simp
  then show ?thesis by (simp add: c_printf.simps convert_def pad_def pad_left_def)
qed

lemma server_output_reaches_client_witness:
  "\<exists>r1 printed. iperf_reporter_callback (\<lambda>_. None) demo_server = Some r1 \<and> r_out r1 = printed \<and>
     t_server_output_text (fst (take_server_output (results_json None (r_test r1))
       (zero_test\<lparr>t_role := CHR ''c'', t_get_server_output := 1\<rparr>))) = Some printed"
proof -
  have "\<exists>r1. iperf_reporter_callback (\<lambda>_. None) demo_server = Some r1"
    by (simp add: iperf_reporter_callback_def demo_server_def zero_test_def iperf_print_intermediate_def
        keeps_interval_def iperf_print_results_def summary_header_def iperf_printf_def printf_s print_text_def
        printf_if_def put_def timestamp_def pass_modes_def summary_pass_def pass_retransmits_def summary_times_def
        summary_sums_def summary_ending_def text_ending_def server_output_def congestions_def Let_def)
  then obtain r1 where r1: "iperf_reporter_callback (\<lambda>_. None) demo_server = Some r1" by blast
  have d: "intervals_known demo_server" "t_role (r_test demo_server) = CHR ''s''"
    "c_true (t_get_server_output (r_test demo_server))" "\<not> c_true (t_json_output (r_test demo_server))"
    "\<not> c_true (t_json_stream (r_test demo_server))" "r_out demo_server = []"
    "t_server_output_list (r_test demo_server) = []"
    by (simp_all add: demo_server_def intervals_known_def zero_test_def)
  let ?c = "zero_test\<lparr>t_role := CHR ''c'', t_get_server_output := 1\<rparr>"
  have c: "t_role ?c = CHR ''c''" "c_true (t_get_server_output ?c)" by (simp_all add: zero_test_def)
  from server_output_reaches_client[OF r1 d(1-5) c] r1 d(6,7) show ?thesis by auto
qed

section \<open>The sums of an interval\<close>

text \<open>A number in a JSON object.\<close>

definition num :: "string \<Rightarrow> cJSON \<Rightarrow> dbl option" where
  "num name j = (case cJSON_GetObjectItem j name of Some (J_Number d) \<Rightarrow> Some d | _ \<Rightarrow> None)"

definition interval_of :: "iperf_stream \<Rightarrow> iperf_interval_results" where
  "interval_of sp = the (last_interval (sp_result sp))"

definition size_number :: "u64 \<Rightarrow> dbl" where
  "size_number w = dbl_of_int (to_int64 (uint w))"

lemma bytes_names:
  "list_all (\<lambda>k. \<not> strcaseeq ''bytes'' k) [''socket'', ''start'', ''end'', ''seconds'']" "strcaseeq ''bytes'' ''bytes''"
  by code_simp+

lemma entry_bytes:
  "\<exists>j. iperf_json_printf (fst (fst (interval_entry t sp irp))) (snd (fst (interval_entry t sp irp))) = Some j \<and>
     num ''bytes'' j = Some (size_number (irp_bytes_transferred irp))"
  using bytes_names
  by (simp add: interval_entry_def Let_def iperf_json_printf_def json_arg_def num_def size_arg_def size_number_def)

lemma sum_entry_bytes:
  assumes "interval_sum_entry t m sp irp s = Some e"
  shows "\<exists>j. iperf_json_printf (fst (fst e)) (snd (fst e)) = Some j \<and> num ''bytes'' j = Some (size_number (is_bytes s))"
  using assms bytes_names
  by (auto simp: interval_sum_entry_def Let_def iperf_json_printf_def json_arg_def num_def size_arg_def
      size_number_def split: if_splits)

lemma json_item:
  assumes "c_true (t_json_output (r_test r))" "iperf_json_printf (fst (fst e)) (snd (fst e)) = Some j"
  shows "report_item e (r, items) = Some (r, items @ [j])"
  using assms by (cases e) (auto simp: report_item_def)

lemma json_interval_results:
  assumes "c_true (t_json_output (r_test r))" "last_interval (sp_result sp) = Some irp"
  obtains j where "print_interval_results is_first sp (r, items) = Some (r, items @ [j])"
    "num ''bytes'' j = Some (size_number (irp_bytes_transferred irp))"
proof -
  obtain j where j: "iperf_json_printf (fst (fst (interval_entry (r_test r) sp irp)))
      (snd (fst (interval_entry (r_test r) sp irp))) = Some j" "num ''bytes'' j = Some (size_number (irp_bytes_transferred irp))"
    using entry_bytes by blast
  have "print_interval_results is_first sp (r, items) = Some (r, items @ [j])"
    using assms json_item[OF assms(1) j(1)] by (simp add: print_interval_results_def printf_if_def Let_def split: option.splits)
  with j(2) show thesis by (rule that[rotated])
qed

text \<open>The streams of a pass in JSON mode: one object each, and the sum of their bytes.\<close>

lemma json_interval_streams:
  assumes "interval_streams is_first m sps (st, s) = Some (st', s')" "c_true (t_json_output (r_test (iv_report st)))"
    and "\<forall>sp\<in>set sps. sp_sender sp = m \<and> last_interval (sp_result sp) \<noteq> None" "\<not> iv_stop st"
  shows "\<exists>items. st' = st\<lparr>iv_items := iv_items st @ items\<rparr> \<and>
    map (num ''bytes'') items = map (\<lambda>sp. Some (size_number (irp_bytes_transferred (interval_of sp)))) sps \<and>
    is_bytes s' = is_bytes s + sum_list (map (\<lambda>sp. irp_bytes_transferred (interval_of sp)) sps)"
  using assms
proof (induction sps arbitrary: is_first st s)
  case Nil
  then show ?case by (intro exI[of _ "[]"]) simp
next
  case (Cons sp sps)
  obtain irp where i: "last_interval (sp_result sp) = Some irp" using Cons.prems(3) by auto
  obtain j where j: "print_interval_results is_first sp (iv_report st, iv_items st) = Some (iv_report st, iv_items st @ [j])"
    "num ''bytes'' j = Some (size_number (irp_bytes_transferred irp))"
    by (rule json_interval_results[OF Cons.prems(2) i])
  let ?st = "st\<lparr>iv_items := iv_items st @ [j]\<rparr>" and ?s = "add_interval (r_test (iv_report st)) irp s"
  have "interval_stream is_first m sp (st, s) = Some (?st, ?s)"
    using Cons.prems(3,4) j(1) i by (simp add: interval_stream_def)
  then have r: "interval_streams False m sps (?st, ?s) = Some (st', s')" using Cons.prems(1) by simp
  obtain items where it: "st' = ?st\<lparr>iv_items := iv_items ?st @ items\<rparr>"
    "map (num ''bytes'') items = map (\<lambda>sp. Some (size_number (irp_bytes_transferred (interval_of sp)))) sps"
    "is_bytes s' = is_bytes ?s + sum_list (map (\<lambda>sp. irp_bytes_transferred (interval_of sp)) sps)"
    using Cons.IH[OF r] Cons.prems(2-4) by auto
  have b: "is_bytes ?s = is_bytes s + irp_bytes_transferred irp" by (simp add: add_interval_def Let_def)
  have o: "interval_of sp = irp" by (simp add: interval_of_def i)
  show ?case
    by (rule exI[of _ "j # items"]) (simp add: it b o j(2) add.assoc)
qed

lemma uint_sum_list: "(\<Sum>x\<leftarrow>xs. uint (f x :: u64)) < 2 ^ 64 \<Longrightarrow> uint (sum_list (map f xs)) = (\<Sum>x\<leftarrow>xs. uint (f x))"
proof (induction xs)
  case (Cons x xs)
  have p: "uint (f x) + (\<Sum>x\<leftarrow>xs. uint (f x)) < 2 ^ 64" using Cons.prems by simp
  have n: "0 \<le> uint (f x)" by (rule uint_ge_0)
  have "(\<Sum>x\<leftarrow>xs. uint (f x)) < 2 ^ 64" using p n by linarith
  then have ih: "uint (sum_list (map f xs)) = (\<Sum>x\<leftarrow>xs. uint (f x))" by (rule Cons.IH)
  have "uint (f x) + uint (sum_list (map f xs)) < 2 ^ LENGTH(64)" unfolding ih using p by simp
  then have "uint (f x + sum_list (map f xs)) = uint (f x) + uint (sum_list (map f xs))"
    by (rule uint_add_lem[THEN iffD1])
  then show ?case by (simp add: ih)
qed simp

lemma sum_list_of_int: "(\<Sum>x\<leftarrow>xs. of_int (f x) :: rat) = of_int (\<Sum>x\<leftarrow>xs. f x)"
  by (induction xs) simp_all

lemma size_number_small:
  assumes "uint w \<le> 2 ^ 53"
  shows "size_number w = of_int (uint w)"
proof -
  have n: "0 \<le> uint w" by (rule uint_ge_0)
  have a: "- (2 ^ 63) \<le> uint w" by (rule order_trans[OF _ n]) simp
  have b: "uint w < 2 ^ 63" by (rule le_less_trans[OF assms]) simp
  have c: "\<bar>uint w\<bar> \<le> 2 ^ 53" using assms n by linarith
  show ?thesis by (simp only: size_number_def to_int64_id[OF a b] dbl_of_int_exact[OF c])
qed

lemma map_eq_nth: "map f xs = map g ys \<Longrightarrow> i < length ys \<Longrightarrow> f (xs ! i) = g (ys ! i)"
  by (metis length_map nth_map)

text \<open>C19: The object of an interval in a JSON report of one direction has one element per stream, in the
  order of the streams, with the bytes of the stream in the interval, and a member \<open>sum\<close> whose bytes are
  the sum of these numbers, as long as it fits a double.\<close>

theorem interval_object_sums:
  assumes "iperf_print_intermediate r = Some r1" "r_json r = Some j" "intervals_known r"
    and "keeps_interval (r_test r)" "c_true (t_json_output (r_test r))" "\<not> discard_json (r_test r)"
    and "t_mode (r_test r) \<noteq> BIDIRECTIONAL"
    and "\<forall>sp\<in>set (t_streams (r_test r)). sp_sender sp = (if t_mode (r_test r) = SENDER then 1 else 0)"
    and "(\<Sum>sp\<leftarrow>t_streams (r_test r). uint (irp_bytes_transferred (interval_of sp))) \<le> 2 ^ 53"
  shows "\<exists>items total. j_intervals (the (r_json r1)) =
      j_intervals j @ [J_Object [(''streams'', J_Array items), (''sum'', total)]] \<and>
    map (num ''bytes'') items =
      map (\<lambda>sp. Some (of_int (uint (irp_bytes_transferred (interval_of sp))))) (t_streams (r_test r)) \<and>
    num ''bytes'' total = Some (\<Sum>item\<leftarrow>items. the (num ''bytes'' item))"
proof -
  define t m where "t = r_test r" and "m = (if t_mode (r_test r) = SENDER then 1 else (0 :: int))"
  let ?sps = "t_streams t" and ?b = "\<lambda>sp. irp_bytes_transferred (interval_of sp)"
  let ?st0 = "\<lparr>iv_report = r, iv_items = [], iv_sums = [], iv_stop = False\<rparr>"
  have m: "pass_modes t = [m]" using assms(7) by (cases "t_mode t") (simp_all add: pass_modes_def m_def t_def)
  obtain st where p: "interval_pass m ?st0 = Some st" and r1: "r1 = (let r1 = upd_json (\<lambda>j. j\<lparr>j_intervals :=
      j_intervals j @ [interval_object st]\<rparr>) (iv_report st) in if \<not> iv_stop st \<and> c_true (t_json_stream t)
      then JSONStream_Output ''interval'' (Some (interval_object st)) r1 else r1)"
    using assms(1,4-6) unfolding iperf_print_intermediate_def Let_def t_def[symmetric] m
    by (auto elim!: bindE)
  obtain st1 s where y: "interval_streams True m ?sps (?st0, no_sum) = Some (st1, s)" "interval_total m (st1, s) = Some st"
    using p unfolding interval_pass_def t_def by (auto elim!: bindE)
  have "\<forall>sp\<in>set ?sps. sp_sender sp = m \<and> last_interval (sp_result sp) \<noteq> None"
    using assms(3,8) unfolding intervals_known_def m_def t_def by blast
  then obtain items where it: "st1 = ?st0\<lparr>iv_items := items\<rparr>"
    "map (num ''bytes'') items = map (\<lambda>sp. Some (size_number (?b sp))) ?sps"
    "is_bytes s = sum_list (map ?b ?sps)"
    using json_interval_streams[OF y(1)] assms(5) by (auto simp: no_sum_def)
  obtain sp sps irp e where e: "?sps = sp # sps" "last_interval (sp_result sp) = Some irp"
    "interval_sum_entry t m sp irp s = Some e"
    and st: "report_item e (r, []) = Some (iv_report st, map snd (iv_sums st))"
      "map fst (iv_sums st) = map (\<lambda>_. ''sum'') (iv_sums st)" "iv_items st = items" "\<not> iv_stop st"
  proof -
    have ne: "?sps \<noteq> []" using assms(4) by (auto simp: keeps_interval_def t_def)
    then obtain sp sps where sp: "?sps = sp # sps" by (cases ?sps) auto
    have nr: "\<not> reverse_channel t m" using assms(7) by (simp add: reverse_channel_def t_def)
    obtain irp e rr its where x: "last_interval (sp_result sp) = Some irp" "interval_sum_entry t m sp irp s = Some e"
      "report_item e (r, []) = Some (rr, its)"
      "st = st1\<lparr>iv_report := rr, iv_sums := map (Pair ''sum'') its\<rparr>"
      using y(2) sp nr assms(5) unfolding interval_total_def it(1) Let_def
      by (auto simp: t_def elim!: bindE)
    show thesis
      using that[OF sp x(1,2)] x(3,4) by (simp add: it(1) o_def)
  qed
  obtain total where tot: "iperf_json_printf (fst (fst e)) (snd (fst e)) = Some total"
    "num ''bytes'' total = Some (size_number (is_bytes s))" using sum_entry_bytes[OF e(3)] by blast
  have "report_item e (r, []) = Some (r, [total])" using json_item[OF assms(5) tot(1), of "[]"] by simp
  with st have ir: "iv_report st = r" "iv_sums st = [(''sum'', total)]"
    by (auto simp: map_eq_Cons_conv prod_eq_iff)
  have obj: "interval_object st = J_Object [(''streams'', J_Array items), (''sum'', total)]"
    by (simp add: interval_object_def st(3) ir(2))
  have j1: "r_json (JSONStream_Output n ob q) = r_json q" for n ob q
    by (simp add: JSONStream_Output_def put_def split: option.split)
  have "j_intervals (the (r_json r1)) = j_intervals j @ [interval_object st]"
    unfolding r1 Let_def using assms(2) by (simp add: j1 upd_json_def ir(1))
  moreover have small: "uint (?b x) \<le> 2 ^ 53" if "x \<in> set ?sps" for x
  proof -
    have "uint (?b x) \<le> (\<Sum>sp\<leftarrow>?sps. uint (?b sp))" using that by (intro member_le_sum_list) auto
    with assms(9) show ?thesis by (simp add: t_def)
  qed
  then have its: "map (num ''bytes'') items = map (\<lambda>sp. Some (of_int (uint (?b sp)))) ?sps"
    unfolding it(2) by (simp add: size_number_small)
  moreover have "num ''bytes'' total = Some (\<Sum>item\<leftarrow>items. the (num ''bytes'' item))"
  proof -
    have u: "uint (is_bytes s) = (\<Sum>sp\<leftarrow>?sps. uint (?b sp))"
      unfolding it(3) by (rule uint_sum_list) (use assms(9) in \<open>simp add: t_def\<close>)
    have "map (\<lambda>item. the (num ''bytes'' item)) items = map the (map (num ''bytes'') items)" by simp
    also have "\<dots> = map (\<lambda>sp. of_int (uint (?b sp))) ?sps" unfolding its by simp
    finally have "(\<Sum>item\<leftarrow>items. the (num ''bytes'' item)) = of_int (\<Sum>sp\<leftarrow>?sps. uint (?b sp))"
      by (simp only: sum_list_of_int)
    then show ?thesis using tot(2) size_number_small[of "is_bytes s"] u assms(9) by (simp add: t_def)
  qed
  ultimately show ?thesis unfolding obj t_def by blast
qed

text \<open>A receiver in JSON mode whose only stream got 5 bytes in an interval of one second.\<close>

definition demo_receives :: report where
  "demo_receives =
     iperf_json_start
       \<lparr>r_test = zero_test\<lparr>t_role := CHR ''s'', t_mode := RECEIVER, t_protocol := Ptcp, t_num_streams := 1,
          t_json_output := 1, t_streams := [zero_stream\<lparr>sp_result := zero_result\<lparr>rp_interval_results :=
            [zero_interval\<lparr>irp_bytes_transferred := 5, irp_interval_duration := 1\<rparr>]\<rparr>\<rparr>]\<rparr>,
        r_stamp = [], r_out = [], r_json = None\<rparr>"

lemma demo_receives_reports: "\<exists>r1. iperf_print_intermediate demo_receives = Some r1"
  by (simp add: demo_receives_def iperf_json_start_def zero_test_def zero_stream_def zero_result_def
      zero_interval_def iperf_print_intermediate_def keeps_interval_def last_interval_def pass_modes_def
      interval_pass_def interval_stream_def print_interval_results_def printf_if_def report_item_def
      interval_entry_def tcp_like_def interval_total_def interval_sum_entry_def iperf_json_printf_def
      json_arg_def size_arg_def add_interval_def Let_def split: option.split)

lemma interval_object_sums_witness:
  "\<exists>r1 j items total. iperf_print_intermediate demo_receives = Some r1 \<and> r_json demo_receives = Some j \<and>
     j_intervals (the (r_json r1)) = j_intervals j @ [J_Object [(''streams'', J_Array items), (''sum'', total)]] \<and>
     map (num ''bytes'') items = [Some 5] \<and> num ''bytes'' total = Some 5"
proof -
  obtain r1 where r1: "iperf_print_intermediate demo_receives = Some r1" using demo_receives_reports by blast
  obtain j where j: "r_json demo_receives = Some j" by (simp add: demo_receives_def iperf_json_start_def)
  have d: "intervals_known demo_receives" "keeps_interval (r_test demo_receives)"
    "c_true (t_json_output (r_test demo_receives))" "\<not> discard_json (r_test demo_receives)"
    "t_mode (r_test demo_receives) \<noteq> BIDIRECTIONAL"
    "\<forall>sp\<in>set (t_streams (r_test demo_receives)).
       sp_sender sp = (if t_mode (r_test demo_receives) = SENDER then 1 else 0)"
    "(\<Sum>sp\<leftarrow>t_streams (r_test demo_receives). uint (irp_bytes_transferred (interval_of sp))) \<le> 2 ^ 53"
    "map (\<lambda>sp. Some (of_int (uint (irp_bytes_transferred (interval_of sp))) :: rat))
       (t_streams (r_test demo_receives)) = [Some 5]"
    by (simp_all add: demo_receives_def intervals_known_def iperf_json_start_def zero_test_def zero_stream_def
        zero_result_def last_interval_def keeps_interval_def discard_json_def interval_of_def)
  show ?thesis
    using interval_object_sums[OF r1 j d(1-7)] unfolding d(8) using r1 j by (auto simp: map_eq_Cons_conv)
qed

end
