(* ===== verification/Spec2Isabelle.thy ===== *)
theory Spec2Isabelle
  imports Timers Dscp Units Errors Params Net_IO Udp Diskfile Tcp_Conn Stats Results Refine_Server
    Wire Args_Ok Jni Report_Props
begin

text \<open>
  The network tester of an Android app: iperf 3.19, compiled as a native library
  (\<open>cpp/iperf/iperf-3.19\<close>), and the bridge through which the Java code calls it (\<open>cpp/iperf/iperf_jni.c\<close>).
  A test has two ends. The client and the server talk over a control connection: a cookie, the
  parameters as JSON text, one-byte states, the results as JSON text. The data goes over streams of their
  own (TCP or UDP), each with a worker thread; timers end the omitted part and the test and collect
  interval results meanwhile. The development models the code as the Android configuration compiles it
  (\<open>iperf_config_android.h\<close>: no SSL, SCTP, MPTCP, \<open>sendfile\<close>, \<open>MSG_TRUNC\<close>, flow labels, keep alive, user
  time-outs or device binding).

  Theories, from the bottom; each names its C file at its head.
    \<^item> Prelude: integer types and their conversions, the C string functions and \<open>strtol\<close>. Floats: the
      type \<open>double\<close> as the rationals it denotes, every operation rounded to the nearest, ties to even.
    \<^item> Iperf_Time (\<open>iperf_time.c\<close>), Timers (\<open>timer.c\<close>, the linked list on a store of cells, with a locale for
      a sorted queue it is shown to implement), Dscp (\<open>dscp.c\<close>), Units (\<open>units.c\<close>, \<open>strtod\<close>), Errors
      (\<open>iperf_error.c\<close>), Util (\<open>iperf_util.c\<close>: cookies, payload, load of the processor).
    \<^item> Json, Json_Number, Json_Text, Json_Roundtrip (\<open>cjson.c\<close>): trees and their accessors; printing and
      parsing of numbers and of text.
    \<^item> Test_State (\<open>iperf.h\<close>): the structures \<open>iperf_test\<close>, \<open>iperf_settings\<close>, \<open>iperf_stream\<close> as records,
      \<open>iperf_defaults\<close>, \<open>iperf_reset_test\<close> and the setters. Args, Args_Ok: \<open>iperf_parse_arguments\<close>.
    \<^item> Net_IO (\<open>net.c\<close>): counted reads and writes over system calls that may do less than they are asked,
      JSON framing, opening sockets; locales for a stream that is written, read, and read with a time-out.
      Params: the parameter exchange. Wire: parameters, JSON text and framing together.
    \<^item> Udp (\<open>iperf_udp.c\<close>), Throttle, Streams (\<open>iperf_tcp.c\<close>, the workers and the burst loop of
      \<open>iperf_api.c\<close>), Diskfile (\<open>-F\<close>), Tcp_Conn (connections of \<open>iperf_tcp.c\<close>; what the
      code reads of \<open>tcp_info.c\<close> is in Test_State).
    \<^item> Stats (\<open>iperf_stats_callback\<close>, \<open>iperf_check_total_rate\<close>), Results (the exchange of the results).
    \<^item> Endpoint (what both ends do on the control connection), Client (\<open>iperf_client_api.c\<close>), Server
      (\<open>iperf_server_api.c\<close>): every function, the main loops as functions of the returns of \<open>select\<close>.
    \<^item> Printf (\<open>printf\<close>, \<open>iperf_json_printf\<close>, the formats of \<open>iperf_locale.c\<close>), Report (\<open>iperf_printf\<close>, the JSON
      report from \<open>iperf_json_start\<close> to \<open>iperf_json_finish\<close>, the events of \<open>--json-stream\<close>, the callbacks for
      connections), Report_Interval (\<open>iperf_print_intermediate\<close>), Report_Summary (\<open>iperf_print_results\<close>).
      Report_Output: a locale for a relation that every step of a report keeps; Report_Props interprets
      it twice, for JSON mode and for the transcript of a server.
    \<^item> Control: the two ends as one abstract machine with a queue in each direction. Refine and
      Refine_Server: the loops of the code are runs of that machine.
    \<^item> Jni (\<open>iperf_jni.c\<close>): running and stopping a test from Java.

  How the code is read. A C structure is a record; an object other objects point to is a cell of a store
  (timers) or is found by its socket (streams). A function that changes state takes and returns it; its
  result code is an integer as in C, with \<open>i_errno\<close> a field of the test. Integers have the width of the
  C type where they wrap (\<open>u64\<close> counters, packet numbers, times), and are \<open>int\<close> with explicit
  conversions where C computes in \<open>int\<close>. The operating system is an argument: functions for \<open>read\<close>, \<open>write\<close>,
  \<open>select\<close> and the clock on a state of their own, or a script of results of system calls. \<open>None\<close>, or the
  outcome \<open>Undefined\<close>, stands for behaviour the C standard leaves open and for values outside the model
  (infinities and NaN). Allocation succeeds except where the code handles its failure.

  What is shown.
    \<^item> The exchanges: parameters and results arrive as they were sent (options the reset forgets aside), through JSON text, framing and
      partial reads and writes; JSON text written by the program is read back, and never overruns a buffer.
    \<^item> The accounting: totals of a stream are what the workers counted, intervals add up to the totals, UDP
      sequence numbers account for losses and reordering, the average rate is that of a sliding window;
      throttling and bursts keep their limits.
    \<^item> The control protocol: no deadlock, termination within 18 steps, the ends stay in step, and client
      and server code implement it for all results of system calls and all orders of events.
    \<^item> The utilities: the timer queue is sorted, complete and fires what is due, and its loops end; units
      are exact or rejected; the texts of errors are whole and, two apart, different; sockets are not
      leaked; a worker sends a file whole.
    \<^item> The entries: a command line that is accepted gives a well-formed test; a call of the bridge
      reports in a fixed order, with the error of its cause; a stop ends the client.
    \<^item> The reports: in JSON, not verbose, a test writes one document that reads back as its report, its
      interval objects add up, and the text of a server's reports is what its client gets.
    \<^item> Flaws the code has are theorems too where they touch a property: the race of reporting and counting,
      options that leak into the next test, the cells written beyond the array, files garbled by short writes.

  Bounds and fuel. Loops of the code over pointers and over the clock are \<open>partial_function (option)\<close>, and that
  they end is proved: \<open>tmr_run\<close> from the invariant of the queue (Timers), the loop of a worker with a
  file by the length of the file (Diskfile). The main loops end with the list of events they are
  given; \<open>Waiting\<close> is the state in which they would wait for another one. The nesting of JSON text is bounded by
  the parser's own limit of 1000.

  Not modelled: the command line program with its signal handlers and daemon (\<open>main.c\<close>), which the app
  does not use; what the configuration compiles out (\<open>iperf_auth.c\<close>, \<open>iperf_sctp.c\<close>); the usage texts of
  \<open>iperf_locale.c\<close>; the thread shim (\<open>iperf_pthread.c\<close>); the printer's buffer growth; pid files, system
  information and setting the processor affinity. Reports and main loops are modelled apart: the loops
  leave out the calls of the report functions, and the reports what the workers do meanwhile. Threads
  other than the workers' counting are not interleaved below the granularity of a handler.
\<close>

end
